(* ===== verification/Ledger.thy ===== *)
theory Ledger
  imports Prelude
begin

text \<open>
  The contract of guarded inventory: a table whose rows are claimed and released by single
  guarded \<open>UPDATE\<close> statements (ADR 0002). The locale fixes a row's key, its guarded claim and
  release, and the relation \<open>held\<close> between a row and the multiset of claims it accounts for.
  The laws are those of one row; the lemmas lift them to the table, to a sequence of claims
  and to a sequence of releases. \<open>Inventory\<close> interprets it on the seat masks and on the pool
  counters.
\<close>

definition ledger_ok :: "('r \<Rightarrow> 'k) \<Rightarrow> ('r \<Rightarrow> 'c multiset \<Rightarrow> bool) \<Rightarrow> 'r list \<Rightarrow> ('k \<Rightarrow> 'c multiset) \<Rightarrow> bool"
  where
  "ledger_ok key held rows M \<longleftrightarrow> distinct (map key rows) \<and> (\<forall>r\<in>set rows. held r (M (key r)))"

lemma guarded_update_keys:
  "(\<And>r r'. f r = Some r' \<Longrightarrow> key r' = key r) \<Longrightarrow>
   map key (fst (guarded_update P f rows)) = map key rows"
  by (auto simp: guarded_update_def split: option.splits)

lemma guarded_update_set:
  "r' \<in> set (fst (guarded_update P f rows)) \<Longrightarrow>
   \<exists>r\<in>set rows. (P r \<and> f r = Some r') \<or> ((\<not> P r \<or> f r = None) \<and> r' = r)"
  by (auto simp: guarded_update_def split: option.splits if_splits)

lemma guarded_update_none:
  "snd (guarded_update P f rows) = 0 \<Longrightarrow> fst (guarded_update P f rows) = rows"
  by (auto simp: guarded_update_def count_where_zero intro!: map_idI split: option.splits)

text \<open>Under a unique key at most one row is affected, and it is the row of that key.\<close>

lemma guarded_update_one:
  assumes "distinct (map key rows)"
  shows "snd (guarded_update (\<lambda>r. key r = k) f rows) \<le> 1"
  using assms
proof (induction rows)
  case Nil
  then show ?case by (simp add: guarded_update_def count_where_def)
next
  case (Cons r rows)
  show ?case
  proof (cases "key r = k")
    case True
    with Cons.prems have "\<forall>r'\<in>set rows. key r' \<noteq> k" by (auto simp: image_iff)
    then show ?thesis by (simp add: guarded_update_def count_where_def filter_empty_conv)
  next
    case False
    with Cons show ?thesis by (simp add: guarded_update_def count_where_def)
  qed
qed

lemma guarded_update_hit:
  assumes "distinct (map key rows)" and "r \<in> set rows" and "key r = k"
  shows "snd (guarded_update (\<lambda>r. key r = k) f rows) = (if f r = None then 0 else 1)"
    and "f r = Some r' \<Longrightarrow> r' \<in> set (fst (guarded_update (\<lambda>r. key r = k) f rows))"
proof -
  have "filter (\<lambda>x. key x = k \<and> f x \<noteq> None) rows = filter (\<lambda>x. f x \<noteq> None) (filter (\<lambda>x. key x = k) rows)"
    by (simp add: conj_commute)
  also have "filter (\<lambda>x. key x = k) rows = [r]"
    using filter_distinct_key [OF assms(1,2)] assms(3) by simp
  finally show "snd (guarded_update (\<lambda>r. key r = k) f rows) = (if f r = None then 0 else 1)"
    by (simp add: guarded_update_def count_where_def)
  show "f r = Some r' \<Longrightarrow> r' \<in> set (fst (guarded_update (\<lambda>r. key r = k) f rows))"
    using assms(2,3) by (force simp: guarded_update_def image_iff)
qed

locale occupancy_ledger =
  fixes key :: "'r \<Rightarrow> 'k"
    and claim :: "'c \<Rightarrow> 'r \<Rightarrow> 'r option"
    and release :: "'c \<Rightarrow> 'r \<Rightarrow> 'r option"
    and held :: "'r \<Rightarrow> 'c multiset \<Rightarrow> bool"
    and valid :: "'c \<Rightarrow> bool"
  assumes key_claim: "claim c r = Some r' \<Longrightarrow> key r' = key r"
    and key_release: "release c r = Some r' \<Longrightarrow> key r' = key r"
    and held_claim: "valid c \<Longrightarrow> held r M \<Longrightarrow> claim c r = Some r' \<Longrightarrow> held r' (add_mset c M)"
    and held_release: "held r (add_mset c M) \<Longrightarrow> \<exists>r'. release c r = Some r' \<and> held r' M"
    and held_forget: "held r (add_mset c M) \<Longrightarrow> held r M"
begin

lemma ledger_claim:
  assumes ok: "ledger_ok key held rows M" and v: "valid c"
    and upd: "guarded_update (\<lambda>r. key r = k) (claim c) rows = (rows', 1)"
  shows "ledger_ok key held rows' (M(k := add_mset c (M k)))"
proof -
  have rows': "rows' = fst (guarded_update (\<lambda>r. key r = k) (claim c) rows)"
    by (simp add: upd)
  have dist: "distinct (map key rows)" and held: "\<And>r. r \<in> set rows \<Longrightarrow> held r (M (key r))"
    using ok by (auto simp: ledger_ok_def)
  have one: "snd (guarded_update (\<lambda>r. key r = k) (claim c) rows) = 1" by (simp add: upd)
  have "held r' ((M(k := add_mset c (M k))) (key r'))" if r': "r' \<in> set rows'" for r'
  proof -
    obtain r where r: "r \<in> set rows"
      and alt: "(key r = k \<and> claim c r = Some r') \<or> ((key r \<noteq> k \<or> claim c r = None) \<and> r' = r)"
      using guarded_update_set [OF r' [unfolded rows']] by blast
    show ?thesis
    proof (cases "key r = k")
      case True
      have "(if claim c r = None then 0 else (1::nat)) = 1"
        using guarded_update_hit(1) [OF dist r True, of "claim c"] one by (rule subst)
      then have "claim c r \<noteq> None" by (rule contrapos_pn) simp
      with alt True have c: "claim c r = Some r'" by simp
      show ?thesis
        using held_claim [OF v held [OF r] c] key_claim [OF c] True by simp
    next
      case False
      with alt have "r' = r" by simp
      with False held [OF r] show ?thesis by simp
    qed
  qed
  moreover have "distinct (map key rows')"
    unfolding rows' using dist by (subst guarded_update_keys) (auto dest: key_claim)
  ultimately show ?thesis by (simp add: ledger_ok_def)
qed

text \<open>A claim made outside the accounted ones (a standalone claim) keeps the table sound.\<close>

lemma ledger_forget:
  "ledger_ok key held rows (M(k := add_mset c (M k))) \<Longrightarrow> ledger_ok key held rows M"
  unfolding ledger_ok_def by (metis fun_upd_apply held_forget)

lemma ledger_release:
  assumes ok: "ledger_ok key held rows (M(k := add_mset c (M k)))"
    and ex: "k \<in> key ` set rows"
  shows "\<exists>rows'. guarded_update (\<lambda>r. key r = k) (release c) rows = (rows', 1)
           \<and> ledger_ok key held rows' M \<and> map key rows' = map key rows"
proof -
  define rows' where "rows' = fst (guarded_update (\<lambda>r. key r = k) (release c) rows)"
  have dist: "distinct (map key rows)"
    and held: "\<And>r. r \<in> set rows \<Longrightarrow> held r ((M(k := add_mset c (M k))) (key r))"
    using ok by (auto simp: ledger_ok_def)
  obtain r0 where r0: "r0 \<in> set rows" "key r0 = k" using ex by auto
  obtain r1 where r1: "release c r0 = Some r1"
    using held_release [of r0 c "M k"] held [OF r0(1)] r0(2) by auto
  have one: "snd (guarded_update (\<lambda>r. key r = k) (release c) rows) = 1"
    using guarded_update_hit(1) [OF dist r0] r1 by simp
  have keys: "map key rows' = map key rows"
    unfolding rows'_def by (rule guarded_update_keys) (rule key_release)
  have "held r' (M (key r'))" if r': "r' \<in> set rows'" for r'
  proof -
    obtain r where r: "r \<in> set rows"
      and alt: "(key r = k \<and> release c r = Some r') \<or> ((key r \<noteq> k \<or> release c r = None) \<and> r' = r)"
      using guarded_update_set [OF r' [unfolded rows'_def]] by blast
    show ?thesis
    proof (cases "key r = k")
      case True
      obtain r2 where r2: "release c r = Some r2" "held r2 (M k)"
        using held_release [of r c "M k"] held [OF r] True by auto
      with alt True have "r' = r2" by simp
      with r2 True show ?thesis using key_release [OF r2(1)] by simp
    next
      case False
      with alt have "r' = r" by simp
      with False held [OF r] show ?thesis by simp
    qed
  qed
  with keys dist have "ledger_ok key held rows' M" by (simp add: ledger_ok_def)
  moreover have "guarded_update (\<lambda>r. key r = k) (release c) rows = (rows', 1)"
    using one by (metis prod.collapse rows'_def)
  ultimately show ?thesis using keys by blast
qed

end

section \<open>Undoing a batch of claims\<close>

definition batch :: "('r \<Rightarrow> 'k) \<Rightarrow> ('c \<Rightarrow> 'r \<Rightarrow> 'r option) \<Rightarrow> ('k \<times> 'c) list \<Rightarrow> 'r list \<Rightarrow> 'r list" where
  "batch key f kcs rows = fold (\<lambda>(k, c) rs. fst (guarded_update (\<lambda>r. key r = k) (f c) rs)) kcs rows"

lemma batch_simps [simp]:
  "batch key f [] rows = rows"
  "batch key f ((k, c) # kcs) rows = batch key f kcs (fst (guarded_update (\<lambda>r. key r = k) (f c) rows))"
  by (simp_all add: batch_def)

definition default_to :: "'a \<Rightarrow> 'a option \<Rightarrow> 'a" where
  "default_to x v = (case v of None \<Rightarrow> x | Some y \<Rightarrow> y)"

text \<open>On distinct keys a batch acts on each row by itself.\<close>

lemma batch_pointwise:
  assumes "\<And>c r r'. f c r = Some r' \<Longrightarrow> key r' = key r" and "distinct (map fst kcs)"
  shows "batch key f kcs rows
    = map (\<lambda>r. case map_of kcs (key r) of None \<Rightarrow> r | Some c \<Rightarrow> default_to r (f c r)) rows"
  using assms(2)
proof (induction kcs arbitrary: rows)
  case Nil
  then show ?case by simp
next
  case (Cons kc kcs)
  obtain k c where kc: "kc = (k, c)" by force
  have none: "map_of kcs k = None" using Cons.prems by (simp add: kc map_of_eq_None_iff)
  have step: "fst (guarded_update (\<lambda>r. key r = k) (f c) rows) = map (\<lambda>r. if key r = k then default_to r (f c r) else r) rows"
    by (simp add: guarded_update_def default_to_def)
  have key: "key (default_to r (f c r)) = key r" for r
    using assms(1) by (simp add: default_to_def split: option.split)
  show ?case
    using Cons.prems by (simp add: kc Cons.IH step key none cong: if_cong)
qed

locale reversible_ledger = occupancy_ledger +
  fixes full :: "'a \<Rightarrow> bool"
  assumes release_claim: "full r \<Longrightarrow> valid c \<Longrightarrow> claim c r = Some r' \<Longrightarrow> release c r' = Some r"
begin

lemma undo_batch:
  assumes keys: "distinct (map fst kcs)"
    and hit: "\<And>k c r. (k, c) \<in> set kcs \<Longrightarrow> r \<in> set rows \<Longrightarrow> key r = k \<Longrightarrow> full r \<and> valid c \<and> claim c r \<noteq> None"
  shows "batch key release kcs (batch key claim kcs rows) = rows"
proof -
  have one: "(case map_of kcs (key r1) of None \<Rightarrow> r1 | Some c \<Rightarrow> default_to r1 (release c r1)) = r"
    if r: "r \<in> set rows" and r1: "r1 = (case map_of kcs (key r) of None \<Rightarrow> r | Some c \<Rightarrow> default_to r (claim c r))" for r r1
  proof (cases "map_of kcs (key r)")
    case None
    with r1 show ?thesis by simp
  next
    case (Some c)
    then have c: "full r" "valid c" "claim c r \<noteq> None" using hit [OF map_of_SomeD [OF Some] r refl] by simp_all
    then obtain r' where r': "claim c r = Some r'" by blast
    with r1 Some have "r1 = r'" by (simp add: default_to_def)
    moreover have "key r' = key r" by (rule key_claim [OF r'])
    ultimately show ?thesis using Some release_claim [OF c(1,2) r'] by (simp add: default_to_def)
  qed
  have "batch key release kcs (batch key claim kcs rows)
      = map (\<lambda>r1. case map_of kcs (key r1) of None \<Rightarrow> r1 | Some c \<Rightarrow> default_to r1 (release c r1))
          (map (\<lambda>r. case map_of kcs (key r) of None \<Rightarrow> r | Some c \<Rightarrow> default_to r (claim c r)) rows)"
    by (simp only: batch_pointwise [OF key_release keys] batch_pointwise [OF key_claim keys])
  also have "\<dots> = rows" by (simp add: comp_def) (rule map_idI, rule one, simp_all)
  finally show ?thesis .
qed

end

end
