(* ===== verification/Segment.thy ===== *)
theory Segment
  imports Prelude
begin

unbundle bit_operations_syntax

text \<open>
  Segment spans and occupancy bitmasks: \<open>crates/lulan-engine/src/domain/segment.rs\<close>.
  A span is a pair of \<open>u8\<close> indices; its mask is a \<open>u64\<close> with one bit per segment. The lemmas
  read the masks as sets of segments: bit \<open>i\<close> of a valid span's mask is set iff
  \<open>from \<le> i < to\<close>.
\<close>

definition MAX_SEGMENTS :: "8 word" where
  "MAX_SEGMENTS = 64"

datatype span_error = Empty "8 word" "8 word" | TooLong "8 word"

record segment_span =
  span_from :: "8 word"
  span_to :: "8 word"

definition span_new :: "8 word \<Rightarrow> 8 word \<Rightarrow> span_error + segment_span" where
  "span_new from to =
     (if from \<ge> to then Inl (Empty from to)
      else if to > MAX_SEGMENTS then Inl (TooLong to)
      else Inr \<lparr>span_from = from, span_to = to\<rparr>)"

definition span_segment_count :: "segment_span \<Rightarrow> 8 word" where
  "span_segment_count s = span_to s - span_from s"

text \<open>\<open><<\<close> on \<open>u64\<close>: the release build reduces the shift amount modulo 64.\<close>

definition shl_u64 :: "64 word \<Rightarrow> 8 word \<Rightarrow> 64 word" where
  "shl_u64 x n = push_bit (unat n mod 64) x"

definition span_mask :: "segment_span \<Rightarrow> 64 word" where
  "span_mask s =
     (let width = span_to s - span_from s
      in if width = 64 then - 1 else shl_u64 (shl_u64 1 width - 1) (span_from s))"

definition span_is_available :: "segment_span \<Rightarrow> 64 word \<Rightarrow> bool" where
  "span_is_available s occupied \<longleftrightarrow> occupied AND span_mask s = 0"

definition span_overlaps :: "segment_span \<Rightarrow> segment_span \<Rightarrow> bool" where
  "span_overlaps s other \<longleftrightarrow> span_mask s AND span_mask other \<noteq> 0"

section \<open>Valid spans and their masks\<close>

definition valid_span :: "segment_span \<Rightarrow> bool" where
  "valid_span s \<longleftrightarrow> span_from s < span_to s \<and> span_to s \<le> MAX_SEGMENTS"

definition span_segments :: "segment_span \<Rightarrow> nat set" where
  "span_segments s = {unat (span_from s)..<unat (span_to s)}"

lemma span_new_Inr: "span_new f t = Inr s \<longleftrightarrow> s = \<lparr>span_from = f, span_to = t\<rparr> \<and> valid_span s"
  by (auto simp: span_new_def valid_span_def not_le not_less)

lemma span_new_valid: "span_new f t = Inr s \<Longrightarrow> valid_span s"
  unfolding span_new_Inr by blast

lemma valid_span_nat:
  "valid_span s \<longleftrightarrow> unat (span_from s) < unat (span_to s) \<and> unat (span_to s) \<le> 64"
  by (simp add: valid_span_def MAX_SEGMENTS_def word_less_nat_alt word_le_nat_alt)

lemma unat_span_width:
  "valid_span s \<Longrightarrow> unat (span_to s - span_from s) = unat (span_to s) - unat (span_from s)"
  by (simp add: valid_span_def unat_sub less_imp_le)

lemma bit_span_mask:
  assumes v: "valid_span s" and i: "i < 64"
  shows "bit (span_mask s) i \<longleftrightarrow> i \<in> span_segments s"
proof -
  define f t where "f = unat (span_from s)" and "t = unat (span_to s)"
  have ft: "f < t" "t \<le> 64" using v by (simp_all add: valid_span_nat f_def t_def)
  have w: "unat (span_to s - span_from s) = t - f"
    using unat_span_width [OF v] by (simp add: f_def t_def)
  show ?thesis
  proof (cases "span_to s - span_from s = 64")
    case True
    with w have "t - f = 64" by simp
    with ft have "f = 0" "t = 64" by auto
    with True i show ?thesis by (simp add: span_mask_def span_segments_def f_def t_def)
  next
    case False
    have "t - f < 64"
    proof (rule ccontr)
      assume "\<not> t - f < 64"
      with ft w have "unat (span_to s - span_from s) = unat (64 :: 8 word)" by simp
      with False show False by (simp only: word_unat_eq_iff)
    qed
    then have "span_mask s = push_bit f (mask (t - f))"
      using False w ft
      by (simp add: span_mask_def shl_u64_def f_def [symmetric] mask_eq_exp_minus_1 push_bit_of_1)
    then show ?thesis using i ft
      by (auto simp: bit_push_bit_iff bit_mask_iff span_segments_def f_def t_def)
  qed
qed

lemma span_mask_and_zero_iff:
  assumes "valid_span s"
  shows "m AND span_mask s = 0 \<longleftrightarrow> (\<forall>i\<in>span_segments s. \<not> bit m i)"
proof -
  have lt: "i \<in> span_segments s \<Longrightarrow> i < 64" for i
    using assms by (auto simp: span_segments_def valid_span_nat)
  have "m AND span_mask s = 0 \<longleftrightarrow> (\<forall>i<64. \<not> (bit m i \<and> bit (span_mask s) i))"
    by (simp add: bit_eq_iff bit_and_iff)
  then show ?thesis using lt by (auto simp: bit_span_mask [OF assms])
qed

lemma span_is_available_iff:
  "valid_span s \<Longrightarrow> span_is_available s occupied \<longleftrightarrow> (\<forall>i\<in>span_segments s. \<not> bit occupied i)"
  by (simp add: span_is_available_def span_mask_and_zero_iff)

end
