(* ===== verification/Pool.thy ===== *)
theory Pool
  imports Segment
begin

text \<open>
  Count-based pool occupancy: \<open>crates/lulan-engine/src/domain/pool.rs\<close>. A pool has a
  capacity and one remaining counter per segment; a reservation takes its quantity from every
  segment of its span. \<open>Result\<close> is a sum, \<open>&mut self\<close> a returned pool (on \<open>Err\<close> the caller's
  pool is unchanged), \<open>i32\<close> arithmetic wraps. Spans are those \<open>SegmentSpan::new\<close> builds.

  The lemmas relate the operations to a specification on integers without wrap-around
  (\<open>pool_spec_reserve\<close>), show the counters stay between 0 and the capacity, and show where
  \<open>release\<close> leaves that range.
\<close>

datatype pool_error =
    SpanOutOfRange "8 word" "8 word"
  | Insufficient int int
  | ReleaseExceedsCapacity int int
  | NonPositiveQuantity int

record pool_occupancy =
  po_capacity :: int
  po_remaining :: "int list"

definition pool_new :: "int \<Rightarrow> 8 word \<Rightarrow> pool_occupancy" where
  "pool_new capacity segment_count =
     \<lparr>po_capacity = max capacity 0, po_remaining = replicate (unat segment_count) (max capacity 0)\<rparr>"

definition pool_from_parts :: "int \<Rightarrow> int list \<Rightarrow> pool_occupancy" where
  "pool_from_parts capacity remaining = \<lparr>po_capacity = capacity, po_remaining = remaining\<rparr>"

text \<open>\<open>self.remaining.len() as u8\<close> keeps the low eight bits.\<close>

definition pool_segment_count :: "pool_occupancy \<Rightarrow> 8 word" where
  "pool_segment_count p = of_nat (length (po_remaining p))"

definition pool_check_span :: "pool_occupancy \<Rightarrow> segment_span \<Rightarrow> pool_error + unit" where
  "pool_check_span p s =
     (if span_to s > pool_segment_count p then Inl (SpanOutOfRange (span_to s) (pool_segment_count p))
      else Inr ())"

definition pool_segments :: "segment_span \<Rightarrow> nat list" where
  "pool_segments s = [unat (span_from s)..<unat (span_to s)]"

definition pool_slice :: "pool_occupancy \<Rightarrow> segment_span \<Rightarrow> int list" where
  "pool_slice p s = map (\<lambda>i. po_remaining p ! i) (pool_segments s)"

text \<open>\<open>iter().copied().min().unwrap_or(0)\<close>.\<close>

fun min_or_zero :: "int list \<Rightarrow> int" where
  "min_or_zero [] = 0"
| "min_or_zero (x # xs) = fold min xs x"

definition pool_remaining_for :: "pool_occupancy \<Rightarrow> segment_span \<Rightarrow> pool_error + int" where
  "pool_remaining_for p s = and_then (pool_check_span p s) (\<lambda>_. Inr (min_or_zero (pool_slice p s)))"

definition pool_is_available :: "pool_occupancy \<Rightarrow> segment_span \<Rightarrow> int \<Rightarrow> pool_error + bool" where
  "pool_is_available p s qty =
     (if qty \<le> 0 then Inl (NonPositiveQuantity qty)
      else and_then (pool_remaining_for p s) (\<lambda>remaining. Inr (remaining \<ge> qty)))"

definition pool_reserve :: "segment_span \<Rightarrow> int \<Rightarrow> pool_occupancy \<Rightarrow> pool_error + pool_occupancy" where
  "pool_reserve s qty p =
     (if qty \<le> 0 then Inl (NonPositiveQuantity qty)
      else and_then (pool_remaining_for p s) (\<lambda>remaining.
        if remaining < qty then Inl (Insufficient qty remaining)
        else Inr (p\<lparr>po_remaining := fold (\<lambda>i xs. xs[i := i32 (xs ! i - qty)]) (pool_segments s) (po_remaining p)\<rparr>)))"

definition pool_release :: "segment_span \<Rightarrow> int \<Rightarrow> pool_occupancy \<Rightarrow> pool_error + pool_occupancy" where
  "pool_release s qty p =
     (if qty \<le> 0 then Inl (NonPositiveQuantity qty)
      else and_then (pool_check_span p s) (\<lambda>_.
        if list_ex (\<lambda>r. i32 (r + qty) > po_capacity p) (pool_slice p s)
        then Inl (ReleaseExceedsCapacity qty (po_capacity p))
        else Inr (p\<lparr>po_remaining := fold (\<lambda>i xs. xs[i := i32 (xs ! i + qty)]) (pool_segments s) (po_remaining p)\<rparr>)))"

section \<open>The counters of a sound pool\<close>

definition wf_pool :: "pool_occupancy \<Rightarrow> bool" where
  "wf_pool p \<longleftrightarrow> in_i32 (po_capacity p) \<and> length (po_remaining p) < 256
     \<and> (\<forall>r\<in>set (po_remaining p). 0 \<le> r \<and> r \<le> po_capacity p)"

lemma set_pool_segments: "set (pool_segments s) = span_segments s"
  by (simp add: pool_segments_def span_segments_def)

lemma fold_update_range:
  assumes "b \<le> length xs"
  shows "fold (\<lambda>i xs. xs[i := g (xs ! i)]) [a..<b] xs
         = map (\<lambda>i. if a \<le> i \<and> i < b then g (xs ! i) else xs ! i) [0..<length xs]"
  using assms
proof (induction b)
  case 0
  then show ?case by (simp add: map_nth)
next
  case (Suc b)
  then show ?case
    by (cases "a \<le> b") (auto simp: less_Suc_eq intro!: nth_equalityI simp: nth_list_update)
qed

lemma min_or_zero_ge_iff: "xs \<noteq> [] \<Longrightarrow> q \<le> min_or_zero xs \<longleftrightarrow> (\<forall>x\<in>set xs. q \<le> x)"
  by (cases xs) (simp_all add: fold_min_ge_iff)

text \<open>What a reservation does, on integers.\<close>

definition pool_shift :: "segment_span \<Rightarrow> int \<Rightarrow> int list \<Rightarrow> int list" where
  "pool_shift s d xs = map (\<lambda>i. if i \<in> span_segments s then xs ! i + d else xs ! i) [0..<length xs]"

definition pool_spec_reserve :: "segment_span \<Rightarrow> int \<Rightarrow> pool_occupancy \<Rightarrow> pool_occupancy option" where
  "pool_spec_reserve s qty p =
     (if 0 < qty \<and> unat (span_to s) \<le> length (po_remaining p)
         \<and> (\<forall>i\<in>span_segments s. qty \<le> po_remaining p ! i)
      then Some (p\<lparr>po_remaining := pool_shift s (- qty) (po_remaining p)\<rparr>) else None)"

lemma length_pool_shift [simp]: "length (pool_shift s d xs) = length xs"
  by (simp add: pool_shift_def)

lemma nth_pool_shift [simp]:
  "i < length xs \<Longrightarrow> pool_shift s d xs ! i = (if i \<in> span_segments s then xs ! i + d else xs ! i)"
  by (simp add: pool_shift_def)

lemma pool_shift_shift: "d + e = 0 \<Longrightarrow> pool_shift s e (pool_shift s d xs) = xs"
  by (rule nth_equalityI) (auto simp: add.assoc)

lemma pool_segment_count_nat:
  "length (po_remaining p) < 256 \<Longrightarrow> unat (pool_segment_count p) = length (po_remaining p)"
  by (simp add: pool_segment_count_def unat_of_nat)

lemma pool_check_span_Inr:
  "length (po_remaining p) < 256 \<Longrightarrow>
   pool_check_span p s = Inr u \<longleftrightarrow> unat (span_to s) \<le> length (po_remaining p)"
  by (simp add: pool_check_span_def word_less_nat_alt pool_segment_count_nat not_less)

lemma pool_slice_nonempty: "valid_span s \<Longrightarrow> pool_slice p s \<noteq> []"
  by (simp add: pool_slice_def pool_segments_def valid_span_nat)

lemma fold_shift:
  assumes "unat (span_to s) \<le> length xs"
    and "\<And>i. i \<in> span_segments s \<Longrightarrow> in_i32 (xs ! i + d)"
  shows "fold (\<lambda>i xs. xs[i := i32 (xs ! i + d)]) (pool_segments s) xs = pool_shift s d xs"
proof -
  have "fold (\<lambda>i xs. xs[i := i32 (xs ! i + d)]) (pool_segments s) xs
        = map (\<lambda>i. if unat (span_from s) \<le> i \<and> i < unat (span_to s) then i32 (xs ! i + d) else xs ! i) [0..<length xs]"
    using fold_update_range [OF assms(1), of "\<lambda>x. i32 (x + d)"] by (simp add: pool_segments_def)
  also have "\<dots> = pool_shift s d xs"
    using assms(2) by (auto simp: pool_shift_def span_segments_def wrap_simps)
  finally show ?thesis .
qed

lemma wf_pool_nth: "wf_pool p \<Longrightarrow> i < length (po_remaining p) \<Longrightarrow> 0 \<le> po_remaining p ! i \<and> po_remaining p ! i \<le> po_capacity p"
  by (simp add: wf_pool_def)

lemma span_segments_lt: "i \<in> span_segments s \<Longrightarrow> unat (span_to s) \<le> n \<Longrightarrow> i < n"
  by (simp add: span_segments_def)

lemma wf_poolI:
  "in_i32 (po_capacity p) \<Longrightarrow> length (po_remaining p) < 256 \<Longrightarrow>
   (\<And>i. i < length (po_remaining p) \<Longrightarrow> 0 \<le> po_remaining p ! i \<and> po_remaining p ! i \<le> po_capacity p) \<Longrightarrow>
   wf_pool p"
  unfolding wf_pool_def by (metis in_set_conv_nth)

lemma pool_new_wf: "in_i32 capacity \<Longrightarrow> wf_pool (pool_new capacity n)"
  using unsigned_less [of n, where 'a = nat] by (auto simp: pool_new_def wf_pool_def in_i32_def)

lemma pool_reserve_eq_spec:
  assumes wf: "wf_pool p" and v: "valid_span s" and q: "in_i32 qty"
  shows "pool_reserve s qty p = Inr p' \<longleftrightarrow> pool_spec_reserve s qty p = Some p'"
proof -
  let ?xs = "po_remaining p"
  have len: "length ?xs < 256" using wf by (simp add: wf_pool_def)
  have ge: "min_or_zero (pool_slice p s) < qty \<longleftrightarrow> \<not> (\<forall>i\<in>span_segments s. qty \<le> ?xs ! i)"
    using min_or_zero_ge_iff [OF pool_slice_nonempty [OF v, of p], of qty]
    by (auto simp: not_le pool_slice_def set_pool_segments)
  have shift: "fold (\<lambda>i xs. xs[i := i32 (xs ! i - qty)]) (pool_segments s) ?xs = pool_shift s (- qty) ?xs"
    if pos: "0 < qty" and to: "unat (span_to s) \<le> length ?xs"
      and enough: "\<forall>i\<in>span_segments s. qty \<le> ?xs ! i"
  proof -
    have "in_i32 (?xs ! i + - qty)" if i: "i \<in> span_segments s" for i
      using wf_pool_nth [OF wf span_segments_lt [OF i to]] wf pos enough i
      by (auto simp: in_i32_def wf_pool_def)
    then show ?thesis using fold_shift [OF to, of "- qty"] by simp
  qed
  show ?thesis
    using shift
    by (auto simp: pool_reserve_def pool_spec_reserve_def pool_remaining_for_def ge
        pool_check_span_Inr [OF len] and_then_eq_Inr split: if_splits)
qed


lemma pool_spec_reserve_wf:
  "wf_pool p \<Longrightarrow> pool_spec_reserve s qty p = Some p' \<Longrightarrow> wf_pool p'"
proof (rule wf_poolI)
  assume wf: "wf_pool p" and r: "pool_spec_reserve s qty p = Some p'"
  then have p': "p' = p\<lparr>po_remaining := pool_shift s (- qty) (po_remaining p)\<rparr>" "0 < qty"
    and enough: "\<forall>i\<in>span_segments s. qty \<le> po_remaining p ! i"
    by (auto simp: pool_spec_reserve_def split: if_splits)
  from wf p' show "in_i32 (po_capacity p')" "length (po_remaining p') < 256"
    by (simp_all add: wf_pool_def)
  fix i assume "i < length (po_remaining p')"
  with p' wf_pool_nth [OF wf, of i] enough
  show "0 \<le> po_remaining p' ! i \<and> po_remaining p' ! i \<le> po_capacity p'" by auto
qed

lemma pool_release_cases:
  assumes wf: "wf_pool p" and to: "unat (span_to s) \<le> length (po_remaining p)" and q: "0 < qty"
    and room: "\<And>i. i \<in> span_segments s \<Longrightarrow> po_remaining p ! i + qty \<le> 2147483647"
  shows "pool_release s qty p =
    (if \<forall>i\<in>span_segments s. po_remaining p ! i + qty \<le> po_capacity p
     then Inr (p\<lparr>po_remaining := pool_shift s qty (po_remaining p)\<rparr>)
     else Inl (ReleaseExceedsCapacity qty (po_capacity p)))"
proof -
  let ?xs = "po_remaining p"
  have len: "length ?xs < 256" using wf by (simp add: wf_pool_def)
  have rng: "in_i32 (?xs ! i + qty)" if i: "i \<in> span_segments s" for i
    using wf_pool_nth [OF wf span_segments_lt [OF i to]] room [OF i] q by (simp add: in_i32_def)
  have "list_ex (\<lambda>r. i32 (r + qty) > po_capacity p) (pool_slice p s)
        \<longleftrightarrow> \<not> (\<forall>i\<in>span_segments s. ?xs ! i + qty \<le> po_capacity p)"
    using rng by (auto simp: list_ex_iff pool_slice_def set_pool_segments not_le wrap_simps)
  moreover have "pool_check_span p s = Inr ()"
    using to by (simp add: pool_check_span_Inr [OF len])
  ultimately show ?thesis
    using q fold_shift [OF to rng] by (simp add: pool_release_def)
qed

section \<open>Properties\<close>

text \<open>On a sound pool \<open>reserve\<close> is the unbounded-integer reservation: it succeeds exactly when
the quantity is positive, the span ends inside the pool and every covered segment has that much
left, it then takes the quantity from exactly the covered segments, and the pool stays sound
(no counter below zero or above the capacity).\<close>

theorem pool_reserve_refines:
  assumes "wf_pool p" and "valid_span s" and "in_i32 qty"
  shows "case pool_reserve s qty p of
           Inr p' \<Rightarrow> pool_spec_reserve s qty p = Some p' \<and> wf_pool p'
         | Inl e \<Rightarrow> pool_spec_reserve s qty p = None"
proof (cases "pool_spec_reserve s qty p")
  case None
  then show ?thesis
    using pool_reserve_eq_spec [OF assms] by (cases "pool_reserve s qty p") auto
next
  case (Some p')
  then have "pool_reserve s qty p = Inr p'" using pool_reserve_eq_spec [OF assms] by simp
  then show ?thesis using Some pool_spec_reserve_wf [OF assms(1) Some] by simp
qed

lemma pool_example_span: "valid_span \<lparr>span_from = 0, span_to = 2\<rparr>"
  by (simp add: valid_span_nat)

lemma pool_example_wf: "wf_pool (pool_new 10 3)"
  by (rule pool_new_wf) (simp add: in_i32_def)

theorem pool_reserve_refines_witness:
  "case pool_reserve \<lparr>span_from = 0, span_to = 2\<rparr> 4 (pool_new 10 3) of
     Inr p' \<Rightarrow> pool_spec_reserve \<lparr>span_from = 0, span_to = 2\<rparr> 4 (pool_new 10 3) = Some p' \<and> wf_pool p'
   | Inl e \<Rightarrow> pool_spec_reserve \<lparr>span_from = 0, span_to = 2\<rparr> 4 (pool_new 10 3) = None"
  by (rule pool_reserve_refines [OF pool_example_wf pool_example_span]) (simp add: in_i32_def)

text \<open>Releasing exactly what was reserved always succeeds and gives back the pool the
reservation started from: \<open>release\<close> inverts \<open>reserve\<close> on every sound pool.\<close>

theorem pool_release_inverts_reserve:
  assumes wf: "wf_pool p" and v: "valid_span s" and q: "in_i32 qty"
    and res: "pool_reserve s qty p = Inr p'"
  shows "pool_release s qty p' = Inr p"
proof -
  have spec: "pool_spec_reserve s qty p = Some p'"
    by (rule iffD1 [OF pool_reserve_eq_spec [OF wf v q] res])
  then have p': "p' = p\<lparr>po_remaining := pool_shift s (- qty) (po_remaining p)\<rparr>" and pos: "0 < qty"
    and to: "unat (span_to s) \<le> length (po_remaining p')"
    by (auto simp: pool_spec_reserve_def split: if_splits)
  have restored: "po_remaining p' ! i + qty = po_remaining p ! i" if i: "i \<in> span_segments s" for i
    using span_segments_lt [OF i to] i p' by simp
  have cap: "po_remaining p ! i \<le> po_capacity p" if i: "i \<in> span_segments s" for i
    using wf_pool_nth [OF wf, of i] span_segments_lt [OF i to] p' by simp
  have "pool_release s qty p' = (if \<forall>i\<in>span_segments s. po_remaining p' ! i + qty \<le> po_capacity p'
     then Inr (p'\<lparr>po_remaining := pool_shift s qty (po_remaining p')\<rparr>)
     else Inl (ReleaseExceedsCapacity qty (po_capacity p')))"
    using wf cap restored
    by (intro pool_release_cases pool_spec_reserve_wf [OF wf spec] to pos)
      (force simp: wf_pool_def in_i32_def)
  then show ?thesis using restored cap p' pool_shift_shift [of "- qty" qty s "po_remaining p"] by simp
qed

theorem pool_release_inverts_reserve_witness:
  "pool_release \<lparr>span_from = 0, span_to = 2\<rparr> 4 \<lparr>po_capacity = 10, po_remaining = [6, 6, 10]\<rparr>
   = Inr (pool_new 10 3)"
proof (rule pool_release_inverts_reserve [OF pool_example_wf pool_example_span])
  show "in_i32 4" by (simp add: in_i32_def)
  show "pool_reserve \<lparr>span_from = 0, span_to = 2\<rparr> 4 (pool_new 10 3)
        = Inr \<lparr>po_capacity = 10, po_remaining = [6, 6, 10]\<rparr>"
    by code_simp
qed

text \<open>The guard of \<open>release\<close> adds in \<open>i32\<close>: on a full, sound pool a release of
\<open>i32::MAX\<close> units is accepted because the sum wraps to a negative number, and it leaves
negative counters behind. The promise to fail \<open>if any segment would exceed capacity\<close> holds
only for quantities whose sum with the counter fits in an \<open>i32\<close>.\<close>

theorem pool_release_overflow:
  "wf_pool (pool_new 100 2)
   \<and> pool_release \<lparr>span_from = 0, span_to = 2\<rparr> 2147483647 (pool_new 100 2)
     = Inr \<lparr>po_capacity = 100, po_remaining = [- 2147483549, - 2147483549]\<rparr>
   \<and> \<not> wf_pool \<lparr>po_capacity = 100, po_remaining = [- 2147483549, - 2147483549]\<rparr>"
  by code_simp

end
