(* ===== verification/Order_Lifecycle.thy ===== *)
theory Order_Lifecycle
  imports Prelude
begin

text \<open>
  The order lifecycle: \<open>crates/lulan-engine/src/domain/order.rs\<close>, and the passenger types of
  \<open>domain/passenger.rs\<close>. \<open>lifecycle_apply\<close> is the code's \<open>apply\<close> (the arms in the code's
  order), \<open>replay\<close> the fold of a whole event sequence from the start of a stream. The lemmas
  classify the legal sequences: which events are final, which can occur at most once, and what
  the status says about the events behind it.
\<close>

datatype order_status =
  Draft | Locked | PendingPayment | Paid | Ticketed | Boarded | Completed | Cancelled | Expired | Refunded

definition status_as_str :: "order_status \<Rightarrow> string" where
  "status_as_str s = (case s of
     Draft \<Rightarrow> ''draft''
   | Locked \<Rightarrow> ''locked''
   | PendingPayment \<Rightarrow> ''pending_payment''
   | Paid \<Rightarrow> ''paid''
   | Ticketed \<Rightarrow> ''ticketed''
   | Boarded \<Rightarrow> ''boarded''
   | Completed \<Rightarrow> ''completed''
   | Cancelled \<Rightarrow> ''cancelled''
   | Expired \<Rightarrow> ''expired''
   | Refunded \<Rightarrow> ''refunded'')"

definition status_parse :: "string \<Rightarrow> order_status option" where
  "status_parse s =
    (if s = ''draft'' then Some Draft
     else if s = ''locked'' then Some Locked
     else if s = ''pending_payment'' then Some PendingPayment
     else if s = ''paid'' then Some Paid
     else if s = ''ticketed'' then Some Ticketed
     else if s = ''boarded'' then Some Boarded
     else if s = ''completed'' then Some Completed
     else if s = ''cancelled'' then Some Cancelled
     else if s = ''expired'' then Some Expired
     else if s = ''refunded'' then Some Refunded
     else None)"

definition holds_inventory_provisionally :: "order_status \<Rightarrow> bool" where
  "holds_inventory_provisionally s \<longleftrightarrow> s = Locked \<or> s = PendingPayment"

datatype order_event_type =
    OrderCreated | InventoryLocked | PaymentRequested | PaymentCaptured | PaymentFailed
  | OrderCancelled | OrderExpired | TicketIssued | PassengerBoarded | TripCompleted | OrderRefunded

definition event_as_str :: "order_event_type \<Rightarrow> string" where
  "event_as_str e = (case e of
     OrderCreated \<Rightarrow> ''order_created''
   | InventoryLocked \<Rightarrow> ''inventory_locked''
   | PaymentRequested \<Rightarrow> ''payment_requested''
   | PaymentCaptured \<Rightarrow> ''payment_captured''
   | PaymentFailed \<Rightarrow> ''payment_failed''
   | OrderCancelled \<Rightarrow> ''order_cancelled''
   | OrderExpired \<Rightarrow> ''order_expired''
   | TicketIssued \<Rightarrow> ''ticket_issued''
   | PassengerBoarded \<Rightarrow> ''passenger_boarded''
   | TripCompleted \<Rightarrow> ''trip_completed''
   | OrderRefunded \<Rightarrow> ''order_refunded'')"

definition event_parse :: "string \<Rightarrow> order_event_type option" where
  "event_parse s =
    (if s = ''order_created'' then Some OrderCreated
     else if s = ''inventory_locked'' then Some InventoryLocked
     else if s = ''payment_requested'' then Some PaymentRequested
     else if s = ''payment_captured'' then Some PaymentCaptured
     else if s = ''payment_failed'' then Some PaymentFailed
     else if s = ''order_cancelled'' then Some OrderCancelled
     else if s = ''order_expired'' then Some OrderExpired
     else if s = ''ticket_issued'' then Some TicketIssued
     else if s = ''passenger_boarded'' then Some PassengerBoarded
     else if s = ''trip_completed'' then Some TripCompleted
     else if s = ''order_refunded'' then Some OrderRefunded
     else None)"

datatype transition_error =
    Illegal order_status order_event_type
  | NotInitial order_event_type
  | AlreadyCreated order_status

fun lifecycle_apply :: "order_status option \<Rightarrow> order_event_type \<Rightarrow> transition_error + order_status" where
  "lifecycle_apply None event =
     (case event of OrderCreated \<Rightarrow> Inr Draft | other \<Rightarrow> Inl (NotInitial other))"
| "lifecycle_apply (Some state) event =
     (case (state, event) of
        (s, OrderCreated) \<Rightarrow> Inl (AlreadyCreated s)
      | (Draft, InventoryLocked) \<Rightarrow> Inr Locked
      | (Locked, PaymentRequested) \<Rightarrow> Inr PendingPayment
      | (PendingPayment, PaymentCaptured) \<Rightarrow> Inr Paid
      | (PendingPayment, PaymentFailed) \<Rightarrow> Inr Locked
      | (Locked, OrderCancelled) \<Rightarrow> Inr Cancelled
      | (PendingPayment, OrderCancelled) \<Rightarrow> Inr Cancelled
      | (Locked, OrderExpired) \<Rightarrow> Inr Expired
      | (PendingPayment, OrderExpired) \<Rightarrow> Inr Expired
      | (Paid, TicketIssued) \<Rightarrow> Inr Ticketed
      | (Ticketed, PassengerBoarded) \<Rightarrow> Inr Boarded
      | (Boarded, TripCompleted) \<Rightarrow> Inr Completed
      | (Paid, OrderRefunded) \<Rightarrow> Inr Refunded
      | (Ticketed, OrderRefunded) \<Rightarrow> Inr Refunded
      | (state, event) \<Rightarrow> Inl (Illegal state event))"

section \<open>Passenger types\<close>

datatype passenger_type = Adult | Child | Senior | Pwd | Infant

definition passenger_as_str :: "passenger_type \<Rightarrow> string" where
  "passenger_as_str p = (case p of
     Adult \<Rightarrow> ''adult'' | Child \<Rightarrow> ''child'' | Senior \<Rightarrow> ''senior'' | Pwd \<Rightarrow> ''pwd'' | Infant \<Rightarrow> ''infant'')"

definition passenger_parse :: "string \<Rightarrow> passenger_type option" where
  "passenger_parse s =
    (if s = ''adult'' then Some Adult
     else if s = ''child'' then Some Child
     else if s = ''senior'' then Some Senior
     else if s = ''pwd'' then Some Pwd
     else if s = ''infant'' then Some Infant
     else None)"

section \<open>The encodings are codecs\<close>

interpretation status_codec: text_codec status_as_str status_parse
proof
  show "status_parse (status_as_str x) = Some x" for x
    by (cases x) (simp_all add: status_as_str_def status_parse_def)
  show "status_parse s = Some x \<Longrightarrow> s = status_as_str x" for s x
    by (auto simp: status_parse_def status_as_str_def split: if_splits)
qed

interpretation event_codec: text_codec event_as_str event_parse
proof
  show "event_parse (event_as_str x) = Some x" for x
    by (cases x) (simp_all add: event_as_str_def event_parse_def)
  show "event_parse s = Some x \<Longrightarrow> s = event_as_str x" for s x
    by (auto simp: event_parse_def event_as_str_def split: if_splits)
qed

interpretation passenger_codec: text_codec passenger_as_str passenger_parse
proof
  show "passenger_parse (passenger_as_str x) = Some x" for x
    by (cases x) (simp_all add: passenger_as_str_def passenger_parse_def)
  show "passenger_parse s = Some x \<Longrightarrow> s = passenger_as_str x" for s x
    by (auto simp: passenger_parse_def passenger_as_str_def split: if_splits)
qed

declare status_codec.parse_as_str [simp, codec_simps] event_codec.parse_as_str [simp, codec_simps]
  passenger_codec.parse_as_str [simp, codec_simps]
declare status_codec.as_str_inject [simp, codec_simps] event_codec.as_str_inject [simp, codec_simps]

section \<open>Legal sequences\<close>

text \<open>Folding events over a status, as \<open>replay_status\<close> and the live transitions do.\<close>

fun replay_from :: "order_status option \<Rightarrow> order_event_type list \<Rightarrow> transition_error + order_status option" where
  "replay_from s [] = Inr s"
| "replay_from s (e # es) = and_then (lifecycle_apply s e) (\<lambda>s'. replay_from (Some s') es)"

definition replay :: "order_event_type list \<Rightarrow> transition_error + order_status option" where
  "replay es = replay_from None es"

lemma replay_from_append:
  "replay_from s (es @ es') = and_then (replay_from s es) (\<lambda>s'. replay_from s' es')"
proof (induction es arbitrary: s)
  case (Cons e es)
  then show ?case by (cases "lifecycle_apply s e") auto
qed simp

lemma replay_snoc:
  "replay (es @ [e]) = Inr r \<longleftrightarrow> (\<exists>s s'. replay es = Inr s \<and> lifecycle_apply s e = Inr s' \<and> r = Some s')"
  by (auto simp: replay_def replay_from_append)

text \<open>A status from which no event is legal.\<close>

definition terminal :: "order_status \<Rightarrow> bool" where
  "terminal s \<longleftrightarrow> s \<in> {Completed, Cancelled, Expired, Refunded}"

definition releases_inventory :: "order_event_type \<Rightarrow> bool" where
  "releases_inventory e \<longleftrightarrow> e \<in> {OrderCancelled, OrderExpired, OrderRefunded}"

definition paid_for :: "order_status \<Rightarrow> bool" where
  "paid_for s \<longleftrightarrow> s \<in> {Paid, Ticketed, Boarded, Completed, Refunded}"

lemma terminal_iff: "terminal s \<longleftrightarrow> (\<forall>e. \<exists>err. lifecycle_apply (Some s) e = Inl err)"
proof
  assume "terminal s"
  then show "\<forall>e. \<exists>err. lifecycle_apply (Some s) e = Inl err"
    by (auto simp: terminal_def split: order_event_type.splits)
next
  assume *: "\<forall>e. \<exists>err. lifecycle_apply (Some s) e = Inl err"
  show "terminal s"
    using * [rule_format, of InventoryLocked] * [rule_format, of OrderCancelled]
      * [rule_format, of OrderRefunded] * [rule_format, of TripCompleted]
    by (cases s) (simp_all add: terminal_def)
qed

lemma release_is_terminal:
  "lifecycle_apply s e = Inr s' \<Longrightarrow> releases_inventory e \<longleftrightarrow> s' \<in> {Cancelled, Expired, Refunded}"
  by (cases s; cases e) (auto simp: releases_inventory_def split: order_status.splits)

lemma paid_step:
  "lifecycle_apply (Some s) e = Inr s' \<Longrightarrow>
   (paid_for s' \<longleftrightarrow> paid_for s \<or> e = PaymentCaptured) \<and> (e = PaymentCaptured \<longrightarrow> \<not> paid_for s)"
  by (cases e) (auto simp: paid_for_def split: order_status.splits)

fun_cases replay_ConsE: "replay_from s (e # es) = Inr r"

lemma replay_from_terminal: "replay_from (Some s) es = Inr r \<Longrightarrow> terminal s \<Longrightarrow> es = []"
proof (cases es)
  case (Cons e es')
  assume "replay_from (Some s) es = Inr r" and t: "terminal s"
  with Cons obtain s1 where "lifecycle_apply (Some s) e = Inr s1" by (auto elim!: replay_ConsE)
  with terminal_iff [THEN iffD1, OF t] show ?thesis by (metis Inl_Inr_False)
qed simp

lemma replay_from_releasing:
  "replay_from s (es @ e # rest) = Inr r \<Longrightarrow> releases_inventory e \<Longrightarrow> rest = []"
  using replay_from_terminal release_is_terminal
  by (fastforce simp: replay_from_append terminal_def)

lemma capture_count_from:
  "replay_from (Some s) es = Inr (Some s') \<Longrightarrow>
   count_list es PaymentCaptured + (if paid_for s then 1 else 0) = (if paid_for s' then 1 else 0)"
proof (induction es arbitrary: s)
  case (Cons e es)
  from Cons.prems obtain s1 where s1: "lifecycle_apply (Some s) e = Inr s1"
    "replay_from (Some s1) es = Inr (Some s')" by auto
  from Cons.IH [OF s1(2)] paid_step [OF s1(1)] show ?case by (auto split: if_splits)
qed simp

section \<open>Properties\<close>

text \<open>No event follows a releasing event: in every legal event sequence a cancellation, an
expiry or a refund is the last event and the only one of its kind, so an order's inventory is
given back at most once.\<close>

theorem releasing_event_is_last:
  assumes "replay (es @ e # rest) = Inr r" and "releases_inventory e"
  shows "rest = [] \<and> (\<forall>e'\<in>set es. \<not> releases_inventory e')"
proof
  show "rest = []" using replay_from_releasing assms by (simp add: replay_def)
  show "\<forall>e'\<in>set es. \<not> releases_inventory e'"
  proof (rule ballI, rule notI)
    fix e' assume e': "e' \<in> set es" "releases_inventory e'"
    then obtain xs ys where "es = xs @ e' # ys" by (auto simp: in_set_conv_decomp)
    with assms(1) have "replay_from None (xs @ e' # (ys @ e # rest)) = Inr r" by (simp add: replay_def)
    from replay_from_releasing [OF this e'(2)] show False by simp
  qed
qed

theorem releasing_event_is_last_witness:
  "list_all (\<lambda>e. \<not> releases_inventory e) [OrderCreated, InventoryLocked, PaymentRequested]"
  using releasing_event_is_last [of "[OrderCreated, InventoryLocked, PaymentRequested]" OrderExpired "[]"
      "Some Expired"]
  by (simp add: replay_def releases_inventory_def)

text \<open>The status of an order says whether it was paid for: after a legal event sequence the
status is Paid, Ticketed, Boarded, Completed or Refunded exactly when the sequence holds one
payment capture, and no legal sequence holds two.\<close>

theorem captured_once_iff_paid:
  assumes "replay es = Inr (Some s)"
  shows "count_list es PaymentCaptured = (if paid_for s then 1 else 0)"
proof (cases es)
  case Nil
  with assms show ?thesis by (simp add: replay_def)
next
  case (Cons e es')
  with assms have "e = OrderCreated" "replay_from (Some Draft) es' = Inr (Some s)"
    by (auto simp: replay_def split: order_event_type.splits)
  with Cons capture_count_from [of Draft es' s] show ?thesis by (simp add: paid_for_def)
qed

theorem captured_once_iff_paid_witness:
  "count_list [OrderCreated, InventoryLocked, PaymentRequested, PaymentFailed, PaymentRequested,
     PaymentCaptured, TicketIssued] PaymentCaptured = (if paid_for Ticketed then 1 else 0)"
  by (rule captured_once_iff_paid) (simp add: replay_def)

text \<open>Statuses, event types and passenger types survive their text form: \<open>parse\<close> answers a
value exactly on the text \<open>as_str\<close> writes for it, so no two values share a text and every
other text is rejected.\<close>

theorem enum_texts_round_trip:
  "(status_parse t = Some s \<longleftrightarrow> t = status_as_str s)
   \<and> (event_parse t = Some e \<longleftrightarrow> t = event_as_str e)
   \<and> (passenger_parse t = Some p \<longleftrightarrow> t = passenger_as_str p)"
  by (simp only: status_codec.parse_iff event_codec.parse_iff passenger_codec.parse_iff)

text \<open>The transition table is unfolded only where a proof asks for it.\<close>

declare lifecycle_apply.simps [simp del]

end
