(* ===== verification/Schema.thy ===== *)
theory Schema
  imports Segment Order_Lifecycle
begin

unbundle bit_operations_syntax

text \<open>
  The PostgreSQL schema the booking engine runs on: \<open>crates/lulan-api/migrations/0002\<close> to
  \<open>0013\<close>. One record per table row, prefixed by the table's alias in the code's SQL, and one
  record \<open>db\<close> of the tables. Text columns stay strings, a nullable column is an option, a
  date is a day number, a \<open>timestamptz\<close> an \<open>instant\<close>. \<open>seat_occupancy.occupied_mask\<close> is a
  \<open>bigint\<close> that the code binds with \<open>as i64\<close> and reads with \<open>as u64\<close>: it is its 64 bits here.

  A transaction is a function from \<open>db\<close> to a result and the next \<open>db\<close>; rolling back is
  answering the \<open>db\<close> it started from. The only database errors in the model are the ones the
  statements themselves can cause: a unique key that exists already, a row that fails a
  \<open>CHECK\<close>, an \<open>integer\<close> out of range. A lost connection is not modelled.
\<close>

section \<open>Network tables\<close>

record location_row =
  lo_id :: uuid
  lo_code :: string
  lo_name :: string
  lo_timezone :: string

record route_row =
  ro_id :: uuid
  ro_code :: string
  ro_name :: string

record route_stop_row =
  rs_route :: uuid
  rs_stop_index :: int
  rs_location :: uuid
  rs_arrive_offset :: int
  rs_depart_offset :: int

record resource_row =
  re_id :: uuid
  re_code :: string
  re_name :: string
  re_kind :: string

record capacity_unit_row =
  cu_id :: uuid
  cu_resource :: uuid
  cu_kind :: string
  cu_code :: string
  cu_fare_class :: "string option"
  cu_pool_capacity :: "int option"
  cu_admission :: bool

record operator_row =
  op_id :: uuid
  op_code :: string
  op_name :: string

record trip_row =
  tr_id :: uuid
  tr_route :: uuid
  tr_resource :: uuid
  tr_service_date :: int
  tr_departs_at :: instant
  tr_segment_count :: int
  tr_operator :: "uuid option"
  tr_service_number :: "string option"
  tr_status :: string

record seat_occupancy_row =
  so_trip :: uuid
  so_unit :: uuid
  so_mask :: "64 word"

record pool_occupancy_row =
  pl_trip :: uuid
  pl_unit :: uuid
  pl_remaining :: "int list"

section \<open>Order tables\<close>

record order_row =
  ord_id :: uuid
  ord_passenger_name :: string
  ord_status :: string
  ord_total_minor :: int
  ord_currency :: string
  ord_payment_intent :: "string option"
  ord_expires_at :: "instant option"
  ord_customer :: "uuid option"
  ord_guest_contact :: "string option"
  ord_created_at :: instant
  ord_updated_at :: instant

record order_item_row =
  oi_order :: uuid
  oi_trip :: uuid
  oi_unit :: uuid
  oi_unit_code :: string
  oi_kind :: string
  oi_from_index :: int
  oi_to_index :: int
  oi_quantity :: int
  oi_price_minor :: int
  oi_passenger :: "uuid option"

record passenger_row =
  pa_id :: uuid
  pa_order :: uuid
  pa_full_name :: string
  pa_type :: string
  pa_birthdate :: "int option"
  pa_created_at :: instant

record order_ancillary_row =
  oa_id :: uuid
  oa_order :: uuid
  oa_ancillary :: uuid
  oa_code :: string
  oa_name :: string
  oa_trip :: "uuid option"
  oa_passenger :: "uuid option"
  oa_quantity :: int
  oa_total_minor :: int

record ticket_row =
  tk_id :: uuid
  tk_order :: uuid
  tk_passenger :: uuid
  tk_trip :: uuid
  tk_unit :: uuid
  tk_status :: string
  tk_token :: string
  tk_kid :: string
  tk_issued_at :: instant
  tk_boarded_at :: "instant option"

record scan_event_row =
  sc_ticket :: uuid
  sc_device :: string
  sc_scanned_at :: instant
  sc_result :: string

section \<open>Events and the outbox\<close>

text \<open>The payloads are the \<open>json!\<close> literals of the code, one constructor each.\<close>

record event_item =
  ev_item_trip :: uuid
  ev_item_unit_code :: string
  ev_item_kind :: string
  ev_item_from :: "8 word"
  ev_item_to :: "8 word"
  ev_item_quantity :: int
  ev_item_price_minor :: int

record event_passenger =
  ev_pax_id :: uuid
  ev_pax_full_name :: string
  ev_pax_type :: string
  ev_pax_birthdate :: "int option"

record event_ancillary =
  ev_anc_code :: string
  ev_anc_name :: string
  ev_anc_trip :: "uuid option"
  ev_anc_passenger :: "uuid option"
  ev_anc_quantity :: int
  ev_anc_total_minor :: int

record event_ticket =
  ev_tk_id :: uuid
  ev_tk_passenger :: uuid
  ev_tk_trip :: uuid
  ev_tk_unit_code :: string

datatype event_payload =
    EmptyPayload
  | CreatedPayload "uuid list" "event_passenger list" int string "event_item list" "event_ancillary list"
  | LockedPayload "event_item list" instant
  | IntentPayload string
  | TicketsPayload "event_ticket list" string
  | BoardedPayload bool uuid

record event_row =
  ev_sequence :: nat
  ev_stream_id :: uuid
  ev_stream_seq :: nat
  ev_type :: string
  ev_payload :: event_payload
  ev_occurred_at :: instant

record outbox_row =
  ob_id :: nat
  ob_event_sequence :: nat
  ob_delivered_at :: "instant option"

section \<open>The database\<close>

record db =
  locations :: "location_row list"
  routes :: "route_row list"
  route_stops :: "route_stop_row list"
  resources :: "resource_row list"
  capacity_units :: "capacity_unit_row list"
  operators :: "operator_row list"
  trips :: "trip_row list"
  seat_occupancy :: "seat_occupancy_row list"
  pool_occupancy :: "pool_occupancy_row list"
  orders :: "order_row list"
  order_items :: "order_item_row list"
  passengers :: "passenger_row list"
  order_ancillaries :: "order_ancillary_row list"
  tickets :: "ticket_row list"
  scan_events :: "scan_event_row list"
  events :: "event_row list"
  outbox :: "outbox_row list"

definition empty_db :: db where
  "empty_db = \<lparr>locations = [], routes = [], route_stops = [], resources = [], capacity_units = [],
     operators = [], trips = [], seat_occupancy = [], pool_occupancy = [], orders = [],
     order_items = [], passengers = [], order_ancillaries = [], tickets = [], scan_events = [],
     events = [], outbox = []\<rparr>"

datatype db_error =
    UniqueViolation string | CheckViolation string | ForeignKeyViolation string
  | IntegerOutOfRange | ColumnNull string | RowNotFound

text \<open>\<open>StoreError\<close> of \<open>inventory/store.rs\<close>.\<close>

datatype store_error =
    UnknownStop string
  | StopsOutOfOrder string string
  | TripNotSellable string
  | TripDeparted string instant
  | SpanInvalid span_error
  | UnreplayableStream uuid nat "string + transition_error"
  | Db db_error
  | StatusPanic string

section \<open>Columns with a declared width\<close>

text \<open>\<open>integer\<close> columns and results are checked by PostgreSQL, never wrapped.\<close>

definition pg_int4 :: "int \<Rightarrow> db_error + int" where
  "pg_int4 x = (if in_i32 x then Inr x else Inl IntegerOutOfRange)"

text \<open>\<open>row.try_get::<i16, _>(..)? as u8\<close>.\<close>

definition as_u8 :: "int \<Rightarrow> 8 word" where
  "as_u8 x = word_of_int x"

lemma as_u8_uint [simp]: "as_u8 (uint w) = w"
  by (simp add: as_u8_def)

text \<open>Array slices \<open>xs[lo:hi]\<close>: one-based, clipped to the array.\<close>

definition pg_slice :: "int \<Rightarrow> int \<Rightarrow> 'a list \<Rightarrow> 'a list" where
  "pg_slice lo hi xs = drop (nat (lo - 1)) (take (nat hi) xs)"

text \<open>\<open>(SELECT min(x) FROM unnest(xs) AS x)\<close>: NULL on no rows.\<close>

fun pg_min :: "int list \<Rightarrow> int option" where
  "pg_min [] = None"
| "pg_min (x # xs) = Some (fold min xs x)"

fun pg_max :: "int list \<Rightarrow> int option" where
  "pg_max [] = None"
| "pg_max (x # xs) = Some (fold max xs x)"

lemma pg_min_ge_iff: "(\<exists>m. pg_min xs = Some m \<and> q \<le> m) \<longleftrightarrow> xs \<noteq> [] \<and> (\<forall>x\<in>set xs. q \<le> x)"
  by (cases xs) (simp_all add: fold_min_ge_iff)

lemma pg_max_le_iff: "(\<exists>m. pg_max xs = Some m \<and> m \<le> q) \<longleftrightarrow> xs \<noteq> [] \<and> (\<forall>x\<in>set xs. x \<le> q)"
  by (cases xs) (simp_all add: fold_max_le_iff)

lemma fold_max_in: "fold max xs (x :: int) \<in> insert x (set xs)"
proof (induction xs arbitrary: x)
  case (Cons y ys)
  from Cons.IH [of "max y x"] show ?case by (auto simp: max_def split: if_splits)
qed simp

lemma pg_max_in: "pg_max xs = Some m \<Longrightarrow> m \<in> set xs"
  using fold_max_in by (cases xs) auto

lemma fold_min_in: "fold min xs (x :: int) \<in> insert x (set xs)"
proof (induction xs arbitrary: x)
  case (Cons y ys)
  from Cons.IH [of "min y x"] show ?case by (auto simp: min_def split: if_splits)
qed simp

lemma pg_min_in: "pg_min xs = Some m \<Longrightarrow> m \<in> set xs"
  using fold_min_in by (cases xs) auto

lemma pg_slice_nth:
  "set (pg_slice lo hi xs) = {xs ! i | i. nat (lo - 1) \<le> i \<and> i < nat hi \<and> i < length xs}"
proof -
  have "set (pg_slice lo hi xs) = (\<lambda>i. take (nat hi) xs ! i) ` {nat (lo - 1)..<length (take (nat hi) xs)}"
    unfolding pg_slice_def by (rule set_drop_conv)
  then show ?thesis by auto
qed

end
