(* ===== verification/Sample.thy ===== *)
theory Sample
  imports Schema
begin

text \<open>
  A small network the witnesses run on: the line A - B - C with a coach that has the seat 12A
  and the admission pool GA with ten places, and one trip over its two segments, as
  \<open>crates/lulan-api/src/seed.rs\<close> builds them (one seat row with an empty mask, one pool row
  at full capacity per segment).
\<close>

definition sample_trip_id :: uuid where "sample_trip_id = Uuid 100"
definition sample_seat_id :: uuid where "sample_seat_id = Uuid 200"
definition sample_pool_id :: uuid where "sample_pool_id = Uuid 201"

definition sample_db :: db where
  "sample_db = empty_db\<lparr>
     locations := [\<lparr>lo_id = Uuid 1, lo_code = ''A'', lo_name = ''Alpha'', lo_timezone = ''UTC''\<rparr>,
       \<lparr>lo_id = Uuid 2, lo_code = ''B'', lo_name = ''Beta'', lo_timezone = ''UTC''\<rparr>,
       \<lparr>lo_id = Uuid 3, lo_code = ''C'', lo_name = ''Gamma'', lo_timezone = ''UTC''\<rparr>],
     routes := [\<lparr>ro_id = Uuid 10, ro_code = ''R'', ro_name = ''Line''\<rparr>],
     route_stops := [
       \<lparr>rs_route = Uuid 10, rs_stop_index = 0, rs_location = Uuid 1, rs_arrive_offset = 0, rs_depart_offset = 0\<rparr>,
       \<lparr>rs_route = Uuid 10, rs_stop_index = 1, rs_location = Uuid 2, rs_arrive_offset = 30, rs_depart_offset = 35\<rparr>,
       \<lparr>rs_route = Uuid 10, rs_stop_index = 2, rs_location = Uuid 3, rs_arrive_offset = 60, rs_depart_offset = 60\<rparr>],
     resources := [\<lparr>re_id = Uuid 20, re_code = ''BUS1'', re_name = ''Coach'', re_kind = ''bus''\<rparr>],
     capacity_units := [
       \<lparr>cu_id = sample_seat_id, cu_resource = Uuid 20, cu_kind = ''seat'', cu_code = ''12A'',
        cu_fare_class = Some ''Y'', cu_pool_capacity = None, cu_admission = False\<rparr>,
       \<lparr>cu_id = sample_pool_id, cu_resource = Uuid 20, cu_kind = ''pool'', cu_code = ''GA'',
        cu_fare_class = None, cu_pool_capacity = Some 10, cu_admission = True\<rparr>],
     trips := [\<lparr>tr_id = sample_trip_id, tr_route = Uuid 10, tr_resource = Uuid 20, tr_service_date = 20000,
       tr_departs_at = hours 1000, tr_segment_count = 2, tr_operator = None, tr_service_number = None,
       tr_status = ''scheduled''\<rparr>],
     seat_occupancy := [\<lparr>so_trip = sample_trip_id, so_unit = sample_seat_id, so_mask = 0\<rparr>],
     pool_occupancy := [\<lparr>pl_trip = sample_trip_id, pl_unit = sample_pool_id, pl_remaining = [10, 10]\<rparr>]\<rparr>"

end
