(* ===== verification/Events.thy ===== *)
theory Events
  imports Schema
begin

text \<open>
  The append-only event log and its outbox: \<open>crates/lulan-engine/src/events/mod.rs\<close>.
  \<open>events_append\<close> inserts one event and its outbox row in the caller's transaction,
  \<open>events_stream\<close> reads one stream back, \<open>relay_once\<close> drains a batch of the outbox to a sink.
  The sink is code outside the engine (a trait object): it is the argument
  \<open>deliver :: event_row \<Rightarrow> bool\<close>, whether it acknowledges the event.

  Sequence columns (\<open>bigserial\<close>) count from one; the gaps a rolled back transaction leaves are
  not modelled, only the order matters. The locale \<open>event_log\<close> is what the order engine needs
  of the log: appending extends one stream and leaves the others alone.
\<close>

definition events_append :: "uuid \<Rightarrow> string \<Rightarrow> event_payload \<Rightarrow> instant \<Rightarrow> db \<Rightarrow> db" where
  "events_append stream_id event_type payload now d =
    (let sequence = Suc (length (events d));
         stream_seq = Suc (fold max (map ev_stream_seq (filter (\<lambda>e. ev_stream_id e = stream_id) (events d))) 0)
     in d\<lparr>events := events d @ [\<lparr>ev_sequence = sequence, ev_stream_id = stream_id,
             ev_stream_seq = stream_seq, ev_type = event_type, ev_payload = payload, ev_occurred_at = now\<rparr>],
          outbox := outbox d @ [\<lparr>ob_id = Suc (length (outbox d)), ob_event_sequence = sequence,
             ob_delivered_at = None\<rparr>]\<rparr>)"

definition events_stream :: "uuid \<Rightarrow> db \<Rightarrow> event_row list" where
  "events_stream stream_id d =
     sort_key ev_stream_seq (filter (\<lambda>e. ev_stream_id e = stream_id) (events d))"

text \<open>\<open>OrderStore::replay_status\<close> (\<open>orders/mod.rs\<close>): the loop over the stored stream.\<close>

fun replay_loop :: "uuid \<Rightarrow> order_status option \<Rightarrow> event_row list \<Rightarrow> store_error + order_status option" where
  "replay_loop sid state [] = Inr state"
| "replay_loop sid state (event # rest) =
     (case event_parse (ev_type event) of
        None \<Rightarrow> Inl (UnreplayableStream sid (ev_stream_seq event) (Inl (ev_type event)))
      | Some event_type \<Rightarrow>
          (case lifecycle_apply state event_type of
             Inl e \<Rightarrow> Inl (UnreplayableStream sid (ev_stream_seq event) (Inr e))
           | Inr next \<Rightarrow> replay_loop sid (Some next) rest))"

definition replay_status :: "uuid \<Rightarrow> db \<Rightarrow> store_error + order_status option" where
  "replay_status order_id d =
    (let stream = events_stream order_id d
     in if stream = [] then Inr None else replay_loop order_id None stream)"

text \<open>
  One pass of the relay. The rows are the first hundred undelivered ones in outbox order, joined
  with their events; the loop stops at the first event the sink does not take.
\<close>

definition relay_batch :: "db \<Rightarrow> (outbox_row \<times> event_row) list" where
  "relay_batch d = take 100 (concat (map (\<lambda>row.
       map (\<lambda>e. (row, e)) (filter (\<lambda>e. ev_sequence e = ob_event_sequence row) (events d)))
     (sort_key ob_id (filter (\<lambda>row. ob_delivered_at row = None) (outbox d)))))"

fun relay_loop :: "(event_row \<Rightarrow> bool) \<Rightarrow> instant \<Rightarrow> (outbox_row \<times> event_row) list \<Rightarrow>
    outbox_row list \<Rightarrow> outbox_row list \<times> nat" where
  "relay_loop deliver now [] ob = (ob, 0)"
| "relay_loop deliver now ((row, e) # rest) ob =
     (if deliver e then
        (let (ob', n) = relay_loop deliver now rest
               (update_where (\<lambda>r. ob_id r = ob_id row) (\<lambda>r. r\<lparr>ob_delivered_at := Some now\<rparr>) ob)
         in (ob', Suc n))
      else (ob, 0))"

definition relay_once :: "(event_row \<Rightarrow> bool) \<Rightarrow> instant \<Rightarrow> db \<Rightarrow> db \<times> nat" where
  "relay_once deliver now d =
    (let (ob, delivered) = relay_loop deliver now (relay_batch d) (outbox d)
     in (d\<lparr>outbox := ob\<rparr>, delivered))"

section \<open>The log as an interface\<close>

locale event_log =
  fixes append :: "uuid \<Rightarrow> string \<Rightarrow> 'p \<Rightarrow> 't \<Rightarrow> 'd \<Rightarrow> 'd"
    and types :: "uuid \<Rightarrow> 'd \<Rightarrow> string list"
    and ok :: "'d \<Rightarrow> bool"
  assumes append_ok: "ok d \<Longrightarrow> ok (append sid e p t d)"
    and types_append: "ok d \<Longrightarrow>
          types sid' (append sid e p t d) = types sid' d @ (if sid' = sid then [e] else [])"
begin

text \<open>The stream is the text of a legal event sequence that ends in a status.\<close>

definition replays :: "uuid \<Rightarrow> order_status option \<Rightarrow> 'd \<Rightarrow> bool" where
  "replays sid st d \<longleftrightarrow> (\<exists>es. types sid d = map event_as_str es \<and> replay es = Inr st)"

lemma replays_append:
  assumes "ok d" and "replays sid st d" and "lifecycle_apply st e = Inr s'"
  shows "replays sid (Some s') (append sid (event_as_str e) p t d)"
proof -
  obtain es where es: "types sid d = map event_as_str es" "replay es = Inr st"
    using assms(2) by (auto simp: replays_def)
  have "replay (es @ [e]) = Inr (Some s')" using es(2) assms(3) by (simp add: replay_snoc)
  then show ?thesis
    using es(1) types_append [OF assms(1), of sid sid] unfolding replays_def
    by (intro exI [of _ "es @ [e]"]) simp
qed

lemma replays_append_other:
  "ok d \<Longrightarrow> sid' \<noteq> sid \<Longrightarrow> replays sid' st (append sid e p t d) \<longleftrightarrow> replays sid' st d"
  by (simp add: replays_def types_append)

lemma replays_unique: "replays sid st d \<Longrightarrow> replays sid st' d \<Longrightarrow> st = st'"
  unfolding replays_def
  by (metis event_codec.parse_as_str inj_map_eq_map injI option.inject sum.inject(2))

end

section \<open>The stored log provides it\<close>

text \<open>Streams number their events from one, in the order of the log.\<close>

definition log_ok :: "db \<Rightarrow> bool" where
  "log_ok d \<longleftrightarrow>
     map ev_sequence (events d) = [1..<Suc (length (events d))]
   \<and> (\<forall>sid. map ev_stream_seq (filter (\<lambda>e. ev_stream_id e = sid) (events d))
            = [1..<Suc (length (filter (\<lambda>e. ev_stream_id e = sid) (events d)))])"

definition stream_types :: "uuid \<Rightarrow> db \<Rightarrow> string list" where
  "stream_types sid d = map ev_type (events_stream sid d)"

lemma log_ok_stream: "log_ok d \<Longrightarrow> events_stream sid d = filter (\<lambda>e. ev_stream_id e = sid) (events d)"
  unfolding events_stream_def log_ok_def
  by (intro sort_key_id_if_sorted) (simp only: sorted_upt)

lemma fold_max_upt: "fold max [1..<Suc n] (0 :: nat) = n"
  by (induction n) auto

lemma log_ok_next_seq:
  "log_ok d \<Longrightarrow> fold max (map ev_stream_seq (filter (\<lambda>e. ev_stream_id e = sid) (events d))) 0
    = length (filter (\<lambda>e. ev_stream_id e = sid) (events d))"
  by (simp only: log_ok_def fold_max_upt)

lemma log_ok_append: "log_ok d \<Longrightarrow> log_ok (events_append sid e p t d)"
proof -
  assume ok: "log_ok d"
  have seq: "map ev_sequence (events d) = [1..<Suc (length (events d))]"
    and str: "map ev_stream_seq (filter (\<lambda>e. ev_stream_id e = s) (events d))
      = [1..<Suc (length (filter (\<lambda>e. ev_stream_id e = s) (events d)))]" for s
    using ok unfolding log_ok_def by blast+
  show ?thesis
    unfolding log_ok_def events_append_def Let_def log_ok_next_seq [OF ok]
    by (simp add: seq str del: upt_Suc) (simp add: upt_Suc_append)
qed

lemma stream_types_append:
  "log_ok d \<Longrightarrow> stream_types sid' (events_append sid e p t d)
     = stream_types sid' d @ (if sid' = sid then [e] else [])"
  using log_ok_append [of d sid e p t]
  by (auto simp: stream_types_def log_ok_stream events_append_def Let_def)

interpretation evlog: event_log events_append stream_types log_ok
  by unfold_locales (fact log_ok_append, fact stream_types_append)

lemma events_append_frame [simp]:
  "orders (events_append sid e p t d) = orders d"
  "order_items (events_append sid e p t d) = order_items d"
  "passengers (events_append sid e p t d) = passengers d"
  "order_ancillaries (events_append sid e p t d) = order_ancillaries d"
  "seat_occupancy (events_append sid e p t d) = seat_occupancy d"
  "pool_occupancy (events_append sid e p t d) = pool_occupancy d"
  "capacity_units (events_append sid e p t d) = capacity_units d"
  "trips (events_append sid e p t d) = trips d"
  "tickets (events_append sid e p t d) = tickets d"
  "scan_events (events_append sid e p t d) = scan_events d"
  "route_stops (events_append sid e p t d) = route_stops d"
  "locations (events_append sid e p t d) = locations d"
  by (simp_all add: events_append_def Let_def)

lemma replay_loop_eq:
  "map ev_type es = map event_as_str ts \<Longrightarrow>
   replay_from st ts = Inr r \<Longrightarrow> replay_loop sid st es = Inr r"
proof (induction ts arbitrary: es st)
  case (Cons t ts)
  then obtain e es' where "es = e # es'" "ev_type e = event_as_str t" "map ev_type es' = map event_as_str ts"
    by (auto simp: Cons_eq_map_conv)
  with Cons show ?case by auto
qed simp

text \<open>What \<open>replay_status\<close> answers on a stream that replays.\<close>

lemma replay_status_replays: "evlog.replays sid st d \<Longrightarrow> replay_status sid d = Inr st"
proof -
  assume "evlog.replays sid st d"
  then obtain ts where ts: "map ev_type (events_stream sid d) = map event_as_str ts" "replay ts = Inr st"
    by (auto simp: evlog.replays_def stream_types_def)
  from ts(2) replay_loop_eq [OF ts(1), of None st sid] show ?thesis
    by (cases "events_stream sid d = []") (use ts in \<open>auto simp: replay_status_def replay_def\<close>)
qed

section \<open>The relay\<close>

definition undelivered :: "db \<Rightarrow> outbox_row list" where
  "undelivered d = filter (\<lambda>row. ob_delivered_at row = None) (outbox d)"

definition event_of :: "db \<Rightarrow> outbox_row \<Rightarrow> event_row" where
  "event_of d row = events d ! (ob_event_sequence row - 1)"

definition outbox_ok :: "db \<Rightarrow> bool" where
  "outbox_ok d \<longleftrightarrow> log_ok d \<and> map ob_id (outbox d) = [1..<Suc (length (outbox d))]
     \<and> (\<forall>row\<in>set (outbox d). 1 \<le> ob_event_sequence row \<and> ob_event_sequence row \<le> length (events d))"

definition mark_delivered :: "instant \<Rightarrow> nat set \<Rightarrow> outbox_row list \<Rightarrow> outbox_row list" where
  "mark_delivered now ids = update_where (\<lambda>r. ob_id r \<in> ids) (\<lambda>r. r\<lparr>ob_delivered_at := Some now\<rparr>)"

lemma outbox_ok_append: "outbox_ok d \<Longrightarrow> outbox_ok (events_append sid e p t d)"
proof -
  assume ok: "outbox_ok d"
  then have "map ob_id (outbox d) = [1..<Suc (length (outbox d))]" "log_ok d"
    "\<forall>row\<in>set (outbox d). 1 \<le> ob_event_sequence row \<and> ob_event_sequence row \<le> length (events d)"
    unfolding outbox_ok_def by blast+
  with log_ok_append [of d sid e p t] show ?thesis
    unfolding outbox_ok_def by (auto simp: events_append_def Let_def)
qed

lemma event_unique:
  assumes "log_ok d" and "1 \<le> n" and "n \<le> length (events d)"
  shows "filter (\<lambda>e. ev_sequence e = n) (events d) = [events d ! (n - 1)]"
proof -
  have seq: "map ev_sequence (events d) = [1..<Suc (length (events d))]"
    using assms(1) unfolding log_ok_def by blast
  have "ev_sequence (events d ! (n - 1)) = map ev_sequence (events d) ! (n - 1)"
    using assms(2,3) by (intro nth_map [symmetric]) simp
  also have "\<dots> = n" unfolding seq using assms(2,3) by (simp add: nth_append del: upt_Suc)
  finally have "ev_sequence (events d ! (n - 1)) = n" .
  moreover have "distinct (map ev_sequence (events d))" unfolding seq by simp
  ultimately show ?thesis
    using filter_distinct_key [of ev_sequence "events d" "events d ! (n - 1)"] assms(2,3) by simp
qed

lemma relay_batch_eq:
  assumes ok: "outbox_ok d"
  shows "relay_batch d = take 100 (map (\<lambda>row. (row, event_of d row)) (undelivered d))"
proof -
  have ids: "map ob_id (outbox d) = [1..<Suc (length (outbox d))]" and log: "log_ok d"
    and ref: "\<And>row. row \<in> set (outbox d) \<Longrightarrow>
      1 \<le> ob_event_sequence row \<and> ob_event_sequence row \<le> length (events d)"
    using ok unfolding outbox_ok_def by blast+
  have one: "filter (\<lambda>e. ev_sequence e = ob_event_sequence row) (events d) = [event_of d row]"
    if "row \<in> set (outbox d)" for row
    unfolding event_of_def using ref [OF that] by (intro event_unique [OF log]) simp_all
  have "sorted (map ob_id (outbox d))" unfolding ids by (simp only: sorted_upt)
  then have "sorted (map ob_id (undelivered d))" unfolding undelivered_def by (rule sorted_filter)
  then have "sort_key ob_id (undelivered d) = undelivered d" by (rule sort_key_id_if_sorted)
  moreover have "concat (map (\<lambda>row. map (Pair row) (filter (\<lambda>e. ev_sequence e = ob_event_sequence row) (events d))) rows)
      = map (\<lambda>row. (row, event_of d row)) rows" if "set rows \<subseteq> set (outbox d)" for rows
    using that by (induction rows) (simp_all add: one del: filter.simps)
  ultimately show ?thesis
    unfolding relay_batch_def undelivered_def [symmetric] by (simp add: undelivered_def)
qed

lemma relay_loop_eq:
  "relay_loop deliver now batch ob =
    (let n = length (takeWhile (\<lambda>x. deliver (snd x)) batch)
     in (mark_delivered now (set (map (\<lambda>x. ob_id (fst x)) (take n batch))) ob, n))"
proof (induction batch arbitrary: ob)
  case Nil
  then show ?case by (simp add: mark_delivered_def update_where_def)
next
  case (Cons x batch)
  obtain row e where x: "x = (row, e)" by force
  have "mark_delivered now A (update_where (\<lambda>r. ob_id r = i) (\<lambda>r. r\<lparr>ob_delivered_at := Some now\<rparr>) ob)
        = mark_delivered now (insert i A) ob" for A i
    by (auto simp: mark_delivered_def update_where_def)
  with x Cons.IH show ?case
    by (auto simp: Let_def mark_delivered_def update_where_def)
qed

lemma filter_mark_prefix:
  assumes "distinct (map ob_id rows)"
  shows "filter (\<lambda>r. ob_delivered_at r = None)
           (mark_delivered now (set (map ob_id (take n (filter (\<lambda>r. ob_delivered_at r = None) rows)))) rows)
         = drop n (filter (\<lambda>r. ob_delivered_at r = None) rows)"
  using assms
proof (induction rows arbitrary: n)
  case (Cons r rows)
  have fresh: "ob_id r \<notin> ob_id ` set (take m (filter P rows))" for m P
    using Cons.prems by (auto dest: in_set_takeD)
  have skip: "mark_delivered now (insert (ob_id r) A) rows = mark_delivered now A rows" for A
    using Cons.prems unfolding mark_delivered_def update_where_def
    by (intro map_cong) (auto simp: rev_image_eqI)
  show ?case
  proof (cases n)
    case 0
    then show ?thesis by (simp add: mark_delivered_def update_where_def)
  next
    case (Suc m)
    then show ?thesis
      using Cons.IH [of m] Cons.IH [of n] Cons.prems fresh [of n] skip
      by (auto simp: mark_delivered_def)
  qed
qed (simp add: mark_delivered_def)

text \<open>C38: The relay delivers in order and loses nothing: one pass acknowledges exactly the longest
accepted prefix of the first hundred undelivered events, in outbox order, and afterwards the
undelivered events are the previous ones less that prefix. No event is marked delivered that the
sink did not take, and none is skipped to reach a later one.\<close>

theorem relay_in_order:
  assumes "outbox_ok d" and "relay_once deliver now d = (d', n)"
  shows "n = length (takeWhile deliver (map (event_of d) (take 100 (undelivered d))))
       \<and> undelivered d' = drop n (undelivered d) \<and> events d' = events d"
proof -
  let ?batch = "map (\<lambda>row. (row, event_of d row)) (take 100 (undelivered d))"
  have ids: "map ob_id (outbox d) = [1..<Suc (length (outbox d))]"
    using assms(1) unfolding outbox_ok_def by blast
  have n: "n = length (takeWhile (\<lambda>x. deliver (snd x)) ?batch)"
    and d': "d' = d\<lparr>outbox := mark_delivered now (set (map (\<lambda>x. ob_id (fst x)) (take n ?batch))) (outbox d)\<rparr>"
    using assms(2) by (auto simp: relay_once_def relay_batch_eq [OF assms(1)] relay_loop_eq take_map Let_def)
  have "n \<le> 100" unfolding n using length_takeWhile_le [of "\<lambda>x. deliver (snd x)" ?batch] by simp
  then have "map (\<lambda>x. ob_id (fst x)) (take n ?batch) = map ob_id (take n (undelivered d))"
    by (simp add: take_map min_def)
  then have "undelivered d' = drop n (undelivered d)"
    using filter_mark_prefix [of "outbox d" now n] ids
    by (simp add: undelivered_def d' del: upt_Suc)
  then show ?thesis using n d' by (simp add: takeWhile_map comp_def)
qed

definition example_log :: db where
  "example_log = events_append (Uuid 1) ''order_cancelled'' EmptyPayload 8
     (events_append (Uuid 2) ''order_created'' EmptyPayload 7
       (events_append (Uuid 1) ''order_created'' EmptyPayload 5 empty_db))"

lemma example_log_ok: "outbox_ok example_log"
proof -
  have "outbox_ok empty_db" by (simp add: outbox_ok_def log_ok_def empty_db_def)
  then show ?thesis unfolding example_log_def by (intro outbox_ok_append)
qed

theorem relay_in_order_witness:
  "2 = length (takeWhile (\<lambda>e. ev_type e = ''order_created'')
         (map (event_of example_log) (take 100 (undelivered example_log))))
   \<and> undelivered (fst (relay_once (\<lambda>e. ev_type e = ''order_created'') 9 example_log))
     = drop 2 (undelivered example_log)
   \<and> events (fst (relay_once (\<lambda>e. ev_type e = ''order_created'') 9 example_log)) = events example_log"
proof (rule relay_in_order [OF example_log_ok])
  have "snd (relay_once (\<lambda>e. ev_type e = ''order_created'') 9 example_log) = 2" by code_simp
  then show "relay_once (\<lambda>e. ev_type e = ''order_created'') 9 example_log
    = (fst (relay_once (\<lambda>e. ev_type e = ''order_created'') 9 example_log), 2)"
    by (metis prod.collapse)
qed

end
