(* ===== verification/Network.thy ===== *)
theory Network
  imports Schema
begin

text \<open>
  Routes and journeys: \<open>crates/lulan-engine/src/domain/network.rs\<close> (\<open>Route\<close>),
  \<open>domain/capacity.rs\<close> (the kinds) and \<open>pick_span\<close> of \<open>inventory/store.rs\<close>. The lemmas say
  which pair of stops a journey resolves to.
\<close>

datatype resource_kind = Bus | Ferry | Aircraft | OtherResource

datatype capacity_unit_kind = Seat | PoolKind int

record route =
  route_id :: uuid
  route_code :: string
  route_name :: string
  route_stop_ids :: "uuid list"

text \<open>\<open>(self.stops.len().saturating_sub(1)) as u8\<close>.\<close>

definition route_segment_count :: "route \<Rightarrow> 8 word" where
  "route_segment_count r = of_nat (length (route_stop_ids r) - 1)"

text \<open>\<open>iter().position(..)\<close>.\<close>

fun position :: "('a \<Rightarrow> bool) \<Rightarrow> 'a list \<Rightarrow> nat option" where
  "position P [] = None"
| "position P (x # xs) = (if P x then Some 0 else map_option Suc (position P xs))"

definition span_between :: "route \<Rightarrow> uuid \<Rightarrow> uuid \<Rightarrow> (span_error + segment_span) option" where
  "span_between r origin destination =
     Option.bind (position (\<lambda>s. s = origin) (route_stop_ids r)) (\<lambda>from.
     Option.bind (position (\<lambda>s. s = destination) (route_stop_ids r)) (\<lambda>to.
       if from \<ge> to then None else Some (span_new (of_nat from) (of_nat to))))"

record stop =
  stop_code :: string
  stop_index :: int
  stop_depart_offset :: int

definition pick_span :: "stop list \<Rightarrow> string \<Rightarrow> string \<Rightarrow> store_error + (segment_span \<times> int)" where
  "pick_span stops origin destination =
    (let ordered = sort_key stop_index stops in
     and_then (ok_or (UnknownStop origin) (List.find (\<lambda>s. stop_code s = origin) ordered)) (\<lambda>from.
     if \<not> list_ex (\<lambda>s. stop_code s = destination) ordered then Inl (UnknownStop destination)
     else
       and_then (ok_or (StopsOutOfOrder origin destination)
         (List.find (\<lambda>s. stop_code s = destination \<and> stop_index s > stop_index from) ordered)) (\<lambda>to.
       and_then (map_err SpanInvalid (span_new (as_u8 (stop_index from)) (as_u8 (stop_index to)))) (\<lambda>span.
         Inr (span, stop_depart_offset from)))))"

section \<open>The first stop in order\<close>

lemma position_Some:
  "position P xs = Some i \<Longrightarrow> i < length xs \<and> P (xs ! i) \<and> (\<forall>j<i. \<not> P (xs ! j))"
proof (induction xs arbitrary: i)
  case (Cons x xs)
  then show ?case by (auto split: if_splits simp: nth_Cons split: nat.splits)
qed simp

lemma position_None: "position P xs = None \<longleftrightarrow> (\<forall>x\<in>set xs. \<not> P x)"
  by (induction xs) auto

text \<open>\<open>find\<close> on a sorted list answers a least element.\<close>

definition least_by :: "('a \<Rightarrow> int) \<Rightarrow> ('a \<Rightarrow> bool) \<Rightarrow> 'a list \<Rightarrow> 'a \<Rightarrow> bool" where
  "least_by f P xs x \<longleftrightarrow> x \<in> set xs \<and> P x \<and> (\<forall>y\<in>set xs. P y \<longrightarrow> f x \<le> f y)"

lemma find_sorted_least: "sorted (map f xs) \<Longrightarrow> List.find P xs = Some x \<Longrightarrow> least_by f P xs x"
  by (induction xs) (auto simp: least_by_def split: if_splits)

lemma find_sort_key_least: "List.find P (sort_key f xs) = Some x \<Longrightarrow> least_by f P xs x"
  using find_sorted_least [of f "sort_key f xs" P x] by (simp add: least_by_def)

lemma find_sort_key_None: "List.find P (sort_key f xs) = None \<longleftrightarrow> (\<forall>x\<in>set xs. \<not> P x)"
  by (auto simp: find_None_iff)

lemma uint_as_u8: "0 \<le> x \<Longrightarrow> x < 256 \<Longrightarrow> uint (as_u8 x) = x"
  by (simp add: as_u8_def uint_word_of_int)

section \<open>Properties\<close>

text \<open>A journey resolves to the earliest occurrence of its origin and the earliest later
occurrence of its destination, in stop order, so the closing leg of a loop is sold and the span is
never empty. It is refused exactly for an origin or a destination the route does not call at, a
destination that only comes before the origin, or a span past segment 64.\<close>

theorem pick_span_resolves:
  assumes idx: "\<forall>s\<in>set stops. 0 \<le> stop_index s \<and> stop_index s < 256"
  shows "case pick_span stops origin destination of
      Inr (span, offset) \<Rightarrow> (\<exists>from to.
          least_by stop_index (\<lambda>s. stop_code s = origin) stops from
        \<and> least_by stop_index (\<lambda>s. stop_code s = destination \<and> stop_index from < stop_index s) stops to
        \<and> uint (span_from span) = stop_index from \<and> uint (span_to span) = stop_index to
        \<and> offset = stop_depart_offset from \<and> valid_span span)
    | Inl (UnknownStop c) \<Rightarrow> c \<in> {origin, destination} \<and> c \<notin> stop_code ` set stops
    | Inl (StopsOutOfOrder a b) \<Rightarrow> a = origin \<and> b = destination
        \<and> (\<exists>from. least_by stop_index (\<lambda>s. stop_code s = origin) stops from
             \<and> (\<forall>s\<in>set stops. stop_code s = destination \<longrightarrow> stop_index s \<le> stop_index from))
    | Inl (SpanInvalid (TooLong to)) \<Rightarrow> 64 < to
    | Inl e \<Rightarrow> False"
proof -
  let ?o = "sort_key stop_index stops"
  show ?thesis
  proof (cases "List.find (\<lambda>s. stop_code s = origin) ?o")
    case None
    then have "origin \<notin> stop_code ` set stops" by (auto simp: find_sort_key_None)
    with None show ?thesis by (simp add: pick_span_def Let_def)
  next
    case (Some f)
    note fr = find_sort_key_least [OF Some]
    show ?thesis
    proof (cases "List.find (\<lambda>s. stop_code s = destination \<and> stop_index s > stop_index f) ?o")
      case None
      then have none: "\<forall>s\<in>set stops. stop_code s = destination \<longrightarrow> stop_index s \<le> stop_index f"
        by (auto simp: find_sort_key_None not_less)
      show ?thesis
      proof (cases "list_ex (\<lambda>s. stop_code s = destination) ?o")
        case True
        with None Some fr none show ?thesis by (auto simp: pick_span_def Let_def)
      next
        case False
        then have "destination \<notin> stop_code ` set stops" by (auto simp: list_ex_iff)
        with False Some show ?thesis by (simp add: pick_span_def Let_def)
      qed
    next
      case to_Some: (Some to)
      note to = find_sort_key_least [OF to_Some]
      have ex: "list_ex (\<lambda>s. stop_code s = destination) ?o"
        using to by (auto simp: least_by_def list_ex_iff)
      have u: "uint (as_u8 (stop_index f)) = stop_index f" "uint (as_u8 (stop_index to)) = stop_index to"
        using idx fr to by (auto simp: least_by_def intro: uint_as_u8)
      have less: "as_u8 (stop_index f) < as_u8 (stop_index to)"
        using to u by (simp add: least_by_def word_less_def)
      show ?thesis
      proof (cases "as_u8 (stop_index to) > MAX_SEGMENTS")
        case True
        then have "pick_span stops origin destination = Inl (SpanInvalid (TooLong (as_u8 (stop_index to))))"
          using less Some to_Some ex by (simp add: pick_span_def Let_def span_new_def)
        with True show ?thesis by (simp add: MAX_SEGMENTS_def)
      next
        case False
        define span where "span = \<lparr>span_from = as_u8 (stop_index f), span_to = as_u8 (stop_index to)\<rparr>"
        have "pick_span stops origin destination = Inr (span, stop_depart_offset f)"
          using False less Some to_Some ex by (simp add: pick_span_def Let_def span_new_def span_def)
        moreover have "valid_span span" using False less by (simp add: span_def valid_span_def)
        ultimately show ?thesis using fr to u by (auto simp: span_def)
      qed
    qed
  qed
qed

definition loop_stops :: "stop list" where
  "loop_stops = [\<lparr>stop_code = ''C'', stop_index = 2, stop_depart_offset = 50\<rparr>,
     \<lparr>stop_code = ''A'', stop_index = 0, stop_depart_offset = 0\<rparr>,
     \<lparr>stop_code = ''A'', stop_index = 3, stop_depart_offset = 80\<rparr>]"

theorem pick_span_resolves_witness:
  "pick_span loop_stops ''C'' ''A'' = Inr (\<lparr>span_from = 2, span_to = 3\<rparr>, 50)
   \<and> (\<exists>from to. least_by stop_index (\<lambda>s. stop_code s = ''C'') loop_stops from
        \<and> least_by stop_index (\<lambda>s. stop_code s = ''A'' \<and> stop_index from < stop_index s) loop_stops to
        \<and> uint (2 :: 8 word) = stop_index from \<and> uint (3 :: 8 word) = stop_index to)"
proof -
  have r: "pick_span loop_stops ''C'' ''A'' = Inr (\<lparr>span_from = 2, span_to = 3\<rparr>, 50)" by code_simp
  have idx: "\<forall>s\<in>set loop_stops. 0 \<le> stop_index s \<and> stop_index s < 256"
    by (simp add: loop_stops_def)
  from pick_span_resolves [OF idx, of "''C''" "''A''"] r show ?thesis by auto
qed

end
