(* ===== verification/Inventory.thy ===== *)
theory Inventory
  imports Ledger Network
begin

unbundle bit_operations_syntax

text \<open>
  Inventory against the source of truth: \<open>crates/lulan-engine/src/inventory/store.rs\<close>. First
  the guarded statements every sale goes through (\<open>claim_seat_exec\<close> and the three others), each
  the affected row's guard and new value plus the update of the table; then the gate
  \<open>resolve_target\<close>, the standalone claims and the availability queries.

  The seat masks and the pool counters interpret the contract \<open>occupancy_ledger\<close>: a seat row is
  sound for a multiset of spans that are pairwise disjoint and inside its mask, a pool row for a
  multiset of reservations whose total leaves no counter negative or above the capacity.
\<close>

section \<open>The guarded statements\<close>

definition seat_key :: "seat_occupancy_row \<Rightarrow> uuid \<times> uuid" where
  "seat_key r = (so_trip r, so_unit r)"

definition pool_key :: "pool_occupancy_row \<Rightarrow> uuid \<times> uuid" where
  "pool_key r = (pl_trip r, pl_unit r)"

definition seat_claim_row :: "segment_span \<Rightarrow> seat_occupancy_row \<Rightarrow> seat_occupancy_row option" where
  "seat_claim_row s r =
     (if so_mask r AND span_mask s = 0 then Some (r\<lparr>so_mask := so_mask r OR span_mask s\<rparr>) else None)"

definition seat_release_row :: "segment_span \<Rightarrow> seat_occupancy_row \<Rightarrow> seat_occupancy_row option" where
  "seat_release_row s r =
     (if so_mask r AND span_mask s = span_mask s
      then Some (r\<lparr>so_mask := so_mask r AND NOT (span_mask s)\<rparr>) else None)"

definition claim_seat_exec :: "uuid \<Rightarrow> uuid \<Rightarrow> segment_span \<Rightarrow> db \<Rightarrow> db \<times> nat" where
  "claim_seat_exec trip_id unit_id s d =
    (let (rows, n) = guarded_update (\<lambda>r. seat_key r = (trip_id, unit_id)) (seat_claim_row s) (seat_occupancy d)
     in (d\<lparr>seat_occupancy := rows\<rparr>, n))"

definition release_seat_exec :: "uuid \<Rightarrow> uuid \<Rightarrow> segment_span \<Rightarrow> db \<Rightarrow> db \<times> nat" where
  "release_seat_exec trip_id unit_id s d =
    (let (rows, n) = guarded_update (\<lambda>r. seat_key r = (trip_id, unit_id)) (seat_release_row s) (seat_occupancy d)
     in (d\<lparr>seat_occupancy := rows\<rparr>, n))"

text \<open>
  The bound parameters of the pool statements (\<open>$3 = from + 1\<close>, \<open>$4 = to\<close>) and the rewritten
  array: the counters at the one-based positions \<open>$3..$4\<close> change by \<open>delta\<close>.
\<close>

definition pool_lo :: "segment_span \<Rightarrow> int" where
  "pool_lo s = uint (span_from s) + 1"

definition pool_hi :: "segment_span \<Rightarrow> int" where
  "pool_hi s = uint (span_to s)"

definition pool_covered :: "segment_span \<Rightarrow> pool_occupancy_row \<Rightarrow> int list" where
  "pool_covered s r = pg_slice (pool_lo s) (pool_hi s) (pl_remaining r)"

definition pool_rewrite :: "segment_span \<Rightarrow> int \<Rightarrow> int list \<Rightarrow> int list" where
  "pool_rewrite s delta xs =
     map (\<lambda>(idx, val). if pool_lo s \<le> idx \<and> idx \<le> pool_hi s then val + delta else val)
       (zip [1..int (length xs)] xs)"

type_synonym pool_claim = "segment_span \<times> int"

definition pool_claim_row :: "pool_claim \<Rightarrow> pool_occupancy_row \<Rightarrow> pool_occupancy_row option" where
  "pool_claim_row c r = (case c of (s, qty) \<Rightarrow>
     (case pg_min (pool_covered s r) of
        None \<Rightarrow> None
      | Some m \<Rightarrow> if m \<ge> qty then Some (r\<lparr>pl_remaining := pool_rewrite s (- qty) (pl_remaining r)\<rparr>) else None))"

definition pool_release_row ::
  "(uuid \<Rightarrow> int option) \<Rightarrow> pool_claim \<Rightarrow> pool_occupancy_row \<Rightarrow> pool_occupancy_row option" where
  "pool_release_row capacity c r = (case c of (s, qty) \<Rightarrow>
     (case (pg_max (pool_covered s r), capacity (pl_unit r)) of
        (Some m, Some cap) \<Rightarrow>
          if m + qty \<le> cap then Some (r\<lparr>pl_remaining := pool_rewrite s qty (pl_remaining r)\<rparr>) else None
      | _ \<Rightarrow> None))"

text \<open>An update fails as a whole when a new value leaves \<open>integer\<close> or the table's \<open>CHECK\<close>.\<close>

definition pool_update :: "uuid \<Rightarrow> uuid \<Rightarrow> (pool_occupancy_row \<Rightarrow> pool_occupancy_row option) \<Rightarrow>
    db \<Rightarrow> db_error + db \<times> nat" where
  "pool_update trip_id unit_id f d =
    (let (rows, n) = guarded_update (\<lambda>r. pool_key r = (trip_id, unit_id)) f (pool_occupancy d)
     in if list_ex (\<lambda>r. list_ex (\<lambda>x. \<not> in_i32 x) (pl_remaining r)) rows then Inl IntegerOutOfRange
        else if list_ex (\<lambda>r. list_ex (\<lambda>x. x < 0) (pl_remaining r)) rows
        then Inl (CheckViolation ''pool_occupancy_remaining_check'')
        else Inr (d\<lparr>pool_occupancy := rows\<rparr>, n))"

definition claim_pool_exec :: "uuid \<Rightarrow> uuid \<Rightarrow> segment_span \<Rightarrow> int \<Rightarrow> db \<Rightarrow> db_error + db \<times> nat" where
  "claim_pool_exec trip_id unit_id s qty d = pool_update trip_id unit_id (pool_claim_row (s, qty)) d"

definition pool_capacity_of :: "db \<Rightarrow> uuid \<Rightarrow> int option" where
  "pool_capacity_of d unit_id =
     Option.bind (List.find (\<lambda>c. cu_id c = unit_id) (capacity_units d)) cu_pool_capacity"

definition release_pool_exec :: "uuid \<Rightarrow> uuid \<Rightarrow> segment_span \<Rightarrow> int \<Rightarrow> db \<Rightarrow> db_error + db \<times> nat" where
  "release_pool_exec trip_id unit_id s qty d =
     (if list_ex (\<lambda>r. pool_key r = (trip_id, unit_id) \<and>
             (case pg_max (pool_covered s r) of None \<Rightarrow> False | Some m \<Rightarrow> \<not> in_i32 (m + qty))) (pool_occupancy d)
      then Inl IntegerOutOfRange
      else pool_update trip_id unit_id (pool_release_row (pool_capacity_of d) (s, qty)) d)"

section \<open>What a row accounts for\<close>

definition seat_load :: "segment_span multiset \<Rightarrow> nat \<Rightarrow> nat" where
  "seat_load M i = size (filter_mset (\<lambda>s. i \<in> span_segments s) M)"

definition seat_held :: "seat_occupancy_row \<Rightarrow> segment_span multiset \<Rightarrow> bool" where
  "seat_held r M \<longleftrightarrow> (\<forall>s\<in>#M. valid_span s)
     \<and> (\<forall>i. seat_load M i \<le> (if bit (so_mask r) i then 1 else 0))"

definition pool_load :: "pool_claim multiset \<Rightarrow> nat \<Rightarrow> int" where
  "pool_load M i = (\<Sum>c\<in>#M. if i \<in> span_segments (fst c) then snd c else 0)"

definition pool_claim_valid :: "pool_claim \<Rightarrow> bool" where
  "pool_claim_valid c \<longleftrightarrow> valid_span (fst c) \<and> 0 < snd c"

definition pool_held :: "(uuid \<Rightarrow> int option) \<Rightarrow> pool_occupancy_row \<Rightarrow> pool_claim multiset \<Rightarrow> bool" where
  "pool_held capacity r M \<longleftrightarrow>
     (\<forall>c\<in>#M. pool_claim_valid c \<and> unat (span_from (fst c)) < length (pl_remaining r))
   \<and> (\<exists>cap. capacity (pl_unit r) = Some cap \<and> in_i32 cap
        \<and> (\<forall>i<length (pl_remaining r).
              0 \<le> pl_remaining r ! i \<and> pl_remaining r ! i + pool_load M i \<le> cap))"

lemma seat_load_add [simp]:
  "seat_load (add_mset s M) i = (if i \<in> span_segments s then 1 else 0) + seat_load M i"
  by (simp add: seat_load_def)

lemma pool_load_add [simp]:
  "pool_load (add_mset c M) i = (if i \<in> span_segments (fst c) then snd c else 0) + pool_load M i"
  by (simp add: pool_load_def)

lemma bit_span_mask_all: "valid_span s \<Longrightarrow> bit (span_mask s) i \<longleftrightarrow> i \<in> span_segments s"
proof (cases "i < 64")
  case False
  assume "valid_span s"
  with False show ?thesis
    by (auto simp: span_segments_def valid_span_nat dest: bit_imp_le_length)
qed (rule bit_span_mask)

lemma seat_release_guard:
  assumes "valid_span s"
  shows "m AND span_mask s = span_mask s \<longleftrightarrow> (\<forall>i\<in>span_segments s. bit m i)"
proof -
  have "i < 64" if "i \<in> span_segments s" for i
    using assms that by (auto simp: span_segments_def valid_span_nat)
  then show ?thesis by (auto simp: bit_eq_iff bit_and_iff bit_span_mask_all [OF assms])
qed

lemma bit_lt_64: "bit (w :: 64 word) i \<Longrightarrow> i < 64"
  using bit_imp_le_length [of w i] by simp

lemma pool_load_nonneg: "(\<And>c. c \<in># M \<Longrightarrow> 0 \<le> snd c) \<Longrightarrow> 0 \<le> pool_load M i"
  by (induction M) (auto simp: pool_load_def)

lemma length_pool_rewrite [simp]: "length (pool_rewrite s d xs) = length xs"
  by (simp add: pool_rewrite_def)

lemma nth_pool_rewrite [simp]:
  assumes "i < length xs"
  shows "pool_rewrite s d xs ! i = (if i \<in> span_segments s then xs ! i + d else xs ! i)"
proof -
  have "[1..int (length xs)] ! i = int i + 1" using assms by simp
  moreover have "pool_lo s \<le> 1 + int i \<and> 1 + int i \<le> pool_hi s \<longleftrightarrow> i \<in> span_segments s"
    unfolding pool_lo_def pool_hi_def span_segments_def uint_nat atLeastLessThan_iff by arith
  ultimately show ?thesis using assms by (simp add: pool_rewrite_def add.commute)
qed

lemma set_pool_covered:
  "set (pool_covered s r) = {pl_remaining r ! i | i. i \<in> span_segments s \<and> i < length (pl_remaining r)}"
proof -
  have "nat (pool_lo s - 1) = unat (span_from s)" "nat (pool_hi s) = unat (span_to s)"
    by (simp_all add: pool_lo_def pool_hi_def)
  then show ?thesis by (auto simp: pool_covered_def pg_slice_nth span_segments_def)
qed

lemma pool_covered_nonempty:
  "valid_span s \<Longrightarrow> pool_covered s r \<noteq> [] \<longleftrightarrow> unat (span_from s) < length (pl_remaining r)"
  unfolding set_empty [symmetric] set_pool_covered
  by (auto simp: span_segments_def valid_span_nat)

lemma pool_claim_row_Some:
  assumes "valid_span s"
  shows "pool_claim_row (s, qty) r = Some r' \<longleftrightarrow>
    unat (span_from s) < length (pl_remaining r)
    \<and> (\<forall>i\<in>span_segments s. i < length (pl_remaining r) \<longrightarrow> qty \<le> pl_remaining r ! i)
    \<and> r' = r\<lparr>pl_remaining := pool_rewrite s (- qty) (pl_remaining r)\<rparr>"
proof -
  have "pool_claim_row (s, qty) r = Some r' \<longleftrightarrow>
     (\<exists>m. pg_min (pool_covered s r) = Some m \<and> qty \<le> m) \<and> r' = r\<lparr>pl_remaining := pool_rewrite s (- qty) (pl_remaining r)\<rparr>"
    by (auto simp: pool_claim_row_def split: option.splits if_splits)
  then show ?thesis
    unfolding pg_min_ge_iff by (auto simp: pool_covered_nonempty [OF assms] set_pool_covered)
qed

lemma pool_release_row_Some:
  assumes "valid_span s" and "capacity (pl_unit r) = Some cap"
  shows "pool_release_row capacity (s, qty) r = Some r' \<longleftrightarrow>
    unat (span_from s) < length (pl_remaining r)
    \<and> (\<forall>i\<in>span_segments s. i < length (pl_remaining r) \<longrightarrow> pl_remaining r ! i + qty \<le> cap)
    \<and> r' = r\<lparr>pl_remaining := pool_rewrite s qty (pl_remaining r)\<rparr>"
proof -
  have "pool_release_row capacity (s, qty) r = Some r' \<longleftrightarrow>
     (\<exists>m. pg_max (pool_covered s r) = Some m \<and> m \<le> cap - qty) \<and> r' = r\<lparr>pl_remaining := pool_rewrite s qty (pl_remaining r)\<rparr>"
    using assms(2) by (auto simp: pool_release_row_def split: option.splits if_splits)
  then show ?thesis
    unfolding pg_max_le_iff by (auto simp: pool_covered_nonempty [OF assms(1)] set_pool_covered algebra_simps)
qed

section \<open>Both tables are ledgers\<close>

interpretation seat_ledger: occupancy_ledger seat_key seat_claim_row seat_release_row seat_held valid_span
proof
  show "seat_key r' = seat_key r" if "seat_claim_row c r = Some r'" for c r r'
    using that by (auto simp: seat_claim_row_def seat_key_def split: if_splits)
  show "seat_key r' = seat_key r" if "seat_release_row c r = Some r'" for c r r'
    using that by (auto simp: seat_release_row_def seat_key_def split: if_splits)
next
  fix c r M r' assume c: "valid_span c" and held: "seat_held r M" and claim: "seat_claim_row c r = Some r'"
  then have free: "\<forall>i\<in>span_segments c. \<not> bit (so_mask r) i"
    and r': "so_mask r' = so_mask r OR span_mask c"
    by (auto simp: seat_claim_row_def span_mask_and_zero_iff [OF c] split: if_splits)
  have "seat_load (add_mset c M) i \<le> (if bit (so_mask r') i then 1 else 0)" for i
    using held free r' by (auto simp: seat_held_def bit_or_iff bit_span_mask_all [OF c] split: if_splits)
  with c held show "seat_held r' (add_mset c M)" by (simp add: seat_held_def)
next
  fix r c M assume held: "seat_held r (add_mset c M)"
  then have c: "valid_span c" by (simp add: seat_held_def)
  have le: "(if i \<in> span_segments c then 1 else 0) + seat_load M i \<le> (if bit (so_mask r) i then 1 else 0)" for i
    using held by (simp add: seat_held_def)
  have owned: "\<forall>i\<in>span_segments c. bit (so_mask r) i"
    using le by (metis add_is_0 le_zero_eq one_neq_zero)
  define r' where "r' = r\<lparr>so_mask := so_mask r AND NOT (span_mask c)\<rparr>"
  have "seat_release_row c r = Some r'"
    using owned by (simp add: seat_release_row_def seat_release_guard [OF c] r'_def)
  moreover have "seat_held r' M"
  proof -
    have "seat_load M i \<le> (if bit (so_mask r') i then 1 else 0)" for i
      using le [of i] owned bit_lt_64 [of "so_mask r" i]
      by (auto simp: r'_def bit_and_iff bit_not_iff bit_span_mask_all [OF c] split: if_splits)
    with held show ?thesis by (simp add: seat_held_def)
  qed
  ultimately show "\<exists>r'. seat_release_row c r = Some r' \<and> seat_held r' M" by blast
next
  show "seat_held r M" if "seat_held r (add_mset c M)" for r c M
  proof -
    have valid: "\<forall>s\<in>#M. valid_span s"
      and le: "seat_load (add_mset c M) i \<le> (if bit (so_mask r) i then 1 else 0)" for i
      using that unfolding seat_held_def by (simp_all del: seat_load_add)
    have "seat_load M i \<le> (if bit (so_mask r) i then 1 else 0)" for i
      by (rule order_trans [OF _ le]) simp
    with valid show ?thesis unfolding seat_held_def by blast
  qed
qed

interpretation pool_ledger:
  occupancy_ledger pool_key pool_claim_row "pool_release_row capacity" "pool_held capacity" pool_claim_valid
  for capacity
proof
  show "pool_key r' = pool_key r" if "pool_claim_row c r = Some r'" for c r r'
    using that by (auto simp: pool_claim_row_def pool_key_def split: prod.splits option.splits if_splits)
  show "pool_key r' = pool_key r" if "pool_release_row capacity c r = Some r'" for c r r'
    using that by (auto simp: pool_release_row_def pool_key_def split: prod.splits option.splits if_splits)
next
  fix c r M r' assume c: "pool_claim_valid c" and held: "pool_held capacity r M" and claim: "pool_claim_row c r = Some r'"
  obtain s q where sq: "c = (s, q)" by force
  with claim c have r': "unat (span_from s) < length (pl_remaining r)"
    "\<And>i. i \<in> span_segments s \<Longrightarrow> i < length (pl_remaining r) \<Longrightarrow> q \<le> pl_remaining r ! i"
    "r' = r\<lparr>pl_remaining := pool_rewrite s (- q) (pl_remaining r)\<rparr>"
    by (auto simp: pool_claim_row_Some pool_claim_valid_def)
  with held c sq show "pool_held capacity r' (add_mset c M)"
    by (auto simp: pool_held_def pool_claim_valid_def)
next
  fix r c M assume held: "pool_held capacity r (add_mset c M)"
  obtain s q where sq: "c = (s, q)" by force
  from held sq have s: "valid_span s" "0 < q" "unat (span_from s) < length (pl_remaining r)"
    by (auto simp: pool_held_def pool_claim_valid_def)
  from held obtain cap where cap: "capacity (pl_unit r) = Some cap" "in_i32 cap"
    and all: "\<forall>i<length (pl_remaining r). 0 \<le> pl_remaining r ! i
      \<and> pl_remaining r ! i + pool_load (add_mset c M) i \<le> cap"
    unfolding pool_held_def by blast
  have le: "0 \<le> pl_remaining r ! i
      \<and> pl_remaining r ! i + ((if i \<in> span_segments s then q else 0) + pool_load M i) \<le> cap"
    if "i < length (pl_remaining r)" for i
    using all [rule_format, OF that] by (cases "i \<in> span_segments s") (simp_all add: sq)
  have nn: "0 \<le> pool_load M i" for i
    using held by (intro pool_load_nonneg) (auto simp: pool_held_def pool_claim_valid_def intro: less_imp_le)
  have room: "pl_remaining r ! i + q \<le> cap" if "i \<in> span_segments s" "i < length (pl_remaining r)" for i
    using le [OF that(2)] nn [of i] that(1) by simp
  define r' where "r' = r\<lparr>pl_remaining := pool_rewrite s q (pl_remaining r)\<rparr>"
  have "pool_release_row capacity c r = Some r'"
    using s room by (simp add: sq pool_release_row_Some [of s capacity r cap q, OF s(1) cap(1)] r'_def)
  moreover have "pool_held capacity r' M"
  proof -
    have "0 \<le> pl_remaining r' ! i \<and> pl_remaining r' ! i + pool_load M i \<le> cap"
      if "i < length (pl_remaining r')" for i
      using le [of i] s(2) that by (cases "i \<in> span_segments s") (simp_all add: r'_def)
    then show ?thesis using held cap by (auto simp: pool_held_def r'_def)
  qed
  ultimately show "\<exists>r'. pool_release_row capacity c r = Some r' \<and> pool_held capacity r' M" by blast
next
  fix r c M assume held: "pool_held capacity r (add_mset c M)"
  then have pos: "0 < snd c" by (simp add: pool_held_def pool_claim_valid_def)
  have "pool_load M i \<le> pool_load (add_mset c M) i" for i using pos by simp
  then have "x + pool_load (add_mset c M) i \<le> cap \<Longrightarrow> x + pool_load M i \<le> cap" for x i cap
    by (meson add_left_mono order_trans)
  with held show "pool_held capacity r M"
    unfolding pool_held_def by (auto simp del: pool_load_add)
qed

section \<open>The statements on sound tables\<close>

definition seats_ok :: "db \<Rightarrow> (uuid \<times> uuid \<Rightarrow> segment_span multiset) \<Rightarrow> bool" where
  "seats_ok d M \<longleftrightarrow> ledger_ok seat_key seat_held (seat_occupancy d) M"

definition pools_ok :: "db \<Rightarrow> (uuid \<times> uuid \<Rightarrow> pool_claim multiset) \<Rightarrow> bool" where
  "pools_ok d M \<longleftrightarrow> ledger_ok pool_key (pool_held (pool_capacity_of d)) (pool_occupancy d) M"

lemma pool_held_range:
  assumes "pool_held capacity r M" and "x \<in> set (pl_remaining r)"
  shows "in_i32 x \<and> \<not> x < 0"
proof -
  obtain i where i: "i < length (pl_remaining r)" "x = pl_remaining r ! i"
    using assms(2) by (auto simp: in_set_conv_nth)
  have "0 \<le> pool_load M i"
    using assms(1) by (intro pool_load_nonneg) (auto simp: pool_held_def pool_claim_valid_def intro: less_imp_le)
  with assms(1) i show ?thesis by (auto simp: pool_held_def in_i32_def dest!: spec [of _ i])
qed

lemma pool_update_ok:
  assumes "guarded_update (\<lambda>r. pool_key r = (t, u)) f (pool_occupancy d) = (rows, n)"
    and "ledger_ok pool_key (pool_held capacity) rows M"
  shows "pool_update t u f d = Inr (d\<lparr>pool_occupancy := rows\<rparr>, n)"
proof -
  have "\<forall>r\<in>set rows. \<forall>x\<in>set (pl_remaining r). in_i32 x \<and> \<not> x < 0"
    using assms(2) pool_held_range unfolding ledger_ok_def by blast
  then have "\<not> list_ex (\<lambda>r. list_ex (\<lambda>x. \<not> in_i32 x) (pl_remaining r)) rows"
    "\<not> list_ex (\<lambda>r. list_ex (\<lambda>x. x < 0) (pl_remaining r)) rows"
    unfolding list_ex_iff by blast+
  then show ?thesis unfolding pool_update_def assms(1) by simp
qed

lemma claim_seat_exec_rows:
  assumes ok: "seats_ok d M"
  obtains "claim_seat_exec t u s d = (d, 0)"
  | rows where "claim_seat_exec t u s d = (d\<lparr>seat_occupancy := rows\<rparr>, 1)"
      and "guarded_update (\<lambda>r. seat_key r = (t, u)) (seat_claim_row s) (seat_occupancy d) = (rows, 1)"
proof -
  obtain rows n where g: "guarded_update (\<lambda>r. seat_key r = (t, u)) (seat_claim_row s) (seat_occupancy d) = (rows, n)"
    by force
  have "n \<le> 1"
    using guarded_update_one [of seat_key "seat_occupancy d" "(t, u)" "seat_claim_row s"] ok g
    by (simp add: seats_ok_def ledger_ok_def)
  moreover have "rows = seat_occupancy d" if "n = 0"
    using guarded_update_none [of "\<lambda>r. seat_key r = (t, u)" "seat_claim_row s" "seat_occupancy d"] g that by simp
  ultimately show thesis
    using that g by (cases "n = 0") (auto simp: claim_seat_exec_def)
qed

lemma claim_seat_exec_ok:
  assumes ok: "seats_ok d M" and v: "valid_span s"
  obtains "claim_seat_exec t u s d = (d, 0)"
  | rows where "claim_seat_exec t u s d = (d\<lparr>seat_occupancy := rows\<rparr>, 1)"
      and "seats_ok (d\<lparr>seat_occupancy := rows\<rparr>) (M((t, u) := add_mset s (M (t, u))))"
      and "map seat_key rows = map seat_key (seat_occupancy d)" and "(t, u) \<in> seat_key ` set rows"
proof (rule claim_seat_exec_rows [OF ok, of t u s])
  fix rows assume c: "claim_seat_exec t u s d = (d\<lparr>seat_occupancy := rows\<rparr>, 1)"
    and g: "guarded_update (\<lambda>r. seat_key r = (t, u)) (seat_claim_row s) (seat_occupancy d) = (rows, 1)"
  have keys: "map seat_key rows = map seat_key (seat_occupancy d)"
    using guarded_update_keys [of "seat_claim_row s" seat_key "\<lambda>r. seat_key r = (t, u)" "seat_occupancy d"]
      seat_ledger.key_claim g by simp
  have "\<exists>r\<in>set (seat_occupancy d). seat_key r = (t, u)"
    using g count_where_zero [of "\<lambda>r. seat_key r = (t, u) \<and> seat_claim_row s r \<noteq> None" "seat_occupancy d"]
    by (auto simp: guarded_update_def)
  then have "(t, u) \<in> seat_key ` set rows" using keys by (metis image_eqI image_set)
  with c keys that(2) seat_ledger.ledger_claim [OF ok [unfolded seats_ok_def] v g]
  show thesis by (simp add: seats_ok_def)
qed (rule that(1))

lemma release_seat_exec_ok:
  assumes ok: "seats_ok d (M((t, u) := add_mset s (M (t, u))))" and "(t, u) \<in> seat_key ` set (seat_occupancy d)"
  obtains rows where "release_seat_exec t u s d = (d\<lparr>seat_occupancy := rows\<rparr>, 1)"
    and "seats_ok (d\<lparr>seat_occupancy := rows\<rparr>) M" and "map seat_key rows = map seat_key (seat_occupancy d)"
  using seat_ledger.ledger_release [OF ok [unfolded seats_ok_def] assms(2)]
  by (auto simp: release_seat_exec_def seats_ok_def)

lemma pool_capacity_of_pools [simp]: "pool_capacity_of (d\<lparr>pool_occupancy := rows\<rparr>) = pool_capacity_of d"
  by (simp add: pool_capacity_of_def fun_eq_iff)

lemma claim_pool_exec_ok:
  assumes ok: "pools_ok d M" and v: "pool_claim_valid (s, q)"
  obtains "claim_pool_exec t u s q d = Inr (d, 0)"
  | rows where "claim_pool_exec t u s q d = Inr (d\<lparr>pool_occupancy := rows\<rparr>, 1)"
      and "pools_ok (d\<lparr>pool_occupancy := rows\<rparr>) (M((t, u) := add_mset (s, q) (M (t, u))))"
      and "map pool_key rows = map pool_key (pool_occupancy d)" and "(t, u) \<in> pool_key ` set rows"
proof -
  obtain rows n where g: "guarded_update (\<lambda>r. pool_key r = (t, u)) (pool_claim_row (s, q)) (pool_occupancy d) = (rows, n)"
    by force
  have "n \<le> 1"
    using guarded_update_one [of pool_key "pool_occupancy d" "(t, u)" "pool_claim_row (s, q)"] ok g
    by (simp add: pools_ok_def ledger_ok_def)
  then consider "n = 0" | "n = 1" by linarith
  then show thesis
  proof cases
    case 1
    then have "rows = pool_occupancy d"
      using guarded_update_none [of "\<lambda>r. pool_key r = (t, u)" "pool_claim_row (s, q)" "pool_occupancy d"] g by simp
    with pool_update_ok [OF g] ok 1 show thesis
      by (intro that(1)) (simp add: claim_pool_exec_def pools_ok_def)
  next
    case 2
    note g = g [unfolded 2]
    have keys: "map pool_key rows = map pool_key (pool_occupancy d)"
      using guarded_update_keys [of "pool_claim_row (s, q)" pool_key "\<lambda>r. pool_key r = (t, u)" "pool_occupancy d"]
        pool_ledger.key_claim g by simp
    have "\<exists>r\<in>set (pool_occupancy d). pool_key r = (t, u)"
      using g count_where_zero [of "\<lambda>r. pool_key r = (t, u) \<and> pool_claim_row (s, q) r \<noteq> None" "pool_occupancy d"]
      by (auto simp: guarded_update_def)
    then have ex: "(t, u) \<in> pool_key ` set rows" using keys by (metis image_eqI image_set)
    note ok' = pool_ledger.ledger_claim [OF ok [unfolded pools_ok_def] v g]
    from pool_update_ok [OF g ok'] ok' keys ex show thesis
      by (intro that(2)) (simp_all add: claim_pool_exec_def pools_ok_def)
  qed
qed

lemma release_pool_exec_ok:
  assumes ok: "pools_ok d (M((t, u) := add_mset (s, q) (M (t, u))))" and ex: "(t, u) \<in> pool_key ` set (pool_occupancy d)"
  obtains rows where "release_pool_exec t u s q d = Inr (d\<lparr>pool_occupancy := rows\<rparr>, 1)"
    and "pools_ok (d\<lparr>pool_occupancy := rows\<rparr>) M" and "map pool_key rows = map pool_key (pool_occupancy d)"
proof -
  obtain rows where g: "guarded_update (\<lambda>r. pool_key r = (t, u)) (pool_release_row (pool_capacity_of d) (s, q))
      (pool_occupancy d) = (rows, 1)"
    and ok': "ledger_ok pool_key (pool_held (pool_capacity_of d)) rows M"
    and keys: "map pool_key rows = map pool_key (pool_occupancy d)"
    using pool_ledger.ledger_release [OF ok [unfolded pools_ok_def] ex] by blast
  have "in_i32 (m + q)" if r: "r \<in> set (pool_occupancy d)" "pool_key r = (t, u)"
    and m: "pg_max (pool_covered s r) = Some m" for r m
  proof -
    have held: "pool_held (pool_capacity_of d) r (add_mset (s, q) (M (t, u)))"
      using ok r by (auto simp: pools_ok_def ledger_ok_def)
    then obtain r' where r': "pool_release_row (pool_capacity_of d) (s, q) r = Some r'"
      using pool_ledger.held_release by blast
    then obtain cap where "pool_capacity_of d (pl_unit r) = Some cap" "m + q \<le> cap"
      using m by (auto simp: pool_release_row_def split: option.splits if_splits)
    moreover have "in_i32 cap" if "pool_capacity_of d (pl_unit r) = Some cap" for cap
      using held that by (auto simp: pool_held_def)
    moreover have "0 < q" using held by (simp add: pool_held_def pool_claim_valid_def)
    moreover have "0 \<le> m"
    proof -
      have "m \<in> set (pool_covered s r)"
        using m pg_max_in by blast
      then show ?thesis using pool_held_range [OF held] by (auto simp: set_pool_covered not_less)
    qed
    ultimately show ?thesis by (auto simp: in_i32_def)
  qed
  then have "\<not> list_ex (\<lambda>r. pool_key r = (t, u) \<and>
      (case pg_max (pool_covered s r) of None \<Rightarrow> False | Some m \<Rightarrow> \<not> in_i32 (m + q))) (pool_occupancy d)"
    by (auto simp: list_ex_iff split: option.splits)
  then have "release_pool_exec t u s q d = Inr (d\<lparr>pool_occupancy := rows\<rparr>, 1)"
    unfolding release_pool_exec_def using pool_update_ok [OF g ok'] by simp
  with that ok' keys show thesis by (simp add: pools_ok_def)
qed

end
