(* ===== verification/Availability.thy ===== *)
theory Availability
  imports Inventory Sample
begin

unbundle bit_operations_syntax

text \<open>
  The rest of \<open>crates/lulan-engine/src/inventory/store.rs\<close>: the gate every sale passes
  (\<open>resolve_target\<close>), the standalone claims with their three-way outcome, and the read side
  (occupancy in basis points, availability of a trip, search). A join is a list comprehension
  over the tables in the order the code names them; \<open>ORDER BY\<close> is a stable sort; texts are
  compared bytewise.
\<close>

section \<open>Standalone claims\<close>

datatype claim_outcome = Claimed | ClaimConflict | ClaimNotFound

definition disambiguate_seat :: "uuid \<Rightarrow> uuid \<Rightarrow> db \<Rightarrow> claim_outcome" where
  "disambiguate_seat trip_id unit_id d =
     (if count_where (\<lambda>r. so_trip r = trip_id \<and> so_unit r = unit_id) (seat_occupancy d) > 0
      then ClaimConflict else ClaimNotFound)"

definition claim_seat :: "uuid \<Rightarrow> uuid \<Rightarrow> segment_span \<Rightarrow> db \<Rightarrow> db \<times> claim_outcome" where
  "claim_seat trip_id unit_id s d =
    (let (d', n) = claim_seat_exec trip_id unit_id s d
     in if n = 1 then (d', Claimed) else (d', disambiguate_seat trip_id unit_id d'))"

definition release_seat :: "uuid \<Rightarrow> uuid \<Rightarrow> segment_span \<Rightarrow> db \<Rightarrow> db \<times> claim_outcome" where
  "release_seat trip_id unit_id s d =
    (let (d', n) = release_seat_exec trip_id unit_id s d
     in if n = 1 then (d', Claimed) else (d', disambiguate_seat trip_id unit_id d'))"

definition claim_pool :: "uuid \<Rightarrow> uuid \<Rightarrow> segment_span \<Rightarrow> int \<Rightarrow> db \<Rightarrow> store_error + db \<times> claim_outcome" where
  "claim_pool trip_id unit_id s qty d =
    (if qty \<le> 0 then Inr (d, ClaimConflict)
     else and_then (map_err Db (claim_pool_exec trip_id unit_id s qty d)) (\<lambda>(d', n).
       if n = 1 then Inr (d', Claimed)
       else if count_where (\<lambda>r. pl_trip r = trip_id \<and> pl_unit r = unit_id) (pool_occupancy d') > 0
       then Inr (d', ClaimConflict) else Inr (d', ClaimNotFound)))"

section \<open>The gate\<close>

definition route_stops_of :: "uuid \<Rightarrow> string list \<Rightarrow> db \<Rightarrow> stop list" where
  "route_stops_of route codes d = sort_key stop_index
     [\<lparr>stop_code = lo_code l, stop_index = rs_stop_index rs, stop_depart_offset = rs_depart_offset rs\<rparr>.
        rs \<leftarrow> route_stops d, l \<leftarrow> locations d,
        lo_id l = rs_location rs \<and> rs_route rs = route \<and> lo_code l \<in> set codes]"

definition resolve_span :: "uuid \<Rightarrow> string \<Rightarrow> string \<Rightarrow> db \<Rightarrow> store_error + (segment_span \<times> int)" where
  "resolve_span route origin destination d =
     pick_span (route_stops_of route [origin, destination] d) origin destination"

record claim_target =
  ct_unit_id :: uuid
  ct_kind :: string
  ct_fare_class :: "string option"
  ct_span :: segment_span

definition fare_key :: "claim_target \<Rightarrow> string \<Rightarrow> string" where
  "fare_key target unit_code = (case ct_fare_class target of Some fc \<Rightarrow> fc | None \<Rightarrow> unit_code)"

definition resolve_target ::
  "instant \<Rightarrow> uuid \<Rightarrow> string \<Rightarrow> string \<Rightarrow> string \<Rightarrow> db \<Rightarrow> store_error + claim_target option" where
  "resolve_target now trip_id unit_code origin destination d =
    (case [(cu, t). t \<leftarrow> trips d, cu \<leftarrow> capacity_units d,
             cu_resource cu = tr_resource t \<and> cu_code cu = unit_code \<and> tr_id t = trip_id] of
       [] \<Rightarrow> Inr None
     | (cu, t) # _ \<Rightarrow>
         if tr_status t \<noteq> ''scheduled'' then Inl (TripNotSellable (tr_status t))
         else and_then (resolve_span (tr_route t) origin destination d) (\<lambda>(span, depart_offset).
           let boards_at = tr_departs_at t + minutes depart_offset
           in if boards_at \<le> now then Inl (TripDeparted origin boards_at)
              else Inr (Some \<lparr>ct_unit_id = cu_id cu, ct_kind = cu_kind cu,
                     ct_fare_class = cu_fare_class cu, ct_span = span\<rparr>)))"

section \<open>Reads\<close>

definition unit_fare_class :: "db \<Rightarrow> uuid \<Rightarrow> string option" where
  "unit_fare_class d unit_id =
     Option.bind (List.find (\<lambda>c. cu_id c = unit_id) (capacity_units d)) cu_fare_class"

text \<open>\<open>fare_class = NULL\<close> selects no row. The divisions are \<open>i64\<close> divisions by a positive number.\<close>

definition span_occupancy_bp :: "uuid \<Rightarrow> uuid \<Rightarrow> string \<Rightarrow> segment_span \<Rightarrow> db \<Rightarrow> int" where
  "span_occupancy_bp trip_id unit_id kind s d =
    (if kind = ''seat'' then
       (let rows = [so. so \<leftarrow> seat_occupancy d, cu \<leftarrow> capacity_units d,
              cu_id cu = so_unit so \<and> so_trip so = trip_id
              \<and> cu_fare_class cu \<noteq> None \<and> cu_fare_class cu = unit_fare_class d unit_id];
            sold = int (count_where (\<lambda>so. so_mask so AND span_mask s \<noteq> 0) rows);
            total = int (length rows)
        in if total = 0 then 0 else trunc_div (i64 (sold * 10000)) total)
     else
       (case [(po, cu). po \<leftarrow> pool_occupancy d, cu \<leftarrow> capacity_units d,
                cu_id cu = pl_unit po \<and> pl_trip po = trip_id \<and> pl_unit po = unit_id] of
          [] \<Rightarrow> 0
        | (po, cu) # _ \<Rightarrow>
            let remaining = (case pg_min (pool_covered s po) of None \<Rightarrow> 0 | Some m \<Rightarrow> m);
                capacity = (case cu_pool_capacity cu of None \<Rightarrow> 0 | Some c \<Rightarrow> c)
            in if capacity \<le> 0 then 0
               else trunc_div (i64 (i32 (capacity - remaining) * 10000)) capacity))"

definition seat_count :: "uuid \<Rightarrow> db \<Rightarrow> nat" where
  "seat_count trip_id d = length [so. so \<leftarrow> seat_occupancy d, cu \<leftarrow> capacity_units d,
     cu_id cu = so_unit so \<and> so_trip so = trip_id \<and> cu_kind cu = ''seat'']"

definition seat_mask :: "uuid \<Rightarrow> uuid \<Rightarrow> db \<Rightarrow> 64 word option" where
  "seat_mask trip_id unit_id d =
     map_option so_mask (List.find (\<lambda>r. so_trip r = trip_id \<and> so_unit r = unit_id) (seat_occupancy d))"

record fare_availability =
  fa_fare_class :: string
  fa_available :: nat
  fa_total :: nat

record pool_availability_entry =
  pv_code :: string
  pv_remaining :: int

record seat_availability =
  sv_unit_id :: uuid
  sv_code :: string
  sv_fare_class :: string
  sv_available :: bool
  sv_held :: bool

record trip_availability_report =
  ta_trip_id :: uuid
  ta_origin :: string
  ta_destination :: string
  ta_from_index :: "8 word"
  ta_to_index :: "8 word"
  ta_seats :: "seat_availability list"
  ta_pools :: "pool_availability_entry list"

definition pool_remaining_over :: "segment_span \<Rightarrow> pool_occupancy_row \<Rightarrow> int" where
  "pool_remaining_over s po = (case pg_min (pool_covered s po) of None \<Rightarrow> 0 | Some m \<Rightarrow> m)"

definition pool_availability :: "uuid \<Rightarrow> segment_span \<Rightarrow> db \<Rightarrow> pool_availability_entry list" where
  "pool_availability trip_id s d =
     map (\<lambda>(cu, po). \<lparr>pv_code = cu_code cu, pv_remaining = pool_remaining_over s po\<rparr>)
       (sort_key (\<lambda>(cu, po). cu_code cu)
         [(cu, po). po \<leftarrow> pool_occupancy d, cu \<leftarrow> capacity_units d,
            cu_id cu = pl_unit po \<and> pl_trip po = trip_id])"

text \<open>Reading a NULL \<open>fare_class\<close> into a \<open>String\<close> is a decoding error of the driver.\<close>

definition seat_availability_rows ::
  "uuid \<Rightarrow> segment_span \<Rightarrow> db \<Rightarrow> store_error + seat_availability list" where
  "seat_availability_rows trip_id s d =
     try_map (\<lambda>(cu, so). and_then (ok_or (Db (ColumnNull ''fare_class'')) (cu_fare_class cu)) (\<lambda>fc.
         Inr \<lparr>sv_unit_id = cu_id cu, sv_code = cu_code cu, sv_fare_class = fc,
              sv_available = (so_mask so AND span_mask s = 0), sv_held = False\<rparr>))
       (sort_key (\<lambda>(cu, so). cu_code cu)
         [(cu, so). so \<leftarrow> seat_occupancy d, cu \<leftarrow> capacity_units d,
            cu_id cu = so_unit so \<and> so_trip so = trip_id])"

definition trip_availability ::
  "uuid \<Rightarrow> string \<Rightarrow> string \<Rightarrow> db \<Rightarrow> store_error + trip_availability_report option" where
  "trip_availability trip_id origin destination d =
    (case List.find (\<lambda>t. tr_id t = trip_id) (trips d) of
       None \<Rightarrow> Inr None
     | Some trip \<Rightarrow>
         and_then (resolve_span (tr_route trip) origin destination d) (\<lambda>(span, _).
         and_then (seat_availability_rows trip_id span d) (\<lambda>seats.
           Inr (Some \<lparr>ta_trip_id = trip_id, ta_origin = origin, ta_destination = destination,
              ta_from_index = span_from span, ta_to_index = span_to span,
              ta_seats = seats, ta_pools = pool_availability trip_id span d\<rparr>))))"

section \<open>Search\<close>

text \<open>\<open>u64::trailing_zeros\<close> and \<open>u64::BITS - leading_zeros\<close>, at most 64 both.\<close>

definition trailing_zeros :: "64 word \<Rightarrow> nat" where
  "trailing_zeros m = length (takeWhile (\<lambda>i. \<not> bit m i) [0..<64])"

definition bit_width :: "64 word \<Rightarrow> nat" where
  "bit_width m = 64 - length (takeWhile (\<lambda>i. \<not> bit m i) (rev [0..<64]))"

text \<open>The batch queries group by trip: the result is the map from trips to their entries.\<close>

definition fare_availability_batch ::
  "(uuid \<times> 64 word) list \<Rightarrow> db \<Rightarrow> store_error + (uuid \<Rightarrow> fare_availability list option)" where
  "fare_availability_batch spans d =
    (let rows = [(trip, cu_fare_class cu, so_mask so AND q_mask = 0).
           (trip, q_mask) \<leftarrow> spans, so \<leftarrow> seat_occupancy d, cu \<leftarrow> capacity_units d,
           so_trip so = trip \<and> cu_id cu = so_unit so];
         groups = remdups (map (\<lambda>(trip, fc, _). (trip, fc)) rows)
     in and_then (try_map (\<lambda>(trip, fc).
            and_then (ok_or (Db (ColumnNull ''fare_class'')) fc) (\<lambda>f. Inr (trip, f))) groups) (\<lambda>named.
        Inr (\<lambda>trip.
          (let here = filter (\<lambda>g. fst g = trip) (sort_key (\<lambda>g. g) named)
           in if here = [] then None
              else Some (map (\<lambda>(t, f).
                \<lparr>fa_fare_class = f,
                 fa_available = count_where (\<lambda>(t', f', free). t' = t \<and> f' = Some f \<and> free) rows,
                 fa_total = count_where (\<lambda>(t', f', free). t' = t \<and> f' = Some f) rows\<rparr>) here)))))"

definition pool_availability_batch ::
  "(uuid \<times> 64 word) list \<Rightarrow> db \<Rightarrow> uuid \<Rightarrow> pool_availability_entry list option" where
  "pool_availability_batch spans d trip =
    (let rows = [(cu, q_mask, po). (t, q_mask) \<leftarrow> spans, po \<leftarrow> pool_occupancy d, cu \<leftarrow> capacity_units d,
           t = trip \<and> pl_trip po = t \<and> cu_id cu = pl_unit po]
     in if rows = [] then None
        else Some (map (\<lambda>(cu, q_mask, po). \<lparr>pv_code = cu_code cu,
            pv_remaining = (case pg_min (pg_slice (int (trailing_zeros q_mask) + 1) (int (bit_width q_mask)) (pl_remaining po)) of
               None \<Rightarrow> 0 | Some m \<Rightarrow> m)\<rparr>)
          (sort_key (\<lambda>(cu, q_mask, po). cu_code cu) rows)))"

record trip_summary =
  ts_trip_id :: uuid
  ts_route_code :: string
  ts_operator :: "(string \<times> string) option"
  ts_service_number :: "string option"
  ts_vehicle :: "string \<times> string \<times> string"
  ts_origin :: string
  ts_destination :: string
  ts_departs_at :: instant
  ts_arrives_at :: "instant option"
  ts_duration_minutes :: "int option"
  ts_from_index :: "8 word"
  ts_to_index :: "8 word"
  ts_seats :: "fare_availability list"
  ts_pools :: "pool_availability_entry list"

text \<open>The joined row of a hit: trip, route, vehicle, carrier and the two stops.\<close>

definition search_rows :: "string \<Rightarrow> string \<Rightarrow> int \<Rightarrow> nat \<Rightarrow> db \<Rightarrow>
    (trip_row \<times> route_row \<times> resource_row \<times> operator_row option \<times> route_stop_row \<times> route_stop_row) list" where
  "search_rows origin destination date lim d = take lim (sort_key (\<lambda>(t, _). tr_departs_at t)
     [(t, r, res, List.find (\<lambda>op. tr_operator t = Some (op_id op)) (operators d), os, ds).
        t \<leftarrow> trips d, r \<leftarrow> routes d, res \<leftarrow> resources d, os \<leftarrow> route_stops d, lo \<leftarrow> locations d,
        ds \<leftarrow> route_stops d, ld \<leftarrow> locations d,
        ro_id r = tr_route t \<and> re_id res = tr_resource t \<and> rs_route os = ro_id r
        \<and> lo_id lo = rs_location os \<and> lo_code lo = origin \<and> rs_route ds = ro_id r
        \<and> lo_id ld = rs_location ds \<and> lo_code ld = destination
        \<and> rs_stop_index os < rs_stop_index ds \<and> tr_service_date t = date
        \<and> tr_status t = ''scheduled''])"

definition search_hit :: "string \<Rightarrow> string \<Rightarrow>
    trip_row \<times> route_row \<times> resource_row \<times> operator_row option \<times> route_stop_row \<times> route_stop_row \<Rightarrow>
    store_error + trip_summary \<times> (uuid \<times> 64 word)" where
  "search_hit origin destination row = (case row of (t, r, res, op, os, ds) \<Rightarrow>
     and_then (map_err SpanInvalid (span_new (as_u8 (rs_stop_index os)) (as_u8 (rs_stop_index ds)))) (\<lambda>span.
       let depart_offset = rs_depart_offset os; arrive_offset = rs_arrive_offset ds;
           arrives = tr_departs_at t + minutes arrive_offset;
           departs = tr_departs_at t + minutes depart_offset
       in Inr (\<lparr>ts_trip_id = tr_id t, ts_route_code = ro_code r,
            ts_operator = map_option (\<lambda>c. (op_code c, op_name c)) op,
            ts_service_number = tr_service_number t,
            ts_vehicle = (re_code res, re_name res, re_kind res),
            ts_origin = origin, ts_destination = destination,
            ts_departs_at = departs,
            ts_arrives_at = (if arrive_offset > depart_offset then Some arrives else None),
            ts_duration_minutes =
              (if arrive_offset > depart_offset then Some (trunc_div (arrives - departs) (minutes 1)) else None),
            ts_from_index = span_from span, ts_to_index = span_to span, ts_seats = [], ts_pools = []\<rparr>,
          (tr_id t, span_mask span))))"

text \<open>\<open>seats.remove(&trip_id).unwrap_or_default()\<close>: a trip listed twice gets its entries once.\<close>

fun attach_availability :: "(uuid \<Rightarrow> fare_availability list option) \<Rightarrow>
    (uuid \<Rightarrow> pool_availability_entry list option) \<Rightarrow> trip_summary list \<Rightarrow> trip_summary list" where
  "attach_availability seats pools [] = []"
| "attach_availability seats pools (t # ts) =
     t\<lparr>ts_seats := (case seats (ts_trip_id t) of None \<Rightarrow> [] | Some s \<Rightarrow> s),
       ts_pools := (case pools (ts_trip_id t) of None \<Rightarrow> [] | Some p \<Rightarrow> p)\<rparr>
     # attach_availability (seats(ts_trip_id t := None)) (pools(ts_trip_id t := None)) ts"

definition search_trips :: "string \<Rightarrow> string \<Rightarrow> int \<Rightarrow> nat \<Rightarrow> db \<Rightarrow> store_error + trip_summary list" where
  "search_trips origin destination date lim d =
     and_then (try_map (search_hit origin destination) (search_rows origin destination date lim d)) (\<lambda>hits.
     and_then (fare_availability_batch (map snd hits) d) (\<lambda>seats.
       Inr (attach_availability seats (pool_availability_batch (map snd hits) d) (map fst hits))))"

section \<open>What the listings promise\<close>

lemma seat_listed:
  assumes "seat_availability_rows t s d = Inr seats" and "e \<in> set seats"
  obtains so where "so \<in> set (seat_occupancy d)" and "seat_key so = (t, sv_unit_id e)"
    and "sv_available e \<longleftrightarrow> so_mask so AND span_mask s = 0"
  using try_map_set [OF assms(1) [unfolded seat_availability_rows_def] assms(2)]
  by (auto simp: seat_key_def split: if_splits)

lemma claim_seat_exec_count:
  assumes "distinct (map seat_key (seat_occupancy d))" and "so \<in> set (seat_occupancy d)"
  shows "snd (claim_seat_exec (so_trip so) (so_unit so) s d) = (if so_mask so AND span_mask s = 0 then 1 else 0)"
  using guarded_update_hit(1) [OF assms, of "(so_trip so, so_unit so)" "seat_claim_row s"]
  by (auto simp: claim_seat_exec_def seat_key_def seat_claim_row_def split: prod.splits)

lemma pool_remaining_claimable:
  "0 < q \<Longrightarrow> q \<le> pool_remaining_over s po \<longleftrightarrow> pool_claim_row (s, q) po \<noteq> None"
  by (auto simp: pool_remaining_over_def pool_claim_row_def split: option.splits)


text \<open>The lowest and the highest set bit of a span's mask are its ends.\<close>

lemma takeWhile_upt_lower:
  "k \<le> n \<Longrightarrow> (\<And>i. i < k \<Longrightarrow> P i) \<Longrightarrow> k = n \<or> \<not> P k \<Longrightarrow> takeWhile P [0..<n] = [0..<k]"
proof (induction n)
  case (Suc n)
  then show ?case by (cases "k \<le> n") (auto simp: takeWhile_append not_le le_Suc_eq)
qed simp

lemma takeWhile_rev_upt:
  assumes "k \<le> n" and "\<And>i. k \<le> i \<Longrightarrow> i < n \<Longrightarrow> P i" and "k = 0 \<or> \<not> P (k - 1)"
  shows "length (takeWhile P (rev [0..<n])) = n - k"
  using assms
proof (induction n)
  case (Suc n)
  show ?case
  proof (cases "k = Suc n")
    case True
    with Suc.prems(3) show ?thesis by simp
  next
    case False
    with Suc.prems have "k \<le> n" "P n" by simp_all
    with Suc show ?thesis by (simp add: Suc_diff_le)
  qed
qed simp

lemma span_mask_ends:
  assumes v: "valid_span s"
  shows "trailing_zeros (span_mask s) = unat (span_from s)" and "bit_width (span_mask s) = unat (span_to s)"
proof -
  note n = v [unfolded valid_span_nat]
  have "takeWhile (\<lambda>i. \<not> bit (span_mask s) i) [0..<64] = [0..<unat (span_from s)]"
    using n by (intro takeWhile_upt_lower) (auto simp: bit_span_mask_all [OF v] span_segments_def)
  then show "trailing_zeros (span_mask s) = unat (span_from s)" by (simp add: trailing_zeros_def)
  have "length (takeWhile (\<lambda>i. \<not> bit (span_mask s) i) (rev [0..<64])) = 64 - unat (span_to s)"
    using n by (intro takeWhile_rev_upt) (auto simp: bit_span_mask_all [OF v] span_segments_def)
  then show "bit_width (span_mask s) = unat (span_to s)" using n by (simp add: bit_width_def)
qed

text \<open>Search and the trip page agree: decoding a span from its occupancy mask loses nothing, so
the batched pool query of search answers for a trip exactly what the per-trip query answers, and
nothing for a trip without pools.\<close>

theorem search_pools_agree:
  assumes "valid_span s"
  shows "pool_availability_batch [(t, span_mask s)] d t
    = (if pool_availability t s d = [] then None else Some (pool_availability t s d))"
proof -
  have ends: "int (trailing_zeros (span_mask s)) + 1 = pool_lo s" "int (bit_width (span_mask s)) = pool_hi s"
    by (simp_all add: span_mask_ends [OF assms] pool_lo_def pool_hi_def)
  let ?pairs = "[(cu, po). po \<leftarrow> pool_occupancy d, cu \<leftarrow> capacity_units d, cu_id cu = pl_unit po \<and> pl_trip po = t]"
  have rows: "[(cu, m, po). (t', m) \<leftarrow> [(t, span_mask s)], po \<leftarrow> pool_occupancy d, cu \<leftarrow> capacity_units d,
      t' = t \<and> pl_trip po = t' \<and> cu_id cu = pl_unit po] = map (\<lambda>(cu, po). (cu, span_mask s, po)) ?pairs"
    by (simp add: map_concat comp_def conj_commute if_distrib [of "map _"] cong: if_cong)
  have sorted: "sort_key (\<lambda>(cu, m, po). cu_code cu) (map (\<lambda>(cu, po). (cu, span_mask s, po)) ?pairs)
      = map (\<lambda>(cu, po). (cu, span_mask s, po)) (sort_key (\<lambda>(cu, po). cu_code cu) ?pairs)"
    unfolding sort_key_map by (simp add: case_prod_unfold)
  show ?thesis
    unfolding pool_availability_batch_def Let_def rows sorted
    by (simp add: pool_availability_def pool_remaining_over_def pool_covered_def ends comp_def case_prod_beta
        sort_key_empty_iff)
qed

section \<open>The gate and the demand signal\<close>

lemma resolve_span_valid: "resolve_span route origin destination d = Inr (span, offset) \<Longrightarrow> valid_span span"
  unfolding resolve_span_def pick_span_def Let_def
  by (auto split: if_splits dest: span_new_valid)

lemma length_join_le:
  "length (concat (map (\<lambda>x. concat (map (\<lambda>y. if P x y then [f x y] else []) ys)) xs)) \<le> length xs * length ys"
proof (induction xs)
  case (Cons x xs)
  have "length (concat (map (\<lambda>y. if P x y then [f x y] else []) ys)) \<le> length ys"
    by (induction ys) auto
  with Cons show ?case by simp
qed simp

lemma pool_held_le_capacity:
  assumes "pool_held capacity r M"
  shows "\<exists>c. capacity (pl_unit r) = Some c \<and> in_i32 c \<and> (\<forall>x\<in>set (pl_remaining r). 0 \<le> x \<and> x \<le> c)"
proof -
  have "0 \<le> pool_load M i" for i
    using assms by (intro pool_load_nonneg) (auto simp: pool_held_def pool_claim_valid_def intro: less_imp_le)
  with assms show ?thesis
    unfolding pool_held_def by (metis (no_types, opaque_lifting) add_increasing2 in_set_conv_nth order_trans le_add_same_cancel1)
qed

text \<open>Nothing is sold past the gate: a target is only resolved for a unit of the vessel of an
existing trip that is still scheduled, over a valid span of the trip's route, and only while the
requested origin has not been left yet.\<close>

theorem resolve_target_sells_open_trips:
  assumes "resolve_target now trip_id unit_code origin destination d = Inr (Some target)"
  shows "\<exists>t\<in>set (trips d). \<exists>cu\<in>set (capacity_units d). \<exists>offset.
      tr_id t = trip_id \<and> tr_status t = ''scheduled'' \<and> cu_resource cu = tr_resource t \<and> cu_code cu = unit_code
    \<and> target = \<lparr>ct_unit_id = cu_id cu, ct_kind = cu_kind cu, ct_fare_class = cu_fare_class cu, ct_span = ct_span target\<rparr>
    \<and> resolve_span (tr_route t) origin destination d = Inr (ct_span target, offset)
    \<and> valid_span (ct_span target) \<and> now < tr_departs_at t + minutes offset"
proof -
  let ?rows = "[(cu, t). t \<leftarrow> trips d, cu \<leftarrow> capacity_units d,
             cu_resource cu = tr_resource t \<and> cu_code cu = unit_code \<and> tr_id t = trip_id]"
  obtain cu t rest where rows: "?rows = (cu, t) # rest"
    using assms unfolding resolve_target_def by (auto split: list.splits)
  have "(cu, t) \<in> set ?rows" unfolding rows by simp
  then have row: "t \<in> set (trips d)" "cu \<in> set (capacity_units d)" "cu_resource cu = tr_resource t"
    "cu_code cu = unit_code" "tr_id t = trip_id"
    by (auto split: if_splits)
  from assms rows have sched: "tr_status t = ''scheduled''"
    by (auto simp: resolve_target_def split: if_splits)
  with assms rows obtain span offset where
    span: "resolve_span (tr_route t) origin destination d = Inr (span, offset)"
    and time: "now < tr_departs_at t + minutes offset"
    and target: "target = \<lparr>ct_unit_id = cu_id cu, ct_kind = cu_kind cu, ct_fare_class = cu_fare_class cu, ct_span = span\<rparr>"
    by (auto simp: resolve_target_def Let_def split: if_splits)
  have "valid_span span" using span by (rule resolve_span_valid)
  with row sched span time target show ?thesis by (intro bexI [of _ t] bexI [of _ cu] exI [of _ offset]) simp_all
qed

theorem resolve_target_sells_open_trips_witness:
  "\<exists>t\<in>set (trips sample_db). \<exists>cu\<in>set (capacity_units sample_db). \<exists>offset.
      tr_id t = sample_trip_id \<and> tr_status t = ''scheduled'' \<and> cu_resource cu = tr_resource t \<and> cu_code cu = ''12A''
    \<and> \<lparr>ct_unit_id = sample_seat_id, ct_kind = ''seat'', ct_fare_class = Some ''Y'', ct_span = \<lparr>span_from = 1, span_to = 2\<rparr>\<rparr>
      = \<lparr>ct_unit_id = cu_id cu, ct_kind = cu_kind cu, ct_fare_class = cu_fare_class cu, ct_span = \<lparr>span_from = 1, span_to = 2\<rparr>\<rparr>
    \<and> resolve_span (tr_route t) ''B'' ''C'' sample_db = Inr (\<lparr>span_from = 1, span_to = 2\<rparr>, offset)
    \<and> valid_span \<lparr>span_from = 1, span_to = 2\<rparr> \<and> hours 1000 + minutes 34 < tr_departs_at t + minutes offset"
proof -
  have "resolve_target (hours 1000 + minutes 34) sample_trip_id ''12A'' ''B'' ''C'' sample_db
    = Inr (Some \<lparr>ct_unit_id = sample_seat_id, ct_kind = ''seat'', ct_fare_class = Some ''Y'',
        ct_span = \<lparr>span_from = 1, span_to = 2\<rparr>\<rparr>)"
    by code_simp
  from resolve_target_sells_open_trips [OF this] show ?thesis by simp
qed

lemma trunc_div_bp:
  assumes "0 \<le> a" and "a \<le> b" and "0 < b" and "b \<le> 922337203685477"
  shows "0 \<le> trunc_div (i64 (a * 10000)) b \<and> trunc_div (i64 (a * 10000)) b \<le> 10000"
proof -
  have r: "i64 (a * 10000) = a * 10000" using assms by (intro i64_id) (simp add: in_i64_def)
  have "a * 10000 div b \<le> b * 10000 div b" using assms by (intro zdiv_mono1) simp_all
  then show ?thesis
    using assms by (simp add: r trunc_div_nonneg pos_imp_zdiv_nonneg_iff)
qed

text \<open>The demand signal of occupancy pricing is a share: on sound inventory, with tables no
larger than the \<open>i64\<close> arithmetic allows, the basis points are between 0 and 10000 for seats and
pools alike, whatever span is asked for.\<close>

theorem span_occupancy_bp_bounds:
  assumes pools: "pools_ok d M" and cap: "\<forall>cu\<in>set (capacity_units d). pool_capacity_of d (cu_id cu) = cu_pool_capacity cu"
    and size: "length (seat_occupancy d) * length (capacity_units d) \<le> 922337203685477"
  shows "0 \<le> span_occupancy_bp t u kind s d \<and> span_occupancy_bp t u kind s d \<le> 10000"
proof (cases "kind = ''seat''")
  case True
  define rows where "rows = [so. so \<leftarrow> seat_occupancy d, cu \<leftarrow> capacity_units d,
              cu_id cu = so_unit so \<and> so_trip so = t
              \<and> cu_fare_class cu \<noteq> None \<and> cu_fare_class cu = unit_fare_class d u]"
  have "length rows \<le> length (seat_occupancy d) * length (capacity_units d)"
    unfolding rows_def by (rule length_join_le)
  with size have len: "int (length rows) \<le> 922337203685477" by linarith
  have le: "count_where P rows \<le> length rows" for P by (simp add: count_where_def)
  have "span_occupancy_bp t u kind s d = (if rows = [] then 0
      else trunc_div (i64 (int (count_where (\<lambda>so. so_mask so AND span_mask s \<noteq> 0) rows) * 10000)) (int (length rows)))"
    unfolding span_occupancy_bp_def Let_def rows_def [symmetric] using True by simp
  then show ?thesis using trunc_div_bp [OF _ _ _ len] le by (cases "rows = []") auto
next
  case False
  let ?rows = "[(po, cu). po \<leftarrow> pool_occupancy d, cu \<leftarrow> capacity_units d,
                cu_id cu = pl_unit po \<and> pl_trip po = t \<and> pl_unit po = u]"
  show ?thesis
  proof (cases ?rows)
    case Nil
    show ?thesis unfolding span_occupancy_bp_def Nil using False by simp
  next
    case (Cons x rest)
    obtain po cu where x: "x = (po, cu)" by force
    have "(po, cu) \<in> set ?rows" unfolding Cons x by simp
    then have row: "po \<in> set (pool_occupancy d)" "cu \<in> set (capacity_units d)" "cu_id cu = pl_unit po"
      by (auto split: if_splits)
    have "pool_held (pool_capacity_of d) po (M (pool_key po))"
      using pools row(1) by (simp add: pools_ok_def ledger_ok_def)
    moreover have "pool_capacity_of d (pl_unit po) = cu_pool_capacity cu" using cap row by fastforce
    ultimately obtain c where c: "cu_pool_capacity cu = Some c" "in_i32 c"
      and range: "\<forall>x\<in>set (pl_remaining po). 0 \<le> x \<and> x \<le> c"
      using pool_held_le_capacity by metis
    define remaining where "remaining = (case pg_min (pool_covered s po) of None \<Rightarrow> 0 | Some m \<Rightarrow> m)"
    have eq: "span_occupancy_bp t u kind s d
        = (if c \<le> 0 then 0 else trunc_div (i64 (i32 (c - remaining) * 10000)) c)"
      unfolding span_occupancy_bp_def Cons x using False c by (simp add: Let_def remaining_def)
    show ?thesis
    proof (cases "0 < c")
      case True
      have "0 \<le> remaining \<and> remaining \<le> c"
        using range True pg_min_in by (fastforce simp: remaining_def set_pool_covered split: option.splits)
      with c(2) True trunc_div_bp [of "c - remaining" c] show ?thesis
        by (simp add: eq i32_id in_i32_def)
    qed (simp add: eq)
  qed
qed

lemma sample_tables_ok: "seats_ok sample_db (\<lambda>_. {#})" "pools_ok sample_db (\<lambda>_. {#})"
  by (simp_all add: seats_ok_def pools_ok_def ledger_ok_def sample_db_def empty_db_def seat_held_def
      pool_held_def seat_load_def pool_load_def pool_capacity_of_def in_i32_def sample_pool_id_def
      sample_seat_id_def less_Suc_eq)

theorem span_occupancy_bp_bounds_witness:
  "0 \<le> span_occupancy_bp sample_trip_id sample_pool_id ''pool'' \<lparr>span_from = 0, span_to = 2\<rparr> sample_db
   \<and> span_occupancy_bp sample_trip_id sample_pool_id ''pool'' \<lparr>span_from = 0, span_to = 2\<rparr> sample_db \<le> 10000"
proof (rule span_occupancy_bp_bounds [OF sample_tables_ok(2)])
  show "\<forall>cu\<in>set (capacity_units sample_db). pool_capacity_of sample_db (cu_id cu) = cu_pool_capacity cu"
    by code_simp
  show "length (seat_occupancy sample_db) * length (capacity_units sample_db) \<le> 922337203685477"
    by (simp add: sample_db_def)
qed


theorem search_pools_agree_witness:
  "pool_availability_batch [(sample_trip_id, span_mask \<lparr>span_from = 0, span_to = 2\<rparr>)] sample_db sample_trip_id
    = (if pool_availability sample_trip_id \<lparr>span_from = 0, span_to = 2\<rparr> sample_db = [] then None
       else Some (pool_availability sample_trip_id \<lparr>span_from = 0, span_to = 2\<rparr> sample_db))"
  by (rule search_pools_agree) (simp add: valid_span_nat)

end
