(* ===== verification/Orders.thy ===== *)
theory Orders
  imports Availability Events
begin

text \<open>
  The order engine: \<open>crates/lulan-engine/src/orders/mod.rs\<close>. Every write path is one
  transaction on \<open>db\<close>; an \<open>Err\<close>, a conflict or a panic inside it answers the \<open>db\<close> it started
  from. \<open>Uuid::new_v4\<close> is a supply \<open>new :: nat \<Rightarrow> uuid\<close> read in the order the code draws, and
  \<open>Utc::now()\<close> and SQL's \<open>now()\<close> are the argument \<open>now\<close>. An \<open>expect\<close> on a stored text is the
  error \<open>StatusPanic\<close>.
\<close>

definition ORDER_TTL_MINUTES :: int where "ORDER_TTL_MINUTES = 15"
definition IDEMPOTENCY_RETENTION_HOURS :: int where "IDEMPOTENCY_RETENTION_HOURS = 24"

section \<open>Requests, records and outcomes\<close>

record new_passenger =
  np_full_name :: string
  np_type :: passenger_type
  np_birthdate :: "int option"

record passenger_record =
  pr_id :: uuid
  pr_full_name :: string
  pr_type :: passenger_type
  pr_birthdate :: "int option"

record new_order_item =
  ni_trip_id :: uuid
  ni_unit_code :: string
  ni_origin :: string
  ni_destination :: string
  ni_quantity :: int
  ni_price_minor :: int
  ni_passenger_index :: "nat option"

record new_order_ancillary =
  na_ancillary_id :: uuid
  na_code :: string
  na_name :: string
  na_trip_id :: "uuid option"
  na_passenger_index :: "nat option"
  na_quantity :: int
  na_total_minor :: int

record order_ancillary =
  ra_code :: string
  ra_name :: string
  ra_trip_id :: "uuid option"
  ra_passenger_id :: "uuid option"
  ra_quantity :: int
  ra_total_minor :: int

record order_item =
  it_trip_id :: uuid
  it_unit_code :: string
  it_kind :: string
  it_from_index :: "8 word"
  it_to_index :: "8 word"
  it_quantity :: int
  it_price_minor :: int
  it_passenger_id :: "uuid option"

record order_record =
  or_order_id :: uuid
  or_trip_ids :: "uuid list"
  or_passenger_name :: string
  or_status :: order_status
  or_total_minor :: int
  or_currency :: string
  or_payment_intent_id :: "string option"
  or_expires_at :: "instant option"
  or_passengers :: "passenger_record list"
  or_items :: "order_item list"
  or_ancillaries :: "order_ancillary list"

datatype item_validation =
    SeatNeedsPassenger string
  | PassengerIndexOutOfRange string nat
  | PoolWithPassenger string
  | NoPassengers

record new_order =
  no_passengers :: "new_passenger list"
  no_items :: "new_order_item list"
  no_ancillaries :: "new_order_ancillary list"
  no_currency :: string
  no_customer_id :: "uuid option"
  no_guest_contact :: "string option"

datatype missing = NoItems | NoUnit uuid string

datatype create_outcome =
    Created order_record
  | Conflict string
  | NotFound missing
  | Invalid item_validation

datatype transition_outcome = Applied order_status | NoOp order_status | OrderMissing

record cascade_stats =
  cs_cancelled :: nat
  cs_refunded :: nat
  cs_failed :: nat
  cs_remaining :: nat

section \<open>Creating an order\<close>

definition resolve_item ::
  "instant \<Rightarrow> db \<Rightarrow> new_order_item \<Rightarrow> (store_error + create_outcome) + claim_target" where
  "resolve_item now d item =
    (case resolve_target now (ni_trip_id item) (ni_unit_code item) (ni_origin item) (ni_destination item) d of
       Inl e \<Rightarrow> Inl (Inl e)
     | Inr None \<Rightarrow> Inl (Inr (NotFound (NoUnit (ni_trip_id item) (ni_unit_code item))))
     | Inr (Some target) \<Rightarrow> Inr target)"

definition passenger_slot :: "nat \<Rightarrow> new_order_item \<times> claim_target \<Rightarrow> item_validation + nat option" where
  "passenger_slot n = (\<lambda>(item, target).
    if ct_kind target = ''seat'' then
      and_then (case ni_passenger_index item of
          Some index \<Rightarrow> Inr index
        | None \<Rightarrow> if n = 1 then Inr 0 else Inl (SeatNeedsPassenger (ni_unit_code item))) (\<lambda>index.
        if index \<ge> n then Inl (PassengerIndexOutOfRange (ni_unit_code item) index) else Inr (Some index))
    else if ni_passenger_index item \<noteq> None then Inl (PoolWithPassenger (ni_unit_code item))
    else Inr None)"

definition ancillary_wiring :: "nat \<Rightarrow> new_order_ancillary \<Rightarrow> item_validation + unit" where
  "ancillary_wiring n line =
    (case na_passenger_index line of
       Some index \<Rightarrow> if index \<ge> n then Inl (PassengerIndexOutOfRange (na_code line) index) else Inr ()
     | None \<Rightarrow> Inr ())"

definition order_total :: "new_order_item list \<Rightarrow> new_order_ancillary list \<Rightarrow> int" where
  "order_total items ancillaries =
     i64 (i64 (sum_list (map ni_price_minor items)) + i64 (sum_list (map na_total_minor ancillaries)))"

definition insert_order :: "instant \<Rightarrow> uuid \<Rightarrow> new_order \<Rightarrow> int \<Rightarrow> instant \<Rightarrow> db \<Rightarrow> db_error + db" where
  "insert_order now order_id ord total_minor expires_at d =
    (case insert_unique ord_id
       \<lparr>ord_id = order_id, ord_passenger_name = np_full_name (hd (no_passengers ord)),
        ord_status = status_as_str Locked, ord_total_minor = total_minor, ord_currency = no_currency ord,
        ord_payment_intent = None, ord_expires_at = Some expires_at, ord_customer = no_customer_id ord,
        ord_guest_contact = no_guest_contact ord, ord_created_at = now, ord_updated_at = now\<rparr> (orders d) of
       None \<Rightarrow> Inl (UniqueViolation ''orders_pkey'')
     | Some rows \<Rightarrow> Inr (d\<lparr>orders := rows\<rparr>))"

fun insert_passengers :: "instant \<Rightarrow> uuid \<Rightarrow> (uuid \<times> new_passenger) list \<Rightarrow> db \<Rightarrow> db_error + db" where
  "insert_passengers now order_id [] d = Inr d"
| "insert_passengers now order_id ((pid, p) # rest) d =
    (case insert_unique pa_id
       \<lparr>pa_id = pid, pa_order = order_id, pa_full_name = np_full_name p, pa_type = passenger_as_str (np_type p),
        pa_birthdate = np_birthdate p, pa_created_at = now\<rparr> (passengers d) of
       None \<Rightarrow> Inl (UniqueViolation ''passengers_pkey'')
     | Some rows \<Rightarrow> insert_passengers now order_id rest (d\<lparr>passengers := rows\<rparr>))"

definition claim_item :: "new_order_item \<Rightarrow> claim_target \<Rightarrow> db \<Rightarrow> db_error + db \<times> nat" where
  "claim_item item target d =
    (if ct_kind target = ''seat''
     then Inr (claim_seat_exec (ni_trip_id item) (ct_unit_id target) (ct_span target) d)
     else if ni_quantity item \<le> 0 then Inr (d, 0)
     else claim_pool_exec (ni_trip_id item) (ct_unit_id target) (ct_span target) (ni_quantity item) d)"

definition item_row :: "uuid \<Rightarrow> new_order_item \<Rightarrow> claim_target \<Rightarrow> uuid option \<Rightarrow> order_item_row" where
  "item_row order_id item target passenger_id =
     \<lparr>oi_order = order_id, oi_trip = ni_trip_id item, oi_unit = ct_unit_id target,
      oi_unit_code = ni_unit_code item, oi_kind = ct_kind target,
      oi_from_index = uint (span_from (ct_span target)), oi_to_index = uint (span_to (ct_span target)),
      oi_quantity = max (ni_quantity item) 1, oi_price_minor = ni_price_minor item, oi_passenger = passenger_id\<rparr>"

definition item_key :: "order_item_row \<Rightarrow> uuid \<times> uuid \<times> uuid" where
  "item_key r = (oi_order r, oi_trip r, oi_unit r)"

definition recorded_item :: "new_order_item \<Rightarrow> claim_target \<Rightarrow> uuid option \<Rightarrow> order_item" where
  "recorded_item item target passenger_id =
     \<lparr>it_trip_id = ni_trip_id item, it_unit_code = ni_unit_code item, it_kind = ct_kind target,
      it_from_index = span_from (ct_span target), it_to_index = span_to (ct_span target),
      it_quantity = max (ni_quantity item) 1, it_price_minor = ni_price_minor item, it_passenger_id = passenger_id\<rparr>"

text \<open>The claim loop: \<open>Inl (Inr c)\<close> is the rollback with a conflict on the unit \<open>c\<close>.\<close>

fun claim_items :: "uuid \<Rightarrow> (nat \<Rightarrow> uuid) \<Rightarrow> (new_order_item \<times> claim_target \<times> nat option) list \<Rightarrow> db \<Rightarrow>
    (db_error + string) + db \<times> order_item list" where
  "claim_items order_id pax [] d = Inr (d, [])"
| "claim_items order_id pax ((item, target, slot) # rest) d =
    (case claim_item item target d of
       Inl e \<Rightarrow> Inl (Inl e)
     | Inr (d', rows) \<Rightarrow>
         if rows \<noteq> 1 then Inl (Inr (ni_unit_code item))
         else
           let passenger_id = map_option pax slot in
           (case insert_unique item_key (item_row order_id item target passenger_id) (order_items d') of
              None \<Rightarrow> Inl (Inl (UniqueViolation ''order_items_pkey''))
            | Some items' \<Rightarrow>
                and_then (claim_items order_id pax rest (d'\<lparr>order_items := items'\<rparr>)) (\<lambda>(d'', recorded).
                  Inr (d'', recorded_item item target passenger_id # recorded))))"

fun insert_ancillaries :: "uuid \<Rightarrow> (nat \<Rightarrow> uuid) \<Rightarrow> (uuid \<times> new_order_ancillary) list \<Rightarrow> db \<Rightarrow>
    db_error + db \<times> order_ancillary list" where
  "insert_ancillaries order_id pax [] d = Inr (d, [])"
| "insert_ancillaries order_id pax ((aid, line) # rest) d =
    (let passenger_id = map_option pax (na_passenger_index line);
         row = \<lparr>oa_id = aid, oa_order = order_id, oa_ancillary = na_ancillary_id line, oa_code = na_code line,
            oa_name = na_name line, oa_trip = na_trip_id line, oa_passenger = passenger_id,
            oa_quantity = na_quantity line, oa_total_minor = na_total_minor line\<rparr>
     in if na_quantity line \<le> 0 then Inl (CheckViolation ''order_ancillaries_quantity_check'')
        else if na_total_minor line < 0 then Inl (CheckViolation ''order_ancillaries_total_minor_check'')
        else
          (case insert_unique oa_id row (order_ancillaries d) of
             None \<Rightarrow> Inl (UniqueViolation ''order_ancillaries_pkey'')
           | Some rows \<Rightarrow>
               and_then (insert_ancillaries order_id pax rest (d\<lparr>order_ancillaries := rows\<rparr>)) (\<lambda>(d', recorded).
                 Inr (d', \<lparr>ra_code = na_code line, ra_name = na_name line, ra_trip_id = na_trip_id line,
                    ra_passenger_id = passenger_id, ra_quantity = na_quantity line,
                    ra_total_minor = na_total_minor line\<rparr> # recorded))))"

definition distinct_trips :: "order_item list \<Rightarrow> uuid list" where
  "distinct_trips items = fold (\<lambda>item trips.
     if List.member trips (it_trip_id item) then trips else trips @ [it_trip_id item]) items []"

definition item_json :: "order_item \<Rightarrow> event_item" where
  "item_json i = \<lparr>ev_item_trip = it_trip_id i, ev_item_unit_code = it_unit_code i, ev_item_kind = it_kind i,
     ev_item_from = it_from_index i, ev_item_to = it_to_index i, ev_item_quantity = it_quantity i,
     ev_item_price_minor = it_price_minor i\<rparr>"

definition passenger_json :: "passenger_record \<Rightarrow> event_passenger" where
  "passenger_json p = \<lparr>ev_pax_id = pr_id p, ev_pax_full_name = pr_full_name p,
     ev_pax_type = passenger_as_str (pr_type p), ev_pax_birthdate = pr_birthdate p\<rparr>"

definition ancillary_json :: "order_ancillary \<Rightarrow> event_ancillary" where
  "ancillary_json a = \<lparr>ev_anc_code = ra_code a, ev_anc_name = ra_name a, ev_anc_trip = ra_trip_id a,
     ev_anc_passenger = ra_passenger_id a, ev_anc_quantity = ra_quantity a, ev_anc_total_minor = ra_total_minor a\<rparr>"

text \<open>The two events that open the order's stream, and the record answered to the caller.\<close>

definition create_commit :: "instant \<Rightarrow> uuid \<Rightarrow> new_order \<Rightarrow> int \<Rightarrow> instant \<Rightarrow> passenger_record list \<Rightarrow>
    order_item list \<Rightarrow> order_ancillary list \<Rightarrow> db \<Rightarrow> db \<times> (store_error + create_outcome)" where
  "create_commit now order_id ord total_minor expires_at pax_records recorded anc d1 =
    (let d2 = events_append order_id (event_as_str OrderCreated)
           (CreatedPayload (distinct_trips recorded) (map passenger_json pax_records) total_minor
              (no_currency ord) (map item_json recorded) (map ancillary_json anc)) now d1;
         d3 = events_append order_id (event_as_str InventoryLocked)
           (LockedPayload (map item_json recorded) expires_at) now d2
     in (d3, Inr (Created \<lparr>or_order_id = order_id, or_trip_ids = distinct_trips recorded,
           or_passenger_name = pr_full_name (hd pax_records), or_status = Locked,
           or_total_minor = total_minor, or_currency = no_currency ord, or_payment_intent_id = None,
           or_expires_at = Some expires_at, or_passengers = pax_records, or_items = recorded,
           or_ancillaries = anc\<rparr>)))"

text \<open>
  The write transaction, from \<open>self.pool.begin()\<close> to \<open>tx.commit()\<close>. The targets are the ones
  resolved before it opened; between the two, other transactions may have run.
\<close>

definition create_tx :: "instant \<Rightarrow> (nat \<Rightarrow> uuid) \<Rightarrow> new_order \<Rightarrow> claim_target list \<Rightarrow> nat option list \<Rightarrow>
    db \<Rightarrow> db \<times> (store_error + create_outcome)" where
  "create_tx now new ord targets slots d =
    (let order_id = new 0;
         n = length (no_passengers ord);
         pax = (\<lambda>i. new (1 + i));
         expires_at = now + minutes ORDER_TTL_MINUTES;
         total_minor = order_total (no_items ord) (no_ancillaries ord);
         pax_records = map (\<lambda>(i, p). \<lparr>pr_id = pax i, pr_full_name = np_full_name p, pr_type = np_type p,
            pr_birthdate = np_birthdate p\<rparr>) (zip [0..<n] (no_passengers ord));
         result =
           and_then (map_err Inl (insert_order now order_id ord total_minor expires_at d)) (\<lambda>d.
           and_then (map_err Inl (insert_passengers now order_id
              (map (\<lambda>(i, p). (pax i, p)) (zip [0..<n] (no_passengers ord))) d)) (\<lambda>d.
           and_then (claim_items order_id pax (zip (no_items ord) (zip targets slots)) d) (\<lambda>(d, recorded).
           and_then (map_err Inl (insert_ancillaries order_id pax
              (map (\<lambda>(i, a). (new (1 + n + i), a)) (zip [0..<length (no_ancillaries ord)] (no_ancillaries ord))) d))
             (\<lambda>(d, anc). Inr (d, recorded, anc)))))
     in case result of
          Inl (Inl e) \<Rightarrow> (d, Inl (Db e))
        | Inl (Inr code) \<Rightarrow> (d, Inr (Conflict code))
        | Inr (d1, recorded, anc) \<Rightarrow>
            create_commit now order_id ord total_minor expires_at pax_records recorded anc d1)"

definition create :: "instant \<Rightarrow> (nat \<Rightarrow> uuid) \<Rightarrow> new_order \<Rightarrow> db \<Rightarrow> db \<times> (store_error + create_outcome)" where
  "create now new ord d =
    (if no_passengers ord = [] then (d, Inr (Invalid NoPassengers))
     else if no_items ord = [] then (d, Inr (NotFound NoItems))
     else case try_map (resolve_item now d) (no_items ord) of
       Inl stop \<Rightarrow> (d, stop)
     | Inr targets \<Rightarrow>
         (case try_map (passenger_slot (length (no_passengers ord))) (zip (no_items ord) targets) of
            Inl v \<Rightarrow> (d, Inr (Invalid v))
          | Inr slots \<Rightarrow>
              (case try_map (ancillary_wiring (length (no_passengers ord))) (no_ancillaries ord) of
                 Inl v \<Rightarrow> (d, Inr (Invalid v))
               | Inr _ \<Rightarrow> create_tx now new ord targets slots d)))"

section \<open>Transitions\<close>

definition set_status :: "instant \<Rightarrow> uuid \<Rightarrow> order_status \<Rightarrow> db \<Rightarrow> db" where
  "set_status now order_id next d =
     d\<lparr>orders := update_where (\<lambda>r. ord_id r = order_id)
        (\<lambda>r. r\<lparr>ord_status := status_as_str next, ord_updated_at := now\<rparr>) (orders d)\<rparr>"

definition apply_event_locked ::
  "instant \<Rightarrow> uuid \<Rightarrow> order_event_type \<Rightarrow> event_payload \<Rightarrow> db \<Rightarrow> store_error + db \<times> transition_outcome" where
  "apply_event_locked now order_id event payload d =
    (case List.find (\<lambda>r. ord_id r = order_id) (orders d) of
       None \<Rightarrow> Inr (d, OrderMissing)
     | Some row \<Rightarrow>
         (case status_parse (ord_status row) of
            None \<Rightarrow> Inl (StatusPanic (ord_status row))
          | Some current \<Rightarrow>
              (case lifecycle_apply (Some current) event of
                 Inl _ \<Rightarrow> Inr (d, NoOp current)
               | Inr next \<Rightarrow>
                   Inr (events_append order_id (event_as_str event) payload now (set_status now order_id next d),
                        Applied next))))"

text \<open>A failed release is logged, not an error; an invalid stored span is.\<close>

fun release_items :: "order_item_row list \<Rightarrow> db \<Rightarrow> store_error + db" where
  "release_items [] d = Inr d"
| "release_items (row # rest) d =
    and_then (map_err SpanInvalid (span_new (as_u8 (oi_from_index row)) (as_u8 (oi_to_index row)))) (\<lambda>span.
    and_then (if oi_kind row = ''seat''
       then Inr (release_seat_exec (oi_trip row) (oi_unit row) span d)
       else map_err Db (release_pool_exec (oi_trip row) (oi_unit row) span (oi_quantity row) d)) (\<lambda>(d', released).
    release_items rest d'))"

definition release_order_items :: "uuid \<Rightarrow> db \<Rightarrow> store_error + db" where
  "release_order_items order_id d = release_items (filter (\<lambda>r. oi_order r = order_id) (order_items d)) d"

text \<open>Committing a transaction that may have failed.\<close>

definition commit :: "db \<Rightarrow> store_error + db \<times> 'a \<Rightarrow> db \<times> (store_error + 'a)" where
  "commit d r = (case r of Inl e \<Rightarrow> (d, Inl e) | Inr (d', x) \<Rightarrow> (d', Inr x))"

definition request_payment ::
  "instant \<Rightarrow> uuid \<Rightarrow> string \<Rightarrow> db \<Rightarrow> db \<times> (store_error + transition_outcome)" where
  "request_payment now order_id intent d = commit d
    (and_then (apply_event_locked now order_id PaymentRequested (IntentPayload intent) d) (\<lambda>(d', outcome).
       case outcome of
         Applied _ \<Rightarrow>
           if list_ex (\<lambda>r. ord_id r \<noteq> order_id \<and> ord_payment_intent r = Some intent) (orders d')
           then Inl (Db (UniqueViolation ''orders_payment_intent_id_key''))
           else Inr (d'\<lparr>orders := update_where (\<lambda>r. ord_id r = order_id)
              (\<lambda>r. r\<lparr>ord_payment_intent := Some intent, ord_updated_at := now\<rparr>) (orders d')\<rparr>, outcome)
       | _ \<Rightarrow> Inr (d', outcome)))"

definition find_by_intent :: "string \<Rightarrow> db \<Rightarrow> uuid option" where
  "find_by_intent intent d =
     map_option ord_id (List.find (\<lambda>r. ord_payment_intent r = Some intent) (orders d))"

definition apply_payment_result ::
  "instant \<Rightarrow> string \<Rightarrow> bool \<Rightarrow> db \<Rightarrow> db \<times> (store_error + transition_outcome)" where
  "apply_payment_result now intent succeeded d =
    (case find_by_intent intent d of
       None \<Rightarrow> (d, Inr OrderMissing)
     | Some order_id \<Rightarrow> commit d
         (and_then (apply_event_locked now order_id (if succeeded then PaymentCaptured else PaymentFailed)
              (IntentPayload intent) d) (\<lambda>(d', outcome).
            if outcome = Applied Paid
            then Inr (d'\<lparr>orders := update_where (\<lambda>r. ord_id r = order_id)
               (\<lambda>r. r\<lparr>ord_expires_at := None, ord_updated_at := now\<rparr>) (orders d')\<rparr>, outcome)
            else Inr (d', outcome))))"

definition cancel :: "instant \<Rightarrow> uuid \<Rightarrow> db \<Rightarrow> db \<times> (store_error + transition_outcome)" where
  "cancel now order_id d = commit d
    (and_then (apply_event_locked now order_id OrderCancelled EmptyPayload d) (\<lambda>(d', outcome).
       case outcome of
         Applied _ \<Rightarrow> and_then (release_order_items order_id d') (\<lambda>d''. Inr (d'', outcome))
       | _ \<Rightarrow> Inr (d', outcome)))"

definition expire_order :: "instant \<Rightarrow> uuid \<Rightarrow> db \<Rightarrow> db \<times> (store_error + transition_outcome)" where
  "expire_order now order_id d = commit d
    (and_then (apply_event_locked now order_id OrderExpired EmptyPayload d) (\<lambda>(d', outcome).
       case outcome of
         Applied _ \<Rightarrow> and_then (release_order_items order_id d') (\<lambda>d''. Inr (d'', outcome))
       | _ \<Rightarrow> Inr (d', outcome)))"

definition due_for_expiry :: "instant \<Rightarrow> db \<Rightarrow> uuid list" where
  "due_for_expiry now d = map ord_id (filter (\<lambda>r.
     List.member [''locked'', ''pending_payment''] (ord_status r)
     \<and> (case ord_expires_at r of None \<Rightarrow> False | Some e \<Rightarrow> e < now)) (orders d))"

text \<open>The loop commits each order by itself and stops at the first error.\<close>

fun expire_loop :: "instant \<Rightarrow> uuid list \<Rightarrow> db \<Rightarrow> nat \<Rightarrow> db \<times> (store_error + nat)" where
  "expire_loop now [] d expired = (d, Inr expired)"
| "expire_loop now (order_id # rest) d expired =
    (case expire_order now order_id d of
       (d', Inl e) \<Rightarrow> (d', Inl e)
     | (d', Inr (Applied _)) \<Rightarrow> expire_loop now rest d' (expired + 1)
     | (d', Inr _) \<Rightarrow> expire_loop now rest d' expired)"

definition expire_due :: "instant \<Rightarrow> db \<Rightarrow> db \<times> (store_error + nat)" where
  "expire_due now d = expire_loop now (due_for_expiry now d) d 0"

definition refund :: "instant \<Rightarrow> uuid \<Rightarrow> db \<Rightarrow> db \<times> (store_error + transition_outcome)" where
  "refund now order_id d = commit d
    (and_then (apply_event_locked now order_id OrderRefunded EmptyPayload d) (\<lambda>(d', outcome).
       case outcome of
         Applied _ \<Rightarrow> and_then (release_order_items order_id d') (\<lambda>d''.
           Inr (d''\<lparr>tickets := update_where (\<lambda>t. tk_order t = order_id) (\<lambda>t. t\<lparr>tk_status := ''void''\<rparr>) (tickets d'')\<rparr>,
                outcome))
       | _ \<Rightarrow> Inr (d', outcome)))"

section \<open>Settling cancelled trips\<close>

definition awaiting_settlement :: "db \<Rightarrow> order_row list" where
  "awaiting_settlement d = sort_key ord_id (filter (\<lambda>ord.
      List.member [''locked'', ''pending_payment'', ''paid'', ''ticketed''] (ord_status ord)
      \<and> list_ex (\<lambda>oi. oi_order oi = ord_id ord
           \<and> list_ex (\<lambda>t. tr_id t = oi_trip oi \<and> tr_status t = ''cancelled'') (trips d)) (order_items d)) (orders d))"

text \<open>
  The provider is code outside the engine: \<open>refund_ok intent total_minor\<close> says whether its refund call
  answers \<open>Ok\<close>. An order without an intent is refunded without a call.
\<close>

definition settle_order :: "(string \<Rightarrow> int \<Rightarrow> bool) \<Rightarrow> instant \<Rightarrow> order_row \<Rightarrow>
    db \<times> cascade_stats \<Rightarrow> db \<times> cascade_stats" where
  "settle_order refund_ok now row = (\<lambda>(d, stats).
    let provider_ok = (case ord_payment_intent row of None \<Rightarrow> True | Some i \<Rightarrow> refund_ok i (ord_total_minor row));
        unpaid = List.member [''locked'', ''pending_payment''] (ord_status row)
    in if \<not> unpaid \<and> \<not> provider_ok then (d, stats\<lparr>cs_failed := cs_failed stats + 1\<rparr>)
       else
         (case (if unpaid then cancel now (ord_id row) d else refund now (ord_id row) d) of
            (d', Inr (Applied s)) \<Rightarrow>
              (d', if s = Cancelled then stats\<lparr>cs_cancelled := cs_cancelled stats + 1\<rparr>
                   else stats\<lparr>cs_refunded := cs_refunded stats + 1\<rparr>)
          | (d', Inr _) \<Rightarrow> (d', stats)
          | (d', Inl _) \<Rightarrow> (d', stats\<lparr>cs_failed := cs_failed stats + 1\<rparr>)))"

definition settle_cancelled_trips ::
  "(string \<Rightarrow> int \<Rightarrow> bool) \<Rightarrow> instant \<Rightarrow> nat \<Rightarrow> db \<Rightarrow> db \<times> cascade_stats" where
  "settle_cancelled_trips refund_ok now lim d =
    (let (d', stats) = fold (settle_order refund_ok now) (take lim (awaiting_settlement d))
           (d, \<lparr>cs_cancelled = 0, cs_refunded = 0, cs_failed = 0, cs_remaining = 0\<rparr>)
     in (d', stats\<lparr>cs_remaining := length (awaiting_settlement d')\<rparr>))"

section \<open>The read model\<close>

definition get_order :: "uuid \<Rightarrow> db \<Rightarrow> store_error + order_record option" where
  "get_order order_id d =
    (case List.find (\<lambda>r. ord_id r = order_id) (orders d) of
       None \<Rightarrow> Inr None
     | Some row \<Rightarrow>
         and_then (try_map (\<lambda>r. and_then (ok_or (StatusPanic (pa_type r)) (passenger_parse (pa_type r))) (\<lambda>ty.
             Inr \<lparr>pr_id = pa_id r, pr_full_name = pa_full_name r, pr_type = ty, pr_birthdate = pa_birthdate r\<rparr>))
           (sort_key (\<lambda>r. (pa_created_at r, pa_id r)) (filter (\<lambda>r. pa_order r = order_id) (passengers d)))) (\<lambda>pax.
         let items = map (\<lambda>r. \<lparr>it_trip_id = oi_trip r, it_unit_code = oi_unit_code r, it_kind = oi_kind r,
               it_from_index = as_u8 (oi_from_index r), it_to_index = as_u8 (oi_to_index r),
               it_quantity = oi_quantity r, it_price_minor = oi_price_minor r, it_passenger_id = oi_passenger r\<rparr>)
             (sort_key oi_unit_code (filter (\<lambda>r. oi_order r = order_id) (order_items d)));
             anc = map (\<lambda>r. \<lparr>ra_code = oa_code r, ra_name = oa_name r, ra_trip_id = oa_trip r,
               ra_passenger_id = oa_passenger r, ra_quantity = oa_quantity r, ra_total_minor = oa_total_minor r\<rparr>)
             (sort_key oa_code (filter (\<lambda>r. oa_order r = order_id) (order_ancillaries d)))
         in and_then (ok_or (StatusPanic (ord_status row)) (status_parse (ord_status row))) (\<lambda>status.
              Inr (Some \<lparr>or_order_id = order_id, or_trip_ids = distinct_trips items,
                or_passenger_name = ord_passenger_name row, or_status = status,
                or_total_minor = ord_total_minor row, or_currency = ord_currency row,
                or_payment_intent_id = ord_payment_intent row, or_expires_at = ord_expires_at row,
                or_passengers = pax, or_items = items, or_ancillaries = anc\<rparr>))))"

end
