(* ===== verification/Booking.thy ===== *)
theory Booking
  imports Orders
begin

text \<open>
  The invariant of the booking database and its preservation by the operations of
  \<open>orders/mod.rs\<close>. \<open>claims_inv\<close>: the occupancy tables account for exactly the items of the
  orders that still hold their inventory (plus what standalone claims took). \<open>log_inv\<close>: every
  order's event stream replays to the status of its row, and there is no stream without an order.
\<close>

section \<open>The claims of the live orders\<close>

definition released_status :: "order_status \<Rightarrow> bool" where
  "released_status s \<longleftrightarrow> s \<in> {Cancelled, Expired, Refunded}"

definition live_row :: "order_row \<Rightarrow> bool" where
  "live_row r \<longleftrightarrow> (case status_parse (ord_status r) of None \<Rightarrow> True | Some s \<Rightarrow> \<not> released_status s)"

definition live :: "db \<Rightarrow> uuid \<Rightarrow> bool" where
  "live d order_id \<longleftrightarrow> (\<exists>r\<in>set (orders d). ord_id r = order_id \<and> live_row r)"

definition item_span :: "order_item_row \<Rightarrow> segment_span" where
  "item_span r = \<lparr>span_from = as_u8 (oi_from_index r), span_to = as_u8 (oi_to_index r)\<rparr>"

definition seat_part :: "order_item_row multiset \<Rightarrow> uuid \<times> uuid \<Rightarrow> segment_span multiset" where
  "seat_part I k = image_mset item_span (filter_mset (\<lambda>r. oi_kind r = ''seat'' \<and> (oi_trip r, oi_unit r) = k) I)"

definition pool_part :: "order_item_row multiset \<Rightarrow> uuid \<times> uuid \<Rightarrow> pool_claim multiset" where
  "pool_part I k = image_mset (\<lambda>r. (item_span r, oi_quantity r))
     (filter_mset (\<lambda>r. oi_kind r \<noteq> ''seat'' \<and> (oi_trip r, oi_unit r) = k) I)"

definition live_items :: "db \<Rightarrow> order_item_row multiset" where
  "live_items d = filter_mset (\<lambda>r. live d (oi_order r)) (mset (order_items d))"

definition item_backed :: "db \<Rightarrow> order_item_row \<Rightarrow> bool" where
  "item_backed d r \<longleftrightarrow> oi_order r \<in> ord_id ` set (orders d)
     \<and> (if oi_kind r = ''seat'' then (oi_trip r, oi_unit r) \<in> seat_key ` set (seat_occupancy d)
        else (oi_trip r, oi_unit r) \<in> pool_key ` set (pool_occupancy d))"

definition claims_inv :: "db \<Rightarrow> bool" where
  "claims_inv d \<longleftrightarrow> seats_ok d (seat_part (live_items d)) \<and> pools_ok d (pool_part (live_items d))
     \<and> (\<forall>r\<in>set (order_items d). item_backed d r)"

definition log_inv :: "db \<Rightarrow> bool" where
  "log_inv d \<longleftrightarrow> outbox_ok d \<and> distinct (map ord_id (orders d))
     \<and> (\<forall>r\<in>set (orders d). \<exists>s. status_parse (ord_status r) = Some s \<and> evlog.replays (ord_id r) (Some s) d)
     \<and> (\<forall>sid. sid \<notin> ord_id ` set (orders d) \<longrightarrow> evlog.replays sid None d)"

definition booking_inv :: "db \<Rightarrow> bool" where
  "booking_inv d \<longleftrightarrow> claims_inv d \<and> log_inv d"

lemma seat_part_simps [simp]:
  "seat_part {#} k = {#}"
  "seat_part (I + J) k = seat_part I k + seat_part J k"
  "seat_part (add_mset r I) = (if oi_kind r = ''seat'' then (seat_part I)((oi_trip r, oi_unit r) :=
     add_mset (item_span r) (seat_part I (oi_trip r, oi_unit r))) else seat_part I)"
  by (auto simp: seat_part_def fun_eq_iff)

lemma pool_part_simps [simp]:
  "pool_part {#} k = {#}"
  "pool_part (I + J) k = pool_part I k + pool_part J k"
  "pool_part (add_mset r I) = (if oi_kind r = ''seat'' then pool_part I else (pool_part I)((oi_trip r, oi_unit r) :=
     add_mset (item_span r, oi_quantity r) (pool_part I (oi_trip r, oi_unit r))))"
  by (auto simp: pool_part_def fun_eq_iff)

lemma seat_part_union: "(\<lambda>k. seat_part I k + seat_part J k) = seat_part (I + J)"
  by (simp add: fun_eq_iff)

lemma pool_part_union: "(\<lambda>k. pool_part I k + pool_part J k) = pool_part (I + J)"
  by (simp add: fun_eq_iff)

text \<open>What the two invariants read.\<close>

definition order_view :: "db \<Rightarrow> (uuid \<times> string) list" where
  "order_view d = map (\<lambda>r. (ord_id r, ord_status r)) (orders d)"

lemma live_view:
  "live d x \<longleftrightarrow> (\<exists>v\<in>set (order_view d). fst v = x
     \<and> (case status_parse (snd v) of None \<Rightarrow> True | Some s \<Rightarrow> \<not> released_status s))"
  by (auto simp: live_def live_row_def order_view_def)

lemma ord_ids_view: "map ord_id (orders d) = map fst (order_view d)"
  by (simp add: order_view_def)

lemma ord_id_set_view: "ord_id ` set (orders d) = fst ` set (order_view d)"
  by (simp add: order_view_def image_image)

lemma claims_inv_cong:
  assumes "order_view d' = order_view d" "order_items d' = order_items d" "seat_occupancy d' = seat_occupancy d"
    "pool_occupancy d' = pool_occupancy d" "capacity_units d' = capacity_units d"
  shows "claims_inv d' = claims_inv d"
  using assms
  by (simp add: claims_inv_def seats_ok_def pools_ok_def pool_capacity_of_def [abs_def] live_items_def live_view
      item_backed_def ord_id_set_view)

lemma log_inv_view:
  "log_inv d \<longleftrightarrow> outbox_ok d \<and> distinct (map fst (order_view d))
     \<and> (\<forall>v\<in>set (order_view d). \<exists>s. status_parse (snd v) = Some s \<and> evlog.replays (fst v) (Some s) d)
     \<and> (\<forall>sid. sid \<notin> fst ` set (order_view d) \<longrightarrow> evlog.replays sid None d)"
  by (simp add: log_inv_def order_view_def image_image comp_def)

lemma log_inv_cong:
  assumes "order_view d' = order_view d" "events d' = events d" "outbox d' = outbox d"
  shows "log_inv d' = log_inv d"
proof -
  have "outbox_ok d' = outbox_ok d" and "evlog.replays sid st d' = evlog.replays sid st d" for sid st
    using assms by (simp_all add: outbox_ok_def log_ok_def evlog.replays_def stream_types_def events_stream_def)
  with assms(1) show ?thesis by (simp add: log_inv_view)
qed

lemma order_view_update [simp]:
  "(\<And>r. ord_id (f r) = ord_id r) \<Longrightarrow> (\<And>r. ord_status (f r) = ord_status r) \<Longrightarrow>
   order_view (d\<lparr>orders := update_where P f (orders d)\<rparr>) = order_view d"
  by (simp add: order_view_def map_update_where)

text \<open>Updating other columns of an order keeps both invariants.\<close>

lemma booking_inv_touch:
  "(\<And>r. ord_id (f r) = ord_id r) \<Longrightarrow> (\<And>r. ord_status (f r) = ord_status r) \<Longrightarrow>
   booking_inv (d\<lparr>orders := update_where P f (orders d)\<rparr>) = booking_inv d"
proof -
  assume "\<And>r. ord_id (f r) = ord_id r" "\<And>r. ord_status (f r) = ord_status r"
  then have view: "order_view (d\<lparr>orders := update_where P f (orders d)\<rparr>) = order_view d"
    by (rule order_view_update)
  have "claims_inv (d\<lparr>orders := update_where P f (orders d)\<rparr>) = claims_inv d"
    by (rule claims_inv_cong [OF view]) simp_all
  moreover have "log_inv (d\<lparr>orders := update_where P f (orders d)\<rparr>) = log_inv d"
    by (rule log_inv_cong [OF view]) simp_all
  ultimately show ?thesis by (simp add: booking_inv_def)
qed

lemma log_inv_log_ok: "log_inv d \<Longrightarrow> log_ok d"
  by (simp add: log_inv_def outbox_ok_def)

section \<open>One lifecycle step\<close>

lemma status_not_released: "lifecycle_apply (Some current) e = Inr next \<Longrightarrow> \<not> released_status current"
  by (cases current; cases e) (auto simp: released_status_def lifecycle_apply.simps)

lemma released_next:
  "lifecycle_apply (Some current) e = Inr next \<Longrightarrow> released_status next \<longleftrightarrow> releases_inventory e"
  using release_is_terminal [of "Some current" e "next"] by (simp add: released_status_def)

definition advance :: "instant \<Rightarrow> uuid \<Rightarrow> order_event_type \<Rightarrow> event_payload \<Rightarrow> order_status \<Rightarrow> db \<Rightarrow> db" where
  "advance now order_id e p next d = events_append order_id (event_as_str e) p now (set_status now order_id next d)"

lemma set_status_frame [simp]:
  "order_items (set_status now i s d) = order_items d"
  "seat_occupancy (set_status now i s d) = seat_occupancy d"
  "pool_occupancy (set_status now i s d) = pool_occupancy d"
  "capacity_units (set_status now i s d) = capacity_units d"
  "events (set_status now i s d) = events d" "outbox (set_status now i s d) = outbox d"
  "tickets (set_status now i s d) = tickets d" "trips (set_status now i s d) = trips d"
  "passengers (set_status now i s d) = passengers d"
  by (simp_all add: set_status_def)

lemma advance_frame [simp]:
  "order_items (advance now i e p s d) = order_items d"
  "seat_occupancy (advance now i e p s d) = seat_occupancy d"
  "pool_occupancy (advance now i e p s d) = pool_occupancy d"
  "capacity_units (advance now i e p s d) = capacity_units d"
  "tickets (advance now i e p s d) = tickets d" "trips (advance now i e p s d) = trips d"
  "passengers (advance now i e p s d) = passengers d"
  by (simp_all add: advance_def)

lemma advance_orders: "orders (advance now i e p s d) = orders (set_status now i s d)"
  by (simp add: advance_def)

lemma ord_ids_set_status [simp]: "map ord_id (orders (set_status now i s d)) = map ord_id (orders d)"
  unfolding set_status_def by (simp, rule map_update_where, simp)

lemma ord_id_set_set_status [simp]: "ord_id ` set (orders (set_status now i s d)) = ord_id ` set (orders d)"
  by (simp only: image_set ord_ids_set_status)

lemma live_set_status:
  assumes "distinct (map ord_id (orders d))" and "r \<in> set (orders d)" "ord_id r = order_id"
  shows "live (set_status now order_id next d) x
     \<longleftrightarrow> (if x = order_id then \<not> released_status next else live d x)"
  using assms(2,3)
  by (auto simp: live_def live_row_def set_status_def update_where_def bex_Un)

lemma live_iff:
  assumes "distinct (map ord_id (orders d))" and "r \<in> set (orders d)"
  shows "live d (ord_id r) \<longleftrightarrow> live_row r"
  using assms(2) distinct_key_eq [OF assms] unfolding live_def by metis

lemma log_inv_advance:
  assumes inv: "log_inv d" and r: "r \<in> set (orders d)" "ord_id r = order_id"
    and cur: "status_parse (ord_status r) = Some current" and step: "lifecycle_apply (Some current) e = Inr next"
  shows "log_inv (advance now order_id e p next d)"
proof -
  let ?d1 = "set_status now order_id next d"
  have dist: "distinct (map ord_id (orders d))" and ob: "outbox_ok d"
    and rows: "\<And>x. x \<in> set (orders d) \<Longrightarrow>
       \<exists>s. status_parse (ord_status x) = Some s \<and> evlog.replays (ord_id x) (Some s) d"
    and none: "\<And>sid. sid \<notin> ord_id ` set (orders d) \<Longrightarrow> evlog.replays sid None d"
    using inv unfolding log_inv_def by blast+
  have ob1: "outbox_ok ?d1" using ob by (simp add: outbox_ok_def log_ok_def)
  then have log1: "log_ok ?d1" by (simp add: outbox_ok_def)
  have rep1: "evlog.replays sid st ?d1 \<longleftrightarrow> evlog.replays sid st d" for sid st
    by (simp add: evlog.replays_def stream_types_def events_stream_def)
  have rep: "evlog.replays order_id (Some current) d"
    using rows [OF r(1)] r(2) cur by simp
  have new: "evlog.replays order_id (Some next) (advance now order_id e p next d)"
    unfolding advance_def using rep step by (intro evlog.replays_append [OF log1]) (simp_all add: rep1)
  have old: "sid \<noteq> order_id \<Longrightarrow> evlog.replays sid st (advance now order_id e p next d) \<longleftrightarrow> evlog.replays sid st d" for sid st
    unfolding advance_def by (simp add: evlog.replays_append_other [OF log1] rep1)
  have "\<exists>s. status_parse (ord_status x) = Some s \<and> evlog.replays (ord_id x) (Some s) (advance now order_id e p next d)"
    if x: "x \<in> set (orders ?d1)" for x
  proof (cases "ord_id x = order_id")
    case True
    have "x \<in> (\<lambda>y. if ord_id y = order_id then y\<lparr>ord_status := status_as_str next, ord_updated_at := now\<rparr> else y)
        ` set (orders d)"
      using x by (simp add: set_status_def update_where_def)
    then obtain y where "x = (if ord_id y = order_id then y\<lparr>ord_status := status_as_str next, ord_updated_at := now\<rparr> else y)"
      by (rule imageE)
    with True have "ord_status x = status_as_str next" by (cases "ord_id y = order_id") simp_all
    with True new show ?thesis by simp
  next
    case False
    with x have "x \<in> set (orders d)" by (auto simp: set_status_def sql_simps)
    from rows [OF this] show ?thesis by (simp add: old [OF False])
  qed
  moreover have "evlog.replays sid None (advance now order_id e p next d)"
    if "sid \<notin> ord_id ` set (orders ?d1)" for sid
  proof -
    have sid: "sid \<notin> ord_id ` set (orders d)" using that by simp
    then have "sid \<noteq> order_id" using r by blast
    with none [OF sid] show ?thesis by (simp add: old)
  qed
  moreover have "outbox_ok (advance now order_id e p next d)"
    unfolding advance_def by (rule outbox_ok_append [OF ob1])
  ultimately show ?thesis using dist unfolding log_inv_def advance_orders by simp
qed

text \<open>A step that keeps the inventory keeps the claims; a releasing one leaves the order's to be released.\<close>

lemma live_items_advance:
  assumes inv: "log_inv d" and r: "r \<in> set (orders d)" "ord_id r = order_id"
    and cur: "status_parse (ord_status r) = Some current" and step: "lifecycle_apply (Some current) e = Inr next"
  shows "live_items d = live_items (advance now order_id e p next d)
    + (if releases_inventory e then mset (filter (\<lambda>i. oi_order i = order_id) (order_items d)) else {#})"
proof -
  have dist: "distinct (map ord_id (orders d))" using inv by (simp add: log_inv_def)
  have liv: "live d order_id"
    using live_iff [OF dist r(1)] r(2) cur status_not_released [OF step] by (simp add: live_row_def)
  have live': "live (advance now order_id e p next d) x
      \<longleftrightarrow> (if x = order_id then \<not> releases_inventory e else live d x)" for x
    using live_set_status [OF dist r, of now "next" x] released_next [OF step] by (simp add: live_def advance_orders)
  show ?thesis
    by (rule multiset_eqI) (auto simp: live_items_def live' liv)
qed

lemma claims_inv_advance:
  assumes "booking_inv d" and "r \<in> set (orders d)" "ord_id r = order_id"
    and "status_parse (ord_status r) = Some current" and "lifecycle_apply (Some current) e = Inr next"
    and "\<not> releases_inventory e"
  shows "claims_inv (advance now order_id e p next d)"
  using assms(1) live_items_advance [OF _ assms(2-5), of now p] assms(6)
  by (auto simp: booking_inv_def claims_inv_def seats_ok_def pools_ok_def pool_capacity_of_def [abs_def] item_backed_def
      advance_orders)

section \<open>Releasing an order's items\<close>

text \<open>The release loop on tables that account for the items: no release fails.\<close>

lemma release_items_ok:
  assumes "seats_ok d (\<lambda>k. S k + seat_part (mset items) k)" and "pools_ok d (\<lambda>k. P k + pool_part (mset items) k)"
    and "\<forall>r\<in>set items. if oi_kind r = ''seat'' then (oi_trip r, oi_unit r) \<in> seat_key ` set (seat_occupancy d)
          else (oi_trip r, oi_unit r) \<in> pool_key ` set (pool_occupancy d)"
  shows "\<exists>so po. release_items items d = Inr (d\<lparr>seat_occupancy := so, pool_occupancy := po\<rparr>)
     \<and> seats_ok (d\<lparr>seat_occupancy := so, pool_occupancy := po\<rparr>) S
     \<and> pools_ok (d\<lparr>seat_occupancy := so, pool_occupancy := po\<rparr>) P
     \<and> map seat_key so = map seat_key (seat_occupancy d) \<and> map pool_key po = map pool_key (pool_occupancy d)"
  using assms
proof (induction items arbitrary: d)
  case Nil
  show ?case
    using Nil by (intro exI [of _ "seat_occupancy d"] exI [of _ "pool_occupancy d"]) simp
next
  case (Cons r items)
  let ?k = "(oi_trip r, oi_unit r)"
  show ?case
  proof (cases "oi_kind r = ''seat''")
    case True
    have ok: "seats_ok d ((\<lambda>k. S k + seat_part (mset items) k)(?k :=
        add_mset (item_span r) (S ?k + seat_part (mset items) ?k)))"
      using Cons.prems(1) True by (simp add: fun_upd_def if_distrib cong: if_cong)
    have ex: "?k \<in> seat_key ` set (seat_occupancy d)" using Cons.prems(3) True by simp
    from ex obtain row where "row \<in> set (seat_occupancy d)" "seat_key row = ?k" by auto
    with ok have "valid_span (item_span r)"
      by (auto simp: seats_ok_def ledger_ok_def seat_held_def dest!: bspec)
    then have new: "span_new (as_u8 (oi_from_index r)) (as_u8 (oi_to_index r)) = Inr (item_span r)"
      unfolding span_new_Inr item_span_def by simp
    obtain rows where rel: "release_seat_exec (oi_trip r) (oi_unit r) (item_span r) d = (d\<lparr>seat_occupancy := rows\<rparr>, 1)"
      and ok': "seats_ok (d\<lparr>seat_occupancy := rows\<rparr>) (\<lambda>k. S k + seat_part (mset items) k)"
      and keys: "map seat_key rows = map seat_key (seat_occupancy d)"
      using release_seat_exec_ok [OF ok ex] by blast
    have kset: "seat_key ` set rows = seat_key ` set (seat_occupancy d)" using keys by (metis image_set)
    have "pools_ok (d\<lparr>seat_occupancy := rows\<rparr>) (\<lambda>k. P k + pool_part (mset items) k)"
      using Cons.prems(2) True by (simp add: pools_ok_def pool_capacity_of_def [abs_def])
    note pools = this
    have backed: "\<forall>r\<in>set items. if oi_kind r = ''seat''
        then (oi_trip r, oi_unit r) \<in> seat_key ` set (seat_occupancy (d\<lparr>seat_occupancy := rows\<rparr>))
        else (oi_trip r, oi_unit r) \<in> pool_key ` set (pool_occupancy (d\<lparr>seat_occupancy := rows\<rparr>))"
      using Cons.prems(3) kset by simp
    from Cons.IH [OF ok' pools backed] obtain so po where
      "release_items items (d\<lparr>seat_occupancy := rows\<rparr>) = Inr (d\<lparr>seat_occupancy := so, pool_occupancy := po\<rparr>)"
      "seats_ok (d\<lparr>seat_occupancy := so, pool_occupancy := po\<rparr>) S"
      "pools_ok (d\<lparr>seat_occupancy := so, pool_occupancy := po\<rparr>) P"
      "map seat_key so = map seat_key rows" "map pool_key po = map pool_key (pool_occupancy d)"
      by (simp, blast)
    with keys new rel True show ?thesis by (intro exI [of _ so] exI [of _ po]) simp
  next
    case False
    have ok: "pools_ok d ((\<lambda>k. P k + pool_part (mset items) k)(?k :=
        add_mset (item_span r, oi_quantity r) (P ?k + pool_part (mset items) ?k)))"
      using Cons.prems(2) False by (simp add: fun_upd_def if_distrib cong: if_cong)
    have ex: "?k \<in> pool_key ` set (pool_occupancy d)" using Cons.prems(3) False by simp
    from ex obtain row where "row \<in> set (pool_occupancy d)" "pool_key row = ?k" by auto
    with ok have "valid_span (item_span r)"
      by (auto simp: pools_ok_def ledger_ok_def pool_held_def pool_claim_valid_def dest!: bspec)
    then have new: "span_new (as_u8 (oi_from_index r)) (as_u8 (oi_to_index r)) = Inr (item_span r)"
      unfolding span_new_Inr item_span_def by simp
    obtain rows where rel: "release_pool_exec (oi_trip r) (oi_unit r) (item_span r) (oi_quantity r) d
        = Inr (d\<lparr>pool_occupancy := rows\<rparr>, 1)"
      and ok': "pools_ok (d\<lparr>pool_occupancy := rows\<rparr>) (\<lambda>k. P k + pool_part (mset items) k)"
      and keys: "map pool_key rows = map pool_key (pool_occupancy d)"
      using release_pool_exec_ok [OF ok ex] by blast
    have kset: "pool_key ` set rows = pool_key ` set (pool_occupancy d)" using keys by (metis image_set)
    have "seats_ok (d\<lparr>pool_occupancy := rows\<rparr>) (\<lambda>k. S k + seat_part (mset items) k)"
      using Cons.prems(1) False by (simp add: seats_ok_def)
    note seats = this
    have backed: "\<forall>r\<in>set items. if oi_kind r = ''seat''
        then (oi_trip r, oi_unit r) \<in> seat_key ` set (seat_occupancy (d\<lparr>pool_occupancy := rows\<rparr>))
        else (oi_trip r, oi_unit r) \<in> pool_key ` set (pool_occupancy (d\<lparr>pool_occupancy := rows\<rparr>))"
      using Cons.prems(3) kset by simp
    from Cons.IH [OF seats ok' backed] obtain so po where
      "release_items items (d\<lparr>pool_occupancy := rows\<rparr>) = Inr (d\<lparr>pool_occupancy := rows\<rparr>\<lparr>seat_occupancy := so, pool_occupancy := po\<rparr>)"
      "seats_ok (d\<lparr>pool_occupancy := rows\<rparr>\<lparr>seat_occupancy := so, pool_occupancy := po\<rparr>) S"
      "pools_ok (d\<lparr>pool_occupancy := rows\<rparr>\<lparr>seat_occupancy := so, pool_occupancy := po\<rparr>) P"
      "map seat_key so = map seat_key (seat_occupancy d)" "map pool_key po = map pool_key rows"
      by (simp, blast)
    with keys new rel False show ?thesis by (intro exI [of _ so] exI [of _ po]) simp
  qed
qed

section \<open>Every transition keeps the invariant\<close>

text \<open>What \<open>apply_event_locked\<close> can answer: a no-op that changed nothing, or one legal step.\<close>

lemma apply_event_cases:
  assumes "log_inv d"
  obtains out where "apply_event_locked now i e p d = Inr (d, out)" "\<forall>s. out \<noteq> Applied s"
  | r current "next" where "apply_event_locked now i e p d = Inr (advance now i e p next d, Applied next)"
      "r \<in> set (orders d)" "ord_id r = i" "status_parse (ord_status r) = Some current"
      "lifecycle_apply (Some current) e = Inr next"
proof (cases "List.find (\<lambda>r. ord_id r = i) (orders d)")
  case None
  then show thesis by (intro that(1) [of OrderMissing]) (simp_all add: apply_event_locked_def)
next
  case (Some r)
  then have r: "r \<in> set (orders d)" "ord_id r = i" using find_Some_in by fastforce+
  obtain current where cur: "status_parse (ord_status r) = Some current"
    using assms r(1) unfolding log_inv_def by blast
  show thesis
  proof (cases "lifecycle_apply (Some current) e")
    case (Inl x)
    with Some cur show thesis by (intro that(1) [of "NoOp current"]) (simp_all add: apply_event_locked_def)
  next
    case (Inr "next")
    with Some cur r show thesis
      by (intro that(2) [of "next" r current]) (simp_all add: apply_event_locked_def advance_def)
  qed
qed

lemma advance_keeps:
  assumes "booking_inv d" and "r \<in> set (orders d)" "ord_id r = i"
    and "status_parse (ord_status r) = Some current" and "lifecycle_apply (Some current) e = Inr next"
    and "\<not> releases_inventory e"
  shows "booking_inv (advance now i e p next d)"
  using claims_inv_advance [OF assms] log_inv_advance [OF _ assms(2-5)] assms(1) by (simp add: booking_inv_def)

lemma advance_release:
  assumes inv: "booking_inv d" and r: "r \<in> set (orders d)" "ord_id r = i"
    and cur: "status_parse (ord_status r) = Some current" and step: "lifecycle_apply (Some current) e = Inr next"
    and rel: "releases_inventory e"
  obtains so po where
    "release_order_items i (advance now i e p next d) = Inr (advance now i e p next d\<lparr>seat_occupancy := so, pool_occupancy := po\<rparr>)"
    "booking_inv (advance now i e p next d\<lparr>seat_occupancy := so, pool_occupancy := po\<rparr>)"
    "map seat_key so = map seat_key (seat_occupancy d)" "map pool_key po = map pool_key (pool_occupancy d)"
proof -
  let ?d = "advance now i e p next d"
  let ?items = "filter (\<lambda>x. oi_order x = i) (order_items d)"
  have claims: "claims_inv d" and log: "log_inv d" using inv by (simp_all add: booking_inv_def)
  have split: "live_items d = live_items ?d + mset ?items"
    using live_items_advance [OF log r cur step] rel by simp
  have "seats_ok ?d (\<lambda>k. seat_part (live_items ?d) k + seat_part (mset ?items) k)"
    using claims unfolding claims_inv_def seat_part_union split by (simp add: seats_ok_def)
  moreover have "pools_ok ?d (\<lambda>k. pool_part (live_items ?d) k + pool_part (mset ?items) k)"
    using claims unfolding claims_inv_def pool_part_union split
    by (simp add: pools_ok_def pool_capacity_of_def [abs_def])
  moreover have "\<forall>r\<in>set ?items. if oi_kind r = ''seat''
      then (oi_trip r, oi_unit r) \<in> seat_key ` set (seat_occupancy ?d)
      else (oi_trip r, oi_unit r) \<in> pool_key ` set (pool_occupancy ?d)"
    using claims by (auto simp: claims_inv_def item_backed_def)
  ultimately obtain so po where
    run: "release_items ?items ?d = Inr (?d\<lparr>seat_occupancy := so, pool_occupancy := po\<rparr>)"
    and ok: "seats_ok (?d\<lparr>seat_occupancy := so, pool_occupancy := po\<rparr>) (seat_part (live_items ?d))"
      "pools_ok (?d\<lparr>seat_occupancy := so, pool_occupancy := po\<rparr>) (pool_part (live_items ?d))"
    and keys: "map seat_key so = map seat_key (seat_occupancy d)" "map pool_key po = map pool_key (pool_occupancy d)"
    using release_items_ok [of ?d "seat_part (live_items ?d)" ?items "pool_part (live_items ?d)"] by (simp, blast)
  let ?d' = "?d\<lparr>seat_occupancy := so, pool_occupancy := po\<rparr>"
  have ksets: "seat_key ` set so = seat_key ` set (seat_occupancy d)" "pool_key ` set po = pool_key ` set (pool_occupancy d)"
    using keys by (metis image_set)+
  have "live_items ?d' = live_items ?d" by (simp add: live_items_def live_def)
  moreover have "item_backed ?d' x \<longleftrightarrow> item_backed d x" for x
    by (simp add: item_backed_def ksets advance_orders)
  ultimately have "claims_inv ?d'" using ok claims unfolding claims_inv_def by simp
  moreover have "log_inv ?d'"
    using log_inv_advance [OF log r cur step] log_inv_cong [of ?d' ?d] by (simp add: order_view_def)
  ultimately have "booking_inv ?d'" by (simp add: booking_inv_def)
  moreover have "release_order_items i ?d = Inr ?d'" using run by (simp add: release_order_items_def)
  ultimately show thesis using that keys by blast
qed

lemma booking_log [simp]: "booking_inv d \<Longrightarrow> log_inv d"
  by (simp add: booking_inv_def)

lemma request_payment_inv:
  assumes "booking_inv d"
  shows "booking_inv (fst (request_payment now i intent d))"
proof (cases rule: apply_event_cases [OF booking_log [OF assms], of now i PaymentRequested "IntentPayload intent"])
  case (1 out)
  with assms show ?thesis by (cases out) (simp_all add: request_payment_def commit_def)
next
  case (2 r current "next")
  have "booking_inv (advance now i PaymentRequested (IntentPayload intent) next d)"
    by (rule advance_keeps [OF assms 2(2-5)]) (simp add: releases_inventory_def)
  with 2(1) assms show ?thesis by (simp add: request_payment_def commit_def booking_inv_touch)
qed

lemma apply_payment_result_inv:
  assumes "booking_inv d"
  shows "booking_inv (fst (apply_payment_result now intent succeeded d))"
proof (cases "find_by_intent intent d")
  case None
  with assms show ?thesis by (simp add: apply_payment_result_def)
next
  case (Some i)
  let ?e = "if succeeded then PaymentCaptured else PaymentFailed"
  show ?thesis
  proof (cases rule: apply_event_cases [OF booking_log [OF assms], of now i ?e "IntentPayload intent"])
    case (1 out)
    then have "out \<noteq> Applied Paid" by blast
    with 1(1) Some assms show ?thesis by (simp add: apply_payment_result_def commit_def)
  next
    case (2 r current "next")
    have "booking_inv (advance now i ?e (IntentPayload intent) next d)"
      by (rule advance_keeps [OF assms 2(2-5)]) (simp add: releases_inventory_def)
    with 2(1) Some show ?thesis
      by (cases "next = Paid"; cases succeeded) (simp_all add: apply_payment_result_def commit_def booking_inv_touch)
  qed
qed

lemma cancel_inv:
  assumes "booking_inv d"
  shows "booking_inv (fst (cancel now i d))"
proof (cases rule: apply_event_cases [OF booking_log [OF assms], of now i OrderCancelled EmptyPayload])
  case (1 out)
  with assms show ?thesis by (cases out) (simp_all add: cancel_def commit_def)
next
  case (2 r current "next")
  have "releases_inventory OrderCancelled" by (simp add: releases_inventory_def)
  then obtain so po where
    rel: "release_order_items i (advance now i OrderCancelled EmptyPayload next d)
      = Inr (advance now i OrderCancelled EmptyPayload next d\<lparr>seat_occupancy := so, pool_occupancy := po\<rparr>)"
    and inv: "booking_inv (advance now i OrderCancelled EmptyPayload next d\<lparr>seat_occupancy := so, pool_occupancy := po\<rparr>)"
    by (rule advance_release [OF assms 2(2-5)])
  show ?thesis using inv by (simp add: cancel_def commit_def 2(1) rel)
qed

lemma expire_order_inv:
  assumes "booking_inv d"
  shows "booking_inv (fst (expire_order now i d))"
proof (cases rule: apply_event_cases [OF booking_log [OF assms], of now i OrderExpired EmptyPayload])
  case (1 out)
  with assms show ?thesis by (cases out) (simp_all add: expire_order_def commit_def)
next
  case (2 r current "next")
  have "releases_inventory OrderExpired" by (simp add: releases_inventory_def)
  then obtain so po where
    rel: "release_order_items i (advance now i OrderExpired EmptyPayload next d)
      = Inr (advance now i OrderExpired EmptyPayload next d\<lparr>seat_occupancy := so, pool_occupancy := po\<rparr>)"
    and inv: "booking_inv (advance now i OrderExpired EmptyPayload next d\<lparr>seat_occupancy := so, pool_occupancy := po\<rparr>)"
    by (rule advance_release [OF assms 2(2-5)])
  show ?thesis using inv by (simp add: expire_order_def commit_def 2(1) rel)
qed

lemma booking_inv_tickets [simp]: "booking_inv (d\<lparr>tickets := x\<rparr>) = booking_inv d"
proof -
  have "order_view (d\<lparr>tickets := x\<rparr>) = order_view d" by (simp add: order_view_def)
  from claims_inv_cong [OF this] log_inv_cong [OF this] show ?thesis by (simp add: booking_inv_def)
qed

lemma refund_inv:
  assumes "booking_inv d"
  shows "booking_inv (fst (refund now i d))"
proof (cases rule: apply_event_cases [OF booking_log [OF assms], of now i OrderRefunded EmptyPayload])
  case (1 out)
  with assms show ?thesis by (cases out) (simp_all add: refund_def commit_def)
next
  case (2 r current "next")
  have "releases_inventory OrderRefunded" by (simp add: releases_inventory_def)
  then obtain so po where
    rel: "release_order_items i (advance now i OrderRefunded EmptyPayload next d)
      = Inr (advance now i OrderRefunded EmptyPayload next d\<lparr>seat_occupancy := so, pool_occupancy := po\<rparr>)"
    and inv: "booking_inv (advance now i OrderRefunded EmptyPayload next d\<lparr>seat_occupancy := so, pool_occupancy := po\<rparr>)"
    by (rule advance_release [OF assms 2(2-5)])
  show ?thesis using inv by (simp add: refund_def commit_def 2(1) rel)
qed

section \<open>Creating an order keeps the invariant\<close>

lemma log_cong: "events d' = events d \<Longrightarrow> log_ok d' = log_ok d"
  by (simp add: log_ok_def)

lemma outbox_cong: "events d' = events d \<Longrightarrow> outbox d' = outbox d \<Longrightarrow> outbox_ok d' = outbox_ok d"
  by (simp add: outbox_ok_def log_ok_def)

lemma replays_cong: "events d' = events d \<Longrightarrow> evlog.replays sid st d' = evlog.replays sid st d"
  by (simp add: evlog.replays_def stream_types_def events_stream_def)

lemma insert_order_ok:
  assumes "claims_inv d" and "insert_order now i ord t x d = Inr d'"
  shows "claims_inv d'" and "live d' i" and "order_view d' = order_view d @ [(i, status_as_str Locked)]"
    and "i \<notin> ord_id ` set (orders d)" and "events d' = events d" and "outbox d' = outbox d"
    and "order_items d' = order_items d"
proof -
  from assms(2) obtain row where new: "i \<notin> ord_id ` set (orders d)"
    and d': "d' = d\<lparr>orders := orders d @ [row]\<rparr>" "ord_id row = i" "ord_status row = status_as_str Locked"
    by (auto simp: insert_order_def split: option.splits)
  then show "order_view d' = order_view d @ [(i, status_as_str Locked)]" "i \<notin> ord_id ` set (orders d)"
    "events d' = events d" "outbox d' = outbox d" "order_items d' = order_items d"
    by (simp_all add: order_view_def)
  have liv: "live d' x \<longleftrightarrow> live d x \<or> x = i" for x
    using d' by (auto simp: live_def live_row_def released_status_def)
  then show "live d' i" by simp
  have backed: "\<forall>r\<in>set (order_items d). item_backed d r" using assms(1) by (simp add: claims_inv_def)
  then have "live_items d' = live_items d"
    using new unfolding live_items_def d'(1) by (intro filter_mset_cong) (auto simp: liv [unfolded d'(1)] item_backed_def)
  with assms(1) d'(1) backed show "claims_inv d'"
    by (auto simp: claims_inv_def seats_ok_def pools_ok_def pool_capacity_of_def [abs_def] item_backed_def)
qed

lemma insert_passengers_frame:
  "insert_passengers now i ps d = Inr d' \<Longrightarrow>
   claims_inv d' = claims_inv d \<and> orders d' = orders d \<and> events d' = events d \<and> outbox d' = outbox d
   \<and> order_items d' = order_items d \<and> seat_occupancy d' = seat_occupancy d
   \<and> pool_occupancy d' = pool_occupancy d \<and> capacity_units d' = capacity_units d"
proof (induction ps arbitrary: d)
  case (Cons p ps)
  obtain pid x where p: "p = (pid, x)" by force
  from Cons.prems obtain rows where run: "insert_passengers now i ps (d\<lparr>passengers := rows\<rparr>) = Inr d'"
    by (auto simp: p split: option.splits)
  have "claims_inv (d\<lparr>passengers := rows\<rparr>) = claims_inv d"
    by (rule claims_inv_cong) (simp_all add: order_view_def)
  with Cons.IH [OF run] show ?case by simp
qed simp

lemma insert_ancillaries_frame:
  "insert_ancillaries i pax ls d = Inr (d', rec) \<Longrightarrow>
   claims_inv d' = claims_inv d \<and> orders d' = orders d \<and> events d' = events d \<and> outbox d' = outbox d
   \<and> order_items d' = order_items d \<and> seat_occupancy d' = seat_occupancy d
   \<and> pool_occupancy d' = pool_occupancy d \<and> capacity_units d' = capacity_units d"
proof (induction ls arbitrary: d rec)
  case (Cons l ls)
  obtain aid x where l: "l = (aid, x)" by force
  from Cons.prems obtain rows rec' where
    run: "insert_ancillaries i pax ls (d\<lparr>order_ancillaries := rows\<rparr>) = Inr (d', rec')"
    by (auto simp: l Let_def split: option.splits if_splits)
  have "claims_inv (d\<lparr>order_ancillaries := rows\<rparr>) = claims_inv d"
    by (rule claims_inv_cong) (simp_all add: order_view_def)
  with Cons.IH [OF run] show ?case by simp
qed simp

lemma item_span_row [simp]: "item_span (item_row i item target p) = ct_span target"
  by (simp add: item_span_def item_row_def)

lemma item_row_fields [simp]:
  "oi_order (item_row i item target p) = i" "oi_kind (item_row i item target p) = ct_kind target"
  "oi_trip (item_row i item target p) = ni_trip_id item" "oi_unit (item_row i item target p) = ct_unit_id target"
  "oi_quantity (item_row i item target p) = max (ni_quantity item) 1"
  by (simp_all add: item_row_def)

text \<open>A won claim together with its item row.\<close>

lemma claim_item_ok:
  assumes inv: "claims_inv d" and liv: "live d i" and v: "valid_span (ct_span target)"
    and run: "claim_item item target d = Inr (d1, 1)"
  shows "claims_inv (d1\<lparr>order_items := order_items d @ [item_row i item target p]\<rparr>)" (is "claims_inv ?d")
    and "orders d1 = orders d" and "events d1 = events d" and "outbox d1 = outbox d" and "order_items d1 = order_items d"
proof -
  let ?k = "(ni_trip_id item, ct_unit_id target)"
  have seats: "seats_ok d (seat_part (live_items d))" and pools: "pools_ok d (pool_part (live_items d))"
    and backed: "\<forall>r\<in>set (order_items d). item_backed d r"
    using inv by (simp_all add: claims_inv_def)
  have known: "i \<in> ord_id ` set (orders d)" using liv by (auto simp: live_def)
  have items: "live_items (d2\<lparr>order_items := order_items d @ [item_row i item target p]\<rparr>)
      = add_mset (item_row i item target p) (live_items d)" if "orders d2 = orders d" for d2
    using liv that by (simp add: live_items_def live_def)
  have "claims_inv ?d \<and> orders d1 = orders d \<and> events d1 = events d \<and> outbox d1 = outbox d \<and> order_items d1 = order_items d"
  proof (cases "ct_kind target = ''seat''")
    case True
    with run have "claim_seat_exec (ni_trip_id item) (ct_unit_id target) (ct_span target) d = (d1, 1)"
      by (simp add: claim_item_def)
    then obtain rows where d1: "d1 = d\<lparr>seat_occupancy := rows\<rparr>"
      and ok: "seats_ok d1 ((seat_part (live_items d))(?k := add_mset (ct_span target) (seat_part (live_items d) ?k)))"
      and keys: "map seat_key rows = map seat_key (seat_occupancy d)" and ex: "?k \<in> seat_key ` set rows"
      by (cases rule: claim_seat_exec_ok [OF seats v, of "ni_trip_id item" "ct_unit_id target"]) auto
    have kset: "seat_key ` set rows = seat_key ` set (seat_occupancy d)" using keys by (metis image_set)
    have "claims_inv ?d"
      using ok pools backed True ex known unfolding claims_inv_def
      by (auto simp: d1 items seats_ok_def pools_ok_def pool_capacity_of_def [abs_def] item_backed_def kset)
    then show "claims_inv ?d \<and> orders d1 = orders d \<and> events d1 = events d \<and> outbox d1 = outbox d \<and> order_items d1 = order_items d"
      by (simp add: d1)
  next
    case False
    with run have q: "0 < ni_quantity item"
      and pool_run: "claim_pool_exec (ni_trip_id item) (ct_unit_id target) (ct_span target) (ni_quantity item) d = Inr (d1, 1)"
      by (auto simp: claim_item_def split: if_splits)
    have "pool_claim_valid (ct_span target, ni_quantity item)" using v q by (simp add: pool_claim_valid_def)
    note valid = this
    from pool_run obtain rows where d1: "d1 = d\<lparr>pool_occupancy := rows\<rparr>"
      and ok: "pools_ok d1 ((pool_part (live_items d))(?k := add_mset (ct_span target, ni_quantity item) (pool_part (live_items d) ?k)))"
      and keys: "map pool_key rows = map pool_key (pool_occupancy d)" and ex: "?k \<in> pool_key ` set rows"
      by (cases rule: claim_pool_exec_ok [OF pools valid, of "ni_trip_id item" "ct_unit_id target"]) auto
    have kset: "pool_key ` set rows = pool_key ` set (pool_occupancy d)" using keys by (metis image_set)
    have "max (ni_quantity item) 1 = ni_quantity item" using q by simp
    then have "claims_inv ?d"
      using ok seats backed False ex known unfolding claims_inv_def
      by (auto simp: d1 items seats_ok_def pools_ok_def pool_capacity_of_def [abs_def] item_backed_def kset)
    then show "claims_inv ?d \<and> orders d1 = orders d \<and> events d1 = events d \<and> outbox d1 = outbox d \<and> order_items d1 = order_items d"
      by (simp add: d1)
  qed
  then show "claims_inv ?d" "orders d1 = orders d" "events d1 = events d" "outbox d1 = outbox d"
    "order_items d1 = order_items d" by blast+
qed

lemma claim_items_ok:
  "claims_inv d \<Longrightarrow> live d i \<Longrightarrow> \<forall>x\<in>set items. valid_span (ct_span (fst (snd x))) \<Longrightarrow>
   claim_items i pax items d = Inr (d', rec) \<Longrightarrow>
   claims_inv d' \<and> orders d' = orders d \<and> events d' = events d \<and> outbox d' = outbox d"
proof (induction items arbitrary: d rec)
  case (Cons x items)
  obtain item target slot where x: "x = (item, target, slot)" by (metis prod_cases3)
  let ?row = "item_row i item target (map_option pax slot)"
  from Cons.prems(4) obtain d1 rec' where run: "claim_item item target d = Inr (d1, 1)"
    and rest: "claim_items i pax items (d1\<lparr>order_items := order_items d1 @ [?row]\<rparr>) = Inr (d', rec')"
    by (auto simp: x Let_def split: sum.splits if_splits option.splits)
  have v: "valid_span (ct_span target)" using Cons.prems(3) by (simp add: x)
  note one = claim_item_ok(1) [OF Cons.prems(1,2) v run, of "map_option pax slot"]
    claim_item_ok(2-5) [OF Cons.prems(1,2) v run]
  have "claims_inv (d1\<lparr>order_items := order_items d1 @ [?row]\<rparr>)" using one(1) one(5) by simp
  moreover have "live (d1\<lparr>order_items := order_items d1 @ [?row]\<rparr>) i"
    using Cons.prems(2) one(2) by (simp add: live_def)
  ultimately show ?case using Cons.IH [OF _ _ _ rest] Cons.prems(3) one by simp
qed simp

text \<open>A created order starts a stream that replays to \<open>Locked\<close>.\<close>

lemma create_log:
  assumes inv: "log_inv d" and fresh: "i \<notin> ord_id ` set (orders d)"
    and view: "order_view d1 = order_view d @ [(i, status_as_str Locked)]"
    and ev: "events d1 = events d" "outbox d1 = outbox d"
  shows "log_inv (events_append i (event_as_str InventoryLocked) p2 t2
           (events_append i (event_as_str OrderCreated) p1 t1 d1))" (is "log_inv ?d3")
proof -
  let ?d2 = "events_append i (event_as_str OrderCreated) p1 t1 d1"
  have ob: "outbox_ok d" and none: "\<And>sid. sid \<notin> ord_id ` set (orders d) \<Longrightarrow> evlog.replays sid None d"
    and rows: "\<And>v. v \<in> set (order_view d) \<Longrightarrow> \<exists>s. status_parse (snd v) = Some s \<and> evlog.replays (fst v) (Some s) d"
    and dist: "distinct (map fst (order_view d))"
    using inv unfolding log_inv_view ord_id_set_view by blast+
  have ob1: "outbox_ok d1" using ob outbox_cong [OF ev] by simp
  have ob2: "outbox_ok ?d2" by (rule outbox_ok_append [OF ob1])
  have l1: "log_ok d1" and l2: "log_ok ?d2" using ob1 ob2 by (simp_all add: outbox_ok_def)
  have "evlog.replays i None d1" using none [OF fresh] by (simp add: replays_cong [OF ev(1)])
  then have "evlog.replays i (Some Draft) ?d2"
    by (rule evlog.replays_append [OF l1]) (simp add: lifecycle_apply.simps)
  then have new: "evlog.replays i (Some Locked) ?d3"
    by (rule evlog.replays_append [OF l2]) (simp add: lifecycle_apply.simps)
  have old: "sid \<noteq> i \<Longrightarrow> evlog.replays sid st ?d3 \<longleftrightarrow> evlog.replays sid st d" for sid st
    by (simp add: evlog.replays_append_other [OF l2] evlog.replays_append_other [OF l1] replays_cong [OF ev(1)])
  have view3: "order_view ?d3 = order_view d @ [(i, status_as_str Locked)]"
    using view by (simp add: order_view_def)
  have ids: "sid \<noteq> i" if "sid \<in> fst ` set (order_view d)" for sid
    using fresh that by (auto simp: ord_id_set_view)
  show ?thesis
    unfolding log_inv_view view3
  proof (intro conjI ballI allI impI)
    show "outbox_ok ?d3" by (intro outbox_ok_append ob1)
    show "distinct (map fst (order_view d @ [(i, status_as_str Locked)]))"
      using dist fresh by (simp add: ord_id_set_view)
  next
    fix v assume v: "v \<in> set (order_view d @ [(i, status_as_str Locked)])"
    show "\<exists>s. status_parse (snd v) = Some s \<and> evlog.replays (fst v) (Some s) ?d3"
    proof (cases "v \<in> set (order_view d)")
      case True
      then have "fst v \<noteq> i" using ids by blast
      with rows [OF True] show ?thesis by (simp add: old)
    next
      case False
      with v have "v = (i, status_as_str Locked)" by simp
      with new show ?thesis by simp
    qed
  next
    fix sid assume "sid \<notin> fst ` set (order_view d @ [(i, status_as_str Locked)])"
    then have "sid \<noteq> i" "sid \<notin> ord_id ` set (orders d)" by (auto simp: ord_id_set_view)
    with none [of sid] show "evlog.replays sid None ?d3" by (simp add: old)
  qed
qed

lemma create_tx_cases:
  obtains (aborted) r where "create_tx now new ord targets slots d = (d, r)" "\<forall>x. r \<noteq> Inr (Created x)"
  | (created) t d0 d0' d1 d1' ps recorded ls anc p1 p2 rec where
      "insert_order now (new 0) ord t (now + minutes ORDER_TTL_MINUTES) d = Inr d0"
      "insert_passengers now (new 0) ps d0 = Inr d0'"
      "claim_items (new 0) (\<lambda>i. new (1 + i)) (zip (no_items ord) (zip targets slots)) d0' = Inr (d1, recorded)"
      "insert_ancillaries (new 0) (\<lambda>i. new (1 + i)) ls d1 = Inr (d1', anc)"
      "create_tx now new ord targets slots d =
         (events_append (new 0) (event_as_str InventoryLocked) p2 now
           (events_append (new 0) (event_as_str OrderCreated) p1 now d1'), Inr (Created rec))"
      "or_order_id rec = new 0" "or_status rec = Locked" "or_items rec = recorded"
      "t = order_total (no_items ord) (no_ancillaries ord)" "or_total_minor rec = t"
proof -
  let ?n = "length (no_passengers ord)" and ?t = "order_total (no_items ord) (no_ancillaries ord)"
  let ?ps = "map (\<lambda>(i, p). (new (1 + i), p)) (zip [0..<?n] (no_passengers ord))"
  let ?ls = "map (\<lambda>(i, a). (new (1 + ?n + i), a)) (zip [0..<length (no_ancillaries ord)] (no_ancillaries ord))"
  show thesis
  proof (cases "insert_order now (new 0) ord ?t (now + minutes ORDER_TTL_MINUTES) d")
    case (Inl e)
    then show thesis by (intro aborted [of "Inl (Db e)"]) (simp_all add: create_tx_def Let_def)
  next
    case d0: (Inr d0)
    show thesis
    proof (cases "insert_passengers now (new 0) ?ps d0")
      case (Inl e)
      with d0 show thesis by (intro aborted [of "Inl (Db e)"]) (simp_all add: create_tx_def Let_def)
    next
      case d0': (Inr d0')
      show thesis
      proof (cases "claim_items (new 0) (\<lambda>i. new (1 + i)) (zip (no_items ord) (zip targets slots)) d0'")
        case (Inl e)
        with d0 d0' show thesis
          by (intro aborted [of "case e of Inl x \<Rightarrow> Inl (Db x) | Inr c \<Rightarrow> Inr (Conflict c)"])
            (auto simp: create_tx_def Let_def split: sum.splits)
      next
        case d1: (Inr x)
        obtain d1 recorded where x: "x = (d1, recorded)" by force
        show thesis
        proof (cases "insert_ancillaries (new 0) (\<lambda>i. new (1 + i)) ?ls d1")
          case (Inl e)
          with d0 d0' d1 x show thesis by (intro aborted [of "Inl (Db e)"]) (simp_all add: create_tx_def Let_def)
        next
          case d1': (Inr y)
          obtain d1' anc where y: "y = (d1', anc)" by force
          show thesis
            by (rule created [OF d0 d0' d1 [unfolded x] d1' [unfolded y]])
              (use d0 d0' d1 d1' x y in \<open>simp add: create_tx_def create_commit_def Let_def\<close>, simp_all)
        qed
      qed
    qed
  qed
qed

lemma create_tx_inv:
  assumes inv: "booking_inv d" and v: "\<forall>t\<in>set targets. valid_span (ct_span t)"
  shows "booking_inv (fst (create_tx now new ord targets slots d))"
proof (cases rule: create_tx_cases [of now new ord targets slots d])
  case (aborted r)
  with inv show ?thesis by simp
next
  case (created t d0 d0' d1 d1' ps recorded ls anc p1 p2 rec)
  have claims: "claims_inv d" and log: "log_inv d" using inv by (simp_all add: booking_inv_def)
  note o = insert_order_ok [OF claims created(1)]
  note p = insert_passengers_frame [OF created(2)]
  have "live d0' (new 0)" using o(2) p by (simp add: live_def)
  moreover have "\<forall>x\<in>set (zip (no_items ord) (zip targets slots)). valid_span (ct_span (fst (snd x)))"
    using v by (auto elim!: in_set_zipE)
  ultimately have c: "claims_inv d1 \<and> orders d1 = orders d0' \<and> events d1 = events d0' \<and> outbox d1 = outbox d0'"
    using claim_items_ok [of d0' "new 0"] o(1) p created(3) by simp
  note a = insert_ancillaries_frame [OF created(4)]
  have view: "order_view d1' = order_view d @ [(new 0, status_as_str Locked)]"
    using o(3) p c a by (simp add: order_view_def)
  have "log_inv (fst (create_tx now new ord targets slots d))"
    unfolding created(5) fst_conv using p c a o(5,6) by (intro create_log [OF log o(4) view]) simp_all
  moreover have "claims_inv (fst (create_tx now new ord targets slots d)) = claims_inv d1'"
    unfolding created(5) fst_conv by (rule claims_inv_cong) (simp_all add: order_view_def)
  ultimately show ?thesis using c a by (simp add: booking_inv_def)
qed

lemma resolve_item_Inr:
  "resolve_item now d item = Inr t \<Longrightarrow>
   resolve_target now (ni_trip_id item) (ni_unit_code item) (ni_origin item) (ni_destination item) d = Inr (Some t)"
  by (auto simp: resolve_item_def split: sum.splits option.splits)

lemma resolve_item_Inl: "resolve_item now d item = Inl (Inr r) \<Longrightarrow> \<exists>m. r = NotFound m"
  by (cases "resolve_target now (ni_trip_id item) (ni_unit_code item) (ni_origin item) (ni_destination item) d")
    (auto simp: resolve_item_def split: option.splits)

lemma resolve_target_valid: "resolve_target now t u os ds d = Inr (Some target) \<Longrightarrow> valid_span (ct_span target)"
  unfolding resolve_target_def Let_def
  by (auto split: list.splits if_splits simp: resolve_span_valid)

lemma resolve_item_valid: "resolve_item now d item = Inr t \<Longrightarrow> valid_span (ct_span t)"
  by (rule resolve_target_valid [OF resolve_item_Inr])

lemma create_cases:
  obtains (refused) r where "create now new ord d = (d, r)" "\<forall>x. r \<noteq> Inr (Created x)"
  | (attempted) targets slots where "create now new ord d = create_tx now new ord targets slots d"
      "try_map (resolve_item now d) (no_items ord) = Inr targets"
      "try_map (passenger_slot (length (no_passengers ord))) (zip (no_items ord) targets) = Inr slots"
proof (cases "no_passengers ord = [] \<or> no_items ord = []")
  case True
  then show thesis
    by (intro refused [of "if no_passengers ord = [] then Inr (Invalid NoPassengers) else Inr (NotFound NoItems)"])
      (auto simp: create_def)
next
  case False
  show thesis
  proof (cases "try_map (resolve_item now d) (no_items ord)")
    case (Inl stop)
    have "stop \<noteq> Inr (Created x)" for x using try_map_Inl [OF Inl] resolve_item_Inl by fastforce
    with Inl False show thesis by (intro refused [of stop]) (simp_all add: create_def)
  next
    case targets: (Inr targets)
    show thesis
    proof (cases "try_map (passenger_slot (length (no_passengers ord))) (zip (no_items ord) targets)")
      case (Inl v)
      with targets False show thesis by (intro refused [of "Inr (Invalid v)"]) (simp_all add: create_def)
    next
      case slots: (Inr slots)
      show thesis
      proof (cases "try_map (ancillary_wiring (length (no_passengers ord))) (no_ancillaries ord)")
        case (Inl v)
        with targets slots False show thesis by (intro refused [of "Inr (Invalid v)"]) (simp_all add: create_def)
      next
        case (Inr u)
        with targets slots False show thesis by (intro attempted) (simp_all add: create_def)
      qed
    qed
  qed
qed

lemma create_inv:
  assumes "booking_inv d"
  shows "booking_inv (fst (create now new ord d))"
proof (cases rule: create_cases [of now new ord d])
  case (refused r)
  with assms show ?thesis by simp
next
  case (attempted targets slots)
  have "\<forall>t\<in>set targets. valid_span (ct_span t)"
    using try_map_set [OF attempted(2)] resolve_item_valid by blast
  with create_tx_inv [OF assms] attempted(1) show ?thesis by simp
qed

end
