(* ===== verification/Sample_Orders.thy ===== *)
theory Sample_Orders
  imports Booking Sample
begin

text \<open>
  An order on the sample network, for the witnesses: one passenger on seat 12A from A to C and
  two general admissions from A to B, created, sent to payment and captured.
\<close>

definition sample_new :: "nat \<Rightarrow> uuid" where
  "sample_new i = Uuid (of_nat (1000 + i))"

definition sample_seat_item :: new_order_item where
  "sample_seat_item = \<lparr>ni_trip_id = sample_trip_id, ni_unit_code = ''12A'', ni_origin = ''A'', ni_destination = ''C'',
     ni_quantity = 1, ni_price_minor = 1500, ni_passenger_index = None\<rparr>"

definition sample_pool_item :: new_order_item where
  "sample_pool_item = \<lparr>ni_trip_id = sample_trip_id, ni_unit_code = ''GA'', ni_origin = ''A'', ni_destination = ''B'',
     ni_quantity = 2, ni_price_minor = 800, ni_passenger_index = None\<rparr>"

definition sample_order :: new_order where
  "sample_order = \<lparr>no_passengers = [\<lparr>np_full_name = ''Ada'', np_type = Adult, np_birthdate = None\<rparr>],
     no_items = [sample_seat_item, sample_pool_item], no_ancillaries = [], no_currency = ''EUR'',
     no_customer_id = None, no_guest_contact = None\<rparr>"

definition sample_order_id :: uuid where "sample_order_id = Uuid 1000"

definition sample_locked :: db where
  "sample_locked = fst (create 0 sample_new sample_order sample_db)"

definition sample_pending :: db where
  "sample_pending = fst (request_payment 1 sample_order_id ''pi_1'' sample_locked)"

definition sample_paid :: db where
  "sample_paid = fst (apply_payment_result 2 ''pi_1'' True sample_pending)"

lemma sample_db_inv: "booking_inv sample_db"
proof -
  have "seat_part (live_items sample_db) = (\<lambda>_. {#})" "pool_part (live_items sample_db) = (\<lambda>_. {#})"
    by (simp_all add: live_items_def sample_db_def empty_db_def fun_eq_iff)
  moreover have "order_items sample_db = []" by (simp add: sample_db_def empty_db_def)
  ultimately have "claims_inv sample_db" using sample_tables_ok by (simp add: claims_inv_def)
  moreover have "evlog.replays sid None sample_db" for sid
    by (simp add: evlog.replays_def stream_types_def events_stream_def sample_db_def empty_db_def replay_def)
  moreover have "outbox_ok sample_db" "orders sample_db = []"
    by (simp_all add: sample_db_def empty_db_def outbox_ok_def log_ok_def)
  ultimately have "claims_inv sample_db" "log_inv sample_db" by (simp_all add: log_inv_def)
  then show ?thesis by (simp add: booking_inv_def)
qed

lemma sample_inv: "booking_inv sample_locked" "booking_inv sample_pending" "booking_inv sample_paid"
proof -
  show "booking_inv sample_locked" unfolding sample_locked_def by (rule create_inv [OF sample_db_inv])
  then show "booking_inv sample_pending" unfolding sample_pending_def by (rule request_payment_inv)
  then show "booking_inv sample_paid" unfolding sample_paid_def by (rule apply_payment_result_inv)
qed

lemma sample_orders:
  "map (\<lambda>r. (ord_id r, ord_status r, ord_total_minor r, ord_payment_intent r)) (orders sample_paid)
   = [(sample_order_id, ''paid'', 2300, Some ''pi_1'')]"
  by code_simp

end
