(* ===== verification/Ticket_Token.thy ===== *)
theory Ticket_Token
  imports Prelude
begin

text \<open>
  The signed ticket on the wire: \<open>TicketClaims\<close> and \<open>TicketSigner::sign_token\<close> of
  \<open>crates/lulan-engine/src/ticket/mod.rs\<close>, and the offline verifier of
  \<open>crates/lulan-validate/src/lib.rs\<close>.

  CBOR (\<open>ciborium\<close>), URL-safe base64 (\<open>base64\<close>) and Ed25519 (\<open>ed25519_dalek\<close>) are third-party
  code: the record \<open>wire\<close> holds the functions the two programs call, and every theorem names
  the documented behaviour it relies on. \<open>Signature::from_slice\<close> accepts exactly 64 bytes and the
  conversion to \<open>[u8; 32]\<close> exactly 32.
\<close>

type_synonym bytes = "8 word list"

record ticket_claims =
  tc_v :: "8 word"
  tc_tid :: uuid
  tc_trp :: uuid
  tc_unt :: string
  tc_f :: "8 word"
  tc_t :: "8 word"
  tc_pax :: string
  tc_fc :: "string option"
  tc_exp :: int
  tc_kid :: string

record wire =
  cbor_write :: "ticket_claims \<Rightarrow> bytes"
  cbor_read :: "bytes \<Rightarrow> ticket_claims option"
  b64_encode :: "bytes \<Rightarrow> string"
  b64_decode :: "string \<Rightarrow> bytes option"
  ed_sign :: "bytes \<Rightarrow> bytes \<Rightarrow> bytes"
  ed_public :: "bytes \<Rightarrow> bytes"
  ed_key_ok :: "bytes \<Rightarrow> bool"
  ed_verify :: "bytes \<Rightarrow> bytes \<Rightarrow> bytes \<Rightarrow> bool"

record ticket_signer =
  sg_kid :: string
  sg_seed :: bytes

definition sign_token :: "wire \<Rightarrow> ticket_signer \<Rightarrow> ticket_claims \<Rightarrow> string" where
  "sign_token w signer claims =
    (let payload = cbor_write w claims; signature = ed_sign w (sg_seed signer) payload
     in ''LT1.'' @ b64_encode w payload @ ''.'' @ b64_encode w signature)"

definition public_key_b64 :: "wire \<Rightarrow> ticket_signer \<Rightarrow> string" where
  "public_key_b64 w signer = b64_encode w (ed_public w (sg_seed signer))"

section \<open>The offline verifier\<close>

record key_entry =
  ke_kid :: string
  ke_public_key :: string

record verified_ticket =
  vt_ticket_id :: uuid
  vt_trip_id :: uuid
  vt_unit_code :: string
  vt_from_index :: "8 word"
  vt_to_index :: "8 word"
  vt_passenger_name :: string
  vt_fare_class :: "string option"
  vt_expires_at_unix :: int
  vt_kid :: string

datatype validation_error =
    Malformed | UnsupportedVersion "8 word" | UnknownKey string | BadSignature
  | TicketExpired int | WrongTrip | Revoked

fun strip_prefix :: "string \<Rightarrow> string \<Rightarrow> string option" where
  "strip_prefix [] s = Some s"
| "strip_prefix (p # ps) [] = None"
| "strip_prefix (p # ps) (c # s) = (if p = c then strip_prefix ps s else None)"

text \<open>\<open>str::split_once(c)\<close>: around the first occurrence.\<close>

definition split_once :: "char \<Rightarrow> string \<Rightarrow> (string \<times> string) option" where
  "split_once c s = (case dropWhile (\<lambda>x. x \<noteq> c) s of
     [] \<Rightarrow> None | _ # rest \<Rightarrow> Some (takeWhile (\<lambda>x. x \<noteq> c) s, rest))"

definition with_length :: "nat \<Rightarrow> bytes \<Rightarrow> bytes option" where
  "with_length n bs = (if length bs = n then Some bs else None)"

definition verified_of :: "ticket_claims \<Rightarrow> verified_ticket" where
  "verified_of c = \<lparr>vt_ticket_id = tc_tid c, vt_trip_id = tc_trp c, vt_unit_code = tc_unt c,
     vt_from_index = tc_f c, vt_to_index = tc_t c, vt_passenger_name = tc_pax c,
     vt_fare_class = tc_fc c, vt_expires_at_unix = tc_exp c, vt_kid = tc_kid c\<rparr>"

definition verify_ticket_with_revocations ::
  "wire \<Rightarrow> string \<Rightarrow> key_entry list \<Rightarrow> int \<Rightarrow> uuid option \<Rightarrow> uuid list \<Rightarrow> validation_error + verified_ticket" where
  "verify_ticket_with_revocations w token keys now_unix expected_trip revoked =
    and_then (ok_or Malformed (strip_prefix ''LT1.'' token)) (\<lambda>rest.
    and_then (ok_or Malformed (split_once (CHR ''.'') rest)) (\<lambda>(payload_b64, sig_b64).
    and_then (ok_or Malformed (b64_decode w payload_b64)) (\<lambda>payload.
    and_then (ok_or Malformed (b64_decode w sig_b64)) (\<lambda>sig_bytes.
    and_then (ok_or Malformed (with_length 64 sig_bytes)) (\<lambda>signature.
    and_then (ok_or Malformed (cbor_read w payload)) (\<lambda>claims.
    if tc_v claims \<noteq> 1 then Inl (UnsupportedVersion (tc_v claims))
    else
      and_then (ok_or (UnknownKey (tc_kid claims)) (List.find (\<lambda>k. ke_kid k = tc_kid claims) keys)) (\<lambda>key_entry.
      and_then (ok_or Malformed (b64_decode w (ke_public_key key_entry))) (\<lambda>key.
      and_then (ok_or Malformed (with_length 32 key)) (\<lambda>key_bytes.
      if \<not> ed_key_ok w key_bytes then Inl Malformed
      else if \<not> ed_verify w key_bytes payload signature then Inl BadSignature
      else if tc_exp claims < now_unix then Inl (TicketExpired (tc_exp claims))
      else if expected_trip \<noteq> None \<and> expected_trip \<noteq> Some (tc_trp claims) then Inl WrongTrip
      else if List.member revoked (tc_tid claims) then Inl Revoked
      else Inr (verified_of claims))))))))))"

definition verify_ticket ::
  "wire \<Rightarrow> string \<Rightarrow> key_entry list \<Rightarrow> int \<Rightarrow> uuid option \<Rightarrow> validation_error + verified_ticket" where
  "verify_ticket w token keys now_unix expected_trip =
     verify_ticket_with_revocations w token keys now_unix expected_trip []"

section \<open>Parsing the token\<close>

lemma strip_prefix_append [simp]: "strip_prefix p (p @ s) = Some s"
  by (induction p) auto

lemma strip_prefix_Some: "strip_prefix p s = Some r \<Longrightarrow> s = p @ r"
  by (induction p s rule: strip_prefix.induct) (auto split: if_splits)

lemma split_once_append: "c \<notin> set a \<Longrightarrow> split_once c (a @ c # b) = Some (a, b)"
proof -
  assume "c \<notin> set a"
  then have "\<And>x. x \<in> set a \<Longrightarrow> x \<noteq> c" by blast
  then have "dropWhile (\<lambda>x. x \<noteq> c) (a @ c # b) = c # b" "takeWhile (\<lambda>x. x \<noteq> c) (a @ c # b) = a"
    by (simp_all add: dropWhile_append2 takeWhile_append2)
  then show ?thesis by (simp add: split_once_def)
qed

lemma split_once_Some: "split_once c s = Some (a, b) \<Longrightarrow> s = a @ c # b \<and> c \<notin> set a"
proof -
  assume *: "split_once c s = Some (a, b)"
  then obtain x where d: "dropWhile (\<lambda>x. x \<noteq> c) s = x # b" and a: "a = takeWhile (\<lambda>x. x \<noteq> c) s"
    by (auto simp: split_once_def split: list.splits)
  have "x = c" using hd_dropWhile [of "\<lambda>x. x \<noteq> c" s] d by simp
  then show ?thesis
    using takeWhile_dropWhile_id [of "\<lambda>x. x \<noteq> c" s] d a by (auto dest: set_takeWhileD)
qed

section \<open>Properties\<close>

text \<open>C35: Nothing is accepted without a signature: a verified ticket shows exactly the claims inside
the token's payload, that payload carries a signature which verifies under the cached key the
claims name, the ticket is of version 1 and not expired at the time of the scan, it is for the
expected trip when one is pinned, and it is not on the revocation list.\<close>

theorem verified_ticket_is_signed:
  assumes "verify_ticket_with_revocations w token keys now_unix expected_trip revoked = Inr ticket"
  shows "\<exists>p s payload signature claims entry key.
      token = ''LT1.'' @ p @ ''.'' @ s \<and> b64_decode w p = Some payload \<and> b64_decode w s = Some signature
    \<and> cbor_read w payload = Some claims \<and> ticket = verified_of claims \<and> tc_v claims = 1
    \<and> entry \<in> set keys \<and> ke_kid entry = tc_kid claims \<and> b64_decode w (ke_public_key entry) = Some key
    \<and> length key = 32 \<and> length signature = 64 \<and> ed_verify w key payload signature
    \<and> now_unix \<le> tc_exp claims \<and> expected_trip \<in> {None, Some (tc_trp claims)} \<and> tc_tid claims \<notin> set revoked"
proof -
  obtain rest p s payload sig_bytes claims entry key where
    "strip_prefix ''LT1.'' token = Some rest" and sp: "split_once (CHR ''.'') rest = Some (p, s)"
    and dec: "b64_decode w p = Some payload" "b64_decode w s = Some sig_bytes" "length sig_bytes = 64"
      "cbor_read w payload = Some claims" "tc_v claims = 1"
    and entry: "List.find (\<lambda>k. ke_kid k = tc_kid claims) keys = Some entry"
    and key: "b64_decode w (ke_public_key entry) = Some key" "length key = 32"
    and rest: "ed_verify w key payload sig_bytes" "\<not> tc_exp claims < now_unix"
      "expected_trip = None \<or> expected_trip = Some (tc_trp claims)" "tc_tid claims \<notin> set revoked"
      "ticket = verified_of claims"
    using assms
    by (auto simp: verify_ticket_with_revocations_def with_length_def split: if_splits)
  moreover have "token = ''LT1.'' @ p @ ''.'' @ s"
    using strip_prefix_Some [OF \<open>strip_prefix _ token = _\<close>] split_once_Some [OF sp] by simp
  moreover have "entry \<in> set keys \<and> ke_kid entry = tc_kid claims" using find_Some_in [OF entry] .
  ultimately show ?thesis
    by (intro exI [of _ p] exI [of _ s] exI [of _ payload] exI [of _ sig_bytes] exI [of _ claims] exI [of _ entry]
        exI [of _ key]) simp
qed

text \<open>C36: What the engine signs, the gate accepts: a token signed for claims of version 1 verifies, to
exactly those claims, at every gate that caches the signer's public key as the first one of that
key id, until the expiry second included, for the ticket's own trip, while the ticket is not
revoked. The hypotheses are the round trips of CBOR, base64 and Ed25519 on these values.\<close>

theorem signed_token_verifies:
  assumes cbor: "cbor_read w (cbor_write w claims) = Some claims"
    and b64: "b64_decode w (b64_encode w (cbor_write w claims)) = Some (cbor_write w claims)"
      "b64_decode w (b64_encode w (ed_sign w (sg_seed signer) (cbor_write w claims)))
        = Some (ed_sign w (sg_seed signer) (cbor_write w claims))"
      "b64_decode w (b64_encode w (ed_public w (sg_seed signer))) = Some (ed_public w (sg_seed signer))"
      "CHR ''.'' \<notin> set (b64_encode w (cbor_write w claims))"
    and ed: "length (ed_sign w (sg_seed signer) (cbor_write w claims)) = 64"
      "length (ed_public w (sg_seed signer)) = 32" "ed_key_ok w (ed_public w (sg_seed signer))"
      "ed_verify w (ed_public w (sg_seed signer)) (cbor_write w claims)
         (ed_sign w (sg_seed signer) (cbor_write w claims))"
    and key: "List.find (\<lambda>k. ke_kid k = tc_kid claims) keys
        = Some \<lparr>ke_kid = tc_kid claims, ke_public_key = public_key_b64 w signer\<rparr>"
    and live: "tc_v claims = 1" "now_unix \<le> tc_exp claims" "tc_tid claims \<notin> set revoked"
  shows "verify_ticket_with_revocations w (sign_token w signer claims) keys now_unix (Some (tc_trp claims)) revoked
    = Inr (verified_of claims)"
proof -
  have "strip_prefix ''LT1.'' (sign_token w signer claims)
      = Some (b64_encode w (cbor_write w claims) @ CHR ''.'' # b64_encode w (ed_sign w (sg_seed signer) (cbor_write w claims)))"
    unfolding sign_token_def Let_def by (subst strip_prefix_append) simp
  with assms split_once_append [OF b64(4)] show ?thesis
    by (simp add: verify_ticket_with_revocations_def with_length_def public_key_b64_def)
qed

text \<open>A toy wire format for the witnesses: a fixed payload, base64 as the bytes themselves.\<close>

definition toy_claims :: ticket_claims where
  "toy_claims = \<lparr>tc_v = 1, tc_tid = Uuid 7, tc_trp = Uuid 100, tc_unt = ''12A'', tc_f = 0, tc_t = 2,
     tc_pax = ''Ada'', tc_fc = Some ''Y'', tc_exp = 1000, tc_kid = ''lulan-1''\<rparr>"

definition toy_wire :: wire where
  "toy_wire = \<lparr>cbor_write = (\<lambda>_. [1, 2, 3]), cbor_read = (\<lambda>b. if b = [1, 2, 3] then Some toy_claims else None),
     b64_encode = map (\<lambda>b. char_of (unat b)), b64_decode = (\<lambda>s. Some (map (\<lambda>c. of_nat (of_char c)) s)),
     ed_sign = (\<lambda>seed m. seed @ replicate 32 (hd m)), ed_public = (\<lambda>seed. seed), ed_key_ok = (\<lambda>_. True),
     ed_verify = (\<lambda>pk m s. s = pk @ replicate 32 (hd m))\<rparr>"

definition toy_signer :: ticket_signer where
  "toy_signer = \<lparr>sg_kid = ''lulan-1'', sg_seed = replicate 32 9\<rparr>"

theorem signed_token_verifies_witness:
  "verify_ticket_with_revocations toy_wire (sign_token toy_wire toy_signer toy_claims)
     [\<lparr>ke_kid = ''lulan-1'', ke_public_key = public_key_b64 toy_wire toy_signer\<rparr>] 1000 (Some (tc_trp toy_claims)) [Uuid 8]
   = Inr (verified_of toy_claims)"
  by (rule signed_token_verifies) code_simp+

theorem verified_ticket_is_signed_witness:
  "ed_verify toy_wire (replicate 32 9) [1, 2, 3] (replicate 32 9 @ replicate 32 1) \<and> 1000 \<le> tc_exp toy_claims"
proof -
  have "verify_ticket_with_revocations toy_wire (sign_token toy_wire toy_signer toy_claims)
     [\<lparr>ke_kid = ''lulan-1'', ke_public_key = public_key_b64 toy_wire toy_signer\<rparr>] 1000 None []
   = Inr (verified_of toy_claims)" by code_simp
  from verified_ticket_is_signed [OF this] show ?thesis
    by (auto simp: toy_wire_def toy_claims_def verified_of_def)
qed

end
