(* ===== verification/Ticket_Keys.thy ===== *)
theory Ticket_Keys
  imports Ticket_Token Schema
begin

text \<open>
  The ticket signing keys: \<open>TicketSigner\<close> of \<open>crates/lulan-engine/src/ticket/mod.rs\<close> (the table
  \<open>ticket_keys\<close>: active key, rotation, sealing at boot) and the encryption at rest of
  \<open>ticket/sealing.rs\<close>.

  XChaCha20-Poly1305 is third-party code: the record \<open>aead\<close> holds its two calls. The process
  environment is the argument \<open>env\<close> (the value of the variable, if set); random bytes and the
  new key's uuid are arguments. \<open>SlicePanic\<close> stands for the panic of slicing a string inside a
  multi-byte character.
\<close>

record aead =
  aead_encrypt :: "bytes \<Rightarrow> bytes \<Rightarrow> string \<Rightarrow> bytes \<Rightarrow> bytes option"
  aead_decrypt :: "bytes \<Rightarrow> bytes \<Rightarrow> string \<Rightarrow> bytes \<Rightarrow> bytes option"

definition SCHEME :: string where "SCHEME = ''xchacha20poly1305''"
definition KEY_LEN :: nat where "KEY_LEN = 32"
definition NONCE_LEN :: nat where "NONCE_LEN = 24"

datatype seal_error =
    MalformedKey | UnknownScheme string | KeyUnavailable | Undecryptable | BadSeedLength nat | SlicePanic

record sealed =
  sl_ciphertext :: bytes
  sl_nonce :: bytes
  sl_scheme :: string

section \<open>The wrapping key\<close>

text \<open>\<open>u8::from_str_radix(_, 16)\<close> on two bytes: a leading plus sign is accepted.\<close>

definition parse_hex_byte :: "char \<Rightarrow> char \<Rightarrow> 8 word option" where
  "parse_hex_byte a b =
    (if a = CHR ''+'' then map_option of_nat (hex_digit b)
     else Option.bind (hex_digit a) (\<lambda>x. map_option (\<lambda>y. of_nat (16 * x + y)) (hex_digit b)))"

text \<open>A slice may not begin or end on a UTF-8 continuation byte.\<close>

definition continuation_byte :: "char \<Rightarrow> bool" where
  "continuation_byte c = (let n = of_char c :: nat in 128 \<le> n \<and> n < 192)"

fun hex_pairs :: "string \<Rightarrow> seal_error + bytes" where
  "hex_pairs (a # b # rest) =
    (if continuation_byte a \<or> (rest \<noteq> [] \<and> continuation_byte (hd rest)) then Inl SlicePanic
     else and_then (ok_or MalformedKey (parse_hex_byte a b)) (\<lambda>x.
          and_then (hex_pairs rest) (\<lambda>xs. Inr (x # xs))))"
| "hex_pairs _ = Inr []"

definition key_from_hex :: "string \<Rightarrow> seal_error + bytes" where
  "key_from_hex hex = (if length hex \<noteq> KEY_LEN * 2 then Inl MalformedKey else hex_pairs hex)"

definition key_from_env :: "string option \<Rightarrow> seal_error + bytes option" where
  "key_from_env env = (case env of
     Some value \<Rightarrow> if trim value \<noteq> [] then and_then (key_from_hex (trim value)) (\<lambda>k. Inr (Some k)) else Inr None
   | None \<Rightarrow> Inr None)"

definition seal :: "aead \<Rightarrow> bytes \<Rightarrow> bytes \<Rightarrow> string \<Rightarrow> bytes \<Rightarrow> seal_error + sealed" where
  "seal c key nonce kid seed =
     and_then (ok_or Undecryptable (aead_encrypt c key nonce kid seed)) (\<lambda>ciphertext.
       Inr \<lparr>sl_ciphertext = ciphertext, sl_nonce = nonce, sl_scheme = SCHEME\<rparr>)"

definition seed_from :: "bytes \<Rightarrow> seal_error + bytes" where
  "seed_from bs = (if length bs = KEY_LEN then Inr bs else Inl (BadSeedLength (length bs)))"

definition open_sealed :: "aead \<Rightarrow> bytes \<Rightarrow> string \<Rightarrow> string \<Rightarrow> bytes \<Rightarrow> bytes \<Rightarrow> seal_error + bytes" where
  "open_sealed c key kid scheme nonce ciphertext =
    (if scheme \<noteq> SCHEME then Inl (UnknownScheme scheme)
     else if length nonce \<noteq> NONCE_LEN then Inl Undecryptable
     else and_then (ok_or Undecryptable (aead_decrypt c key nonce kid ciphertext)) seed_from)"

definition unseal_row ::
  "aead \<Rightarrow> string option \<Rightarrow> string \<Rightarrow> string option \<Rightarrow> bytes option \<Rightarrow> bytes \<Rightarrow> seal_error + bytes" where
  "unseal_row c env kid scheme nonce secret =
    (case (scheme, nonce) of
       (None, _) \<Rightarrow> seed_from secret
     | (Some scheme, Some nonce) \<Rightarrow>
         and_then (key_from_env env) (\<lambda>k.
         and_then (ok_or KeyUnavailable k) (\<lambda>key. open_sealed c key kid scheme nonce secret))
     | (Some _, None) \<Rightarrow> Inl Undecryptable)"

section \<open>The key table\<close>

record ticket_key_row =
  kr_kid :: string
  kr_secret :: bytes
  kr_public :: bytes
  kr_active :: bool
  kr_encryption :: "string option"
  kr_nonce :: "bytes option"
  kr_created_at :: instant

definition signer_from_row :: "aead \<Rightarrow> string option \<Rightarrow> ticket_key_row \<Rightarrow> seal_error + ticket_signer" where
  "signer_from_row c env row =
     and_then (unseal_row c env (kr_kid row) (kr_encryption row) (kr_nonce row) (kr_secret row)) (\<lambda>seed.
       Inr \<lparr>sg_kid = kr_kid row, sg_seed = seed\<rparr>)"

definition active_signer :: "aead \<Rightarrow> string option \<Rightarrow> ticket_key_row list \<Rightarrow> seal_error + ticket_signer option" where
  "active_signer c env keys =
    (case sort_key (\<lambda>r. - kr_created_at r) (filter kr_active keys) of
       [] \<Rightarrow> Inr None
     | row # _ \<Rightarrow> and_then (signer_from_row c env row) (\<lambda>s. Inr (Some s)))"

definition load_signer :: "aead \<Rightarrow> string option \<Rightarrow> string \<Rightarrow> ticket_key_row list \<Rightarrow> seal_error + ticket_signer option" where
  "load_signer c env kid keys =
    (case List.find (\<lambda>r. kr_kid r = kid) keys of
       None \<Rightarrow> Inr None
     | Some row \<Rightarrow> and_then (signer_from_row c env row) (\<lambda>s. Inr (Some s)))"

text \<open>\<open>format!("lulan-{}", &uuid.simple().to_string()[..8])\<close>: the first four bytes in hex.\<close>

definition uuid_byte :: "uuid \<Rightarrow> nat \<Rightarrow> 8 word" where
  "uuid_byte u i = ucast (drop_bit (8 * (15 - i)) (uuid_bits u))"

definition new_kid :: "uuid \<Rightarrow> string" where
  "new_kid u = ''lulan-'' @ concat (map (\<lambda>i. hex_byte (uuid_byte u i)) [0..<4])"

datatype key_error = KeySealing seal_error | KeyDb db_error

definition rotate_key :: "wire \<Rightarrow> aead \<Rightarrow> string option \<Rightarrow> instant \<Rightarrow> bytes \<Rightarrow> bytes \<Rightarrow> uuid \<Rightarrow>
    ticket_key_row list \<Rightarrow> key_error + ticket_key_row list \<times> ticket_signer" where
  "rotate_key w c env now seed nonce fresh keys =
    (let kid = new_kid fresh in
     and_then (map_err KeySealing (key_from_env env)) (\<lambda>wrapper.
     and_then (case wrapper of
         None \<Rightarrow> Inr (seed, None, None)
       | Some key \<Rightarrow> and_then (map_err KeySealing (seal c key nonce kid seed)) (\<lambda>s.
           Inr (sl_ciphertext s, Some (sl_scheme s), Some (sl_nonce s)))) (\<lambda>(stored, scheme, nonce').
     and_then (ok_or (KeyDb (UniqueViolation ''ticket_keys_pkey''))
         (insert_unique kr_kid \<lparr>kr_kid = kid, kr_secret = stored, kr_public = ed_public w seed, kr_active = True,
            kr_encryption = scheme, kr_nonce = nonce', kr_created_at = now\<rparr>
           (update_where kr_active (\<lambda>r. r\<lparr>kr_active := False\<rparr>) keys))) (\<lambda>rows.
     Inr (rows, \<lparr>sg_kid = kid, sg_seed = seed\<rparr>)))))"

definition load_or_create_key :: "wire \<Rightarrow> aead \<Rightarrow> string option \<Rightarrow> instant \<Rightarrow> bytes \<Rightarrow> bytes \<Rightarrow> uuid \<Rightarrow>
    ticket_key_row list \<Rightarrow> key_error + ticket_key_row list \<times> ticket_signer" where
  "load_or_create_key w c env now seed nonce fresh keys =
     and_then (map_err KeySealing (active_signer c env keys)) (\<lambda>s.
       case s of Some signer \<Rightarrow> Inr (keys, signer) | None \<Rightarrow> rotate_key w c env now seed nonce fresh keys)"

text \<open>
  The loop of \<open>seal_stored_keys\<close>, one committed update per row: the table so far, the count, and
  the error it stopped at. \<open>nonce_for\<close> is the random nonce drawn for a key.
\<close>

fun seal_rows :: "aead \<Rightarrow> bytes \<Rightarrow> (string \<Rightarrow> bytes) \<Rightarrow> ticket_key_row list \<Rightarrow> ticket_key_row list \<Rightarrow> nat \<Rightarrow>
    ticket_key_row list \<times> (seal_error + nat)" where
  "seal_rows c key nonce_for [] keys cnt = (keys, Inr cnt)"
| "seal_rows c key nonce_for (row # rest) keys cnt =
    (if length (kr_secret row) \<noteq> KEY_LEN then seal_rows c key nonce_for rest keys cnt
     else case seal c key (nonce_for (kr_kid row)) (kr_kid row) (kr_secret row) of
       Inl e \<Rightarrow> (keys, Inl e)
     | Inr s \<Rightarrow>
         let P = (\<lambda>r. kr_kid r = kr_kid row \<and> kr_encryption r = None);
             keys' = update_where P (\<lambda>r. r\<lparr>kr_secret := sl_ciphertext s, kr_encryption := Some (sl_scheme s),
                kr_nonce := Some (sl_nonce s)\<rparr>) keys
         in seal_rows c key nonce_for rest keys' (if count_where P keys = 1 then cnt + 1 else cnt))"

definition seal_stored_keys :: "aead \<Rightarrow> string option \<Rightarrow> (string \<Rightarrow> bytes) \<Rightarrow> ticket_key_row list \<Rightarrow>
    ticket_key_row list \<times> (seal_error + nat)" where
  "seal_stored_keys c env nonce_for keys =
    (case key_from_env env of
       Inl e \<Rightarrow> (keys, Inl e)
     | Inr None \<Rightarrow> (keys, Inr 0)
     | Inr (Some key) \<Rightarrow> seal_rows c key nonce_for (filter (\<lambda>r. kr_encryption r = None) keys) keys 0)"

record public_key_entry =
  pk_kid :: string
  pk_alg :: string
  pk_public_key :: string

definition public_keys :: "wire \<Rightarrow> ticket_key_row list \<Rightarrow> public_key_entry list" where
  "public_keys w keys = map (\<lambda>r. \<lparr>pk_kid = kr_kid r, pk_alg = ''Ed25519'', pk_public_key = b64_encode w (kr_public r)\<rparr>)
     (sort_key kr_created_at keys)"

section \<open>Sealing is transparent\<close>

text \<open>The AEAD opens what it sealed, under the same key, nonce and associated data.\<close>

definition aead_opens :: "aead \<Rightarrow> bytes \<Rightarrow> bool" where
  "aead_opens c key \<longleftrightarrow> (\<forall>nonce kid seed. \<exists>ct. aead_encrypt c key nonce kid seed = Some ct
     \<and> aead_decrypt c key nonce kid ct = Some seed)"

lemma seal_open:
  assumes "aead_opens c key" and "length nonce = NONCE_LEN" and "length seed = KEY_LEN"
  shows "\<exists>s. seal c key nonce kid seed = Inr s
    \<and> open_sealed c key kid (sl_scheme s) (sl_nonce s) (sl_ciphertext s) = Inr seed
    \<and> sl_scheme s = SCHEME \<and> sl_nonce s = nonce"
proof -
  obtain ct where "aead_encrypt c key nonce kid seed = Some ct" "aead_decrypt c key nonce kid ct = Some seed"
    using assms(1) unfolding aead_opens_def by blast
  with assms(2,3) show ?thesis by (simp add: seal_def open_sealed_def seed_from_def)
qed

text \<open>A row whose signer is unchanged although its secret may have been sealed.\<close>

definition same_signer :: "aead \<Rightarrow> string option \<Rightarrow> ticket_key_row \<Rightarrow> ticket_key_row \<Rightarrow> bool" where
  "same_signer c env r r' \<longleftrightarrow> kr_kid r' = kr_kid r \<and> kr_public r' = kr_public r \<and> kr_active r' = kr_active r
     \<and> kr_created_at r' = kr_created_at r \<and> signer_from_row c env r' = signer_from_row c env r
     \<and> (kr_encryption r \<noteq> None \<longrightarrow> r' = r)"

lemma same_signer_refl [simp]: "same_signer c env r r"
  by (simp add: same_signer_def)

lemma same_signer_trans: "same_signer c env r s \<Longrightarrow> same_signer c env s t \<Longrightarrow> same_signer c env r t"
  by (auto simp: same_signer_def)

lemma list_all2_same_trans:
  "list_all2 (same_signer c env) a b \<Longrightarrow> list_all2 (same_signer c env) b d \<Longrightarrow> list_all2 (same_signer c env) a d"
  using list_all2_trans [of "same_signer c env" "same_signer c env" "same_signer c env"] same_signer_trans by metis

lemma seal_update_same:
  assumes env: "key_from_env env = Inr (Some key)" and aead: "aead_opens c key"
    and n: "length (nonce_for (kr_kid row)) = NONCE_LEN" and len: "length (kr_secret row) = KEY_LEN"
    and dist: "distinct (map kr_kid keys)" and row: "row \<in> set keys"
    and s: "seal c key (nonce_for (kr_kid row)) (kr_kid row) (kr_secret row) = Inr s"
  shows "list_all2 (same_signer c env) keys
    (update_where (\<lambda>r. kr_kid r = kr_kid row \<and> kr_encryption r = None)
       (\<lambda>r. r\<lparr>kr_secret := sl_ciphertext s, kr_encryption := Some (sl_scheme s), kr_nonce := Some (sl_nonce s)\<rparr>) keys)"
proof -
  from seal_open [OF aead n len, of "kr_kid row"] s
  have opened: "open_sealed c key (kr_kid row) (sl_scheme s) (sl_nonce s) (sl_ciphertext s) = Inr (kr_secret row)"
    by auto
  have "same_signer c env r (r\<lparr>kr_secret := sl_ciphertext s, kr_encryption := Some (sl_scheme s), kr_nonce := Some (sl_nonce s)\<rparr>)"
    if "r \<in> set keys" "kr_kid r = kr_kid row" "kr_encryption r = None" for r
  proof -
    have "r = row" using distinct_key_eq [OF dist that(1) row that(2)] .
    with that(3) opened env len show ?thesis
      by (simp add: same_signer_def signer_from_row_def unseal_row_def seed_from_def)
  qed
  then show ?thesis
    by (auto simp: update_where_def list_all2_conv_all_nth)
qed

lemma seal_rows_same:
  assumes env: "key_from_env env = Inr (Some key)" and aead: "aead_opens c key"
    and n: "\<And>kid. length (nonce_for kid) = NONCE_LEN"
    and "distinct (map kr_kid keys)" and "distinct (map kr_kid rows)"
    and "\<forall>r\<in>set rows. r \<in> set keys"
    and "seal_rows c key nonce_for rows keys cnt = (keys', res)"
  shows "list_all2 (same_signer c env) keys keys' \<and> res \<noteq> Inl e
     \<and> (\<forall>r'\<in>set keys'. (kr_encryption r' = None \<longrightarrow> r' \<in> set keys \<and> (r' \<notin> set rows \<or> length (kr_secret r') \<noteq> KEY_LEN)))"
  using assms(4-)
proof (induction rows arbitrary: keys cnt)
  case Nil
  then show ?case by (auto simp: list_all2_same)
next
  case (Cons row rows)
  show ?case
  proof (cases "length (kr_secret row) = KEY_LEN")
    case False
    with Cons.prems(4) have run: "seal_rows c key nonce_for rows keys cnt = (keys', res)" by simp
    from Cons.IH [OF Cons.prems(1) _ _ run] Cons.prems(2,3)
    have "list_all2 (same_signer c env) keys keys' \<and> res \<noteq> Inl e
      \<and> (\<forall>r'\<in>set keys'. kr_encryption r' = None \<longrightarrow>
           r' \<in> set keys \<and> (r' \<notin> set rows \<or> length (kr_secret r') \<noteq> KEY_LEN))" by simp
    with False show ?thesis by auto
  next
    case True
    obtain s where s: "seal c key (nonce_for (kr_kid row)) (kr_kid row) (kr_secret row) = Inr s"
      using seal_open [OF aead n [of "kr_kid row"] True] by blast
    let ?P = "\<lambda>r. kr_kid r = kr_kid row \<and> kr_encryption r = None"
    let ?f = "\<lambda>r. r\<lparr>kr_secret := sl_ciphertext s, kr_encryption := Some (sl_scheme s), kr_nonce := Some (sl_nonce s)\<rparr>"
    let ?keys = "update_where ?P ?f keys"
    have row: "row \<in> set keys" using Cons.prems(3) by simp
    have same: "list_all2 (same_signer c env) keys ?keys"
      by (rule seal_update_same [where nonce_for = nonce_for, OF env aead n True Cons.prems(1) row s])
    have dist: "distinct (map kr_kid ?keys)"
      using Cons.prems(1) by (simp add: map_update_where)
    have sub: "\<forall>r\<in>set rows. r \<in> set ?keys"
    proof
      fix r assume r: "r \<in> set rows"
      then have "kr_kid r \<noteq> kr_kid row" using Cons.prems(2) by (auto simp: image_iff)
      with r Cons.prems(3) show "r \<in> set ?keys" by (simp add: sql_simps)
    qed
    from Cons.prems(4) True s obtain cnt' where
      run: "seal_rows c key nonce_for rows ?keys cnt' = (keys', res)" by (auto simp: Let_def)
    from Cons.IH [OF dist _ sub run] Cons.prems(2)
    have ih: "list_all2 (same_signer c env) ?keys keys'" "res \<noteq> Inl e"
      "\<And>r'. r' \<in> set keys' \<Longrightarrow> kr_encryption r' = None \<Longrightarrow>
         r' \<in> set ?keys \<and> (r' \<notin> set rows \<or> length (kr_secret r') \<noteq> KEY_LEN)" by auto
    have "r' \<in> set keys \<and> (r' \<notin> set (row # rows) \<or> length (kr_secret r') \<noteq> KEY_LEN)"
      if "r' \<in> set keys'" "kr_encryption r' = None" for r'
    proof -
      have "r' \<in> set keys" "\<not> ?P r'" using ih(3) [OF that] that(2) by (auto simp: sql_simps)
      with ih(3) [OF that] that(2) show ?thesis by auto
    qed
    with list_all2_same_trans [OF same ih(1)] ih(2) show ?thesis by blast
  qed
qed

section \<open>Properties\<close>


text \<open>Adopting encryption at rest is transparent: with a wrapping key configured, sealing the
stored keys never fails, leaves every key's id, public half, activity and signer as they were,
touches no row that was sealed before, and leaves in the clear only rows whose secret was not a
32-byte seed in the first place.\<close>

theorem sealing_keys_is_transparent:
  assumes env: "key_from_env env = Inr (Some key)" and aead: "aead_opens c key"
    and n: "\<forall>kid. length (nonce_for kid) = NONCE_LEN" and dist: "distinct (map kr_kid keys)"
  shows "(\<exists>n. snd (seal_stored_keys c env nonce_for keys) = Inr n)
    \<and> list_all2 (same_signer c env) keys (fst (seal_stored_keys c env nonce_for keys))
    \<and> (\<forall>r\<in>set (fst (seal_stored_keys c env nonce_for keys)).
          kr_encryption r = None \<longrightarrow> length (kr_secret r) \<noteq> KEY_LEN)"
proof -
  let ?rows = "filter (\<lambda>r. kr_encryption r = None) keys"
  obtain keys' res where run: "seal_rows c key nonce_for ?rows keys 0 = (keys', res)" by force
  then have eq: "seal_stored_keys c env nonce_for keys = (keys', res)"
    using env by (simp add: seal_stored_keys_def)
  have rows: "distinct (map kr_kid ?rows)" "\<forall>r\<in>set ?rows. r \<in> set keys"
    using dist by (simp_all add: distinct_map_filter)
  note all = seal_rows_same [where nonce_for = nonce_for, OF env aead n [rule_format] dist rows run]
  have same: "list_all2 (same_signer c env) keys keys'" and ok: "\<And>e. res \<noteq> Inl e"
    using all by blast+
  have left: "length (kr_secret r) \<noteq> KEY_LEN" if "r \<in> set keys'" "kr_encryption r = None" for r
    using all that by auto
  have "\<exists>n. res = Inr n" using ok by (cases res) auto
  with same left show ?thesis by (auto simp: eq)
qed

definition toy_aead :: aead where
  "toy_aead = \<lparr>aead_encrypt = (\<lambda>k n a m. Some m), aead_decrypt = (\<lambda>k n a m. Some m)\<rparr>"

lemma toy_aead_opens: "aead_opens toy_aead key"
  by (simp add: aead_opens_def toy_aead_def)

definition toy_env :: "string option" where
  "toy_env = Some (replicate 64 (CHR ''a''))"

definition toy_keys :: "ticket_key_row list" where
  "toy_keys = [\<lparr>kr_kid = ''lulan-old'', kr_secret = replicate 32 5, kr_public = replicate 32 6, kr_active = True,
     kr_encryption = None, kr_nonce = None, kr_created_at = 3\<rparr>]"

lemma toy_env_key: "key_from_env toy_env = Inr (Some (replicate 32 170))"
  by code_simp

theorem sealing_keys_is_transparent_witness:
  "snd (seal_stored_keys toy_aead toy_env (\<lambda>_. replicate 24 1) toy_keys) = Inr 1
   \<and> list_all2 (same_signer toy_aead toy_env) toy_keys
       (fst (seal_stored_keys toy_aead toy_env (\<lambda>_. replicate 24 1) toy_keys))"
proof -
  have "snd (seal_stored_keys toy_aead toy_env (\<lambda>_. replicate 24 1) toy_keys) = Inr 1" by code_simp
  moreover have "\<forall>kid :: string. length ((\<lambda>_. replicate 24 (1 :: 8 word)) kid) = NONCE_LEN"
    by (simp add: NONCE_LEN_def)
  moreover have "distinct (map kr_kid toy_keys)" by (simp add: toy_keys_def)
  ultimately show ?thesis
    using sealing_keys_is_transparent [OF toy_env_key toy_aead_opens,
        where nonce_for = "\<lambda>_. replicate 24 1" and keys = toy_keys] by blast
qed


end
