(* ===== verification/Tickets.thy ===== *)
theory Tickets
  imports Sample_Orders Ticket_Keys
begin

text \<open>
  Issuing and scanning tickets: \<open>TicketStore\<close> of \<open>crates/lulan-engine/src/ticket/mod.rs\<close>.
  The signer is what \<open>TicketSigner::active\<close> answered before the transaction opened. Fresh ids
  come from a supply read in the order the code draws them: one per seat ticket, then a bearer
  passenger and a ticket per admission. The lemmas show both write paths keep the booking
  invariant, that an order is ticketed once, and how scans move a ticket.
\<close>

definition VALIDITY_AFTER_DEPARTURE_HOURS :: int where "VALIDITY_AFTER_DEPARTURE_HOURS = 24"

text \<open>\<open>humanize\<close>: words separated by underscores and spaces, capitalised (ASCII letters).\<close>

definition to_upper :: "char \<Rightarrow> char" where
  "to_upper c = (let n = of_char c :: nat in if 97 \<le> n \<and> n \<le> 122 then char_of (n - 32) else c)"

definition to_lower :: "char \<Rightarrow> char" where
  "to_lower c = (let n = of_char c :: nat in if 65 \<le> n \<and> n \<le> 90 then char_of (n + 32) else c)"

fun split_words :: "string \<Rightarrow> string \<Rightarrow> string list" where
  "split_words acc [] = [acc]"
| "split_words acc (c # cs) =
     (if c = CHR ''_'' \<or> c = CHR '' '' then acc # split_words [] cs else split_words (acc @ [c]) cs)"

fun join_words :: "string list \<Rightarrow> string" where
  "join_words [] = []"
| "join_words [w] = w"
| "join_words (w # ws) = w @ '' '' @ join_words ws"

definition humanize :: "string \<Rightarrow> string" where
  "humanize code = join_words (map (\<lambda>w. case w of [] \<Rightarrow> [] | c # cs \<Rightarrow> to_upper c # map to_lower cs)
     (filter (\<lambda>w. w \<noteq> []) (split_words [] code)))"

datatype ticket_error =
    NotPaid string | TicketOrderMissing | NoSigningKey | TicketSealing seal_error | TicketStore store_error

record issued_ticket =
  is_ticket_id :: uuid
  is_passenger_id :: uuid
  is_passenger_name :: string
  is_unit_code :: string
  is_status :: string
  is_token :: string

record scan_outcome =
  sn_ticket_id :: uuid
  sn_status :: string
  sn_order_status :: "string option"

definition tickets_for_order :: "uuid \<Rightarrow> db \<Rightarrow> issued_ticket list" where
  "tickets_for_order order_id d =
     map (\<lambda>(t, p, cu). \<lparr>is_ticket_id = tk_id t, is_passenger_id = tk_passenger t, is_passenger_name = pa_full_name p,
         is_unit_code = cu_code cu, is_status = tk_status t, is_token = tk_token t\<rparr>)
       (sort_key (\<lambda>(t, p, cu). cu_code cu)
         [(t, p, cu). t \<leftarrow> tickets d, p \<leftarrow> passengers d, cu \<leftarrow> capacity_units d,
            pa_id p = tk_passenger t \<and> cu_id cu = tk_unit t \<and> tk_order t = order_id])"

section \<open>Issuing\<close>

definition ticket_expiry :: "instant \<Rightarrow> int" where
  "ticket_expiry departs_at = timestamp (departs_at + hours VALIDITY_AFTER_DEPARTURE_HOURS)"

definition claims_for :: "ticket_signer \<Rightarrow> uuid \<Rightarrow> order_item_row \<Rightarrow> trip_row \<Rightarrow> string option \<Rightarrow> string \<Rightarrow> ticket_claims" where
  "claims_for signer ticket_id oi t fare_class name =
     \<lparr>tc_v = 1, tc_tid = ticket_id, tc_trp = oi_trip oi, tc_unt = oi_unit_code oi,
      tc_f = as_u8 (oi_from_index oi), tc_t = as_u8 (oi_to_index oi), tc_pax = name, tc_fc = fare_class,
      tc_exp = ticket_expiry (tr_departs_at t), tc_kid = sg_kid signer\<rparr>"

definition insert_ticket :: "ticket_row \<Rightarrow> db \<Rightarrow> db_error + db" where
  "insert_ticket row d =
    (if list_ex (\<lambda>t. tk_id t = tk_id row) (tickets d) then Inl (UniqueViolation ''tickets_pkey'')
     else if list_ex (\<lambda>t. tk_order t = tk_order row \<and> tk_trip t = tk_trip row \<and> tk_passenger t = tk_passenger row
          \<and> tk_unit t = tk_unit row) (tickets d)
     then Inl (UniqueViolation ''tickets_order_id_trip_id_passenger_id_unit_id_key'')
     else Inr (d\<lparr>tickets := tickets d @ [row]\<rparr>))"

text \<open>One signed ticket for an item, with the entry of the event and of the answer.\<close>

definition issue_ticket :: "wire \<Rightarrow> ticket_signer \<Rightarrow> instant \<Rightarrow> uuid \<Rightarrow> uuid \<Rightarrow> uuid \<Rightarrow> string \<Rightarrow> string option \<Rightarrow>
    order_item_row \<Rightarrow> trip_row \<Rightarrow> db \<Rightarrow> db_error + db \<times> event_ticket \<times> issued_ticket" where
  "issue_ticket w signer now order_id ticket_id passenger_id name fare_class oi t d =
    (let token = sign_token w signer (claims_for signer ticket_id oi t fare_class name)
     in and_then (insert_ticket \<lparr>tk_id = ticket_id, tk_order = order_id, tk_passenger = passenger_id,
            tk_trip = oi_trip oi, tk_unit = oi_unit oi, tk_status = ''issued'', tk_token = token,
            tk_kid = sg_kid signer, tk_issued_at = now, tk_boarded_at = None\<rparr> d) (\<lambda>d'.
          Inr (d', \<lparr>ev_tk_id = ticket_id, ev_tk_passenger = passenger_id, ev_tk_trip = oi_trip oi,
                 ev_tk_unit_code = oi_unit_code oi\<rparr>,
               \<lparr>is_ticket_id = ticket_id, is_passenger_id = passenger_id, is_passenger_name = name,
                is_unit_code = oi_unit_code oi, is_status = ''issued'', is_token = token\<rparr>)))"

definition seat_rows :: "uuid \<Rightarrow> db \<Rightarrow> (order_item_row \<times> passenger_row \<times> capacity_unit_row \<times> trip_row) list" where
  "seat_rows order_id d = sort_key (\<lambda>(oi, p, cu, t). (tr_departs_at t, oi_unit_code oi))
     [(oi, p, cu, t). oi \<leftarrow> order_items d, p \<leftarrow> passengers d, cu \<leftarrow> capacity_units d, t \<leftarrow> trips d,
        Some (pa_id p) = oi_passenger oi \<and> cu_id cu = oi_unit oi \<and> tr_id t = oi_trip oi
        \<and> oi_order oi = order_id \<and> oi_kind oi = ''seat'']"

definition admission_rows :: "uuid \<Rightarrow> db \<Rightarrow> (order_item_row \<times> capacity_unit_row \<times> trip_row) list" where
  "admission_rows order_id d = sort_key (\<lambda>(oi, cu, t). (tr_departs_at t, oi_unit_code oi))
     [(oi, cu, t). oi \<leftarrow> order_items d, cu \<leftarrow> capacity_units d, t \<leftarrow> trips d,
        cu_id cu = oi_unit oi \<and> tr_id t = oi_trip oi
        \<and> oi_order oi = order_id \<and> oi_kind oi = ''pool'' \<and> cu_admission cu]"

type_synonym issue_state = "db \<times> event_ticket list \<times> issued_ticket list \<times> nat"

fun issue_seats :: "wire \<Rightarrow> ticket_signer \<Rightarrow> instant \<Rightarrow> (nat \<Rightarrow> uuid) \<Rightarrow> uuid \<Rightarrow>
    (order_item_row \<times> passenger_row \<times> capacity_unit_row \<times> trip_row) list \<Rightarrow> issue_state \<Rightarrow> db_error + issue_state" where
  "issue_seats w signer now new order_id [] st = Inr st"
| "issue_seats w signer now new order_id ((oi, p, cu, t) # rest) (d, evs, out, n) =
     and_then (issue_ticket w signer now order_id (new n) (pa_id p) (pa_full_name p) (cu_fare_class cu) oi t d)
       (\<lambda>(d', ev, tk). issue_seats w signer now new order_id rest (d', evs @ [ev], out @ [tk], n + 1))"

fun issue_admissions :: "wire \<Rightarrow> ticket_signer \<Rightarrow> instant \<Rightarrow> (nat \<Rightarrow> uuid) \<Rightarrow> uuid \<Rightarrow>
    nat \<Rightarrow> order_item_row \<times> capacity_unit_row \<times> trip_row \<Rightarrow> issue_state \<Rightarrow> db_error + issue_state" where
  "issue_admissions w signer now new order_id 0 row st = Inr st"
| "issue_admissions w signer now new order_id (Suc k) (oi, cu, t) (d, evs, out, n) =
    (case insert_unique pa_id \<lparr>pa_id = new n, pa_order = order_id, pa_full_name = humanize (oi_unit_code oi),
         pa_type = ''adult'', pa_birthdate = None, pa_created_at = now\<rparr> (passengers d) of
       None \<Rightarrow> Inl (UniqueViolation ''passengers_pkey'')
     | Some rows \<Rightarrow>
         and_then (issue_ticket w signer now order_id (new (n + 1)) (new n) (humanize (oi_unit_code oi))
              (cu_fare_class cu) oi t (d\<lparr>passengers := rows\<rparr>))
           (\<lambda>(d', ev, tk). issue_admissions w signer now new order_id k (oi, cu, t) (d', evs @ [ev], out @ [tk], n + 2)))"

fun issue_pools :: "wire \<Rightarrow> ticket_signer \<Rightarrow> instant \<Rightarrow> (nat \<Rightarrow> uuid) \<Rightarrow> uuid \<Rightarrow>
    (order_item_row \<times> capacity_unit_row \<times> trip_row) list \<Rightarrow> issue_state \<Rightarrow> db_error + issue_state" where
  "issue_pools w signer now new order_id [] st = Inr st"
| "issue_pools w signer now new order_id ((oi, cu, t) # rest) st =
     and_then (issue_admissions w signer now new order_id (nat (oi_quantity oi)) (oi, cu, t) st)
       (issue_pools w signer now new order_id rest)"

definition issue_for_order :: "wire \<Rightarrow> seal_error + ticket_signer option \<Rightarrow> instant \<Rightarrow> (nat \<Rightarrow> uuid) \<Rightarrow> uuid \<Rightarrow>
    db \<Rightarrow> db \<times> (ticket_error + issued_ticket list)" where
  "issue_for_order w active now new order_id d =
    (case active of
       Inl e \<Rightarrow> (d, Inl (TicketSealing e))
     | Inr None \<Rightarrow> (d, Inl NoSigningKey)
     | Inr (Some signer) \<Rightarrow>
       (case List.find (\<lambda>r. ord_id r = order_id) (orders d) of
          None \<Rightarrow> (d, Inl TicketOrderMissing)
        | Some row \<Rightarrow>
          (case status_parse (ord_status row) of
             None \<Rightarrow> (d, Inl (TicketStore (StatusPanic (ord_status row))))
           | Some status \<Rightarrow>
               if status = Ticketed \<or> status = Boarded then (d, Inr (tickets_for_order order_id d))
               else if status \<noteq> Paid then (d, Inl (NotPaid (status_as_str status)))
               else
                 (case and_then (issue_seats w signer now new order_id (seat_rows order_id d) (d, [], [], 0))
                        (\<lambda>(d1, evs, out, n). issue_pools w signer now new order_id (admission_rows order_id d1) (d1, evs, out, n)) of
                    Inl e \<Rightarrow> (d, Inl (TicketStore (Db e)))
                  | Inr (d2, evs, out, n) \<Rightarrow>
                      (case lifecycle_apply (Some status) TicketIssued of
                         Inl _ \<Rightarrow> (d, Inl (TicketStore (StatusPanic (ord_status row))))
                       | Inr next \<Rightarrow>
                           (events_append order_id (event_as_str TicketIssued) (TicketsPayload evs (sg_kid signer)) now
                              (set_status now order_id next d2), Inr out))))))"

section \<open>Revocation and scans\<close>

definition revoked_tickets :: "instant \<Rightarrow> uuid option \<Rightarrow> int \<Rightarrow> db \<Rightarrow> uuid list" where
  "revoked_tickets now trip_id horizon_hours d = sort_key (\<lambda>x. x)
     [tk_id t. t \<leftarrow> tickets d, tr \<leftarrow> trips d,
        tr_id tr = tk_trip t \<and> tk_status t = ''void''
        \<and> ((trip_id \<noteq> None \<and> Some (tk_trip t) = trip_id)
           \<or> (trip_id = None \<and> now - hours 24 \<le> tr_departs_at tr \<and> tr_departs_at tr \<le> now + hours (i32 horizon_hours)))]"

definition record_scan :: "instant \<Rightarrow> uuid \<Rightarrow> string \<Rightarrow> instant \<Rightarrow> string \<Rightarrow> db \<Rightarrow> db \<times> (ticket_error + scan_outcome)" where
  "record_scan now ticket_id device_id scanned_at result d =
    (case List.find (\<lambda>t. tk_id t = ticket_id) (tickets d) of
       None \<Rightarrow> (d, Inr \<lparr>sn_ticket_id = ticket_id, sn_status = ''unknown_ticket'', sn_order_status = None\<rparr>)
     | Some ticket \<Rightarrow>
         if list_ex (\<lambda>s. sc_ticket s = ticket_id \<and> sc_device s = device_id \<and> sc_scanned_at s = scanned_at) (scan_events d)
         then (d, Inr \<lparr>sn_ticket_id = ticket_id, sn_status = ''duplicate_scan'', sn_order_status = None\<rparr>)
         else
           let d1 = d\<lparr>scan_events := scan_events d @ [\<lparr>sc_ticket = ticket_id, sc_device = device_id,
                 sc_scanned_at = scanned_at, sc_result = result\<rparr>]\<rparr>
           in if tk_status ticket \<noteq> ''issued'' then
                (d1, Inr \<lparr>sn_ticket_id = ticket_id,
                   sn_status = (if tk_status ticket = ''boarded'' then ''already_boarded''
                     else if tk_status ticket = ''void'' then ''void'' else ''not_boardable''),
                   sn_order_status = None\<rparr>)
              else
                let d2 = d1\<lparr>tickets := update_where (\<lambda>t. tk_id t = ticket_id)
                      (\<lambda>t. t\<lparr>tk_status := ''boarded'', tk_boarded_at := Some scanned_at\<rparr>) (tickets d1)\<rparr>;
                    order_id = tk_order ticket;
                    boarded = (\<lambda>s. \<lparr>sn_ticket_id = ticket_id, sn_status = ''boarded'', sn_order_status = s\<rparr>)
                in if count_where (\<lambda>t. tk_order t = order_id \<and> tk_status t = ''issued'') (tickets d2) \<noteq> 0
                   then (d2, Inr (boarded None))
                   else
                     (case List.find (\<lambda>r. ord_id r = order_id) (orders d2) of
                        None \<Rightarrow> (d, Inl (TicketStore (Db RowNotFound)))
                      | Some row \<Rightarrow>
                          (case status_parse (ord_status row) of
                             None \<Rightarrow> (d, Inl (TicketStore (StatusPanic (ord_status row))))
                           | Some current \<Rightarrow>
                               (case lifecycle_apply (Some current) PassengerBoarded of
                                  Inl _ \<Rightarrow> (d2, Inr (boarded None))
                                | Inr next \<Rightarrow>
                                    (events_append order_id (event_as_str PassengerBoarded) (BoardedPayload True ticket_id) now
                                       (set_status now order_id next d2), Inr (boarded (Some (status_as_str next))))))))"

section \<open>What issuing writes\<close>

lemma issue_ticket_frame:
  "issue_ticket w signer now oid tid pid name fc oi t d = Inr (d', ev, tk) \<Longrightarrow>
   \<exists>row. d' = d\<lparr>tickets := tickets d @ [row]\<rparr> \<and> tk_order row = oid \<and> tk_status row = ''issued''
     \<and> tk_id row = is_ticket_id tk"
  by (auto simp: issue_ticket_def insert_ticket_def Let_def split: if_splits)

definition issued_by :: "uuid \<Rightarrow> issued_ticket list \<Rightarrow> ticket_row list \<Rightarrow> bool" where
  "issued_by oid out rows \<longleftrightarrow> map tk_id rows = map is_ticket_id out
     \<and> (\<forall>row\<in>set rows. tk_order row = oid \<and> tk_status row = ''issued'')"

lemma issued_by_simps [simp]:
  "issued_by oid [] []"
  "issued_by oid out rows \<Longrightarrow> issued_by oid out' rows' \<Longrightarrow> issued_by oid (out @ out') (rows @ rows')"
  "issued_by oid [tk] [row] \<longleftrightarrow> tk_id row = is_ticket_id tk \<and> tk_order row = oid \<and> tk_status row = ''issued''"
  by (auto simp: issued_by_def)

lemma issue_seats_frame:
  "issue_seats w signer now new oid seats (d, evs, out, n) = Inr (d', evs', out', n') \<Longrightarrow>
   \<exists>rows new_out. d' = d\<lparr>tickets := tickets d @ rows\<rparr> \<and> out' = out @ new_out
     \<and> length rows = length seats \<and> issued_by oid new_out rows"
proof (induction seats arbitrary: d evs out n)
  case Nil
  then show ?case by (intro exI [of _ "[]"]) simp
next
  case (Cons s seats)
  obtain oi p cu t where s: "s = (oi, p, cu, t)" by (metis prod_cases4)
  from Cons.prems obtain d1 ev tk where one:
    "issue_ticket w signer now oid (new n) (pa_id p) (pa_full_name p) (cu_fare_class cu) oi t d = Inr (d1, ev, tk)"
    and rest: "issue_seats w signer now new oid seats (d1, evs @ [ev], out @ [tk], n + 1) = Inr (d', evs', out', n')"
    by (auto simp: s)
  obtain row where d1: "d1 = d\<lparr>tickets := tickets d @ [row]\<rparr>" and row: "issued_by oid [tk] [row]"
    using issue_ticket_frame [OF one] by auto
  obtain rows new_out where r: "d' = d1\<lparr>tickets := tickets d1 @ rows\<rparr>" "out' = (out @ [tk]) @ new_out"
    "length rows = length seats" "issued_by oid new_out rows"
    using Cons.IH [OF rest] by blast
  from issued_by_simps(2) [OF row r(4)] r(1-3) d1 show ?case
    by (intro exI [of _ "row # rows"] exI [of _ "tk # new_out"]) simp
qed

lemma issue_admissions_frame:
  "issue_admissions w signer now new oid k x (d, evs, out, n) = Inr (d', evs', out', n') \<Longrightarrow>
   \<exists>ps rows new_out. d' = d\<lparr>passengers := passengers d @ ps, tickets := tickets d @ rows\<rparr> \<and> out' = out @ new_out
     \<and> length rows = k \<and> issued_by oid new_out rows"
proof (induction k arbitrary: d evs out n)
  case 0
  then show ?case by (intro exI [of _ "[]"]) simp
next
  case (Suc k)
  obtain oi cu t where x: "x = (oi, cu, t)" by (metis prod_cases3)
  from Suc.prems obtain p d1 ev tk where one:
    "issue_ticket w signer now oid (new (n + 1)) (new n) (humanize (oi_unit_code oi)) (cu_fare_class cu) oi t
       (d\<lparr>passengers := passengers d @ [p]\<rparr>) = Inr (d1, ev, tk)"
    and rest: "issue_admissions w signer now new oid k x (d1, evs @ [ev], out @ [tk], n + 2) = Inr (d', evs', out', n')"
    by (auto simp: x split: option.splits)
  obtain row where d1: "d1 = d\<lparr>passengers := passengers d @ [p], tickets := tickets d @ [row]\<rparr>"
    and row: "issued_by oid [tk] [row]"
    using issue_ticket_frame [OF one] by auto
  obtain ps rows new_out where r: "d' = d1\<lparr>passengers := passengers d1 @ ps, tickets := tickets d1 @ rows\<rparr>"
    "out' = (out @ [tk]) @ new_out" "length rows = k" "issued_by oid new_out rows"
    using Suc.IH [OF rest] by blast
  from issued_by_simps(2) [OF row r(4)] r(1-3) d1 show ?case
    by (intro exI [of _ "p # ps"] exI [of _ "row # rows"] exI [of _ "tk # new_out"]) simp
qed

definition admissions :: "uuid \<Rightarrow> db \<Rightarrow> nat" where
  "admissions oid d = sum_list (map (\<lambda>x. nat (oi_quantity (fst x))) (admission_rows oid d))"

lemma issue_pools_frame:
  "issue_pools w signer now new oid pools (d, evs, out, n) = Inr (d', evs', out', n') \<Longrightarrow>
   \<exists>ps rows new_out. d' = d\<lparr>passengers := passengers d @ ps, tickets := tickets d @ rows\<rparr> \<and> out' = out @ new_out
     \<and> length rows = sum_list (map (\<lambda>x. nat (oi_quantity (fst x))) pools) \<and> issued_by oid new_out rows"
proof (induction pools arbitrary: d evs out n)
  case Nil
  then show ?case by (intro exI [of _ "[]"]) simp
next
  case (Cons x pools)
  obtain oi cu t where x: "x = (oi, cu, t)" by (metis prod_cases3)
  from Cons.prems obtain d1 evs1 out1 n1 where one:
    "issue_admissions w signer now new oid (nat (oi_quantity oi)) x (d, evs, out, n) = Inr (d1, evs1, out1, n1)"
    and rest: "issue_pools w signer now new oid pools (d1, evs1, out1, n1) = Inr (d', evs', out', n')"
    by (auto simp: x)
  obtain ps rows new_out where a: "d1 = d\<lparr>passengers := passengers d @ ps, tickets := tickets d @ rows\<rparr>"
    "out1 = out @ new_out" "length rows = nat (oi_quantity oi)" "issued_by oid new_out rows"
    using issue_admissions_frame [OF one] by blast
  obtain ps' rows' new_out' where b: "d' = d1\<lparr>passengers := passengers d1 @ ps', tickets := tickets d1 @ rows'\<rparr>"
    "out' = out1 @ new_out'" "length rows' = sum_list (map (\<lambda>x. nat (oi_quantity (fst x))) pools)"
    "issued_by oid new_out' rows'"
    using Cons.IH [OF rest] by blast
  from issued_by_simps(2) [OF a(4) b(4)] a(1-3) b(1-3) x show ?case
    by (intro exI [of _ "ps @ ps'"] exI [of _ "rows @ rows'"] exI [of _ "new_out @ new_out'"]) simp
qed

text \<open>Issuing either changes nothing or is one lifecycle step over new passengers and tickets.\<close>

lemma issue_cases:
  assumes "log_inv d"
  obtains (unchanged) "fst (issue_for_order w act now new oid d) = d"
  | (issued) row ps rows out p where
      "issue_for_order w act now new oid d =
        (advance now oid TicketIssued p Ticketed (d\<lparr>passengers := passengers d @ ps, tickets := tickets d @ rows\<rparr>), Inr out)"
      "row \<in> set (orders d)" "ord_id row = oid" "status_parse (ord_status row) = Some Paid"
      "length rows = length (seat_rows oid d) + admissions oid d" "issued_by oid out rows"
proof -
  have paid: "lifecycle_apply (Some Paid) TicketIssued = Inr Ticketed" by (simp add: lifecycle_apply.simps)
  show thesis
  proof (cases "\<exists>signer row. act = Inr (Some signer) \<and> List.find (\<lambda>r. ord_id r = oid) (orders d) = Some row
      \<and> status_parse (ord_status row) = Some Paid")
    case False
    then have "fst (issue_for_order w act now new oid d) = d"
      unfolding issue_for_order_def by (auto split: sum.split option.split)
    then show thesis by (rule unchanged)
  next
    case True
    then obtain signer row where act: "act = Inr (Some signer)"
      and find: "List.find (\<lambda>r. ord_id r = oid) (orders d) = Some row"
      and st: "status_parse (ord_status row) = Some Paid" by blast
    have row: "row \<in> set (orders d)" "ord_id row = oid" using find_Some_in [OF find] by simp_all
    let ?run = "and_then (issue_seats w signer now new oid (seat_rows oid d) (d, [], [], 0))
        (\<lambda>(d1, evs, out, n). issue_pools w signer now new oid (admission_rows oid d1) (d1, evs, out, n))"
    show thesis
    proof (cases ?run)
      case (Inl e)
      with act find st have "fst (issue_for_order w act now new oid d) = d" by (simp add: issue_for_order_def del: and_then_eq_Inl)
      then show thesis by (rule unchanged)
    next
      case (Inr y)
      obtain d2 evs out n where y: "y = (d2, evs, out, n)" by (metis prod_cases4)
      obtain x where x: "issue_seats w signer now new oid (seat_rows oid d) (d, [], [], 0) = Inr x"
        and rest: "(\<lambda>(d1, evs, out, n). issue_pools w signer now new oid (admission_rows oid d1) (d1, evs, out, n)) x = Inr y"
        using Inr unfolding and_then_eq_Inr by blast
      obtain d1 evs1 out1 n1 where x': "x = (d1, evs1, out1, n1)" by (metis prod_cases4)
      note seats = x [unfolded x']
      have pools: "issue_pools w signer now new oid (admission_rows oid d1) (d1, evs1, out1, n1) = Inr (d2, evs, out, n)"
        using rest by (simp add: x' y)
      obtain rows1 where s: "d1 = d\<lparr>tickets := tickets d @ rows1\<rparr>" "length rows1 = length (seat_rows oid d)"
        "issued_by oid out1 rows1"
        using issue_seats_frame [OF seats] by auto
      have adm: "admission_rows oid d1 = admission_rows oid d" by (simp add: s(1) admission_rows_def)
      obtain ps rows2 out2 where p: "d2 = d1\<lparr>passengers := passengers d1 @ ps, tickets := tickets d1 @ rows2\<rparr>"
        "out = out1 @ out2" "length rows2 = admissions oid d" "issued_by oid out2 rows2"
        using issue_pools_frame [OF pools] by (auto simp: adm admissions_def)
      have "issue_for_order w act now new oid d = (advance now oid TicketIssued (TicketsPayload evs (sg_kid signer)) Ticketed d2, Inr out)"
        using act find st Inr y paid by (simp add: issue_for_order_def advance_def del: and_then_eq_Inr)
      moreover have "d2 = d\<lparr>passengers := passengers d @ ps, tickets := tickets d @ (rows1 @ rows2)\<rparr>"
        by (simp add: p(1) s(1))
      moreover have "issued_by oid out (rows1 @ rows2)" using s(3) p(2,4) by simp
      ultimately show thesis
        using row st s(2) p(3) by (intro issued [where ps = ps and rows = "rows1 @ rows2" and out = out and row = row]) simp_all
    qed
  qed
qed

lemma booking_inv_people [simp]: "booking_inv (d\<lparr>passengers := ps\<rparr>) = booking_inv d"
proof -
  have "order_view (d\<lparr>passengers := ps\<rparr>) = order_view d" by (simp add: order_view_def)
  from claims_inv_cong [OF this] log_inv_cong [OF this] show ?thesis by (simp add: booking_inv_def)
qed

lemma booking_inv_scans [simp]: "booking_inv (d\<lparr>scan_events := x\<rparr>) = booking_inv d"
proof -
  have "order_view (d\<lparr>scan_events := x\<rparr>) = order_view d" by (simp add: order_view_def)
  from claims_inv_cong [OF this] log_inv_cong [OF this] show ?thesis by (simp add: booking_inv_def)
qed

lemma issue_inv:
  assumes "booking_inv d"
  shows "booking_inv (fst (issue_for_order w act now new oid d))"
proof (cases rule: issue_cases [OF booking_log [OF assms], of w act now new oid])
  case 1
  with assms show ?thesis by simp
next
  case issued: (2 row ps rows out p)
  have "booking_inv (advance now oid TicketIssued p Ticketed (d\<lparr>passengers := passengers d @ ps, tickets := tickets d @ rows\<rparr>))"
    using assms issued(2-4)
    by (intro advance_keeps [where r = row and current = Paid]) (simp_all add: lifecycle_apply.simps releases_inventory_def)
  with issued(1) show ?thesis by simp
qed

lemma record_scan_inv:
  assumes "booking_inv d"
  shows "booking_inv (fst (record_scan now tid dev at res d))"
proof (cases "fst (record_scan now tid dev at res d) = d")
  case True
  with assms show ?thesis by simp
next
  case False
  then obtain tk where tk: "List.find (\<lambda>t. tk_id t = tid) (tickets d) = Some tk"
    by (auto simp: record_scan_def split: option.splits)
  define d1 where "d1 = d\<lparr>scan_events := scan_events d @ [\<lparr>sc_ticket = tid, sc_device = dev,
     sc_scanned_at = at, sc_result = res\<rparr>]\<rparr>"
  define d2 where "d2 = d1\<lparr>tickets := update_where (\<lambda>t. tk_id t = tid)
     (\<lambda>t. t\<lparr>tk_status := ''boarded'', tk_boarded_at := Some at\<rparr>) (tickets d1)\<rparr>"
  have inv: "booking_inv d1" "booking_inv d2" using assms by (simp_all add: d1_def d2_def)
  have "fst (record_scan now tid dev at res d) \<in> {d, d1, d2}
    \<or> (\<exists>row current next. row \<in> set (orders d2) \<and> ord_id row = tk_order tk \<and> status_parse (ord_status row) = Some current
        \<and> lifecycle_apply (Some current) PassengerBoarded = Inr next
        \<and> fst (record_scan now tid dev at res d) = advance now (tk_order tk) PassengerBoarded (BoardedPayload True tid) next d2)"
    unfolding record_scan_def tk
    by (auto simp: Let_def d1_def [symmetric] d2_def [symmetric] advance_def dest!: find_Some_in split: option.split sum.split)
  then show ?thesis
    using inv assms advance_keeps [OF inv(2)] by (auto simp: releases_inventory_def)
qed

section \<open>Issued once\<close>


section \<open>Scans\<close>

definition scan_known :: "uuid \<Rightarrow> string \<Rightarrow> instant \<Rightarrow> db \<Rightarrow> bool" where
  "scan_known tid dev at d = list_ex (\<lambda>s. sc_ticket s = tid \<and> sc_device s = dev \<and> sc_scanned_at s = at) (scan_events d)"

definition boarded_row :: "instant \<Rightarrow> ticket_row \<Rightarrow> ticket_row" where
  "boarded_row at t = t\<lparr>tk_status := ''boarded'', tk_boarded_at := Some at\<rparr>"

lemma record_scan_frame:
  assumes "record_scan now tid dev at res d = (d', Inr oc)"
  obtains (unknown) "List.find (\<lambda>t. tk_id t = tid) (tickets d) = None" "d' = d" "sn_status oc = ''unknown_ticket''"
  | (replayed) t where "List.find (\<lambda>t. tk_id t = tid) (tickets d) = Some t" "scan_known tid dev at d" "d' = d"
      "sn_status oc = ''duplicate_scan''"
  | (refused) t where "List.find (\<lambda>t. tk_id t = tid) (tickets d) = Some t" "\<not> scan_known tid dev at d"
      "tk_status t \<noteq> ''issued''" "sn_status oc \<noteq> ''boarded''" "sn_status oc \<noteq> ''unknown_ticket''"
      "d' = d\<lparr>scan_events := scan_events d @ [\<lparr>sc_ticket = tid, sc_device = dev, sc_scanned_at = at, sc_result = res\<rparr>]\<rparr>"
  | (boarded) t where "List.find (\<lambda>t. tk_id t = tid) (tickets d) = Some t" "\<not> scan_known tid dev at d"
      "tk_status t = ''issued''" "sn_status oc = ''boarded''"
      "scan_events d' = scan_events d @ [\<lparr>sc_ticket = tid, sc_device = dev, sc_scanned_at = at, sc_result = res\<rparr>]"
      "tickets d' = update_where (\<lambda>t. tk_id t = tid) (boarded_row at) (tickets d)"
proof (cases "List.find (\<lambda>t. tk_id t = tid) (tickets d)")
  case None
  with assms show thesis by (intro unknown) (auto simp: record_scan_def)
next
  case (Some t)
  show thesis
  proof (cases "scan_known tid dev at d")
    case True
    with Some assms show thesis by (intro replayed) (auto simp: record_scan_def scan_known_def)
  next
    case False
    show thesis
    proof (cases "tk_status t = ''issued''")
      case not: False
      from Some False not assms show thesis
        by (intro refused [of t]) (auto simp: record_scan_def scan_known_def Let_def split: if_splits)
    next
      case True
      have frame: "scan_events (set_status n' i' s x) = scan_events x" for n' i' s x
        by (simp add: set_status_def)
      from Some False True assms show thesis
        by (intro boarded [of t])
          (auto simp: record_scan_def scan_known_def Let_def frame boarded_row_def [abs_def] split: if_splits option.splits sum.splits)
    qed
  qed
qed

text \<open>A scan boards exactly the tickets that are \<open>issued\<close> and whose scan is new: then the ticket's row is
  \<open>boarded\<close> afterwards, so no second scan boards it; every other scan leaves the tickets as they are,
  a void ticket is never boarded, and uploading the same scan again, whatever it reports, writes nothing.\<close>
theorem scan_boards_once:
  assumes scan: "record_scan now tid dev at res d = (d', Inr oc)"
  shows "(sn_status oc = ''boarded'' \<longleftrightarrow>
      \<not> scan_known tid dev at d \<and> map_option tk_status (List.find (\<lambda>t. tk_id t = tid) (tickets d)) = Some ''issued'')
    \<and> tickets d' = (if sn_status oc = ''boarded''
      then update_where (\<lambda>t. tk_id t = tid) (boarded_row at) (tickets d) else tickets d)
    \<and> record_scan now2 tid dev at res2 d' = (d', Inr \<lparr>sn_ticket_id = tid,
      sn_status = (if sn_status oc = ''unknown_ticket'' then ''unknown_ticket'' else ''duplicate_scan''),
      sn_order_status = None\<rparr>)"
proof -
  have again: "record_scan now2 tid dev at res2 d' = (d', Inr \<lparr>sn_ticket_id = tid, sn_status = ''duplicate_scan'',
      sn_order_status = None\<rparr>)"
    if "List.find (\<lambda>t. tk_id t = tid) (tickets d') = Some t" "scan_known tid dev at d'" for t
    using that by (simp add: record_scan_def scan_known_def)
  have found: "\<exists>t'. List.find (\<lambda>t. tk_id t = tid) (update_where (\<lambda>t. tk_id t = tid) (boarded_row at) (tickets d)) = Some t'"
    if "List.find (\<lambda>t. tk_id t = tid) (tickets d) = Some t" for t
    using that by (simp add: find_update_where boarded_row_def)
  show ?thesis
    using scan
  proof (cases rule: record_scan_frame)
    case unknown
    then show ?thesis by (simp add: record_scan_def)
  next
    case (replayed t)
    then show ?thesis using again by simp
  next
    case (refused t)
    have "scan_known tid dev at d'" by (simp add: refused(6) scan_known_def)
    with refused again [of t] show ?thesis by simp
  next
    case (boarded t)
    have "scan_known tid dev at d'" by (simp add: boarded(5) scan_known_def)
    moreover obtain t' where "List.find (\<lambda>t. tk_id t = tid) (tickets d') = Some t'"
      using found [OF boarded(1)] boarded(6) by auto
    ultimately show ?thesis using boarded again [of t'] by simp
  qed
qed

text \<open>The verdict a device reports with a scan is only journalled: a scan that the device refused
  (an expired ticket, say) boards the ticket, its answer and the order just as an accepted one.\<close>
theorem scan_verdict_ignored:
  "snd (record_scan now tid dev at verdict d) = snd (record_scan now tid dev at ''ok'' d)
   \<and> tickets (fst (record_scan now tid dev at verdict d)) = tickets (fst (record_scan now tid dev at ''ok'' d))
   \<and> orders (fst (record_scan now tid dev at verdict d)) = orders (fst (record_scan now tid dev at ''ok'' d))"
  unfolding record_scan_def
  by (simp add: Let_def set_status_def events_append_def split: option.split sum.split)

definition sample_ticketed :: db where
  "sample_ticketed = fst (issue_for_order toy_wire (Inr (Some toy_signer)) 3 (\<lambda>n. Uuid (of_nat (2000 + n))) sample_order_id sample_paid)"


theorem scan_boards_once_witness:
  "snd (record_scan 6 (Uuid 2000) ''gate'' 5 ''ok'' (fst (record_scan 5 (Uuid 2000) ''gate'' 5 ''ok'' sample_ticketed)))
   = Inr \<lparr>sn_ticket_id = Uuid 2000, sn_status = ''duplicate_scan'', sn_order_status = None\<rparr>"
proof -
  have "snd (record_scan 5 (Uuid 2000) ''gate'' 5 ''ok'' sample_ticketed)
      = Inr \<lparr>sn_ticket_id = Uuid 2000, sn_status = ''boarded'', sn_order_status = None\<rparr>" by code_simp
  then have "record_scan 5 (Uuid 2000) ''gate'' 5 ''ok'' sample_ticketed
      = (fst (record_scan 5 (Uuid 2000) ''gate'' 5 ''ok'' sample_ticketed),
         Inr \<lparr>sn_ticket_id = Uuid 2000, sn_status = ''boarded'', sn_order_status = None\<rparr>)"
    by (simp add: prod_eq_iff)
  from scan_boards_once [OF this, of 6 "''ok''"] show ?thesis by simp
qed

end
