(* ===== verification/Api_Error.thy ===== *)
theory Api_Error
  imports Schema
begin

text \<open>
  \<open>crates/lulan-api/src/error.rs\<close>: the errors a handler answers and their HTTP status. The texts
  of the messages are not modelled. \<open>Panicked\<close> is a handler that panicked on a stored text.
\<close>

datatype api_error =
    BadRequest | Unauthorized | Forbidden | ApiNotFound | ApiConflict | TooManyRequests
  | ServiceUnavailable | Internal | Panicked

definition http_status :: "api_error \<Rightarrow> nat" where
  "http_status e = (case e of BadRequest \<Rightarrow> 400 | Unauthorized \<Rightarrow> 401 | Forbidden \<Rightarrow> 403 | ApiNotFound \<Rightarrow> 404
     | ApiConflict \<Rightarrow> 409 | TooManyRequests \<Rightarrow> 429 | ServiceUnavailable \<Rightarrow> 503 | Internal \<Rightarrow> 500 | Panicked \<Rightarrow> 500)"

definition of_store_error :: "store_error \<Rightarrow> api_error" where
  "of_store_error e = (case e of
      UnknownStop _ \<Rightarrow> BadRequest
    | StopsOutOfOrder _ _ \<Rightarrow> BadRequest
    | SpanInvalid _ \<Rightarrow> BadRequest
    | TripNotSellable _ \<Rightarrow> ApiConflict
    | TripDeparted _ _ \<Rightarrow> ApiConflict
    | UnreplayableStream _ _ _ \<Rightarrow> Internal
    | Db _ \<Rightarrow> Internal
    | StatusPanic _ \<Rightarrow> Panicked)"

text \<open>\<open>unique_conflict\<close> (\<open>admin.rs\<close>): a taken key is the client's conflict.\<close>

definition unique_conflict :: "db_error \<Rightarrow> api_error" where
  "unique_conflict e = (case e of UniqueViolation _ \<Rightarrow> ApiConflict | _ \<Rightarrow> Internal)"

section \<open>Headers\<close>

text \<open>
  \<open>HeaderMap::get\<close> answers the first value of a name (names are lower case) and
  \<open>HeaderValue::to_str\<close> the value when all its bytes are visible ASCII, a space or a tab.
\<close>

type_synonym headers = "(string \<times> string) list"

definition header_visible :: "char \<Rightarrow> bool" where
  "header_visible c = (let n = of_char c :: nat in 32 \<le> n \<and> n < 127 \<or> n = 9)"

definition header_str :: "headers \<Rightarrow> string \<Rightarrow> string option" where
  "header_str headers name = Option.bind (map_of headers name) (\<lambda>v. if list_all header_visible v then Some v else None)"

end
