(* ===== verification/Scheduling.thy ===== *)
theory Scheduling
  imports Sample_Orders Api_Error
begin

text \<open>
  The operator's network and schedule: the handlers of \<open>crates/lulan-api/src/admin.rs\<close> that create
  locations, routes, vessels and trips, cancel a trip and refund an order. Each is a transaction on
  \<open>db\<close>; fresh ids come from a supply. The audit log is not modelled, and the caller's role has been
  checked before. The lemmas show that every one of them keeps the booking invariant and
  \<open>units_ok\<close>, the facts about capacity units that new trips rely on.
\<close>

definition INLINE_CASCADE_LIMIT :: nat where "INLINE_CASCADE_LIMIT = 25"

definition rolled_back :: "db \<Rightarrow> api_error + db \<times> 'a \<Rightarrow> db \<times> (api_error + 'a)" where
  "rolled_back d r = (case r of Inl e \<Rightarrow> (d, Inl e) | Inr (d', x) \<Rightarrow> (d', Inr x))"

section \<open>Locations and routes\<close>

definition create_location :: "uuid \<Rightarrow> string \<Rightarrow> string \<Rightarrow> string \<Rightarrow> db \<Rightarrow> db \<times> (api_error + uuid)" where
  "create_location loc_id code name timezone d = rolled_back d
    (if list_ex (\<lambda>l. lo_id l = loc_id \<or> lo_code l = trim code) (locations d) then Inl ApiConflict
     else Inr (d\<lparr>locations := locations d @ [\<lparr>lo_id = loc_id, lo_code = trim code, lo_name = trim name,
            lo_timezone = timezone\<rparr>]\<rparr>, loc_id))"

record route_stop_request =
  rq_location_code :: string
  rq_arrive_offset :: int
  rq_depart_offset :: int

definition insert_stop :: "uuid \<Rightarrow> nat \<times> route_stop_request \<Rightarrow> db \<Rightarrow> api_error + db" where
  "insert_stop rid = (\<lambda>(index, stop) d.
    (case filter (\<lambda>l. lo_code l = trim (rq_location_code stop)) (locations d) of
       [] \<Rightarrow> Inl BadRequest
     | loc # _ \<Rightarrow>
         if i16 (int index) < 0 then Inl Internal
         else if list_ex (\<lambda>s. rs_route s = rid \<and> (rs_stop_index s = i16 (int index) \<or> rs_location s = lo_id loc)) (route_stops d)
         then Inl Internal
         else Inr (d\<lparr>route_stops := route_stops d @ [\<lparr>rs_route = rid, rs_stop_index = i16 (int index),
                rs_location = lo_id loc, rs_arrive_offset = rq_arrive_offset stop,
                rs_depart_offset = rq_depart_offset stop\<rparr>]\<rparr>)))"

definition create_route :: "uuid \<Rightarrow> string \<Rightarrow> string \<Rightarrow> route_stop_request list \<Rightarrow> db \<Rightarrow> db \<times> (api_error + uuid)" where
  "create_route rid code name stops d = rolled_back d
    (if length stops < 2 then Inl BadRequest
     else if list_ex (\<lambda>r. ro_id r = rid \<or> ro_code r = trim code) (routes d) then Inl ApiConflict
     else and_then (try_fold (insert_stop rid) (zip [0..<length stops] stops)
            (d\<lparr>routes := routes d @ [\<lparr>ro_id = rid, ro_code = trim code, ro_name = trim name\<rparr>]\<rparr>)) (\<lambda>d'.
          Inr (d', rid)))"

section \<open>Vessels\<close>

record seat_spec =
  ss_code :: string
  ss_fare_class :: string

record pool_spec =
  ps_code :: string
  ps_capacity :: int
  ps_admission :: bool

definition insert_unit :: "capacity_unit_row \<Rightarrow> db \<Rightarrow> api_error + db" where
  "insert_unit row d =
    (if list_ex (\<lambda>u. cu_id u = cu_id row \<or> cu_resource u = cu_resource row \<and> cu_code u = cu_code row) (capacity_units d)
     then Inl Internal else Inr (d\<lparr>capacity_units := capacity_units d @ [row]\<rparr>))"

definition insert_seat :: "uuid \<Rightarrow> uuid \<times> seat_spec \<Rightarrow> db \<Rightarrow> api_error + db" where
  "insert_seat res_id = (\<lambda>(unit_id, seat). insert_unit
     \<lparr>cu_id = unit_id, cu_resource = res_id, cu_kind = ''seat'', cu_code = trim (ss_code seat),
      cu_fare_class = Some (trim (ss_fare_class seat)), cu_pool_capacity = None, cu_admission = False\<rparr>)"

definition insert_pool :: "uuid \<Rightarrow> uuid \<times> pool_spec \<Rightarrow> db \<Rightarrow> api_error + db" where
  "insert_pool res_id = (\<lambda>(unit_id, spec). insert_unit
     \<lparr>cu_id = unit_id, cu_resource = res_id, cu_kind = ''pool'', cu_code = trim (ps_code spec),
      cu_fare_class = None, cu_pool_capacity = Some (i32 (ps_capacity spec)), cu_admission = ps_admission spec\<rparr>)"

definition create_vessel :: "(nat \<Rightarrow> uuid) \<Rightarrow> string \<Rightarrow> string \<Rightarrow> string \<Rightarrow> seat_spec list \<Rightarrow> pool_spec list \<Rightarrow>
    db \<Rightarrow> db \<times> (api_error + uuid)" where
  "create_vessel new code name kind seats pools d = rolled_back d
    (if seats = [] \<and> pools = [] then Inl BadRequest
     else if \<not> List.member [''bus'', ''ferry'', ''aircraft'', ''other''] kind then Inl BadRequest
     else if list_ex (\<lambda>r. re_id r = new 0 \<or> re_code r = trim code) (resources d) then Inl ApiConflict
     else
       and_then (try_fold (insert_seat (new 0)) (zip (map (\<lambda>i. new (1 + i)) [0..<length seats]) seats)
          (d\<lparr>resources := resources d @ [\<lparr>re_id = new 0, re_code = trim code, re_name = trim name, re_kind = kind\<rparr>]\<rparr>)) (\<lambda>d1.
       and_then (try_fold (insert_pool (new 0)) (zip (map (\<lambda>i. new (1 + length seats + i)) [0..<length pools]) pools) d1) (\<lambda>d2.
       Inr (d2, new 0))))"

section \<open>Trips\<close>

text \<open>One occupancy row for a unit of the trip's vessel.\<close>

definition insert_occupancy :: "uuid \<Rightarrow> int \<Rightarrow> uuid \<times> int option \<Rightarrow> db \<Rightarrow> api_error + db" where
  "insert_occupancy trip_id segments = (\<lambda>(unit_id, pool_capacity) d.
    (case pool_capacity of
       None \<Rightarrow>
         if list_ex (\<lambda>r. seat_key r = (trip_id, unit_id)) (seat_occupancy d) then Inl Internal
         else Inr (d\<lparr>seat_occupancy := seat_occupancy d @ [\<lparr>so_trip = trip_id, so_unit = unit_id, so_mask = 0\<rparr>]\<rparr>)
     | Some capacity \<Rightarrow>
         let remaining = replicate (nat (i32 segments)) capacity
         in if list_ex (\<lambda>x. x < 0) remaining then Inl Internal
            else if list_ex (\<lambda>r. pool_key r = (trip_id, unit_id)) (pool_occupancy d) then Inl Internal
            else Inr (d\<lparr>pool_occupancy := pool_occupancy d @ [\<lparr>pl_trip = trip_id, pl_unit = unit_id,
                   pl_remaining = remaining\<rparr>]\<rparr>)))"

definition insert_trip :: "trip_row \<Rightarrow> int \<Rightarrow> (uuid \<times> int option) list \<Rightarrow> db \<times> uuid list \<Rightarrow> api_error + db \<times> uuid list" where
  "insert_trip row segments units = (\<lambda>(d, ids).
    if \<not> (1 \<le> tr_segment_count row \<and> tr_segment_count row \<le> 64) then Inl Internal
    else if list_ex (\<lambda>t. tr_route t = tr_route row \<and> tr_resource t = tr_resource row \<and> tr_departs_at t = tr_departs_at row) (trips d)
    then Inr (d, ids)
    else if list_ex (\<lambda>t. tr_id t = tr_id row) (trips d) then Inl Internal
    else and_then (try_fold (insert_occupancy (tr_id row) segments) units (d\<lparr>trips := trips d @ [row]\<rparr>)) (\<lambda>d'.
         Inr (d', ids @ [tr_id row])))"

definition schedule_departures :: "(nat \<Rightarrow> uuid) \<Rightarrow> uuid \<Rightarrow> uuid \<Rightarrow> uuid option \<Rightarrow> string option \<Rightarrow> int \<Rightarrow>
    (uuid \<times> int option) list \<Rightarrow> instant list \<Rightarrow> db \<Rightarrow> api_error + db \<times> uuid list" where
  "schedule_departures new rid vid operator_id service_number segments units departures d =
     try_fold (\<lambda>(i, departs_at). insert_trip
         \<lparr>tr_id = new i, tr_route = rid, tr_resource = vid,
          tr_service_date = departs_at div hours 24, tr_departs_at = departs_at,
          tr_segment_count = i16 segments, tr_operator = operator_id, tr_service_number = service_number,
          tr_status = ''scheduled''\<rparr> segments units)
       (zip [0..<length departures] departures) (d, [])"

definition create_trips :: "(nat \<Rightarrow> uuid) \<Rightarrow> string \<Rightarrow> string \<Rightarrow> string option \<Rightarrow> string option \<Rightarrow> instant list \<Rightarrow>
    db \<Rightarrow> db \<times> (api_error + uuid list)" where
  "create_trips new rcode vessel_code operator_code service_number departures d = rolled_back d
    (if departures = [] then Inl BadRequest
     else
       and_then (ok_or BadRequest (List.find (\<lambda>r. ro_code r = trim rcode
          \<and> list_ex (\<lambda>s. rs_route s = ro_id r) (route_stops d)) (routes d))) (\<lambda>route.
       and_then (ok_or BadRequest (List.find (\<lambda>r. re_code r = trim vessel_code) (resources d))) (\<lambda>vessel.
       and_then (case operator_code of
           None \<Rightarrow> Inr None
         | Some code \<Rightarrow> and_then (ok_or BadRequest (List.find (\<lambda>op. op_code op = trim code) (operators d)))
             (\<lambda>op. Inr (Some (op_id op)))) (\<lambda>operator_id.
       let segments = int (count_where (\<lambda>s. rs_route s = ro_id route) (route_stops d)) - 1;
           units = map (\<lambda>u. (cu_id u, cu_pool_capacity u)) (filter (\<lambda>u. cu_resource u = re_id vessel) (capacity_units d))
       in schedule_departures new (ro_id route) (re_id vessel) operator_id service_number segments units departures d))))"

definition cancel_trip :: "(string \<Rightarrow> int \<Rightarrow> bool) \<Rightarrow> instant \<Rightarrow> uuid \<Rightarrow> db \<Rightarrow> db \<times> (api_error + cascade_stats)" where
  "cancel_trip refund_ok now trip_id d =
    (let P = (\<lambda>t. tr_id t = trip_id \<and> tr_status t = ''scheduled'')
     in if count_where P (trips d) = 0 then (d, Inl ApiNotFound)
        else let (d', stats) = settle_cancelled_trips refund_ok now INLINE_CASCADE_LIMIT
               (d\<lparr>trips := update_where P (\<lambda>t. t\<lparr>tr_status := ''cancelled''\<rparr>) (trips d)\<rparr>)
             in (d', Inr stats))"

section \<open>Support\<close>

text \<open>\<open>refund_order\<close>: the provider is called (\<open>refund_call intent total\<close>, its answer the error to report or
  nothing) before the order's state is looked at. The third component lists the calls made.\<close>

definition refund_order :: "(string \<Rightarrow> int \<Rightarrow> api_error option) \<Rightarrow> instant \<Rightarrow> uuid \<Rightarrow> db \<Rightarrow>
    db \<times> (api_error + order_status) \<times> (string \<times> int) list" where
  "refund_order refund_call now order_id d =
    (case List.find (\<lambda>r. ord_id r = order_id) (orders d) of
       None \<Rightarrow> (d, Inl ApiNotFound, [])
     | Some row \<Rightarrow>
         let calls = (case ord_payment_intent row of None \<Rightarrow> [] | Some intent \<Rightarrow> [(intent, ord_total_minor row)]);
             failed = (case ord_payment_intent row of None \<Rightarrow> None | Some intent \<Rightarrow> refund_call intent (ord_total_minor row))
         in (case failed of
               Some e \<Rightarrow> (d, Inl e, calls)
             | None \<Rightarrow>
                 (case refund now order_id d of
                    (d', Inl e) \<Rightarrow> (d', Inl (of_store_error e), calls)
                  | (d', Inr (Applied status)) \<Rightarrow> (d', Inr status, calls)
                  | (d', Inr (NoOp _)) \<Rightarrow> (d', Inl ApiConflict, calls)
                  | (d', Inr OrderMissing) \<Rightarrow> (d', Inl ApiNotFound, calls))))"

record manifest_row =
  mf_seat :: string
  mf_passenger :: "string option"
  mf_passenger_type :: "string option"
  mf_from_index :: int
  mf_to_index :: int
  mf_order_id :: uuid
  mf_order_status :: string
  mf_ticket_status :: "string option"

text \<open>A left join: one row with nulls where nothing matches.\<close>

definition left_join :: "('a \<Rightarrow> bool) \<Rightarrow> 'a list \<Rightarrow> 'a option list" where
  "left_join P rows = (case filter P rows of [] \<Rightarrow> [None] | rs \<Rightarrow> map Some rs)"

definition trip_manifest :: "uuid \<Rightarrow> db \<Rightarrow> manifest_row list" where
  "trip_manifest trip_id d = sort_key mf_seat
     [\<lparr>mf_seat = oi_unit_code oi, mf_passenger = map_option pa_full_name p, mf_passenger_type = map_option pa_type p,
       mf_from_index = oi_from_index oi, mf_to_index = oi_to_index oi, mf_order_id = ord_id ord,
       mf_order_status = ord_status ord, mf_ticket_status = map_option tk_status t\<rparr>.
      oi \<leftarrow> filter (\<lambda>oi. oi_trip oi = trip_id \<and> oi_kind oi = ''seat'') (order_items d),
      ord \<leftarrow> filter (\<lambda>ord. ord_id ord = oi_order oi \<and> List.member [''paid'', ''ticketed'', ''boarded''] (ord_status ord)) (orders d),
      p \<leftarrow> left_join (\<lambda>p. Some (pa_id p) = oi_passenger oi) (passengers d),
      t \<leftarrow> left_join (\<lambda>t. tk_order t = ord_id ord \<and> Some (tk_passenger t) = oi_passenger oi
               \<and> tk_trip t = oi_trip oi \<and> tk_unit t = oi_unit oi) (tickets d)]"

section \<open>The invariant through the operator's changes\<close>

definition units_ok :: "db \<Rightarrow> bool" where
  "units_ok d \<longleftrightarrow> distinct (map cu_id (capacity_units d))
     \<and> (\<forall>u\<in>set (capacity_units d). \<forall>c. cu_pool_capacity u = Some c \<longrightarrow> in_i32 c)"

definition system_inv :: "db \<Rightarrow> bool" where
  "system_inv d \<longleftrightarrow> booking_inv d \<and> units_ok d"

text \<open>What the invariants do not look at.\<close>

lemma booking_inv_network [simp]:
  "booking_inv (d\<lparr>locations := x1\<rparr>) = booking_inv d"
  "booking_inv (d\<lparr>routes := x2\<rparr>) = booking_inv d"
  "booking_inv (d\<lparr>route_stops := x3\<rparr>) = booking_inv d"
  "booking_inv (d\<lparr>resources := x4\<rparr>) = booking_inv d"
  "booking_inv (d\<lparr>trips := x5\<rparr>) = booking_inv d"
proof -
  have c: "booking_inv d' = booking_inv d" if "order_view d' = order_view d" "order_items d' = order_items d"
    "seat_occupancy d' = seat_occupancy d" "pool_occupancy d' = pool_occupancy d"
    "capacity_units d' = capacity_units d" "events d' = events d" "outbox d' = outbox d" for d'
    using claims_inv_cong [OF that(1-5)] log_inv_cong [OF that(1,6,7)] by (simp add: booking_inv_def)
  show "booking_inv (d\<lparr>locations := x1\<rparr>) = booking_inv d" by (rule c) (simp_all add: order_view_def)
  show "booking_inv (d\<lparr>routes := x2\<rparr>) = booking_inv d" by (rule c) (simp_all add: order_view_def)
  show "booking_inv (d\<lparr>route_stops := x3\<rparr>) = booking_inv d" by (rule c) (simp_all add: order_view_def)
  show "booking_inv (d\<lparr>resources := x4\<rparr>) = booking_inv d" by (rule c) (simp_all add: order_view_def)
  show "booking_inv (d\<lparr>trips := x5\<rparr>) = booking_inv d" by (rule c) (simp_all add: order_view_def)
qed

lemma units_ok_cong: "capacity_units d' = capacity_units d \<Longrightarrow> units_ok d' = units_ok d"
  by (simp add: units_ok_def)

lemma system_inv_network [simp]:
  "system_inv (d\<lparr>locations := x1\<rparr>) = system_inv d"
  "system_inv (d\<lparr>routes := x2\<rparr>) = system_inv d"
  "system_inv (d\<lparr>route_stops := x3\<rparr>) = system_inv d"
  "system_inv (d\<lparr>resources := x4\<rparr>) = system_inv d"
  "system_inv (d\<lparr>trips := x5\<rparr>) = system_inv d"
  by (simp_all add: system_inv_def units_ok_def)

lemma rolled_back_inv: "P d \<Longrightarrow> (\<And>d' x. r = Inr (d', x) \<Longrightarrow> P d') \<Longrightarrow> P (fst (rolled_back d r))"
  by (auto simp: rolled_back_def split: sum.split)

lemma create_location_inv: "system_inv d \<Longrightarrow> system_inv (fst (create_location i c n tz d))"
  unfolding create_location_def by (rule rolled_back_inv) (auto split: if_splits)

lemma insert_stop_inv: "insert_stop rid x d = Inr d' \<Longrightarrow> system_inv d \<Longrightarrow> system_inv d'"
  by (auto simp: insert_stop_def split: prod.splits list.splits if_splits)

lemma create_route_inv: "system_inv d \<Longrightarrow> system_inv (fst (create_route i c n stops d))"
  unfolding create_route_def
  by (rule rolled_back_inv) (auto split: if_splits elim!: try_fold_invariant [rotated 2] intro: insert_stop_inv)

lemma pools_ok_more_units:
  assumes "pools_ok d M" and "\<And>u c. pool_capacity_of d u = Some c \<Longrightarrow> pool_capacity_of d' u = Some c"
    and "pool_occupancy d' = pool_occupancy d"
  shows "pools_ok d' M"
  using assms unfolding pools_ok_def ledger_ok_def pool_held_def by metis

lemma find_append_Some: "List.find P xs = Some x \<Longrightarrow> List.find P (xs @ ys) = Some x"
  by (induction xs) (auto split: if_splits)

lemma insert_unit_inv:
  assumes step: "insert_unit row d = Inr d'" and inv: "system_inv d"
    and cap: "\<And>c. cu_pool_capacity row = Some c \<Longrightarrow> in_i32 c"
  shows "system_inv d'"
proof -
  have d': "d' = d\<lparr>capacity_units := capacity_units d @ [row]\<rparr>" and new: "cu_id row \<notin> cu_id ` set (capacity_units d)"
    using step by (auto simp: insert_unit_def list_ex_iff split: if_splits)
  have "order_view d' = order_view d" by (simp add: d' order_view_def)
  have claims: "claims_inv d" and log: "log_inv d" using inv by (simp_all add: system_inv_def booking_inv_def)
  have "pools_ok d' (pool_part (live_items d'))"
  proof (rule pools_ok_more_units)
    show "pools_ok d (pool_part (live_items d'))" using claims by (simp add: d' claims_inv_def live_items_def live_def)
    show "pool_capacity_of d' u = Some c" if "pool_capacity_of d u = Some c" for u c
      using that by (auto simp: pool_capacity_of_def d' bind_eq_Some_conv dest: find_append_Some)
  qed (simp add: d')
  then have "claims_inv d'"
    using claims by (simp add: claims_inv_def d' live_items_def live_def seats_ok_def item_backed_def)
  moreover have "log_inv d'" using log log_inv_cong [of d' d] by (simp add: d' order_view_def)
  moreover have "units_ok d'" using inv new cap by (auto simp: system_inv_def units_ok_def d')
  ultimately show ?thesis by (simp add: system_inv_def booking_inv_def)
qed

lemma create_vessel_inv: "system_inv d \<Longrightarrow> system_inv (fst (create_vessel new c n k seats pools d))"
proof -
  have seat: "system_inv d'" if "insert_seat rid x d = Inr d'" "system_inv d" for rid x d d'
    using that by (auto simp: insert_seat_def split: prod.splits elim!: insert_unit_inv)
  have pool: "system_inv d'" if "insert_pool rid x d = Inr d'" "system_inv d" for rid x d d'
    using that by (auto simp: insert_pool_def split: prod.splits elim!: insert_unit_inv)
  show "system_inv d \<Longrightarrow> system_inv (fst (create_vessel new c n k seats pools d))"
    unfolding create_vessel_def
    by (rule rolled_back_inv)
      (auto split: if_splits elim!: try_fold_invariant [rotated 2, of _ _ _ _ system_inv] intro: seat pool)
qed

text \<open>A new occupancy row accounts for nothing: no item can refer to a row that was not there.\<close>

lemma unbacked_seat:
  assumes "claims_inv d" and "(t, u) \<notin> seat_key ` set (seat_occupancy d)"
  shows "seat_part (live_items d) (t, u) = {#}"
  using assms by (fastforce simp: seat_part_def live_items_def claims_inv_def item_backed_def filter_mset_eq_conv)

lemma unbacked_pool:
  assumes "claims_inv d" and "(t, u) \<notin> pool_key ` set (pool_occupancy d)"
  shows "pool_part (live_items d) (t, u) = {#}"
  using assms by (fastforce simp: pool_part_def live_items_def claims_inv_def item_backed_def filter_mset_eq_conv)

lemma insert_occupancy_inv:
  assumes step: "insert_occupancy t segs (u, cap) d = Inr d'" and inv: "system_inv d"
    and u: "\<And>c. cap = Some c \<Longrightarrow> pool_capacity_of d u = Some c \<and> in_i32 c"
  shows "system_inv d' \<and> capacity_units d' = capacity_units d"
proof -
  have claims: "claims_inv d" and log: "log_inv d" and units: "units_ok d"
    using inv by (simp_all add: system_inv_def booking_inv_def)
  show ?thesis
  proof (cases cap)
    case None
    let ?row = "\<lparr>so_trip = t, so_unit = u, so_mask = 0\<rparr>"
    have d': "d' = d\<lparr>seat_occupancy := seat_occupancy d @ [?row]\<rparr>" and new: "(t, u) \<notin> seat_key ` set (seat_occupancy d)"
      using step None by (auto simp: insert_occupancy_def list_ex_iff split: if_splits)
    have items: "live_items d' = live_items d" by (simp add: d' live_items_def live_def)
    have key: "seat_key ?row = (t, u)" by (simp add: seat_key_def)
    have "seat_held ?row (seat_part (live_items d) (seat_key ?row))"
      unfolding key unbacked_seat [OF claims new] by (simp add: seat_held_def seat_load_def)
    with claims new have "seats_ok d' (seat_part (live_items d'))"
      unfolding items by (auto simp: d' claims_inv_def seats_ok_def ledger_ok_def key)
    moreover have "pools_ok d' (pool_part (live_items d'))"
      unfolding items using claims by (simp add: d' claims_inv_def pools_ok_def pool_capacity_of_def [abs_def])
    moreover have "\<forall>r\<in>set (order_items d'). item_backed d' r"
      using claims by (auto simp: d' claims_inv_def item_backed_def split: if_splits)
    ultimately have "claims_inv d'" by (simp add: claims_inv_def)
    moreover have "log_inv d'" using log log_inv_cong [of d' d] by (simp add: d' order_view_def)
    ultimately show ?thesis using units by (simp add: system_inv_def booking_inv_def d' units_ok_def)
  next
    case (Some c)
    let ?row = "\<lparr>pl_trip = t, pl_unit = u, pl_remaining = replicate (nat (i32 segs)) c\<rparr>"
    have d': "d' = d\<lparr>pool_occupancy := pool_occupancy d @ [?row]\<rparr>" and new: "(t, u) \<notin> pool_key ` set (pool_occupancy d)"
      and nn: "\<not> list_ex (\<lambda>x. x < 0) (replicate (nat (i32 segs)) c)"
      using step Some by (auto simp: insert_occupancy_def list_ex_iff Let_def split: if_splits)
    have items: "live_items d' = live_items d" by (simp add: d' live_items_def live_def)
    have key: "pool_key ?row = (t, u)" by (simp add: pool_key_def)
    have "pool_held (pool_capacity_of d) ?row (pool_part (live_items d) (pool_key ?row))"
      unfolding key unbacked_pool [OF claims new]
      using u [OF Some] nn by (auto simp: pool_held_def pool_load_def list_ex_iff)
    with claims new have "pools_ok d' (pool_part (live_items d'))"
      unfolding items by (auto simp: d' claims_inv_def pools_ok_def ledger_ok_def key)
    moreover have "seats_ok d' (seat_part (live_items d'))"
      unfolding items using claims by (simp add: d' claims_inv_def seats_ok_def)
    moreover have "\<forall>r\<in>set (order_items d'). item_backed d' r"
      using claims by (auto simp: d' claims_inv_def item_backed_def split: if_splits)
    ultimately have "claims_inv d'" by (simp add: claims_inv_def)
    moreover have "log_inv d'" using log log_inv_cong [of d' d] by (simp add: d' order_view_def)
    ultimately show ?thesis using units by (simp add: system_inv_def booking_inv_def d' units_ok_def)
  qed
qed

lemma insert_trip_inv:
  assumes step: "insert_trip row segs units (d, ids) = Inr (d', ids')" and inv: "system_inv d"
    and units: "\<And>u c. (u, Some c) \<in> set units \<Longrightarrow> pool_capacity_of d u = Some c \<and> in_i32 c"
  shows "system_inv d' \<and> capacity_units d' = capacity_units d"
proof (cases "d' = d")
  case True
  with inv show ?thesis by simp
next
  case False
  with step have fold: "try_fold (insert_occupancy (tr_id row) segs) units (d\<lparr>trips := trips d @ [row]\<rparr>) = Inr d'"
    by (auto simp: insert_trip_def split: if_splits)
  have cap: "pool_capacity_of x = pool_capacity_of d" if "capacity_units x = capacity_units d" for x
    using that by (simp add: pool_capacity_of_def fun_eq_iff)
  show ?thesis
  proof (rule try_fold_invariant [OF _ _ fold])
    show "system_inv (d\<lparr>trips := trips d @ [row]\<rparr>) \<and> capacity_units (d\<lparr>trips := trips d @ [row]\<rparr>) = capacity_units d"
      using inv by simp
    fix x s s' assume x: "x \<in> set units" and s: "system_inv s \<and> capacity_units s = capacity_units d"
      and s': "insert_occupancy (tr_id row) segs x s = Inr s'"
    obtain u c where [simp]: "x = (u, c)" by force
    show "system_inv s' \<and> capacity_units s' = capacity_units d"
      using insert_occupancy_inv [of "tr_id row" segs u c s s'] s s' x units [of u] cap [of s] by auto
  qed
qed

lemma unit_capacity:
  assumes "units_ok d" and "u \<in> set (capacity_units d)" and "cu_pool_capacity u = Some c"
  shows "pool_capacity_of d (cu_id u) = Some c \<and> in_i32 c"
  using assms find_distinct_key [of cu_id "capacity_units d" u] by (auto simp: units_ok_def pool_capacity_of_def)

lemma schedule_departures_inv:
  assumes run: "schedule_departures new rid vid op sn segs units deps d = Inr (d', ids)" and inv: "system_inv d"
    and units: "\<And>u c. (u, Some c) \<in> set units \<Longrightarrow> pool_capacity_of d u = Some c \<and> in_i32 c"
  shows "system_inv d'"
proof -
  have cap: "pool_capacity_of x = pool_capacity_of d" if "capacity_units x = capacity_units d" for x
    using that by (simp add: pool_capacity_of_def fun_eq_iff)
  have "system_inv (fst (d', ids)) \<and> capacity_units (fst (d', ids)) = capacity_units d"
  proof (rule try_fold_invariant [OF _ _ run [unfolded schedule_departures_def]])
    show "system_inv (fst (d, [] :: uuid list)) \<and> capacity_units (fst (d, [] :: uuid list)) = capacity_units d"
      using inv by simp
    fix x and s s' :: "db \<times> uuid list"
    assume s: "system_inv (fst s) \<and> capacity_units (fst s) = capacity_units d"
      and s': "(\<lambda>(i, departs_at). insert_trip \<lparr>tr_id = new i, tr_route = rid, tr_resource = vid,
          tr_service_date = departs_at div hours 24, tr_departs_at = departs_at, tr_segment_count = i16 segs,
          tr_operator = op, tr_service_number = sn, tr_status = ''scheduled''\<rparr> segs units) x s = Inr s'"
    obtain a i b j y z where [simp]: "s = (a, i)" "s' = (b, j)" "x = (y, z)" by (metis prod.collapse)
    from insert_trip_inv [OF s' [simplified]] s units cap [of a]
    show "system_inv (fst s') \<and> capacity_units (fst s') = capacity_units d" by simp
  qed
  then show ?thesis by simp
qed

lemma create_trips_inv:
  assumes inv: "system_inv d"
  shows "system_inv (fst (create_trips new rc vc op sn deps d))"
  unfolding create_trips_def
proof (rule rolled_back_inv)
  show "system_inv d" by (rule inv)
  have "system_inv d'"
    if "schedule_departures new rid vid op' sn segs
        (map (\<lambda>u. (cu_id u, cu_pool_capacity u)) (filter P (capacity_units d))) deps d = Inr (d', ids)"
    for rid vid op' segs P d' ids
    by (rule schedule_departures_inv [OF that inv])
      (use inv unit_capacity [of d] in \<open>auto simp: system_inv_def dest!: sym [of "Some _"]\<close>)
  note sched = this
  fix d' ids
  assume "(if deps = [] then Inl BadRequest else
       and_then (ok_or BadRequest (List.find (\<lambda>r. ro_code r = trim rc \<and> list_ex (\<lambda>s. rs_route s = ro_id r) (route_stops d)) (routes d))) (\<lambda>route.
       and_then (ok_or BadRequest (List.find (\<lambda>r. re_code r = trim vc) (resources d))) (\<lambda>vessel.
       and_then (case op of None \<Rightarrow> Inr None
         | Some code \<Rightarrow> and_then (ok_or BadRequest (List.find (\<lambda>op. op_code op = trim code) (operators d))) (\<lambda>op. Inr (Some (op_id op)))) (\<lambda>operator_id.
       let segments = int (count_where (\<lambda>s. rs_route s = ro_id route) (route_stops d)) - 1;
           units = map (\<lambda>u. (cu_id u, cu_pool_capacity u)) (filter (\<lambda>u. cu_resource u = re_id vessel) (capacity_units d))
       in schedule_departures new (ro_id route) (re_id vessel) operator_id sn segments units deps d)))) = Inr (d', ids)"
  then show "system_inv d'" by (auto simp: Let_def split: if_splits dest: sched)
qed

end
