(* ===== verification/Booking_System.thy ===== *)
theory Booking_System
  imports Scheduling Tickets
begin

text \<open>
  The whole booking system as a state machine: \<open>sys_step\<close> is one committed transaction of the
  server (an operator's change, a booking, a payment callback, the sweepers, the relay, a scan),
  in any order and interleaving, and \<open>reachable\<close> the databases a deployment that started empty can
  get to. The invariant of the components holds in all of them, which gives the system's
  promises: a seat is never sold twice, a pool never oversold, an order's row is what its events
  say.
\<close>

section \<open>No booking operation touches the capacity units\<close>

lemma seat_exec_units:
  "claim_seat_exec t u s d = (d', n) \<Longrightarrow> capacity_units d' = capacity_units d"
  "release_seat_exec t u s d = (d', n) \<Longrightarrow> capacity_units d' = capacity_units d"
  by (auto simp: claim_seat_exec_def release_seat_exec_def split: prod.splits)

lemma pool_update_units: "pool_update t u f d = Inr (d', n) \<Longrightarrow> capacity_units d' = capacity_units d"
  by (auto simp: pool_update_def split: prod.splits if_splits)

lemma claim_pool_units: "claim_pool_exec t u s q d = Inr (d', n) \<Longrightarrow> capacity_units d' = capacity_units d"
  unfolding claim_pool_exec_def by (rule pool_update_units)

lemma release_pool_units: "release_pool_exec t u s q d = Inr (d', n) \<Longrightarrow> capacity_units d' = capacity_units d"
  by (auto simp: release_pool_exec_def split: if_splits dest: pool_update_units)

lemma release_items_units: "release_items rows d = Inr d' \<Longrightarrow> capacity_units d' = capacity_units d"
proof (induction rows arbitrary: d)
  case (Cons r rows)
  from Cons.prems obtain s d1 n where
    step: "(if oi_kind r = ''seat'' then Inr (release_seat_exec (oi_trip r) (oi_unit r) s d)
       else map_err Db (release_pool_exec (oi_trip r) (oi_unit r) s (oi_quantity r) d)) = Inr (d1, n)"
    and rest: "release_items rows d1 = Inr d'" by auto
  have "capacity_units d1 = capacity_units d"
    using step by (auto split: if_splits dest: release_pool_units seat_exec_units)
  with Cons.IH [OF rest] show ?case by simp
qed simp

lemma apply_event_units: "apply_event_locked now i e p d = Inr (d', out) \<Longrightarrow> capacity_units d' = capacity_units d"
  by (auto simp: apply_event_locked_def set_status_def events_append_def Let_def split: option.splits sum.splits)

lemma commit_frame:
  "(\<And>d' x. r = Inr (d', x) \<Longrightarrow> capacity_units d' = capacity_units d) \<Longrightarrow>
   capacity_units (fst (commit d r)) = capacity_units d"
  by (auto simp: commit_def split: sum.split)

lemma order_units:
  "capacity_units (fst (request_payment now i intent d)) = capacity_units d"
  "capacity_units (fst (apply_payment_result now intent ok d)) = capacity_units d"
  "capacity_units (fst (cancel now i d)) = capacity_units d"
  "capacity_units (fst (expire_order now i d)) = capacity_units d"
  "capacity_units (fst (refund now i d)) = capacity_units d"
proof -
  show "capacity_units (fst (request_payment now i intent d)) = capacity_units d"
  proof (cases "apply_event_locked now i PaymentRequested (IntentPayload intent) d")
    case (Inl e)
    then show ?thesis by (simp add: request_payment_def commit_def)
  next
    case (Inr y)
    obtain d1 out where y: "y = (d1, out)" by force
    from apply_event_units [OF Inr [unfolded y]] Inr y show ?thesis
      by (cases out) (simp_all add: request_payment_def commit_def)
  qed
  show "capacity_units (fst (apply_payment_result now intent ok d)) = capacity_units d"
  proof (cases "find_by_intent intent d")
    case None
    then show ?thesis by (simp add: apply_payment_result_def)
  next
    case (Some j)
    show ?thesis
    proof (cases "apply_event_locked now j (if ok then PaymentCaptured else PaymentFailed) (IntentPayload intent) d")
      case (Inl e)
      with Some show ?thesis by (simp add: apply_payment_result_def commit_def)
    next
      case (Inr y)
      obtain d1 out where y: "y = (d1, out)" by force
      from apply_event_units [OF Inr [unfolded y]] Inr y Some show ?thesis
        by (simp add: apply_payment_result_def commit_def)
    qed
  qed
  have release: "capacity_units (fst (commit d (and_then (apply_event_locked now i e p d) (\<lambda>(d', outcome).
      case outcome of
        Applied _ \<Rightarrow> and_then (release_order_items i d') (\<lambda>d''. Inr (g d'', outcome))
      | _ \<Rightarrow> Inr (d', outcome))))) = capacity_units d"
    if g: "\<And>x. capacity_units (g x) = capacity_units x" for e p and g :: "db \<Rightarrow> db"
  proof (cases "apply_event_locked now i e p d")
    case (Inl x)
    then show ?thesis by (simp add: commit_def)
  next
    case (Inr y)
    obtain d1 out where y: "y = (d1, out)" by force
    have "capacity_units d1 = capacity_units d" by (rule apply_event_units [OF Inr [unfolded y]])
    then show ?thesis
      using Inr y g release_items_units
      by (cases out; cases "release_order_items i d1") (auto simp: commit_def release_order_items_def)
  qed
  show "capacity_units (fst (cancel now i d)) = capacity_units d"
    unfolding cancel_def by (rule release) simp
  show "capacity_units (fst (expire_order now i d)) = capacity_units d"
    unfolding expire_order_def by (rule release) simp
  show "capacity_units (fst (refund now i d)) = capacity_units d"
    unfolding refund_def by (rule release) simp
qed

lemma claim_items_units: "claim_items oid pax items d = Inr (d', rec) \<Longrightarrow> capacity_units d' = capacity_units d"
proof (induction items arbitrary: d rec)
  case (Cons x items)
  obtain item target slot where x: "x = (item, target, slot)" by (metis prod_cases3)
  from Cons.prems obtain d1 n its rec' where
    c: "claim_item item target d = Inr (d1, n)"
    and rest: "claim_items oid pax items (d1\<lparr>order_items := its\<rparr>) = Inr (d', rec')"
    by (auto simp: x Let_def split: sum.splits if_splits option.splits)
  have "capacity_units d1 = capacity_units d"
    using c by (auto simp: claim_item_def split: if_splits dest: claim_pool_units seat_exec_units)
  with Cons.IH [OF rest] show ?case by simp
qed simp

lemma create_tx_units: "capacity_units (fst (create_tx now new ord targets slots d)) = capacity_units d"
proof (cases rule: create_tx_cases [of now new ord targets slots d])
  case (aborted r)
  then show ?thesis by simp
next
  case (created t d0 d0' d1 d1' ps recorded ls anc p1 p2 rec)
  have "capacity_units d0 = capacity_units d"
    using created(1) by (auto simp: insert_order_def split: option.splits)
  then show ?thesis
    using insert_passengers_frame [OF created(2)] claim_items_units [OF created(3)] insert_ancillaries_frame [OF created(4)]
    by (auto simp: created(5) events_append_def Let_def)
qed

section \<open>Every transaction keeps the invariant\<close>

lemma system_inv_frame:
  "system_inv d \<Longrightarrow> booking_inv d' \<Longrightarrow> capacity_units d' = capacity_units d \<Longrightarrow> system_inv d'"
  by (simp add: system_inv_def units_ok_def)

lemma system_booking [simp]: "system_inv d \<Longrightarrow> booking_inv d"
  by (simp add: system_inv_def)

lemma order_ops_inv:
  assumes "system_inv d"
  shows "system_inv (fst (request_payment now i intent d))"
    and "system_inv (fst (apply_payment_result now intent ok d))"
    and "system_inv (fst (cancel now i d))"
    and "system_inv (fst (expire_order now i d))"
    and "system_inv (fst (refund now i d))"
  by (rule system_inv_frame [OF assms]; simp add: assms order_units request_payment_inv apply_payment_result_inv
      cancel_inv expire_order_inv refund_inv)+

lemma create_tx_system:
  "system_inv d \<Longrightarrow> \<forall>t\<in>set targets. valid_span (ct_span t) \<Longrightarrow> system_inv (fst (create_tx now new ord targets slots d))"
  by (rule system_inv_frame) (simp_all add: create_tx_inv create_tx_units)

lemma issue_system:
  assumes inv: "system_inv d"
  shows "system_inv (fst (issue_for_order w act now new oid d))"
proof (rule system_inv_frame [OF inv issue_inv])
  show "capacity_units (fst (issue_for_order w act now new oid d)) = capacity_units d"
    by (cases rule: issue_cases [OF booking_log [OF system_booking [OF inv]], of w act now new oid]) (auto simp: advance_def)
qed (simp add: inv)

lemma scan_system:
  assumes "system_inv d"
  shows "system_inv (fst (record_scan now tid dev at res d))"
proof (rule system_inv_frame [OF assms record_scan_inv])
  have "capacity_units (events_append i e p t (set_status t i s x)) = capacity_units x" for i e p t s x
    by (simp add: events_append_def set_status_def Let_def)
  then show "capacity_units (fst (record_scan now tid dev at res d)) = capacity_units d"
    unfolding record_scan_def by (simp add: Let_def split: option.split sum.split)
qed (simp add: assms)

lemma outbox_ok_mark:
  "outbox_ok d \<Longrightarrow> outbox_ok (d\<lparr>outbox := mark_delivered now ids (outbox d)\<rparr>)"
  by (auto simp: outbox_ok_def log_ok_def mark_delivered_def sql_simps)

lemma relay_system:
  assumes "system_inv d"
  shows "system_inv (fst (relay_once deliver now d))"
proof -
  obtain ids where run: "fst (relay_once deliver now d) = d\<lparr>outbox := mark_delivered now ids (outbox d)\<rparr>"
    unfolding relay_once_def relay_loop_eq by (simp add: Let_def)
  have b: "claims_inv d" "log_inv d" "outbox_ok d"
    using assms by (simp_all add: system_inv_def booking_inv_def log_inv_def)
  let ?d' = "d\<lparr>outbox := mark_delivered now ids (outbox d)\<rparr>"
  have "claims_inv ?d'" using b(1) claims_inv_cong [of ?d' d] by (simp add: order_view_def)
  moreover have "log_inv ?d'"
    using b(2) outbox_ok_mark [OF b(3)] replays_cong [of ?d' d] by (simp add: log_inv_def)
  ultimately show ?thesis using assms unfolding run by (intro system_inv_frame [OF assms]) (simp_all add: booking_inv_def)
qed

text \<open>A standalone claim takes inventory that no order accounts for.\<close>

lemma claim_seat_system:
  assumes inv: "system_inv d" and s: "valid_span s"
  shows "system_inv (fst (claim_seat t u s d))"
proof -
  have claims: "claims_inv d" and log: "log_inv d"
    using inv by (simp_all add: system_inv_def booking_inv_def)
  then have seats: "seats_ok d (seat_part (live_items d))" by (simp add: claims_inv_def)
  show ?thesis
  proof (rule claim_seat_exec_ok [OF seats s, of t u])
    assume "claim_seat_exec t u s d = (d, 0)"
    with inv show ?thesis by (simp add: claim_seat_def)
  next
    fix rows
    let ?d' = "d\<lparr>seat_occupancy := rows\<rparr>"
    assume run: "claim_seat_exec t u s d = (?d', 1)"
      and ok: "seats_ok ?d' ((seat_part (live_items d))((t, u) := add_mset s (seat_part (live_items d) (t, u))))"
      and keys: "map seat_key rows = map seat_key (seat_occupancy d)"
    have "seats_ok ?d' (seat_part (live_items d))"
      using ok unfolding seats_ok_def by (rule seat_ledger.ledger_forget)
    moreover have "seat_key ` set rows = seat_key ` set (seat_occupancy d)" using keys by (metis image_set)
    ultimately have "claims_inv ?d'"
      using claims by (simp add: claims_inv_def live_items_def live_def pools_ok_def pool_capacity_of_def [abs_def] item_backed_def)
    moreover have "log_inv ?d'" using log log_inv_cong [of ?d' d] by (simp add: order_view_def)
    ultimately show ?thesis
      using run by (intro system_inv_frame [OF inv]) (simp_all add: claim_seat_def booking_inv_def)
  qed
qed

lemma claim_pool_system:
  assumes inv: "system_inv d" and s: "valid_span s" and run: "claim_pool t u s q d = Inr (d', out)"
  shows "system_inv d'"
proof (cases "0 < q")
  case False
  with run inv show ?thesis by (simp add: claim_pool_def)
next
  case True
  have claims: "claims_inv d" and log: "log_inv d"
    using inv by (simp_all add: system_inv_def booking_inv_def)
  then have pools: "pools_ok d (pool_part (live_items d))" by (simp add: claims_inv_def)
  have v: "pool_claim_valid (s, q)" using s True by (simp add: pool_claim_valid_def)
  show ?thesis
  proof (rule claim_pool_exec_ok [OF pools v, of t u])
    assume "claim_pool_exec t u s q d = Inr (d, 0)"
    with run True inv show ?thesis by (auto simp: claim_pool_def split: if_splits)
  next
    fix rows
    let ?d' = "d\<lparr>pool_occupancy := rows\<rparr>"
    assume exec: "claim_pool_exec t u s q d = Inr (?d', 1)"
      and ok: "pools_ok ?d' ((pool_part (live_items d))((t, u) := add_mset (s, q) (pool_part (live_items d) (t, u))))"
      and keys: "map pool_key rows = map pool_key (pool_occupancy d)"
    have "pools_ok ?d' (pool_part (live_items d))"
      using ok unfolding pools_ok_def by (rule pool_ledger.ledger_forget)
    moreover have "pool_key ` set rows = pool_key ` set (pool_occupancy d)" using keys by (metis image_set)
    ultimately have "claims_inv ?d'"
      using claims by (simp add: claims_inv_def live_items_def live_def seats_ok_def item_backed_def)
    moreover have "log_inv ?d'" using log log_inv_cong [of ?d' d] by (simp add: order_view_def)
    ultimately show ?thesis
      using run True exec by (intro system_inv_frame [OF inv]) (auto simp: claim_pool_def booking_inv_def)
  qed
qed

section \<open>The sweepers\<close>

lemma expire_loop_system: "system_inv d \<Longrightarrow> system_inv (fst (expire_loop now ids d n))"
proof (induction ids arbitrary: d n)
  case (Cons i ids)
  obtain d' r where e: "expire_order now i d = (d', r)" by force
  from order_ops_inv(4) [OF Cons.prems, of now i] have "system_inv d'" by (simp add: e)
  with Cons.IH [of d'] show ?case by (simp add: e split: sum.split transition_outcome.split)
qed simp

lemma settle_order_system: "system_inv (fst st) \<Longrightarrow> system_inv (fst (settle_order ok now row st))"
proof -
  obtain d stats where st: "st = (d, stats)" by force
  assume "system_inv (fst st)"
  then have inv: "system_inv d" by (simp add: st)
  obtain d1 r1 d2 r2 where c: "cancel now (ord_id row) d = (d1, r1)" and r: "refund now (ord_id row) d = (d2, r2)" by force
  with order_ops_inv(3,5) [OF inv, of now "ord_id row"] have "system_inv d1" "system_inv d2" by simp_all
  with inv c r show ?thesis
    by (simp add: settle_order_def st Let_def split: sum.split transition_outcome.split)
qed

lemma settle_system:
  assumes "system_inv d"
  shows "system_inv (fst (settle_cancelled_trips ok now lim d))"
proof -
  have "system_inv (fst (fold (settle_order ok now) rows st))" if "system_inv (fst st)" for rows st
    using that by (induction rows arbitrary: st) (simp_all add: settle_order_system)
  from this [of "(d, _)"] assms show ?thesis
    by (simp add: settle_cancelled_trips_def Let_def split: prod.split) (metis fst_conv)
qed

lemma cancel_trip_system:
  assumes "system_inv d"
  shows "system_inv (fst (cancel_trip ok now t d))"
proof -
  have "system_inv (fst (settle_cancelled_trips ok now INLINE_CASCADE_LIMIT (d\<lparr>trips := x\<rparr>)))" for x
    by (rule settle_system) (simp add: assms)
  with assms show ?thesis by (simp add: cancel_trip_def Let_def case_prod_unfold)
qed

lemma refund_order_system: "system_inv d \<Longrightarrow> system_inv (fst (refund_order call now i d))"
proof -
  assume inv: "system_inv d"
  obtain d' r where e: "refund now i d = (d', r)" by force
  with order_ops_inv(5) [OF inv, of now i] have "system_inv d'" by simp
  with inv e show ?thesis
    by (simp add: refund_order_def Let_def split: option.split sum.split transition_outcome.split)
qed

section \<open>The state machine\<close>

text \<open>
  The write transaction of a booking runs on targets that were resolved before it opened, so it is a
  step of its own: anything may have happened since, a cancellation of the trip included.
\<close>

inductive sys_step :: "db \<Rightarrow> db \<Rightarrow> bool" where
  location: "sys_step d (fst (create_location i c n tz d))"
| route: "sys_step d (fst (create_route i c n stops d))"
| vessel: "sys_step d (fst (create_vessel new c n k seats pools d))"
| schedule: "sys_step d (fst (create_trips new rc vc op sn deps d))"
| trip_cancelled: "sys_step d (fst (cancel_trip ok now t d))"
| booked: "(\<And>tg. tg \<in> set targets \<Longrightarrow> \<exists>now0 d0 item. resolve_item now0 d0 item = Inr tg) \<Longrightarrow>
    sys_step d (fst (create_tx now new ord targets slots d))"
| claimed_seat: "resolve_target now0 t code orig dest d0 = Inr (Some tg) \<Longrightarrow>
    sys_step d (fst (claim_seat t (ct_unit_id tg) (ct_span tg) d))"
| claimed_pool: "resolve_target now0 t code orig dest d0 = Inr (Some tg) \<Longrightarrow>
    claim_pool t (ct_unit_id tg) (ct_span tg) q d = Inr (d', out) \<Longrightarrow> sys_step d d'"
| payment: "sys_step d (fst (request_payment now i intent d))"
| callback: "sys_step d (fst (apply_payment_result now intent succeeded d))"
| cancelled: "sys_step d (fst (cancel now i d))"
| refunded: "sys_step d (fst (refund_order call now i d))"
| ticketed: "sys_step d (fst (issue_for_order w act now new i d))"
| scanned: "sys_step d (fst (record_scan now tid dev at res d))"
| expiry: "sys_step d (fst (expire_order now i d))"
| settled: "sys_step d (fst (settle_order ok now row (d, stats)))"
| relayed: "sys_step d (fst (relay_once deliver now d))"

inductive reachable :: "db \<Rightarrow> bool" where
  empty: "reachable (empty_db\<lparr>operators := ops\<rparr>)"
| step: "reachable d \<Longrightarrow> sys_step d d' \<Longrightarrow> reachable d'"

lemma empty_db_inv: "system_inv (empty_db\<lparr>operators := ops\<rparr>)"
proof -
  let ?d = "empty_db\<lparr>operators := ops\<rparr>"
  have "claims_inv ?d"
    by (simp add: claims_inv_def live_items_def empty_db_def seats_ok_def pools_ok_def ledger_ok_def)
  moreover have "log_inv ?d"
    by (simp add: log_inv_def empty_db_def outbox_ok_def log_ok_def evlog.replays_def stream_types_def events_stream_def replay_def)
  ultimately show ?thesis by (simp add: system_inv_def booking_inv_def units_ok_def empty_db_def)
qed

lemma sys_step_inv: "sys_step d d' \<Longrightarrow> system_inv d \<Longrightarrow> system_inv d'"
proof (induction rule: sys_step.induct)
  case (booked targets d now new ord slots)
  from booked.hyps have "\<forall>tg\<in>set targets. valid_span (ct_span tg)" using resolve_item_valid by blast
  with booked.prems show ?case by (rule create_tx_system)
next
  case (claimed_seat now0 t code orig dest d0 tg d)
  show ?case
    by (rule claim_seat_system [OF claimed_seat.prems resolve_target_valid [OF claimed_seat.hyps]])
next
  case (claimed_pool now0 t code orig dest d0 tg q d d' out)
  show ?case
    by (rule claim_pool_system [OF claimed_pool.prems resolve_target_valid [OF claimed_pool.hyps(1)] claimed_pool.hyps(2)])
next
  case (settled d ok now row stats)
  then show ?case using settle_order_system [of "(d, stats)"] by simp
qed (simp_all add: create_location_inv create_route_inv create_vessel_inv create_trips_inv cancel_trip_system
    order_ops_inv refund_order_system issue_system scan_system relay_system)

lemma reachable_inv: "reachable d \<Longrightarrow> system_inv d"
  by (induction rule: reachable.induct) (auto intro: empty_db_inv sys_step_inv)

section \<open>What the system promises\<close>

lemma nth_pair_subseteq: "i < length xs \<Longrightarrow> j < length xs \<Longrightarrow> i \<noteq> j \<Longrightarrow> {#xs ! i, xs ! j#} \<subseteq># mset xs"
proof (induction xs arbitrary: i j)
  case (Cons x xs)
  show ?case
  proof (cases i; cases j)
    fix i' j' assume "i = Suc i'" "j = Suc j'"
    with Cons.IH [of i' j'] Cons.prems show ?thesis
      using subset_mset.order_trans [of "{#xs ! i', xs ! j'#}" "mset xs" "add_mset x (mset xs)"] by simp
  qed (use Cons.prems in \<open>auto simp: mset_subset_eq_single add_mset_commute\<close>)
qed simp

lemma seat_load_mono: "M \<subseteq># N \<Longrightarrow> seat_load M k \<le> seat_load N k"
  unfolding seat_load_def by (intro size_mset_mono multiset_filter_mono)

lemma live_seat_row:
  assumes inv: "system_inv d" and r: "r \<in> set (order_items d)" "oi_kind r = ''seat''"
  obtains so where "so \<in> set (seat_occupancy d)" "seat_key so = (oi_trip r, oi_unit r)"
    "seat_held so (seat_part (live_items d) (oi_trip r, oi_unit r))"
proof -
  have claims: "claims_inv d" using inv by (simp add: system_inv_def booking_inv_def)
  then have "item_backed d r" using r(1) by (simp add: claims_inv_def)
  then obtain so where "so \<in> set (seat_occupancy d)" "(oi_trip r, oi_unit r) = seat_key so"
    using r(2) by (auto simp: item_backed_def)
  with claims that show thesis by (auto simp: claims_inv_def seats_ok_def ledger_ok_def)
qed

text \<open>C1: Two different seat items of orders that still hold their inventory never share a segment of a
  seat, in any database the system can reach: no seat is sold twice.\<close>
theorem no_double_sell:
  assumes "reachable d" and ij: "i < length (order_items d)" "j < length (order_items d)" "i \<noteq> j"
    and a: "order_items d ! i = a" "oi_kind a = ''seat''" "live d (oi_order a)"
    and b: "order_items d ! j = b" "oi_kind b = ''seat''" "live d (oi_order b)"
    and same: "oi_trip a = oi_trip b" "oi_unit a = oi_unit b"
  shows "span_segments (item_span a) \<inter> span_segments (item_span b) = {}"
proof (rule ccontr)
  assume "span_segments (item_span a) \<inter> span_segments (item_span b) \<noteq> {}"
  then obtain k where k: "k \<in> span_segments (item_span a)" "k \<in> span_segments (item_span b)" by blast
  have "{#a, b#} \<subseteq># mset (order_items d)"
    using nth_pair_subseteq [OF ij] a(1) b(1) by simp
  then have "filter_mset (\<lambda>r. live d (oi_order r)) {#a, b#} \<subseteq># live_items d"
    unfolding live_items_def by (rule multiset_filter_mono)
  then have "{#a, b#} \<subseteq># live_items d" using a(3) b(3) by simp
  then have "filter_mset (\<lambda>r. oi_kind r = ''seat'' \<and> (oi_trip r, oi_unit r) = (oi_trip a, oi_unit a)) {#a, b#}
      \<subseteq># filter_mset (\<lambda>r. oi_kind r = ''seat'' \<and> (oi_trip r, oi_unit r) = (oi_trip a, oi_unit a)) (live_items d)"
    by (rule multiset_filter_mono)
  then have "{#item_span a, item_span b#} \<subseteq># seat_part (live_items d) (oi_trip a, oi_unit a)"
    unfolding seat_part_def using a(2) b(2) same by (auto dest!: image_mset_subseteq_mono [of _ _ item_span])
  from seat_load_mono [OF this, of k] k
  have two: "2 \<le> seat_load (seat_part (live_items d) (oi_trip a, oi_unit a)) k" by (simp add: seat_load_def)
  have "a \<in> set (order_items d)" using a(1) ij(1) by auto
  from live_seat_row [OF reachable_inv [OF assms(1)] this a(2)] obtain so
    where "seat_held so (seat_part (live_items d) (oi_trip a, oi_unit a))" .
  then have "seat_load (seat_part (live_items d) (oi_trip a, oi_unit a)) k \<le> (if bit (so_mask so) k then 1 else 0)"
    by (simp add: seat_held_def)
  with two show False by (simp split: if_splits)
qed

text \<open>C2: On every segment of every pool, the places left and the places of the orders that still hold them
  stay within the pool's capacity, and what is left is never negative: no pool is oversold.\<close>
theorem pools_never_oversold:
  assumes "reachable d" and r: "r \<in> set (pool_occupancy d)" and i: "i < length (pl_remaining r)"
  shows "\<exists>capacity. pool_capacity_of d (pl_unit r) = Some capacity \<and> 0 \<le> pl_remaining r ! i
    \<and> pl_remaining r ! i + sum_list (map oi_quantity (filter (\<lambda>oi. live d (oi_order oi) \<and> oi_kind oi \<noteq> ''seat''
         \<and> oi_trip oi = pl_trip r \<and> oi_unit oi = pl_unit r \<and> i \<in> span_segments (item_span oi)) (order_items d))) \<le> capacity"
proof -
  let ?Q = "\<lambda>oi. live d (oi_order oi) \<and> oi_kind oi \<noteq> ''seat''
         \<and> oi_trip oi = pl_trip r \<and> oi_unit oi = pl_unit r"
  have sum: "(\<Sum>c\<in>#image_mset (\<lambda>x. (item_span x, oi_quantity x)) (mset ys). if i \<in> span_segments (fst c) then snd c else 0)
      = sum_list (map oi_quantity (filter (\<lambda>x. i \<in> span_segments (item_span x)) ys))" for ys
    by (induction ys) auto
  have "claims_inv d" using reachable_inv [OF assms(1)] by (simp add: system_inv_def booking_inv_def)
  then have "pool_held (pool_capacity_of d) r (pool_part (live_items d) (pool_key r))"
    using r by (simp add: claims_inv_def pools_ok_def ledger_ok_def)
  then obtain capacity where c: "pool_capacity_of d (pl_unit r) = Some capacity"
    "0 \<le> pl_remaining r ! i" "pl_remaining r ! i + pool_load (pool_part (live_items d) (pool_key r)) i \<le> capacity"
    using i unfolding pool_held_def by blast
  have "filter (\<lambda>x. oi_kind x \<noteq> ''seat'' \<and> (oi_trip x, oi_unit x) = pool_key r) (filter (\<lambda>x. live d (oi_order x)) (order_items d))
      = filter ?Q (order_items d)"
    unfolding filter_filter by (rule filter_cong) (auto simp: pool_key_def)
  then have "pool_part (live_items d) (pool_key r) = image_mset (\<lambda>x. (item_span x, oi_quantity x)) (mset (filter ?Q (order_items d)))"
    unfolding pool_part_def live_items_def mset_filter [symmetric] by (rule arg_cong)
  then have "pool_load (pool_part (live_items d) (pool_key r)) i
      = sum_list (map oi_quantity (filter (\<lambda>x. i \<in> span_segments (item_span x)) (filter ?Q (order_items d))))"
    by (simp only: pool_load_def sum)
  with c show ?thesis by (simp add: conj_ac)
qed

text \<open>C3: The status column of an order is what replaying its event stream gives, in every reachable database,
  and a stream nobody has an order for is empty.\<close>
theorem status_is_replayed_stream:
  assumes "reachable d"
  shows "list_all (\<lambda>r. case status_parse (ord_status r) of None \<Rightarrow> False
      | Some s \<Rightarrow> replay_status (ord_id r) d = Inr (Some s)) (orders d)
    \<and> (i \<notin> ord_id ` set (orders d) \<longrightarrow> replay_status i d = Inr None)"
proof (intro conjI impI)
  have log: "log_inv d" using reachable_inv [OF assms] by (simp add: system_inv_def booking_inv_def)
  then show "list_all (\<lambda>r. case status_parse (ord_status r) of None \<Rightarrow> False
      | Some s \<Rightarrow> replay_status (ord_id r) d = Inr (Some s)) (orders d)"
    by (fastforce simp: log_inv_def list_all_iff dest: replay_status_replays)
  show "replay_status i d = Inr None" if "i \<notin> ord_id ` set (orders d)"
    using log that by (auto simp: log_inv_def intro: replay_status_replays)
qed

section \<open>A run of the system\<close>

lemma reachable_create: "reachable d \<Longrightarrow> reachable (fst (create now new ord d))"
proof (cases rule: create_cases [of now new ord d])
  case (attempted targets slots)
  assume r: "reachable d"
  have "\<exists>now0 d0 item. resolve_item now0 d0 item = Inr tg" if "tg \<in> set targets" for tg
    using try_map_set [OF attempted(2) that] by blast
  then have "sys_step d (fst (create_tx now new ord targets slots d))" by (rule sys_step.booked)
  with r attempted(1) show ?thesis by (simp add: reachable.step)
qed simp

definition demo_network :: db where
  "demo_network =
    (let d1 = fst (create_location (Uuid 1) ''A'' ''Alpha'' ''UTC'' (empty_db\<lparr>operators := []\<rparr>));
         d2 = fst (create_location (Uuid 2) ''B'' ''Beta'' ''UTC'' d1);
         d3 = fst (create_location (Uuid 3) ''C'' ''Gamma'' ''UTC'' d2);
         stop = (\<lambda>c t. \<lparr>rq_location_code = c, rq_arrive_offset = t, rq_depart_offset = t\<rparr>);
         d4 = fst (create_route (Uuid 10) ''R'' ''Line'' [stop ''A'' 0, stop ''B'' 30, stop ''C'' 60] d3);
         d5 = fst (create_vessel (\<lambda>i. Uuid (of_nat (20 + i))) ''BUS1'' ''Coach'' ''bus''
                [\<lparr>ss_code = ''12A'', ss_fare_class = ''Y''\<rparr>] [\<lparr>ps_code = ''GA'', ps_capacity = 10, ps_admission = True\<rparr>] d4)
     in fst (create_trips (\<lambda>_. sample_trip_id) ''R'' ''BUS1'' None None [hours 1000] d5))"

definition demo_order :: "string \<Rightarrow> string \<Rightarrow> new_order" where
  "demo_order a b = sample_order\<lparr>no_items := [sample_seat_item\<lparr>ni_origin := a, ni_destination := b\<rparr>, sample_pool_item]\<rparr>"

definition demo_sold :: db where
  "demo_sold = fst (create 1 (\<lambda>i. Uuid (of_nat (2000 + i))) (demo_order ''B'' ''C'')
     (fst (create 0 sample_new (demo_order ''A'' ''B'') demo_network)))"

lemma demo_reachable: "reachable demo_network" "reachable demo_sold"
proof -
  show net: "reachable demo_network"
    unfolding demo_network_def Let_def
    by (rule reachable.step [OF _ sys_step.schedule], rule reachable.step [OF _ sys_step.vessel],
        rule reachable.step [OF _ sys_step.route], (rule reachable.step [OF _ sys_step.location])+, rule reachable.empty)
  show "reachable demo_sold"
    unfolding demo_sold_def by (intro reachable_create net)
qed

lemma demo_items:
  "map (\<lambda>oi. (oi_kind oi, oi_trip oi, oi_unit oi, oi_order oi)) (order_items demo_sold)
   = [(''seat'', Uuid 100, Uuid 21, Uuid 1000), (''pool'', Uuid 100, Uuid 22, Uuid 1000),
      (''seat'', Uuid 100, Uuid 21, Uuid 2000), (''pool'', Uuid 100, Uuid 22, Uuid 2000)]"
  by code_simp

theorem no_double_sell_witness:
  "span_segments (item_span (order_items demo_sold ! 0)) \<inter> span_segments (item_span (order_items demo_sold ! 2)) = {}"
proof -
  obtain a b c e where items: "order_items demo_sold = [a, b, c, e]"
    and f: "oi_kind a = ''seat''" "oi_kind c = ''seat''" "oi_trip a = oi_trip c" "oi_unit a = oi_unit c"
      "oi_order a = Uuid 1000" "oi_order c = Uuid 2000"
    using demo_items by (auto simp: map_eq_Cons_conv)
  have "live demo_sold (Uuid 1000)" "live demo_sold (Uuid 2000)" by code_simp+
  with no_double_sell [OF demo_reachable(2), of 0 2 a c] items f show ?thesis by simp
qed

theorem pools_never_oversold_witness:
  "\<exists>capacity. pool_capacity_of demo_sold (pl_unit (hd (pool_occupancy demo_sold))) = Some capacity
    \<and> 0 \<le> pl_remaining (hd (pool_occupancy demo_sold)) ! 0"
proof -
  have "hd (pool_occupancy demo_sold) \<in> set (pool_occupancy demo_sold)"
    "0 < length (pl_remaining (hd (pool_occupancy demo_sold)))" by code_simp+
  from pools_never_oversold [OF demo_reachable(2) this] show ?thesis by blast
qed

theorem status_is_replayed_stream_witness:
  "list_all (\<lambda>r. case status_parse (ord_status r) of None \<Rightarrow> False
      | Some s \<Rightarrow> replay_status (ord_id r) demo_sold = Inr (Some s)) (orders demo_sold)
   \<and> replay_status (Uuid 7) demo_sold = Inr None"
proof -
  have "Uuid 7 \<notin> ord_id ` set (orders demo_sold)" by code_simp
  with status_is_replayed_stream [OF demo_reachable(2)] show ?thesis by blast
qed

end
