(* ===== verification/Order_Properties.thy ===== *)
theory Order_Properties
  imports Booking_System
begin

text \<open>
  Behaviour of the order engine over several calls: repeated payment callbacks, the expiry sweep,
  the settlement of cancelled trips, the refund endpoint.
\<close>

section \<open>One order's row\<close>

text \<open>After a transition the row of the order is the old one with the new status.\<close>

lemma advance_row:
  assumes "distinct (map ord_id (orders d))" "r \<in> set (orders d)" "ord_id r = i"
  shows "List.find (\<lambda>r. ord_id r = i) (orders (advance now i e p s d))
    = Some (r\<lparr>ord_status := status_as_str s, ord_updated_at := now\<rparr>)"
proof -
  have "List.find (\<lambda>r. ord_id r = i) (orders d) = Some r"
    using find_distinct_key [OF assms(1,2)] assms(3) by simp
  then show ?thesis using assms(3) by (simp add: advance_orders set_status_def find_update_where)
qed

lemma apply_event_noop:
  assumes "List.find (\<lambda>r. ord_id r = i) (orders d) = Some r" "status_parse (ord_status r) = Some current"
    and "lifecycle_apply (Some current) e = Inl x"
  shows "apply_event_locked now i e p d = Inr (d, NoOp current)"
  using assms by (simp add: apply_event_locked_def)

section \<open>Payment callbacks\<close>

text \<open>Once a callback has captured an order, every later callback for the same intent, successful or
  failed, delivered late or twice, changes nothing and reports the order as paid.\<close>
theorem captured_ignores_callbacks:
  assumes inv: "booking_inv d" and run: "apply_payment_result now intent ok d = (d', Inr (Applied Paid))"
  shows "apply_payment_result now' intent ok' d' = (d', Inr (NoOp Paid))"
proof -
  obtain i where i: "find_by_intent intent d = Some i"
    using run by (cases "find_by_intent intent d") (auto simp: apply_payment_result_def)
  let ?e = "if ok then PaymentCaptured else PaymentFailed"
  have dist: "distinct (map ord_id (orders d))" using inv by (simp add: booking_inv_def log_inv_def)
  show ?thesis
  proof (cases rule: apply_event_cases [OF booking_log [OF inv], of now i ?e "IntentPayload intent"])
    case (1 out)
    with run i show ?thesis by (auto simp: apply_payment_result_def commit_def split: if_splits)
  next
    case (2 r current "next")
    let ?d1 = "advance now i ?e (IntentPayload intent) next d"
    let ?f = "\<lambda>r. r\<lparr>ord_expires_at := None, ord_updated_at := now\<rparr>"
    from run i 2(1) have nx: "next = Paid"
      and d': "d' = ?d1\<lparr>orders := update_where (\<lambda>r. ord_id r = i) ?f (orders ?d1)\<rparr>"
      by (auto simp: apply_payment_result_def commit_def split: if_splits)
    have row: "List.find (\<lambda>r. ord_id r = i) (orders d')
        = Some (?f (r\<lparr>ord_status := status_as_str Paid, ord_updated_at := now\<rparr>))"
      unfolding d' using advance_row [OF dist 2(2,3)] nx 2(3) by (simp add: find_update_where)
    have "find_by_intent intent d' = find_by_intent intent d"
      unfolding d' find_by_intent_def
      by (simp add: find_update_where advance_orders set_status_def option.map_comp comp_def if_distrib cong: if_cong)
    with i have "find_by_intent intent d' = Some i" by simp
    moreover have "apply_event_locked now' i e p d' = Inr (d', NoOp Paid)"
      if "e \<in> {PaymentCaptured, PaymentFailed}" for e p
      using that by (elim insertE emptyE; intro apply_event_noop [OF row]) (simp_all add: lifecycle_apply.simps)
    ultimately show ?thesis by (simp add: apply_payment_result_def commit_def)
  qed
qed

theorem captured_ignores_callbacks_witness:
  "apply_payment_result 9 ''pi_1'' False sample_paid = (sample_paid, Inr (NoOp Paid))"
proof -
  have "snd (apply_payment_result 2 ''pi_1'' True sample_pending) = Inr (Applied Paid)" by code_simp
  then have "apply_payment_result 2 ''pi_1'' True sample_pending = (sample_paid, Inr (Applied Paid))"
    by (simp add: sample_paid_def prod_eq_iff)
  from captured_ignores_callbacks [OF sample_inv(2) this] show ?thesis by blast
qed

section \<open>The expiry sweep\<close>

lemma due_iff: "i \<in> set (due_for_expiry now d) \<longleftrightarrow> (\<exists>r\<in>set (orders d). ord_id r = i
    \<and> List.member [''locked'', ''pending_payment''] (ord_status r)
    \<and> (case ord_expires_at r of None \<Rightarrow> False | Some e \<Rightarrow> e < now))"
  by (auto simp: due_for_expiry_def)

text \<open>Expiring a due order takes it, and nothing else, off the list.\<close>

lemma due_after_expiry:
  assumes dist: "distinct (map ord_id (orders d))"
    and rows: "orders d' = update_where (\<lambda>r. ord_id r = i) (\<lambda>r. r\<lparr>ord_status := ''expired'', ord_updated_at := now\<rparr>) (orders d)"
  shows "due_for_expiry now d' = filter (\<lambda>j. j \<noteq> i) (due_for_expiry now d)"
proof -
  have "map ord_id (filter P (update_where (\<lambda>r. ord_id r = i) f rs)) = filter (\<lambda>j. j \<noteq> i) (map ord_id (filter P rs))"
    if "\<And>r. \<not> P (f r)" for P f and rs :: "order_row list"
    using that by (induction rs) auto
  then show ?thesis unfolding due_for_expiry_def rows by simp
qed

lemma expire_order_due:
  assumes inv: "booking_inv d" and due: "i \<in> set (due_for_expiry now d)"
  obtains d' where "expire_order now i d = (d', Inr (Applied Expired))" "booking_inv d'"
    "due_for_expiry now d' = filter (\<lambda>j. j \<noteq> i) (due_for_expiry now d)"
proof -
  have dist: "distinct (map ord_id (orders d))" using inv by (simp add: booking_inv_def log_inv_def)
  from due obtain r where r: "r \<in> set (orders d)" "ord_id r = i"
    and st: "ord_status r = ''locked'' \<or> ord_status r = ''pending_payment''" by (auto simp: due_iff)
  have find: "List.find (\<lambda>r. ord_id r = i) (orders d) = Some r"
    using find_distinct_key [OF dist r(1)] r(2) by simp
  obtain current where cur: "status_parse (ord_status r) = Some current"
    and step: "lifecycle_apply (Some current) OrderExpired = Inr Expired"
    using st by (elim disjE) (auto simp: status_parse_def lifecycle_apply.simps)
  have ev: "apply_event_locked now i OrderExpired EmptyPayload d
      = Inr (advance now i OrderExpired EmptyPayload Expired d, Applied Expired)"
    using find cur step by (simp add: apply_event_locked_def advance_def)
  have "releases_inventory OrderExpired" by (simp add: releases_inventory_def)
  then obtain so po where
    rel: "release_order_items i (advance now i OrderExpired EmptyPayload Expired d)
      = Inr (advance now i OrderExpired EmptyPayload Expired d\<lparr>seat_occupancy := so, pool_occupancy := po\<rparr>)"
    and inv': "booking_inv (advance now i OrderExpired EmptyPayload Expired d\<lparr>seat_occupancy := so, pool_occupancy := po\<rparr>)"
    by (rule advance_release [OF inv r cur step])
  let ?d' = "advance now i OrderExpired EmptyPayload Expired d\<lparr>seat_occupancy := so, pool_occupancy := po\<rparr>"
  show thesis
  proof
    show "expire_order now i d = (?d', Inr (Applied Expired))" by (simp add: expire_order_def commit_def ev rel)
    show "booking_inv ?d'" by (rule inv')
    show "due_for_expiry now ?d' = filter (\<lambda>j. j \<noteq> i) (due_for_expiry now d)"
      by (rule due_after_expiry [OF dist]) (simp add: advance_orders set_status_def status_as_str_def)
  qed
qed

lemma expire_loop_all:
  "booking_inv d \<Longrightarrow> due_for_expiry now d = ids \<Longrightarrow> distinct ids \<Longrightarrow>
   snd (expire_loop now ids d n) = Inr (n + length ids) \<and> due_for_expiry now (fst (expire_loop now ids d n)) = []"
proof (induction ids arbitrary: d n)
  case (Cons i ids)
  from Cons.prems(2) have "i \<in> set (due_for_expiry now d)" by simp
  from expire_order_due [OF Cons.prems(1) this] obtain d' where
    d': "expire_order now i d = (d', Inr (Applied Expired))" "booking_inv d'"
    "due_for_expiry now d' = filter (\<lambda>j. j \<noteq> i) (due_for_expiry now d)" .
  from Cons.prems(2,3) d'(3) have "due_for_expiry now d' = ids" by (auto simp: filter_id_conv)
  from Cons.IH [OF d'(2) this] Cons.prems(3) d'(1) show ?case by simp
qed simp



section \<open>Settling cancelled trips\<close>

definition new_status :: "instant \<Rightarrow> uuid \<Rightarrow> order_status \<Rightarrow> order_row list \<Rightarrow> order_row list" where
  "new_status now i s = update_where (\<lambda>r. ord_id r = i) (\<lambda>r. r\<lparr>ord_status := status_as_str s, ord_updated_at := now\<rparr>)"

lemma release_ops_apply:
  assumes inv: "booking_inv d" and r: "r \<in> set (orders d)" and cur: "status_parse (ord_status r) = Some current"
  shows "lifecycle_apply (Some current) OrderCancelled = Inr Cancelled \<Longrightarrow>
      \<exists>d'. cancel now (ord_id r) d = (d', Inr (Applied Cancelled)) \<and> booking_inv d'
        \<and> orders d' = new_status now (ord_id r) Cancelled (orders d) \<and> order_items d' = order_items d \<and> trips d' = trips d"
    and "lifecycle_apply (Some current) OrderRefunded = Inr Refunded \<Longrightarrow>
      \<exists>d'. refund now (ord_id r) d = (d', Inr (Applied Refunded)) \<and> booking_inv d'
        \<and> orders d' = new_status now (ord_id r) Refunded (orders d) \<and> order_items d' = order_items d \<and> trips d' = trips d"
proof -
  have find: "List.find (\<lambda>x. ord_id x = ord_id r) (orders d) = Some r"
    using inv find_distinct_key [of ord_id "orders d" r] r by (simp add: booking_inv_def log_inv_def)
  let ?a = "\<lambda>e s. advance now (ord_id r) e EmptyPayload s d"
  have ev: "apply_event_locked now (ord_id r) e EmptyPayload d = Inr (?a e s, Applied s)"
    if "lifecycle_apply (Some current) e = Inr s" for e s
    using find cur that by (simp add: apply_event_locked_def advance_def)
  have rel: "\<exists>so po. release_order_items (ord_id r) (?a e s) = Inr (?a e s\<lparr>seat_occupancy := so, pool_occupancy := po\<rparr>)
      \<and> booking_inv (?a e s\<lparr>seat_occupancy := so, pool_occupancy := po\<rparr>)"
    if "lifecycle_apply (Some current) e = Inr s" "releases_inventory e" for e s
    using advance_release [OF inv r refl cur that] by metis
  have ord: "orders (?a e s) = new_status now (ord_id r) s (orders d)" for e s
    by (simp add: advance_orders set_status_def new_status_def)
  show "\<exists>d'. cancel now (ord_id r) d = (d', Inr (Applied Cancelled)) \<and> booking_inv d'
      \<and> orders d' = new_status now (ord_id r) Cancelled (orders d) \<and> order_items d' = order_items d \<and> trips d' = trips d"
    if h: "lifecycle_apply (Some current) OrderCancelled = Inr Cancelled"
  proof -
    obtain so po where x: "release_order_items (ord_id r) (?a OrderCancelled Cancelled)
        = Inr (?a OrderCancelled Cancelled\<lparr>seat_occupancy := so, pool_occupancy := po\<rparr>)"
      "booking_inv (?a OrderCancelled Cancelled\<lparr>seat_occupancy := so, pool_occupancy := po\<rparr>)"
      using rel [OF h] by (auto simp: releases_inventory_def)
    show ?thesis
      by (rule exI [of _ "?a OrderCancelled Cancelled\<lparr>seat_occupancy := so, pool_occupancy := po\<rparr>"])
        (simp add: cancel_def commit_def ev [OF h] x ord)
  qed
  show "\<exists>d'. refund now (ord_id r) d = (d', Inr (Applied Refunded)) \<and> booking_inv d'
      \<and> orders d' = new_status now (ord_id r) Refunded (orders d) \<and> order_items d' = order_items d \<and> trips d' = trips d"
    if h: "lifecycle_apply (Some current) OrderRefunded = Inr Refunded"
  proof -
    obtain so po where x: "release_order_items (ord_id r) (?a OrderRefunded Refunded)
        = Inr (?a OrderRefunded Refunded\<lparr>seat_occupancy := so, pool_occupancy := po\<rparr>)"
      "booking_inv (?a OrderRefunded Refunded\<lparr>seat_occupancy := so, pool_occupancy := po\<rparr>)"
      using rel [OF h] by (auto simp: releases_inventory_def)
    let ?d' = "?a OrderRefunded Refunded\<lparr>seat_occupancy := so, pool_occupancy := po,
        tickets := update_where (\<lambda>t. tk_order t = ord_id r) (\<lambda>t. t\<lparr>tk_status := ''void''\<rparr>) (tickets d)\<rparr>"
    show ?thesis
      by (rule exI [of _ ?d']) (simp add: refund_def commit_def ev [OF h] x ord)
  qed
qed

lemma awaiting_after:
  assumes "orders d' = new_status now i s (orders d)" "order_items d' = order_items d" "trips d' = trips d"
    and "s \<in> {Cancelled, Refunded}"
  shows "awaiting_settlement d' = filter (\<lambda>r. ord_id r \<noteq> i) (awaiting_settlement d)"
proof -
  have "filter Q (update_where (\<lambda>r. ord_id r = i) f rs) = filter (\<lambda>r. ord_id r \<noteq> i) (filter Q rs)"
    if "\<And>r. \<not> Q (f r)" for Q f and rs :: "order_row list"
    using that by (induction rs) auto
  then show ?thesis
    unfolding awaiting_settlement_def assms(1-3) new_status_def filter_sort
    using assms(4) by (auto simp: status_as_str_def)
qed

lemma settle_order_applies:
  assumes inv: "booking_inv d" and r: "r \<in> set (awaiting_settlement d)"
    and ok: "case ord_payment_intent r of None \<Rightarrow> True | Some intent \<Rightarrow> refund_ok intent (ord_total_minor r)"
  obtains d' stats' where "settle_order refund_ok now r (d, stats) = (d', stats')" "cs_failed stats' = cs_failed stats"
    "booking_inv d'" "awaiting_settlement d' = filter (\<lambda>x. ord_id x \<noteq> ord_id r) (awaiting_settlement d)"
proof -
  have in_orders: "r \<in> set (orders d)"
    and st: "ord_status r \<in> {''locked'', ''pending_payment'', ''paid'', ''ticketed''}"
    using r by (auto simp: awaiting_settlement_def)
  obtain current where cur: "status_parse (ord_status r) = Some current"
    using inv in_orders unfolding booking_inv_def log_inv_def by blast
  show thesis
  proof (cases "ord_status r \<in> {''locked'', ''pending_payment''}")
    case True
    then have "current = Locked \<or> current = PendingPayment" using cur by (auto simp: status_parse_def)
    then have "lifecycle_apply (Some current) OrderCancelled = Inr Cancelled" by (auto simp: lifecycle_apply.simps)
    from release_ops_apply(1) [OF inv in_orders cur this, of now] obtain d' where
      d': "cancel now (ord_id r) d = (d', Inr (Applied Cancelled))" "booking_inv d'"
      "orders d' = new_status now (ord_id r) Cancelled (orders d)" "order_items d' = order_items d" "trips d' = trips d"
      by blast
    show thesis
      by (rule that [of d' "stats\<lparr>cs_cancelled := cs_cancelled stats + 1\<rparr>"])
        (use True d' awaiting_after [OF d'(3-5)] in \<open>auto simp: settle_order_def Let_def\<close>)
  next
    case False
    with st cur have "current = Paid \<or> current = Ticketed" by (auto simp: status_parse_def)
    then have "lifecycle_apply (Some current) OrderRefunded = Inr Refunded" by (auto simp: lifecycle_apply.simps)
    from release_ops_apply(2) [OF inv in_orders cur this, of now] obtain d' where
      d': "refund now (ord_id r) d = (d', Inr (Applied Refunded))" "booking_inv d'"
      "orders d' = new_status now (ord_id r) Refunded (orders d)" "order_items d' = order_items d" "trips d' = trips d"
      by blast
    show thesis
      by (rule that [of d' "stats\<lparr>cs_refunded := cs_refunded stats + 1\<rparr>"])
        (use False ok d' awaiting_after [OF d'(3-5)] in \<open>auto simp: settle_order_def Let_def split: option.splits\<close>)
  qed
qed

lemma settle_fold_all:
  "booking_inv d \<Longrightarrow> awaiting_settlement d = rows \<Longrightarrow> distinct (map ord_id rows) \<Longrightarrow>
   list_all (\<lambda>r. case ord_payment_intent r of None \<Rightarrow> True | Some intent \<Rightarrow> refund_ok intent (ord_total_minor r)) rows \<Longrightarrow>
   awaiting_settlement (fst (fold (settle_order refund_ok now) rows (d, stats))) = []
   \<and> cs_failed (snd (fold (settle_order refund_ok now) rows (d, stats))) = cs_failed stats"
proof (induction rows arbitrary: d stats)
  case (Cons r rows)
  have r: "r \<in> set (awaiting_settlement d)" using Cons.prems(2) by simp
  have ok: "case ord_payment_intent r of None \<Rightarrow> True | Some intent \<Rightarrow> refund_ok intent (ord_total_minor r)"
    using Cons.prems(4) by simp
  obtain d' stats' where d': "settle_order refund_ok now r (d, stats) = (d', stats')" "cs_failed stats' = cs_failed stats"
    "booking_inv d'" "awaiting_settlement d' = filter (\<lambda>x. ord_id x \<noteq> ord_id r) (awaiting_settlement d)"
    by (rule settle_order_applies [where refund_ok = refund_ok, OF Cons.prems(1) r ok])
  have "awaiting_settlement d' = rows"
    using d'(4) Cons.prems(2,3) by (auto simp: filter_id_conv image_iff)
  from Cons.IH [OF d'(3) this] Cons.prems(3,4) d'(1,2) show ?case by simp
qed simp


text \<open>Orders whose refund the provider refuses stay at the head of the settlement's list: when they fill a
  pass, the pass changes nothing, however many orders wait behind them, and so does every later pass.\<close>
theorem settle_starves:
  assumes stuck: "list_all (\<lambda>r. List.member [''paid'', ''ticketed''] (ord_status r)
      \<and> (case ord_payment_intent r of None \<Rightarrow> False | Some intent \<Rightarrow> \<not> refund_ok intent (ord_total_minor r)))
      (take lim (awaiting_settlement d))"
  shows "settle_cancelled_trips refund_ok now lim d = (d, \<lparr>cs_cancelled = 0, cs_refunded = 0,
    cs_failed = length (take lim (awaiting_settlement d)), cs_remaining = length (awaiting_settlement d)\<rparr>)"
proof -
  have "fold (settle_order refund_ok now) rows (d, stats) = (d, stats\<lparr>cs_failed := cs_failed stats + length rows\<rparr>)"
    if "list_all (\<lambda>r. List.member [''paid'', ''ticketed''] (ord_status r)
      \<and> (case ord_payment_intent r of None \<Rightarrow> False | Some intent \<Rightarrow> \<not> refund_ok intent (ord_total_minor r))) rows"
    for rows stats
    using that
  proof (induction rows arbitrary: stats)
    case (Cons r rows)
    then have "settle_order refund_ok now r (d, stats) = (d, stats\<lparr>cs_failed := cs_failed stats + 1\<rparr>)"
      by (auto simp: settle_order_def Let_def split: option.splits)
    with Cons show ?case by simp
  qed simp
  from this [OF stuck] show ?thesis by (simp add: settle_cancelled_trips_def)
qed

definition sample_trip_cancelled :: db where
  "sample_trip_cancelled = sample_paid\<lparr>trips := map (\<lambda>t. t\<lparr>tr_status := ''cancelled''\<rparr>) (trips sample_paid)\<rparr>"


theorem settle_starves_witness:
  "settle_cancelled_trips (\<lambda>_ _. False) 5 1 sample_trip_cancelled
   = (sample_trip_cancelled, \<lparr>cs_cancelled = 0, cs_refunded = 0, cs_failed = 1, cs_remaining = 1\<rparr>)"
proof -
  have "list_all (\<lambda>r. List.member [''paid'', ''ticketed''] (ord_status r)
      \<and> (case ord_payment_intent r of None \<Rightarrow> False | Some intent \<Rightarrow> \<not> (\<lambda>_ _. False) intent (ord_total_minor r)))
      (take 1 (awaiting_settlement sample_trip_cancelled))" by code_simp
  moreover have "length (awaiting_settlement sample_trip_cancelled) = 1" by code_simp
  ultimately show ?thesis using settle_starves [of "\<lambda>_ _. False" 1 sample_trip_cancelled 5] by simp
qed

section \<open>The refund endpoint\<close>

text \<open>The refund endpoint asks the provider for the money before it looks at the order: an order
  that is refunded already is refunded by the provider again, and only then refused.\<close>
theorem refund_pays_again:
  assumes row: "List.find (\<lambda>r. ord_id r = i) (orders d) = Some r" "ord_status r = ''refunded''"
    "ord_payment_intent r = Some intent" and accepts: "refund_call intent (ord_total_minor r) = None"
  shows "refund_order refund_call now i d = (d, Inl ApiConflict, [(intent, ord_total_minor r)])"
proof -
  have "apply_event_locked now i OrderRefunded EmptyPayload d = Inr (d, NoOp Refunded)"
    by (rule apply_event_noop [OF row(1)]) (simp_all add: row(2) status_parse_def lifecycle_apply.simps)
  then have "refund now i d = (d, Inr (NoOp Refunded))" by (simp add: refund_def commit_def)
  with row accepts show ?thesis by (simp add: refund_order_def)
qed

theorem refund_pays_again_witness:
  "snd (refund_order (\<lambda>_ _. None) 7 sample_order_id (fst (refund_order (\<lambda>_ _. None) 6 sample_order_id sample_paid)))
   = (Inl ApiConflict, [(''pi_1'', 2300)])"
proof -
  let ?d = "fst (refund_order (\<lambda>_ _. None) 6 sample_order_id sample_paid)"
  have "map (\<lambda>r. (ord_id r, ord_status r, ord_payment_intent r, ord_total_minor r)) (orders ?d)
      = [(sample_order_id, ''refunded'', Some ''pi_1'', 2300)]" by code_simp
  then obtain r where "orders ?d = [r]" "ord_id r = sample_order_id" "ord_status r = ''refunded''"
    "ord_payment_intent r = Some ''pi_1''" "ord_total_minor r = 2300" by (auto simp: map_eq_Cons_conv)
  with refund_pays_again [of sample_order_id ?d r "''pi_1''" "\<lambda>_ _. None" 7] show ?thesis by simp
qed

end
