(* ===== verification/Create_Cancel.thy ===== *)
theory Create_Cancel
  imports Order_Properties
begin

text \<open>
  Creating an order is all or nothing, and cancelling it gives back exactly what it took. The claims of
  an order are a batch on each occupancy table, and both tables are reversible ledgers.
\<close>

section \<open>Both tables can be undone\<close>

interpretation seat_undo:
  reversible_ledger seat_key seat_claim_row seat_release_row seat_held valid_span "\<lambda>_. True"
proof
  fix c r r' assume "valid_span c" and claim: "seat_claim_row c r = Some r'"
  then have free: "so_mask r AND span_mask c = 0" and r': "r' = r\<lparr>so_mask := so_mask r OR span_mask c\<rparr>"
    by (simp_all add: seat_claim_row_def split: if_splits)
  have "(so_mask r OR span_mask c) AND span_mask c = span_mask c"
    by (rule bit_eqI) (auto simp: bit_and_iff bit_or_iff)
  moreover have "(so_mask r OR span_mask c) AND NOT (span_mask c) = so_mask r"
    using free by (intro bit_eqI) (auto simp: bit_and_iff bit_or_iff bit_not_iff bit_eq_iff)
  ultimately show "seat_release_row c r' = Some r" by (simp add: seat_release_row_def r')
qed

definition pool_full :: "(uuid \<Rightarrow> int option) \<Rightarrow> pool_occupancy_row \<Rightarrow> bool" where
  "pool_full capacity r \<longleftrightarrow> (\<exists>cap. capacity (pl_unit r) = Some cap \<and> (\<forall>x\<in>set (pl_remaining r). x \<le> cap))"

lemma pool_held_full:
  assumes held: "pool_held capacity r M"
  shows "pool_full capacity r"
proof -
  from held obtain cap where cap: "capacity (pl_unit r) = Some cap"
    and le: "\<And>i. i < length (pl_remaining r) \<Longrightarrow> pl_remaining r ! i + pool_load M i \<le> cap"
    unfolding pool_held_def by blast
  have "x \<le> cap" if "x \<in> set (pl_remaining r)" for x
  proof -
    obtain i where i: "i < length (pl_remaining r)" "x = pl_remaining r ! i" using \<open>x \<in> _\<close> by (auto simp: in_set_conv_nth)
    have "0 \<le> pool_load M i"
      using held by (intro pool_load_nonneg) (auto simp: pool_held_def pool_claim_valid_def intro: less_imp_le)
    with le [OF i(1)] i(2) show ?thesis by linarith
  qed
  with cap show ?thesis unfolding pool_full_def by blast
qed

lemma pool_rewrite_inverse: "pool_rewrite s q (pool_rewrite s (- q) xs) = xs"
  by (rule nth_equalityI) simp_all

interpretation pool_undo:
  reversible_ledger pool_key pool_claim_row "pool_release_row capacity" "pool_held capacity" pool_claim_valid "pool_full capacity"
  for capacity
proof
  fix c r r' assume full: "pool_full capacity r" and v: "pool_claim_valid c" and claim: "pool_claim_row c r = Some r'"
  obtain s q where c: "c = (s, q)" by force
  from v have s: "valid_span s" by (simp add: c pool_claim_valid_def)
  from claim have r': "unat (span_from s) < length (pl_remaining r)"
    "r' = r\<lparr>pl_remaining := pool_rewrite s (- q) (pl_remaining r)\<rparr>"
    by (simp_all add: c pool_claim_row_Some [OF s])
  from full obtain cap where cap: "capacity (pl_unit r) = Some cap" "\<forall>x\<in>set (pl_remaining r). x \<le> cap"
    unfolding pool_full_def by blast
  have "pool_release_row capacity (s, q) r' = Some (r'\<lparr>pl_remaining := pool_rewrite s q (pl_remaining r')\<rparr>)"
    using cap r' by (subst pool_release_row_Some [OF s, where cap = cap]) auto
  then show "pool_release_row capacity c r' = Some r" by (simp add: c r'(2) pool_rewrite_inverse)
qed

section \<open>An order's claims are batches\<close>

definition seat_batch :: "order_item_row list \<Rightarrow> ((uuid \<times> uuid) \<times> segment_span) list" where
  "seat_batch rows = map (\<lambda>r. ((oi_trip r, oi_unit r), item_span r)) (filter (\<lambda>r. oi_kind r = ''seat'') rows)"

definition pool_batch :: "order_item_row list \<Rightarrow> ((uuid \<times> uuid) \<times> pool_claim) list" where
  "pool_batch rows = map (\<lambda>r. ((oi_trip r, oi_unit r), (item_span r, oi_quantity r))) (filter (\<lambda>r. oi_kind r \<noteq> ''seat'') rows)"

lemma batch_list_simps [simp]:
  "seat_batch [] = []" "pool_batch [] = []"
  "seat_batch (r # rows) = (if oi_kind r = ''seat'' then [((oi_trip r, oi_unit r), item_span r)] else []) @ seat_batch rows"
  "pool_batch (r # rows) = (if oi_kind r = ''seat'' then [] else [((oi_trip r, oi_unit r), (item_span r, oi_quantity r))]) @ pool_batch rows"
  by (simp_all add: seat_batch_def pool_batch_def)

text \<open>What a batch needs of a table: distinct keys, and every claim of it possible on the row of its key.\<close>

definition hits :: "('r \<Rightarrow> 'k) \<Rightarrow> ('c \<Rightarrow> 'r \<Rightarrow> 'r option) \<Rightarrow> ('k \<times> 'c) list \<Rightarrow> 'r list \<Rightarrow> bool" where
  "hits key f kcs rows \<longleftrightarrow> (\<forall>(k, c)\<in>set kcs. \<forall>r\<in>set rows. key r = k \<longrightarrow> f c r \<noteq> None)"

lemma hits_Nil [simp]: "hits key f [] rows"
  by (simp add: hits_def)

lemma hits_Cons: "hits key f [kc] rows \<Longrightarrow> hits key f kcs rows \<Longrightarrow> hits key f (kc # kcs) rows"
  by (auto simp: hits_def)

lemma one_row_hits:
  assumes "distinct (map key rows)" and "snd (guarded_update (\<lambda>r. key r = k) (f c) rows) = 1"
  shows "hits key f [(k, c)] rows"
  using guarded_update_hit(1) [OF assms(1), of _ k "f c"] assms(2) by (fastforce simp: hits_def split: if_splits)

lemma hits_back:
  assumes "hits key f kcs (fst (guarded_update (\<lambda>r. key r = k) g rows))" and "k \<notin> fst ` set kcs"
  shows "hits key f kcs rows"
proof -
  have "f c r \<noteq> None" if kc: "(k', c) \<in> set kcs" and r: "r \<in> set rows" "key r = k'" for k' c r
  proof -
    have "key r \<noteq> k" using assms(2) kc r(2) by force
    then have "r \<in> set (fst (guarded_update (\<lambda>r. key r = k) g rows))" using r(1) by (force simp: guarded_update_def)
    with assms(1) kc r(2) show ?thesis by (fastforce simp: hits_def)
  qed
  then show ?thesis by (auto simp: hits_def)
qed

definition built_rows :: "uuid \<Rightarrow> (nat \<Rightarrow> uuid) \<Rightarrow> (new_order_item \<times> claim_target \<times> nat option) list \<Rightarrow> order_item_row list" where
  "built_rows i pax items = map (\<lambda>(item, target, slot). item_row i item target (map_option pax slot)) items"

lemma built_rows_simps [simp]:
  "built_rows i pax [] = []"
  "built_rows i pax ((item, target, slot) # items) = item_row i item target (map_option pax slot) # built_rows i pax items"
  by (simp_all add: built_rows_def)

lemma item_row_trip [simp]: "oi_trip (item_row i item target p) = ni_trip_id item"
  "oi_unit (item_row i item target p) = ct_unit_id target" "oi_quantity (item_row i item target p) = max (ni_quantity item) 1"
  by (simp_all add: item_row_def)

lemma claim_item_effect:
  assumes "claim_item item target d = Inr (d1, 1)"
  shows "if ct_kind target = ''seat''
    then d1 = d\<lparr>seat_occupancy := fst (guarded_update (\<lambda>r. seat_key r = (ni_trip_id item, ct_unit_id target))
           (seat_claim_row (ct_span target)) (seat_occupancy d))\<rparr>
      \<and> snd (guarded_update (\<lambda>r. seat_key r = (ni_trip_id item, ct_unit_id target))
           (seat_claim_row (ct_span target)) (seat_occupancy d)) = 1
    else 0 < ni_quantity item
      \<and> d1 = d\<lparr>pool_occupancy := fst (guarded_update (\<lambda>r. pool_key r = (ni_trip_id item, ct_unit_id target))
           (pool_claim_row (ct_span target, ni_quantity item)) (pool_occupancy d))\<rparr>
      \<and> snd (guarded_update (\<lambda>r. pool_key r = (ni_trip_id item, ct_unit_id target))
           (pool_claim_row (ct_span target, ni_quantity item)) (pool_occupancy d)) = 1"
  using assms
  by (auto simp: claim_item_def claim_seat_exec_def claim_pool_exec_def pool_update_def split: if_splits prod.splits)

lemma claim_items_batch:
  assumes "claim_items i pax items d = Inr (d', rec)"
    and "distinct (map seat_key (seat_occupancy d))" "distinct (map pool_key (pool_occupancy d))"
  shows "order_items d' = order_items d @ built_rows i pax items
    \<and> distinct (map item_key (built_rows i pax items)) \<and> item_key ` set (built_rows i pax items) \<inter> item_key ` set (order_items d) = {}
    \<and> seat_occupancy d' = batch seat_key seat_claim_row (seat_batch (built_rows i pax items)) (seat_occupancy d)
    \<and> pool_occupancy d' = batch pool_key pool_claim_row (pool_batch (built_rows i pax items)) (pool_occupancy d)
    \<and> hits seat_key seat_claim_row (seat_batch (built_rows i pax items)) (seat_occupancy d)
    \<and> hits pool_key pool_claim_row (pool_batch (built_rows i pax items)) (pool_occupancy d)
    \<and> (\<forall>r\<in>set (built_rows i pax items). 0 < oi_quantity r)
    \<and> rec = map (\<lambda>(item, target, slot). recorded_item item target (map_option pax slot)) items"
  using assms
proof (induction items arbitrary: d rec)
  case Nil
  then show ?case by simp
next
  case (Cons x items)
  obtain item target slot where x: "x = (item, target, slot)" by (metis prod_cases3)
  let ?row = "item_row i item target (map_option pax slot)" and ?rows = "built_rows i pax items"
  let ?k = "(ni_trip_id item, ct_unit_id target)"
  from Cons.prems(1) obtain d1 rec' where run: "claim_item item target d = Inr (d1, 1)"
    and new: "item_key ?row \<notin> item_key ` set (order_items d1)"
    and rest: "claim_items i pax items (d1\<lparr>order_items := order_items d1 @ [?row]\<rparr>) = Inr (d', rec')"
    and rec: "rec = recorded_item item target (map_option pax slot) # rec'"
    by (auto simp: x Let_def split: sum.splits if_splits option.splits)
  note eff = claim_item_effect [OF run]
  have items: "order_items d1 = order_items d" using eff by (auto split: if_splits)
  have keys: "map seat_key (seat_occupancy d1) = map seat_key (seat_occupancy d)"
    "map pool_key (pool_occupancy d1) = map pool_key (pool_occupancy d)"
    using eff guarded_update_keys [of "seat_claim_row (ct_span target)" seat_key, OF seat_ledger.key_claim]
      guarded_update_keys [of "pool_claim_row (ct_span target, ni_quantity item)" pool_key, OF pool_ledger.key_claim]
    by (auto split: if_splits)
  note ih = Cons.IH [OF rest]
  have ih: "order_items d' = (order_items d1 @ [?row]) @ ?rows" "distinct (map item_key ?rows)"
    "item_key ` set ?rows \<inter> item_key ` set (order_items d1 @ [?row]) = {}"
    "seat_occupancy d' = batch seat_key seat_claim_row (seat_batch ?rows) (seat_occupancy d1)"
    "pool_occupancy d' = batch pool_key pool_claim_row (pool_batch ?rows) (pool_occupancy d1)"
    "hits seat_key seat_claim_row (seat_batch ?rows) (seat_occupancy d1)"
    "hits pool_key pool_claim_row (pool_batch ?rows) (pool_occupancy d1)"
    "\<forall>r\<in>set ?rows. 0 < oi_quantity r"
    "rec' = map (\<lambda>(item, target, slot). recorded_item item target (map_option pax slot)) items"
    using ih Cons.prems(2,3) keys by simp_all
  have orders: "oi_order r = i" if "r \<in> set ?rows" for r using that by (auto simp: built_rows_def)
  have "?k \<notin> (\<lambda>r. (oi_trip r, oi_unit r)) ` set ?rows"
    using ih(3) orders by (auto simp: item_key_def image_iff)
  then have other: "?k \<notin> fst ` set (seat_batch ?rows)" "?k \<notin> fst ` set (pool_batch ?rows)"
    by (auto simp: seat_batch_def pool_batch_def)
  have built: "built_rows i pax (x # items) = ?row # ?rows" by (simp add: x)
  have c1: "order_items d' = order_items d @ ?row # ?rows" using ih(1) items by simp
  have fresh: "item_key ?row \<notin> item_key ` set ?rows" and apart: "item_key ` set ?rows \<inter> item_key ` set (order_items d) = {}"
    using ih(3) by (auto simp: items)
  have c2: "distinct (map item_key (?row # ?rows))" using fresh ih(2) by simp
  have c3: "item_key ` set (?row # ?rows) \<inter> item_key ` set (order_items d) = {}" using apart new items by simp
  have c9: "rec = map (\<lambda>(item, target, slot). recorded_item item target (map_option pax slot)) (x # items)"
    by (simp add: rec ih(9) x)
  show ?case
  proof (cases "ct_kind target = ''seat''")
    case True
    with eff have d1: "d1 = d\<lparr>seat_occupancy := fst (guarded_update (\<lambda>r. seat_key r = ?k)
           (seat_claim_row (ct_span target)) (seat_occupancy d))\<rparr>"
      and one: "snd (guarded_update (\<lambda>r. seat_key r = ?k) (seat_claim_row (ct_span target)) (seat_occupancy d)) = 1"
      by simp_all
    have "hits seat_key seat_claim_row (seat_batch ?rows) (seat_occupancy d)"
      by (rule hits_back [OF _ other(1)]) (use ih(6) in \<open>simp add: d1\<close>)
    moreover note one_row_hits [where f = seat_claim_row, OF Cons.prems(2) one]
    ultimately have h: "hits seat_key seat_claim_row (seat_batch (?row # ?rows)) (seat_occupancy d)"
      using True by (simp add: hits_Cons)
    have "seat_occupancy d' = batch seat_key seat_claim_row (seat_batch (?row # ?rows)) (seat_occupancy d)"
      "pool_occupancy d' = batch pool_key pool_claim_row (pool_batch (?row # ?rows)) (pool_occupancy d)"
      "hits pool_key pool_claim_row (pool_batch (?row # ?rows)) (pool_occupancy d)"
      using ih(4,5,7) True by (simp_all add: d1)
    moreover have "\<forall>r\<in>set (?row # ?rows). 0 < oi_quantity r" using ih(8) by simp
    ultimately show ?thesis unfolding built using c1 c2 c3 c9 h by simp
  next
    case False
    with eff have d1: "d1 = d\<lparr>pool_occupancy := fst (guarded_update (\<lambda>r. pool_key r = ?k)
           (pool_claim_row (ct_span target, ni_quantity item)) (pool_occupancy d))\<rparr>"
      and one: "snd (guarded_update (\<lambda>r. pool_key r = ?k) (pool_claim_row (ct_span target, ni_quantity item)) (pool_occupancy d)) = 1"
      and q: "0 < ni_quantity item"
      by simp_all
    have q1: "max (ni_quantity item) 1 = ni_quantity item" using q by simp
    have "hits pool_key pool_claim_row (pool_batch ?rows) (pool_occupancy d)"
      by (rule hits_back [OF _ other(2)]) (use ih(7) in \<open>simp add: d1\<close>)
    moreover note one_row_hits [where f = pool_claim_row, OF Cons.prems(3) one]
    ultimately have h: "hits pool_key pool_claim_row (pool_batch (?row # ?rows)) (pool_occupancy d)"
      using False by (simp add: q1 hits_Cons)
    have "seat_occupancy d' = batch seat_key seat_claim_row (seat_batch (?row # ?rows)) (seat_occupancy d)"
      "pool_occupancy d' = batch pool_key pool_claim_row (pool_batch (?row # ?rows)) (pool_occupancy d)"
      "hits seat_key seat_claim_row (seat_batch (?row # ?rows)) (seat_occupancy d)"
      using ih(4,5,6) False by (simp_all add: d1 q1)
    moreover have "\<forall>r\<in>set (?row # ?rows). 0 < oi_quantity r" using ih(8) by simp
    ultimately show ?thesis unfolding built using c1 c2 c3 c9 h by simp
  qed
qed

lemma release_items_batch:
  "release_items rows d = Inr d' \<Longrightarrow>
   seat_occupancy d' = batch seat_key seat_release_row (seat_batch rows) (seat_occupancy d)
   \<and> pool_occupancy d' = batch pool_key (pool_release_row (pool_capacity_of d)) (pool_batch rows) (pool_occupancy d)"
proof (induction rows arbitrary: d)
  case (Cons r rows)
  from Cons.prems obtain s d1 n where
    s: "span_new (as_u8 (oi_from_index r)) (as_u8 (oi_to_index r)) = Inr s"
    and step: "(if oi_kind r = ''seat'' then Inr (release_seat_exec (oi_trip r) (oi_unit r) s d)
       else map_err Db (release_pool_exec (oi_trip r) (oi_unit r) s (oi_quantity r) d)) = Inr (d1, n)"
    and rest: "release_items rows d1 = Inr d'" by auto
  have s: "s = item_span r" using s by (simp add: span_new_Inr item_span_def)
  have cap: "pool_capacity_of d1 = pool_capacity_of d"
    using step by (auto simp: pool_capacity_of_def fun_eq_iff split: if_splits dest: release_pool_units seat_exec_units)
  note ih = Cons.IH [OF rest, unfolded cap]
  show ?case
  proof (cases "oi_kind r = ''seat''")
    case True
    with step have "d1 = d\<lparr>seat_occupancy := fst (guarded_update (\<lambda>x. seat_key x = (oi_trip r, oi_unit r))
        (seat_release_row (item_span r)) (seat_occupancy d))\<rparr>"
      by (auto simp: release_seat_exec_def s case_prod_unfold Let_def)
    with ih True show ?thesis by simp
  next
    case False
    with step have "d1 = d\<lparr>pool_occupancy := fst (guarded_update (\<lambda>x. pool_key x = (oi_trip r, oi_unit r))
        (pool_release_row (pool_capacity_of d) (item_span r, oi_quantity r)) (pool_occupancy d))\<rparr>"
      by (auto simp: release_pool_exec_def pool_update_def s split: if_splits prod.splits)
    with ih False show ?thesis by simp
  qed
qed simp

lemma batch_keys:
  assumes "distinct (map item_key rows)" and "\<And>r. r \<in> set rows \<Longrightarrow> oi_order r = i"
  shows "distinct (map fst (seat_batch rows)) \<and> distinct (map fst (pool_batch rows))"
proof -
  have "inj_on (\<lambda>r. (oi_trip r, oi_unit r)) (set rows)" "distinct rows"
    using assms by (auto simp: distinct_map inj_on_def item_key_def)
  then show ?thesis
    by (auto simp: seat_batch_def pool_batch_def distinct_map comp_def intro: inj_on_subset)
qed

lemma hitsD: "hits key f kcs rows \<Longrightarrow> (k, c) \<in> set kcs \<Longrightarrow> r \<in> set rows \<Longrightarrow> key r = k \<Longrightarrow> f c r \<noteq> None"
  unfolding hits_def by blast

lemma batch_spans:
  "(\<And>r. r \<in> set rows \<Longrightarrow> valid_span (item_span r)) \<Longrightarrow> (k, c) \<in> set (seat_batch rows) \<Longrightarrow> valid_span c"
  "(\<And>r. r \<in> set rows \<Longrightarrow> valid_span (item_span r)) \<Longrightarrow> \<forall>r\<in>set rows. 0 < oi_quantity r \<Longrightarrow>
   (k, d) \<in> set (pool_batch rows) \<Longrightarrow> pool_claim_valid d"
  by (auto simp: seat_batch_def pool_batch_def pool_claim_valid_def)

section \<open>What a created order takes\<close>

text \<open>The rows an order adds, and the claims they record, against the database before.\<close>

definition taken :: "db \<Rightarrow> uuid \<Rightarrow> order_item_row list \<Rightarrow> db \<Rightarrow> bool" where
  "taken d i rows d' \<longleftrightarrow> order_items d' = order_items d @ rows \<and> capacity_units d' = capacity_units d
    \<and> distinct (map item_key rows) \<and> (\<forall>r\<in>set rows. oi_order r = i \<and> 0 < oi_quantity r \<and> valid_span (item_span r))
    \<and> (\<forall>r\<in>set (order_items d). oi_order r \<noteq> i)
    \<and> seat_occupancy d' = batch seat_key seat_claim_row (seat_batch rows) (seat_occupancy d)
    \<and> pool_occupancy d' = batch pool_key pool_claim_row (pool_batch rows) (pool_occupancy d)
    \<and> hits seat_key seat_claim_row (seat_batch rows) (seat_occupancy d)
    \<and> hits pool_key pool_claim_row (pool_batch rows) (pool_occupancy d)"

lemma order_inserted:
  assumes "insert_order now i ord t e d = Inr d'"
  obtains row where "d' = d\<lparr>orders := orders d @ [row]\<rparr>" "ord_id row = i" "ord_status row = ''locked''" "ord_total_minor row = t"
  using assms by (auto simp: insert_order_def status_as_str_def split: option.splits)

lemma unknown_order_items: "claims_inv d \<Longrightarrow> i \<notin> ord_id ` set (orders d) \<Longrightarrow> \<forall>r\<in>set (order_items d). oi_order r \<noteq> i"
  unfolding claims_inv_def item_backed_def by metis

lemma claims_taken:
  assumes claims: "claims_inv d" and new: "i \<notin> ord_id ` set (orders d)"
    and same: "order_items d0 = order_items d" "seat_occupancy d0 = seat_occupancy d" "pool_occupancy d0 = pool_occupancy d"
      "capacity_units d0 = capacity_units d"
    and run: "claim_items i pax items d0 = Inr (d1, rec)" and v: "\<forall>x\<in>set items. valid_span (ct_span (fst (snd x)))"
  shows "taken d i (built_rows i pax items) d1"
proof -
  have keys: "distinct (map seat_key (seat_occupancy d))" "distinct (map pool_key (pool_occupancy d))"
    using claims by (simp_all add: claims_inv_def seats_ok_def pools_ok_def ledger_ok_def)
  have "oi_order r = i \<and> valid_span (item_span r)" if "r \<in> set (built_rows i pax items)" for r
    using that v by (auto simp: built_rows_def)
  with claim_items_batch [OF run, unfolded same, OF keys] unknown_order_items [OF claims new] claim_items_units [OF run] same(4)
  show ?thesis unfolding taken_def by simp
qed

lemma create_effect:
  assumes inv: "booking_inv d" and run: "create now new ord d = (d1, Inr (Created rec))"
  obtains row rows where "booking_inv d1" "taken d (or_order_id rec) rows d1" "orders d1 = orders d @ [row]"
    "ord_id row = or_order_id rec" "ord_status row = ''locked''"
    "ord_total_minor row = order_total (no_items ord) (no_ancillaries ord)" "or_total_minor rec = ord_total_minor row"
    "map (\<lambda>r. (oi_order r, oi_trip r, oi_unit_code r, oi_price_minor r)) rows
      = map (\<lambda>i. (or_order_id rec, ni_trip_id i, ni_unit_code i, ni_price_minor i)) (no_items ord)"
    "map ev_type (events d1) = map ev_type (events d) @ [''order_created'', ''inventory_locked'']"
proof (cases rule: create_cases [of now new ord d])
  case (refused r)
  with run show thesis by auto
next
  case (attempted targets slots)
  have targets: "\<forall>t\<in>set targets. valid_span (ct_span t)"
    using try_map_set [OF attempted(2)] resolve_item_valid by blast
  have len: "length targets = length (no_items ord)" "length slots = length (no_items ord)"
    using try_map_length [OF attempted(2)] try_map_length [OF attempted(3)] by simp_all
  let ?items = "zip (no_items ord) (zip targets slots)" and ?pax = "\<lambda>i. new (1 + i)"
  show thesis
  proof (cases rule: create_tx_cases [of now new ord targets slots d])
    case (aborted r)
    with run attempted(1) show thesis by auto
  next
    case (created t d0 d0' e1 e1' ps recorded ls anc p1 p2 rec')
    have claims: "claims_inv d" using inv by (simp add: booking_inv_def)
    note o = insert_order_ok [OF claims created(1)] and p = insert_passengers_frame [OF created(2)]
      and a = insert_ancillaries_frame [OF created(4)]
    obtain row where row: "d0 = d\<lparr>orders := orders d @ [row]\<rparr>" "ord_id row = new 0" "ord_status row = ''locked''"
      "ord_total_minor row = t" by (rule order_inserted [OF created(1)])
    have vs: "\<forall>x\<in>set ?items. valid_span (ct_span (fst (snd x)))" using targets by (auto elim!: in_set_zipE)
    have taken: "taken d (new 0) (built_rows (new 0) ?pax ?items) e1"
      by (rule claims_taken [OF claims o(4) _ _ _ _ created(3) vs]) (use row(1) p in simp_all)
    have frame: "orders e1 = orders d0' \<and> events e1 = events d0'"
      using claim_items_ok [OF _ _ vs created(3)] o(1,2) p by (simp add: live_def)
    have d1: "d1 = events_append (new 0) (event_as_str InventoryLocked) p2 now
         (events_append (new 0) (event_as_str OrderCreated) p1 now e1')" and rec: "rec = rec'"
      using run attempted(1) created(5) by simp_all
    have "taken d (new 0) (built_rows (new 0) ?pax ?items) d1"
      using taken a by (simp add: taken_def d1 events_append_def Let_def)
    moreover have "orders d1 = orders d @ [row]" using d1 a frame p row(1) by (simp add: events_append_def Let_def)
    moreover have "map ev_type (events d1) = map ev_type (events d) @ [''order_created'', ''inventory_locked'']"
      using d1 a frame p o(5) by (simp add: events_append_def Let_def event_as_str_def)
    moreover have "map (\<lambda>r. (oi_order r, oi_trip r, oi_unit_code r, oi_price_minor r)) (built_rows (new 0) ?pax ?items)
        = map (\<lambda>i. (new 0, ni_trip_id i, ni_unit_code i, ni_price_minor i)) (no_items ord)"
      using len by (intro nth_equalityI) (simp_all add: built_rows_def item_row_def)
    ultimately show thesis
      using that [of "built_rows (new 0) ?pax ?items" row] create_inv [OF inv, of now new ord] run row(2-4) created(6,9,10) rec
      by simp
  qed
qed

section \<open>Creating is all or nothing\<close>


section \<open>Cancelling gives back what creating took\<close>

lemma undo_taken:
  assumes claims: "claims_inv d" and t: "taken d i rows d1"
    and rel: "release_items rows x = Inr d2" and x: "seat_occupancy x = seat_occupancy d1"
      "pool_occupancy x = pool_occupancy d1" "capacity_units x = capacity_units d1"
  shows "seat_occupancy d2 = seat_occupancy d \<and> pool_occupancy d2 = pool_occupancy d"
proof -
  have ck: "distinct (map item_key rows)" and mine: "\<And>r. r \<in> set rows \<Longrightarrow> oi_order r = i"
    and span: "\<And>r. r \<in> set rows \<Longrightarrow> valid_span (item_span r)" and cq: "\<forall>r\<in>set rows. 0 < oi_quantity r"
    and ch: "hits seat_key seat_claim_row (seat_batch rows) (seat_occupancy d)"
    and cp: "hits pool_key pool_claim_row (pool_batch rows) (pool_occupancy d)"
    using t by (simp_all add: taken_def)
  have cap: "pool_capacity_of x = pool_capacity_of d"
    using t x(3) by (simp add: pool_capacity_of_def fun_eq_iff taken_def)
  note keys = batch_keys [OF ck mine]
  have seats: "batch seat_key seat_release_row (seat_batch rows)
      (batch seat_key seat_claim_row (seat_batch rows) (seat_occupancy d)) = seat_occupancy d"
  proof (rule seat_undo.undo_batch [OF conjunct1 [OF keys]])
    fix k c r assume kc: "(k, c) \<in> set (seat_batch rows)" and r: "r \<in> set (seat_occupancy d)" "seat_key r = k"
    show "True \<and> valid_span c \<and> seat_claim_row c r \<noteq> None"
      using hitsD [OF ch kc r] batch_spans(1) [OF span kc] by simp
  qed
  have pools: "batch pool_key (pool_release_row (pool_capacity_of d)) (pool_batch rows)
      (batch pool_key pool_claim_row (pool_batch rows) (pool_occupancy d)) = pool_occupancy d"
  proof (rule pool_undo.undo_batch [OF conjunct2 [OF keys]])
    fix k c r assume kc: "(k, c) \<in> set (pool_batch rows)" and r: "r \<in> set (pool_occupancy d)" "pool_key r = k"
    have "pool_held (pool_capacity_of d) r (pool_part (live_items d) (pool_key r))"
      using claims r(1) by (simp add: claims_inv_def pools_ok_def ledger_ok_def)
    from pool_held_full [OF this] show "pool_full (pool_capacity_of d) r \<and> pool_claim_valid c \<and> pool_claim_row c r \<noteq> None"
      using hitsD [OF cp kc r] batch_spans(2) [OF span cq kc] by simp
  qed
  show ?thesis
    using release_items_batch [OF rel] t seats pools by (simp add: taken_def x cap)
qed

lemma cancel_releases:
  assumes "cancel now i d = (d2, Inr (Applied Cancelled))"
  obtains x where "release_items (filter (\<lambda>r. oi_order r = i) (order_items d)) x = Inr d2"
    "seat_occupancy x = seat_occupancy d" "pool_occupancy x = pool_occupancy d" "capacity_units x = capacity_units d"
proof (cases "apply_event_locked now i OrderCancelled EmptyPayload d")
  case (Inr y)
  obtain x out where y: "y = (x, out)" by force
  have "order_items x = order_items d" "seat_occupancy x = seat_occupancy d" "pool_occupancy x = pool_occupancy d"
    "capacity_units x = capacity_units d"
    using Inr y by (auto simp: apply_event_locked_def set_status_def events_append_def Let_def split: option.splits sum.splits)
  moreover have "release_order_items i x = Inr d2"
    using assms Inr y by (cases out) (auto simp: cancel_def commit_def split: sum.splits)
  ultimately show thesis using that [of x] by (simp add: release_order_items_def)
qed (use assms in \<open>simp add: cancel_def commit_def\<close>)

text \<open>C5: Cancelling an order right after it was created succeeds and restores every seat mask and every pool
  counter to what it was before the booking.\<close>
theorem cancel_undoes_create:
  assumes inv: "booking_inv d" and run: "create now new ord d = (d1, Inr (Created rec))"
  shows "\<exists>d2. cancel now' (or_order_id rec) d1 = (d2, Inr (Applied Cancelled))
    \<and> seat_occupancy d2 = seat_occupancy d \<and> pool_occupancy d2 = pool_occupancy d"
proof (rule create_effect [OF inv run])
  fix row rows assume inv1: "booking_inv d1" and t: "taken d (or_order_id rec) rows d1"
    and row: "orders d1 = orders d @ [row]" "ord_id row = or_order_id rec" "ord_status row = ''locked''"
  have "status_parse (ord_status row) = Some Locked" using row(3) by (simp add: status_parse_def)
  from release_ops_apply(1) [OF inv1 _ this, of now'] row(1,2) obtain d2 where
    d2: "cancel now' (or_order_id rec) d1 = (d2, Inr (Applied Cancelled))" by (auto simp: lifecycle_apply.simps)
  obtain x where x: "release_items (filter (\<lambda>r. oi_order r = or_order_id rec) (order_items d1)) x = Inr d2"
    "seat_occupancy x = seat_occupancy d1" "pool_occupancy x = pool_occupancy d1" "capacity_units x = capacity_units d1"
    by (rule cancel_releases [OF d2])
  have "filter (\<lambda>r. oi_order r = or_order_id rec) (order_items d1) = rows"
    using t by (auto simp: taken_def filter_id_conv filter_empty_conv)
  with x(1) have "release_items rows x = Inr d2" by simp
  from undo_taken [OF _ t this x(2-4)] inv d2 show ?thesis by (auto simp: booking_inv_def)
qed


theorem cancel_undoes_create_witness:
  "\<exists>d2. cancel 9 sample_order_id sample_locked = (d2, Inr (Applied Cancelled))
    \<and> seat_occupancy d2 = seat_occupancy sample_db \<and> pool_occupancy d2 = pool_occupancy sample_db"
proof -
  have "(case snd (create 0 sample_new sample_order sample_db) of Inr (Created rec) \<Rightarrow> or_order_id rec = sample_order_id | _ \<Rightarrow> False)"
    by code_simp
  then obtain rec where "snd (create 0 sample_new sample_order sample_db) = Inr (Created rec)" "or_order_id rec = sample_order_id"
    by (auto split: sum.splits create_outcome.splits)
  moreover from this(1) have "create 0 sample_new sample_order sample_db = (sample_locked, Inr (Created rec))"
    by (simp add: sample_locked_def prod_eq_iff)
  from cancel_undoes_create [OF sample_db_inv this] calculation(2) show ?thesis by simp
qed

end
