(* ===== verification/Texts.thy ===== *)
theory Texts
  imports Prelude
begin

unbundle bit_operations_syntax

text \<open>
  The standard library's functions on texts that several components share: printing and parsing
  decimal numbers, \<open>str::replace\<close>, \<open>str::split\<close>, letter case. A text is its UTF-8 bytes; only ASCII
  letters change case.
\<close>

section \<open>Decimal numbers\<close>

definition digit_char :: "nat \<Rightarrow> char" where
  "digit_char n = char_of (48 + n)"

fun nat_text :: "nat \<Rightarrow> string" where
  "nat_text n = (if n < 10 then [digit_char n] else nat_text (n div 10) @ [digit_char (n mod 10)])"

declare nat_text.simps [simp del]

definition int_text :: "int \<Rightarrow> string" where
  "int_text x = (if x < 0 then CHR ''-'' # nat_text (nat (- x)) else nat_text (nat x))"

fun digits_value :: "nat \<Rightarrow> string \<Rightarrow> nat option" where
  "digits_value acc [] = Some acc"
| "digits_value acc (c # cs) = (let n = of_char c :: nat in
     if 48 \<le> n \<and> n \<le> 57 then digits_value (acc * 10 + (n - 48)) cs else None)"

text \<open>\<open>parse::<u64>\<close> and \<open>parse::<i64>\<close>: an optional sign, at least one digit, in range.\<close>

definition parse_u64 :: "string \<Rightarrow> nat option" where
  "parse_u64 s = (let digits = (case s of c # cs \<Rightarrow> if c = CHR ''+'' then cs else s | [] \<Rightarrow> []) in
     if digits = [] then None
     else Option.bind (digits_value 0 digits) (\<lambda>n. if n < 2 ^ 64 then Some n else None))"

definition parse_i64 :: "string \<Rightarrow> int option" where
  "parse_i64 s =
    (let negative = (case s of c # _ \<Rightarrow> c = CHR ''-'' | [] \<Rightarrow> False);
         digits = (case s of c # cs \<Rightarrow> if c = CHR ''+'' \<or> c = CHR ''-'' then cs else s | [] \<Rightarrow> [])
     in if digits = [] then None
        else Option.bind (digits_value 0 digits) (\<lambda>n.
          let x = (if negative then - int n else int n) in if in_i64 x then Some x else None))"

lemma digits_value_append: "digits_value acc (xs @ ys) = Option.bind (digits_value acc xs) (\<lambda>a. digits_value a ys)"
  by (induction acc xs rule: digits_value.induct) (simp_all add: Let_def)

lemma digits_value_digit: "n < 10 \<Longrightarrow> digits_value acc [digit_char n] = Some (acc * 10 + n)"
  by (auto simp: digit_char_def Let_def)

lemma digits_value_text: "digits_value 0 (nat_text n) = Some n"
proof (induction n rule: nat_text.induct)
  case (1 n)
  show ?case
  proof (cases "n < 10")
    case True
    then show ?thesis using digits_value_digit [of n 0] by (subst nat_text.simps) simp
  next
    case False
    then show ?thesis using 1 digits_value_digit [of "n mod 10" "n div 10"]
      by (subst nat_text.simps) (simp add: digits_value_append)
  qed
qed

lemma nat_text_digits: "c \<in> set (nat_text n) \<Longrightarrow> \<exists>m<10. c = digit_char m"
proof (induction n rule: nat_text.induct)
  case (1 n)
  show ?case
  proof (cases "n < 10")
    case True
    with "1.prems" show ?thesis by (subst (asm) nat_text.simps) auto
  next
    case False
    with "1.prems" have "c \<in> set (nat_text (n div 10)) \<or> c = digit_char (n mod 10)" by (subst (asm) nat_text.simps) auto
    with "1.IH" False show ?thesis by (metis mod_less_divisor zero_less_numeral)
  qed
qed

lemma nat_text_not_empty [simp]: "nat_text n \<noteq> []"
  by (subst nat_text.simps) simp

section \<open>Replacing and splitting\<close>

definition is_prefix :: "string \<Rightarrow> string \<Rightarrow> bool" where
  "is_prefix p s \<longleftrightarrow> take (length p) s = p"

definition strip_prefix :: "string \<Rightarrow> string \<Rightarrow> string option" where
  "strip_prefix p s = (if is_prefix p s then Some (drop (length p) s) else None)"

text \<open>\<open>str::replace\<close> of a pattern that is not empty: the matches from the left, not overlapping.\<close>

function str_replace :: "string \<Rightarrow> string \<Rightarrow> string \<Rightarrow> string" where
  "str_replace pat rep s =
    (case s of [] \<Rightarrow> []
     | c # cs \<Rightarrow> if pat \<noteq> [] \<and> is_prefix pat s then rep @ str_replace pat rep (drop (length pat) s)
                 else c # str_replace pat rep cs)"
  by pat_completeness auto
termination by (relation "measure (\<lambda>(_, _, s). length s)") auto

declare str_replace.simps [simp del]

fun split_on :: "char \<Rightarrow> string \<Rightarrow> string list" where
  "split_on c [] = [[]]"
| "split_on c (x # xs) = (if x = c then [] # split_on c xs
     else (case split_on c xs of p # ps \<Rightarrow> (x # p) # ps | [] \<Rightarrow> [[x]]))"

lemma split_on_none: "c \<notin> set s \<Longrightarrow> split_on c s = [s]"
  by (induction s) auto

lemma split_on_append: "c \<notin> set s \<Longrightarrow> split_on c (s @ c # t) = s # split_on c t"
  by (induction s) auto

section \<open>Letter case\<close>

definition to_lowercase :: "string \<Rightarrow> string" where
  "to_lowercase s = map (\<lambda>c. let n = of_char c :: nat in if 65 \<le> n \<and> n \<le> 90 then char_of (n + 32) else c) s"

definition to_uppercase :: "string \<Rightarrow> string" where
  "to_uppercase s = map (\<lambda>c. let n = of_char c :: nat in if 97 \<le> n \<and> n \<le> 122 then char_of (n - 32) else c) s"

section \<open>Comparing secrets\<close>

text \<open>The comparison that looks at every byte, which \<open>payments/http.rs\<close>, \<open>webhooks/mod.rs\<close> and \<open>identity.rs\<close> each write out.\<close>

definition constant_time_eq :: "string \<Rightarrow> string \<Rightarrow> bool" where
  "constant_time_eq a b \<longleftrightarrow> length a = length b
     \<and> fold (\<lambda>(x, y) acc. acc OR (word_of_nat (of_char x) XOR word_of_nat (of_char y))) (zip a b) (0 :: 8 word) = 0"

lemma constant_time_eq_iff [simp]: "constant_time_eq a b \<longleftrightarrow> a = b"
proof -
  have z: "word_of_nat (of_char x) XOR word_of_nat (of_char y) = (0 :: 8 word) \<longleftrightarrow> x = y" for x y
  proof -
    have "unat (word_of_nat (of_char c) :: 8 word) = of_char c" for c
      using nat_of_char_less_256 [of c] by (simp add: unat_of_nat)
    then have "word_of_nat (of_char x) = (word_of_nat (of_char y) :: 8 word) \<longleftrightarrow> of_char x = (of_char y :: nat)"
      by metis
    moreover have "a XOR b = 0 \<longleftrightarrow> a = b" for a b :: "8 word"
      by (auto simp: bit_eq_iff bit_xor_iff)
    ultimately show ?thesis by simp
  qed
  have "fold (\<lambda>p acc. acc OR (word_of_nat (of_char (fst p)) XOR word_of_nat (of_char (snd p)))) ps w = 0
      \<longleftrightarrow> w = 0 \<and> list_all (\<lambda>p. fst p = snd p) ps" for ps and w :: "8 word"
    by (induction ps arbitrary: w) (auto simp: or_eq_0_iff z)
  moreover have "list_all (\<lambda>p. fst p = snd p) (zip a b) \<longleftrightarrow> a = b" if "length a = length b"
    using that by (induction a b rule: list_induct2) auto
  ultimately show ?thesis unfolding constant_time_eq_def case_prod_unfold by blast
qed

end
