(* ===== verification/Pricing.thy ===== *)
theory Pricing
  imports Schema
begin

text \<open>
  Fare evaluation: \<open>crates/lulan-pricing/src\<close> (\<open>rules.rs\<close>, \<open>native.rs\<close>, the host side of
  \<open>wasm.rs\<close>) and the reference module \<open>crates/lulan-pricing-guest/src/lib.rs\<close>. A \<open>BTreeMap\<close> is its list
  of entries. Amounts are \<open>i64\<close> with the wrap-around of a release build written out; the
  product inside \<open>bp\<close> is on \<open>i128\<close>, which two \<open>i64\<close> factors cannot overflow.

  wasmtime and serde are third-party code: \<open>wasm_module\<close> holds what running the module on a
  request answers, and the two JSON codecs.
\<close>

section \<open>Rules, input, quote\<close>

record occupancy_tier =
  ot_min_occupancy_bp :: int
  ot_surcharge_bp :: int

record advance_tier =
  at_min_days :: int
  at_discount_bp :: int

record fare_rule_set =
  fs_currency :: string
  fs_base_fare_per_segment :: "(string \<times> int) list"
  fs_peak_weekdays :: "nat list"
  fs_peak_surcharge_bp :: int
  fs_occupancy_tiers :: "occupancy_tier list"
  fs_advance_purchase_tiers :: "advance_tier list"
  fs_promos :: "(string \<times> int) list"
  fs_passenger_type_discounts :: "(string \<times> int) list"
  fs_round_trip_discount_bp :: int

record rule_input =
  ri_fare_key :: string
  ri_segments :: "8 word"
  ri_quantity :: int
  ri_weekday :: nat
  ri_days_before_departure :: int
  ri_occupancy_bp :: int
  ri_promo_code :: "string option"
  ri_passenger_type :: "string option"
  ri_journey_count :: nat
  ri_is_round_trip :: bool

record adjustment =
  aj_label :: string
  aj_amount_minor :: int

record quote =
  qt_currency :: string
  qt_base_minor :: int
  qt_adjustments :: "adjustment list"
  qt_total_minor :: int

datatype eval_error = UnknownFareKey string | NoSegments | NonPositiveQuantity int

section \<open>Evaluation\<close>

definition bp :: "int \<Rightarrow> int \<Rightarrow> int" where
  "bp amount basis_points = i64 (trunc_div (amount * basis_points) 10000)"

text \<open>\<open>Iterator::max_by_key\<close>: the last of the elements with the greatest key.\<close>

definition max_by_key :: "('a \<Rightarrow> int) \<Rightarrow> 'a list \<Rightarrow> 'a option" where
  "max_by_key key xs = fold (\<lambda>x best. case best of None \<Rightarrow> Some x
     | Some b \<Rightarrow> if key b \<le> key x then Some x else Some b) xs None"

definition peak_adjustment :: "fare_rule_set \<Rightarrow> rule_input \<Rightarrow> int \<Rightarrow> adjustment list" where
  "peak_adjustment rules input base =
    (if List.member (fs_peak_weekdays rules) (ri_weekday input) \<and> fs_peak_surcharge_bp rules \<noteq> 0
     then [\<lparr>aj_label = ''peak_weekday'', aj_amount_minor = bp base (fs_peak_surcharge_bp rules)\<rparr>] else [])"

definition occupancy_adjustment :: "fare_rule_set \<Rightarrow> rule_input \<Rightarrow> int \<Rightarrow> adjustment list" where
  "occupancy_adjustment rules input base =
    (case max_by_key ot_min_occupancy_bp (filter (\<lambda>t. ot_min_occupancy_bp t \<le> ri_occupancy_bp input) (fs_occupancy_tiers rules)) of
       None \<Rightarrow> []
     | Some tier \<Rightarrow> if ot_surcharge_bp tier \<noteq> 0
         then [\<lparr>aj_label = ''occupancy'', aj_amount_minor = bp base (ot_surcharge_bp tier)\<rparr>] else [])"

definition advance_adjustment :: "fare_rule_set \<Rightarrow> rule_input \<Rightarrow> int \<Rightarrow> adjustment list" where
  "advance_adjustment rules input base =
    (case max_by_key at_min_days (filter (\<lambda>t. at_min_days t \<le> ri_days_before_departure input) (fs_advance_purchase_tiers rules)) of
       None \<Rightarrow> []
     | Some tier \<Rightarrow> if at_discount_bp tier \<noteq> 0
         then [\<lparr>aj_label = ''advance_purchase'', aj_amount_minor = i64 (- bp base (at_discount_bp tier))\<rparr>] else [])"

definition passenger_adjustment :: "fare_rule_set \<Rightarrow> rule_input \<Rightarrow> int \<Rightarrow> adjustment list" where
  "passenger_adjustment rules input base =
    (case ri_passenger_type input of
       None \<Rightarrow> []
     | Some ty \<Rightarrow> (case map_of (fs_passenger_type_discounts rules) ty of
         None \<Rightarrow> []
       | Some d \<Rightarrow> if d \<noteq> 0 then [\<lparr>aj_label = ''passenger:'' @ ty, aj_amount_minor = i64 (- bp base d)\<rparr>] else []))"

definition round_trip_adjustment :: "fare_rule_set \<Rightarrow> rule_input \<Rightarrow> int \<Rightarrow> adjustment list" where
  "round_trip_adjustment rules input base =
    (if ri_is_round_trip input \<and> fs_round_trip_discount_bp rules \<noteq> 0
     then [\<lparr>aj_label = ''round_trip'', aj_amount_minor = i64 (- bp base (fs_round_trip_discount_bp rules))\<rparr>] else [])"

definition promo_adjustment :: "fare_rule_set \<Rightarrow> rule_input \<Rightarrow> int \<Rightarrow> adjustment list" where
  "promo_adjustment rules input base =
    (case ri_promo_code input of
       None \<Rightarrow> []
     | Some code \<Rightarrow> (case map_of (fs_promos rules) code of
         None \<Rightarrow> []
       | Some d \<Rightarrow> [\<lparr>aj_label = ''promo:'' @ code, aj_amount_minor = i64 (- bp base d)\<rparr>]))"

definition evaluate :: "fare_rule_set \<Rightarrow> rule_input \<Rightarrow> eval_error + quote" where
  "evaluate rules input =
    (if ri_segments input = 0 then Inl NoSegments
     else if ri_quantity input \<le> 0 then Inl (NonPositiveQuantity (ri_quantity input))
     else and_then (ok_or (UnknownFareKey (ri_fare_key input)) (map_of (fs_base_fare_per_segment rules) (ri_fare_key input)))
       (\<lambda>per_segment.
         let base = i64 (i64 (per_segment * uint (ri_segments input)) * ri_quantity input);
             adjustments = peak_adjustment rules input base @ occupancy_adjustment rules input base
               @ advance_adjustment rules input base @ passenger_adjustment rules input base
               @ round_trip_adjustment rules input base @ promo_adjustment rules input base;
             total_minor = max (i64 (base + i64 (sum_list (map aj_amount_minor adjustments)))) 0
         in Inr \<lparr>qt_currency = fs_currency rules, qt_base_minor = base, qt_adjustments = adjustments,
                 qt_total_minor = total_minor\<rparr>))"

section \<open>The engines\<close>

datatype pricing_error = Eval eval_error | Module string

definition native_price :: "fare_rule_set \<Rightarrow> rule_input \<Rightarrow> pricing_error + quote" where
  "native_price rules input = map_err Eval (evaluate rules input)"

record price_response =
  re_ok :: "quote option"
  re_err :: "string option"

type_synonym bytes8 = "8 word list"

text \<open>
  A run of the module on the request bytes the host wrote: a failure of instantiation, of an export, of
  \<open>alloc\<close> or of \<open>price\<close> (a trap, no fuel), or the guest memory afterwards and the packed result.
\<close>

datatype wasm_run = Trapped string | Returned bytes8 "64 word"

record wasm_module =
  wm_run :: "bytes8 \<Rightarrow> wasm_run"
  wm_encode_request :: "fare_rule_set \<times> rule_input \<Rightarrow> bytes8"
  wm_decode_request :: "bytes8 \<Rightarrow> string + fare_rule_set \<times> rule_input"
  wm_encode_response :: "price_response \<Rightarrow> bytes8"
  wm_decode_response :: "bytes8 \<Rightarrow> string + price_response"

definition response_ptr :: "64 word \<Rightarrow> nat" where
  "response_ptr packed = unat (drop_bit 32 packed)"

definition response_len :: "64 word \<Rightarrow> nat" where
  "response_len packed = unat (packed AND 0xFFFFFFFF)"

definition wasm_call :: "wasm_module \<Rightarrow> fare_rule_set \<times> rule_input \<Rightarrow> pricing_error + price_response" where
  "wasm_call m request =
    (case wm_run m (wm_encode_request m request) of
       Trapped e \<Rightarrow> Inl (Module e)
     | Returned memory packed \<Rightarrow>
         if response_ptr packed + response_len packed \<le> length memory
         then map_err Module (wm_decode_response m (take (response_len packed) (drop (response_ptr packed) memory)))
         else Inl (Module ''response out of bounds''))"

definition wasm_price :: "wasm_module \<Rightarrow> fare_rule_set \<Rightarrow> rule_input \<Rightarrow> pricing_error + quote" where
  "wasm_price m rules input = and_then (wasm_call m (rules, input)) (\<lambda>response.
     case (re_ok response, re_err response) of
       (Some q, _) \<Rightarrow> Inr q
     | (None, Some e) \<Rightarrow> Inl (Module e)
     | (None, None) \<Rightarrow> Inl (Module ''empty response''))"

text \<open>The reference guest: the response it leaves in its memory for the request bytes.\<close>

definition guest_response :: "(eval_error \<Rightarrow> string) \<Rightarrow> wasm_module \<Rightarrow> bytes8 \<Rightarrow> price_response" where
  "guest_response explain m request_bytes =
    (case wm_decode_request m request_bytes of
       Inr (rules, input) \<Rightarrow> (case evaluate rules input of
           Inr q \<Rightarrow> \<lparr>re_ok = Some q, re_err = None\<rparr>
         | Inl e \<Rightarrow> \<lparr>re_ok = None, re_err = Some (explain e)\<rparr>)
     | Inl e \<Rightarrow> \<lparr>re_ok = None, re_err = Some (''malformed request: '' @ e)\<rparr>)"

definition pack :: "nat \<Rightarrow> nat \<Rightarrow> 64 word" where
  "pack out_ptr out_len = push_bit 32 (of_nat out_ptr) OR of_nat out_len"

section \<open>Tiers\<close>

lemma max_by_key_fold:
  "fold (\<lambda>x best. case best of None \<Rightarrow> Some x | Some b \<Rightarrow> if key b \<le> key x then Some x else Some b) xs (Some b)
    = Some m \<Longrightarrow> m \<in> insert b (set xs) \<and> (\<forall>x\<in>insert b (set xs). (key x :: int) \<le> key m)"
proof (induction xs arbitrary: b)
  case (Cons y ys)
  show ?case
  proof (cases "key b \<le> key y")
    case True
    with Cons.prems Cons.IH [of y] show ?thesis by auto
  next
    case False
    with Cons.prems Cons.IH [of b] show ?thesis by auto
  qed
qed simp

lemma max_by_key_total:
  "\<exists>m. fold (\<lambda>x best. case best of None \<Rightarrow> Some x | Some b \<Rightarrow> if key b \<le> key x then Some x else Some b) xs (Some b) = Some m"
  for key :: "'a \<Rightarrow> int"
  by (induction xs arbitrary: b) simp_all

lemma max_by_key_Some:
  "max_by_key key xs = Some m \<Longrightarrow> m \<in> set xs \<and> (\<forall>x\<in>set xs. key x \<le> key m)"
  by (cases xs) (auto simp: max_by_key_def dest: max_by_key_fold)

lemma max_by_key_None: "max_by_key key xs = None \<longleftrightarrow> xs = []"
  using max_by_key_total by (cases xs) (auto simp: max_by_key_def)

lemma max_by_key_order:
  assumes perm: "mset xs = mset ys" and dist: "distinct (map key xs)"
  shows "max_by_key key xs = max_by_key key ys"
proof (cases "max_by_key key xs")
  case None
  with perm show ?thesis by (simp add: max_by_key_None)
next
  case (Some m)
  have sets: "set xs = set ys" using perm by (rule mset_eq_setD)
  from Some have "xs \<noteq> []" by (auto simp: max_by_key_def)
  with sets obtain m' where m': "max_by_key key ys = Some m'"
    using max_by_key_None [of key ys] by (cases "max_by_key key ys") auto
  from max_by_key_Some [OF Some] max_by_key_Some [OF m'] sets
  have "m \<in> set xs" "m' \<in> set xs" "key m = key m'" by (auto intro: antisym)
  from distinct_key_eq [OF dist this] Some m' show ?thesis by simp
qed

text \<open>The order in which an operator lists the tiers does not matter: with distinct thresholds every
  permutation of the occupancy and advance purchase tiers evaluates to the same quote.\<close>
theorem tier_order_irrelevant:
  assumes "mset ots = mset (fs_occupancy_tiers rules)" "distinct (map ot_min_occupancy_bp ots)"
    and "mset ats = mset (fs_advance_purchase_tiers rules)" "distinct (map at_min_days ats)"
  shows "evaluate (rules\<lparr>fs_occupancy_tiers := ots, fs_advance_purchase_tiers := ats\<rparr>) input = evaluate rules input"
proof -
  let ?rules = "rules\<lparr>fs_occupancy_tiers := ots, fs_advance_purchase_tiers := ats\<rparr>"
  have o: "max_by_key ot_min_occupancy_bp (filter P ots) = max_by_key ot_min_occupancy_bp (filter P (fs_occupancy_tiers rules))" for P
    using assms(1,2) by (intro max_by_key_order) (simp_all add: mset_filter distinct_map_filter)
  have a: "max_by_key at_min_days (filter P ats) = max_by_key at_min_days (filter P (fs_advance_purchase_tiers rules))" for P
    using assms(3,4) by (intro max_by_key_order) (simp_all add: mset_filter distinct_map_filter)
  have "peak_adjustment ?rules = peak_adjustment rules" "passenger_adjustment ?rules = passenger_adjustment rules"
    "round_trip_adjustment ?rules = round_trip_adjustment rules" "promo_adjustment ?rules = promo_adjustment rules"
    "occupancy_adjustment ?rules = occupancy_adjustment rules" "advance_adjustment ?rules = advance_adjustment rules"
    by (intro ext, simp add: peak_adjustment_def occupancy_adjustment_def advance_adjustment_def
        passenger_adjustment_def round_trip_adjustment_def promo_adjustment_def o a cong: option.case_cong)+
  then show ?thesis by (simp add: evaluate_def)
qed

definition demo_rules :: fare_rule_set where
  "demo_rules = \<lparr>fs_currency = ''PHP'', fs_base_fare_per_segment = [(''economy'', 50000), (''CARGO_KG'', 200)],
     fs_peak_weekdays = [4, 6], fs_peak_surcharge_bp = 1000,
     fs_occupancy_tiers = [\<lparr>ot_min_occupancy_bp = 7000, ot_surcharge_bp = 1500\<rparr>, \<lparr>ot_min_occupancy_bp = 9000, ot_surcharge_bp = 3000\<rparr>],
     fs_advance_purchase_tiers = [\<lparr>at_min_days = 30, at_discount_bp = 1000\<rparr>],
     fs_promos = [(''WELCOME10'', 1000)], fs_passenger_type_discounts = [(''senior'', 2000)], fs_round_trip_discount_bp = 500\<rparr>"

definition demo_input :: rule_input where
  "demo_input = \<lparr>ri_fare_key = ''economy'', ri_segments = 2, ri_quantity = 1, ri_weekday = 4, ri_days_before_departure = 31,
     ri_occupancy_bp = 9500, ri_promo_code = Some ''WELCOME10'', ri_passenger_type = Some ''senior'', ri_journey_count = 1,
     ri_is_round_trip = False\<rparr>"

theorem tier_order_irrelevant_witness:
  "evaluate (demo_rules\<lparr>fs_occupancy_tiers := rev (fs_occupancy_tiers demo_rules),
      fs_advance_purchase_tiers := fs_advance_purchase_tiers demo_rules\<rparr>) demo_input = evaluate demo_rules demo_input"
  by (rule tier_order_irrelevant) (simp_all add: demo_rules_def)

section \<open>Amounts\<close>

lemma trunc_div_eq_div:
  "0 < m \<Longrightarrow> trunc_div n m = n div m + (if n < 0 \<and> \<not> m dvd n then 1 else 0)"
proof (cases "n < 0")
  case True
  assume m: "0 < m"
  from True m have "trunc_div n m = - ((- n) div m)" by (simp add: trunc_div_def)
  also have "\<dots> = n div m + (if m dvd n then 0 else 1)"
    using m zdiv_zminus1_eq_if [of m n] by (auto simp: dvd_eq_mod_eq_0)
  finally show ?thesis using True by simp
qed (simp add: trunc_div_def)

lemma in_i64_trunc_div: "in_i64 (amount * basis_points) \<Longrightarrow> in_i64 (trunc_div (amount * basis_points) 10000)"
  using trunc_div_abs [of 10000 "amount * basis_points"] by (auto simp: in_i64_def)

text \<open>\<open>bp\<close> rounds towards zero, not down as its comment says: where the exact share of a negative
  product is not a whole number of minor units, it is one more than the floor.\<close>
theorem bp_rounds_towards_zero:
  assumes "in_i64 (amount * basis_points)"
  shows "bp amount basis_points = (amount * basis_points) div 10000
    + (if amount * basis_points < 0 \<and> \<not> 10000 dvd amount * basis_points then 1 else 0)"
  using in_i64_trunc_div [OF assms] trunc_div_eq_div [of 10000 "amount * basis_points"]
  by (simp add: bp_def i64_id)

theorem bp_rounds_towards_zero_witness: "bp 1 (- 1) = 0 \<and> (1 * - 1) div 10000 = (- 1 :: int)"
  using bp_rounds_towards_zero [of 1 "- 1"] by (simp add: in_i64_def)

definition bps :: "fare_rule_set \<Rightarrow> int list" where
  "bps rules = fs_peak_surcharge_bp rules # fs_round_trip_discount_bp rules # map ot_surcharge_bp (fs_occupancy_tiers rules)
     @ map at_discount_bp (fs_advance_purchase_tiers rules) @ map snd (fs_promos rules) @ map snd (fs_passenger_type_discounts rules)"

lemma bp_bounded:
  assumes "0 \<le> base" "base \<le> 10 ^ 15" "\<bar>d\<bar> \<le> 100000"
  shows "\<bar>bp base d\<bar> \<le> 10 * base \<and> \<bar>i64 (- bp base d)\<bar> \<le> 10 * base"
proof -
  have "\<bar>base * d\<bar> \<le> base * 100000" using assms by (simp add: abs_mult mult_left_mono)
  then have "\<bar>base * d\<bar> div 10000 \<le> (base * 100000) div 10000" by (rule zdiv_mono1) simp
  then have t: "\<bar>trunc_div (base * d) 10000\<bar> \<le> 10 * base" by (simp add: trunc_div_abs)
  with assms(2) have r: "in_i64 (trunc_div (base * d) 10000)" "in_i64 (- trunc_div (base * d) 10000)"
    by (auto simp: in_i64_def)
  with t show ?thesis by (simp add: bp_def i64_id)
qed

lemma adjustments_bounded:
  assumes base: "0 \<le> base" "base \<le> 10 ^ 15" and rules: "list_all (\<lambda>d. \<bar>d\<bar> \<le> 100000) (bps rules)"
    and a: "a \<in> set (peak_adjustment rules input base @ occupancy_adjustment rules input base
      @ advance_adjustment rules input base @ passenger_adjustment rules input base
      @ round_trip_adjustment rules input base @ promo_adjustment rules input base)"
  shows "\<bar>aj_amount_minor a\<bar> \<le> 10 * base"
proof -
  have b: "\<bar>bp base d\<bar> \<le> 10 * base \<and> \<bar>i64 (- bp base d)\<bar> \<le> 10 * base" if "d \<in> set (bps rules)" for d
    using bp_bounded [OF base] rules that by (simp add: list_all_iff)
  have tier: "ot_surcharge_bp t \<in> set (bps rules)" if "max_by_key ot_min_occupancy_bp (filter P (fs_occupancy_tiers rules)) = Some t" for P t
    using max_by_key_Some [OF that] by (simp add: bps_def)
  have adv: "at_discount_bp t \<in> set (bps rules)" if "max_by_key at_min_days (filter P (fs_advance_purchase_tiers rules)) = Some t" for P t
    using max_by_key_Some [OF that] by (simp add: bps_def)
  have ent: "d \<in> set (bps rules)" if "map_of (fs_promos rules) k = Some d" for k d
    using that by (auto simp: bps_def dest!: map_of_SomeD intro: rev_image_eqI)
  have pax: "d \<in> set (bps rules)" if "map_of (fs_passenger_type_discounts rules) k = Some d" for k d
    using that by (auto simp: bps_def dest!: map_of_SomeD intro: rev_image_eqI)
  have fixed: "fs_peak_surcharge_bp rules \<in> set (bps rules)" "fs_round_trip_discount_bp rules \<in> set (bps rules)"
    by (simp_all add: bps_def)
  show ?thesis
  proof (rule ccontr)
    assume no: "\<not> \<bar>aj_amount_minor a\<bar> \<le> 10 * base"
    have "a \<notin> set (peak_adjustment rules input base)" "a \<notin> set (round_trip_adjustment rules input base)"
      using no b [OF fixed(1)] b [OF fixed(2)] by (auto simp: peak_adjustment_def round_trip_adjustment_def)
    moreover have "a \<notin> set (occupancy_adjustment rules input base)"
      using no b [OF tier] by (auto simp: occupancy_adjustment_def split: option.splits if_splits)
    moreover have "a \<notin> set (advance_adjustment rules input base)"
      using no b [OF adv] by (auto simp: advance_adjustment_def split: option.splits if_splits)
    moreover have "a \<notin> set (passenger_adjustment rules input base)" "a \<notin> set (promo_adjustment rules input base)"
      using no b [OF ent] b [OF pax] by (auto simp: passenger_adjustment_def promo_adjustment_def dest!: sym [of "Some _"] split: option.splits if_splits)
    ultimately show False using a by simp
  qed
qed

lemma adjustment_count:
  "length (peak_adjustment rules input base @ occupancy_adjustment rules input base
      @ advance_adjustment rules input base @ passenger_adjustment rules input base
      @ round_trip_adjustment rules input base @ promo_adjustment rules input base) \<le> 6"
proof -
  have "length (peak_adjustment rules input base) \<le> 1" "length (occupancy_adjustment rules input base) \<le> 1"
    "length (advance_adjustment rules input base) \<le> 1" "length (passenger_adjustment rules input base) \<le> 1"
    "length (round_trip_adjustment rules input base) \<le> 1" "length (promo_adjustment rules input base) \<le> 1"
    by (simp_all add: peak_adjustment_def occupancy_adjustment_def advance_adjustment_def passenger_adjustment_def
        round_trip_adjustment_def promo_adjustment_def split: option.split)
  then show ?thesis by simp
qed

lemma sum_list_bounded: "(\<And>x. x \<in> set xs \<Longrightarrow> \<bar>x\<bar> \<le> (b :: int)) \<Longrightarrow> \<bar>sum_list xs\<bar> \<le> int (length xs) * b"
proof (induction xs)
  case (Cons x xs)
  have "\<bar>sum_list (x # xs)\<bar> \<le> \<bar>x\<bar> + \<bar>sum_list xs\<bar>" by simp
  also have "\<dots> \<le> b + int (length xs) * b" using Cons by (intro add_mono) simp_all
  finally show ?case by (simp add: algebra_simps)
qed simp

text \<open>C34: On realistic fares (a base of at most a million million minor units times a thousand, no rate
  beyond a thousand percent) nothing wraps: the base is fare times segments times quantity, the total is
  base plus adjustments, floored at zero, and no adjustment exceeds ten times the base.\<close>
theorem quote_adds_up:
  assumes q: "evaluate rules input = Inr q" and fare: "map_of (fs_base_fare_per_segment rules) (ri_fare_key input) = Some fare"
    and nn: "0 \<le> fare" and le: "fare * uint (ri_segments input) * ri_quantity input \<le> 10 ^ 15"
    and rates: "list_all (\<lambda>d. \<bar>d\<bar> \<le> 100000) (bps rules)"
  shows "qt_base_minor q = fare * uint (ri_segments input) * ri_quantity input
    \<and> qt_total_minor q = max 0 (qt_base_minor q + sum_list (map aj_amount_minor (qt_adjustments q)))
    \<and> list_all (\<lambda>a. \<bar>aj_amount_minor a\<bar> \<le> 10 * qt_base_minor q) (qt_adjustments q)"
proof -
  have qty: "0 < ri_quantity input" using q by (auto simp: evaluate_def split: if_splits)
  define base where "base = fare * uint (ri_segments input) * ri_quantity input"
  have b0: "0 \<le> fare * uint (ri_segments input)" using nn by simp
  have base0: "0 \<le> base" using b0 qty by (simp add: base_def)
  have "fare * uint (ri_segments input) * 1 \<le> base" unfolding base_def using b0 qty by (intro mult_left_mono) simp_all
  with le b0 base0 have r: "in_i64 (fare * uint (ri_segments input))" "in_i64 base" by (simp_all add: in_i64_def base_def)
  let ?adj = "peak_adjustment rules input base @ occupancy_adjustment rules input base
      @ advance_adjustment rules input base @ passenger_adjustment rules input base
      @ round_trip_adjustment rules input base @ promo_adjustment rules input base"
  have le': "base \<le> 10 ^ 15" using le by (simp add: base_def)
  have each: "\<bar>aj_amount_minor a\<bar> \<le> 10 * base" if "a \<in> set ?adj" for a
    by (rule adjustments_bounded [OF base0 le' rates that])
  have "\<bar>sum_list (map aj_amount_minor ?adj)\<bar> \<le> int (length ?adj) * (10 * base)"
    using sum_list_bounded [of "map aj_amount_minor ?adj" "10 * base"] each by (simp only: length_map) auto
  also have "\<dots> \<le> 6 * (10 * base)"
  proof (rule mult_right_mono)
    show "int (length ?adj) \<le> 6" using adjustment_count [of rules input base] by linarith
  qed (use base0 in simp)
  finally have bound: "\<bar>sum_list (map aj_amount_minor ?adj)\<bar> \<le> 6 * (10 * base)" .
  have range: "in_i64 x \<and> in_i64 (base + x)" if "\<bar>x\<bar> \<le> 6 * (10 * base)" for x
    unfolding in_i64_def using that base0 le' by (simp add: abs_le_iff)
  note s = conjunct1 [OF range [OF bound]] conjunct2 [OF range [OF bound]]
  have "q = \<lparr>qt_currency = fs_currency rules, qt_base_minor = base, qt_adjustments = ?adj,
      qt_total_minor = max (base + sum_list (map aj_amount_minor ?adj)) 0\<rparr>"
    using q fare i64_id [OF r(1)] i64_id [OF r(2)] i64_id [OF s(1)] i64_id [OF s(2)]
    unfolding evaluate_def Let_def base_def [symmetric] by (auto simp: base_def split: if_splits)
  with each show ?thesis by (simp only: quote.simps list_all_iff max.commute base_def) blast
qed

theorem quote_adds_up_witness:
  "case evaluate demo_rules demo_input of Inl _ \<Rightarrow> False | Inr q \<Rightarrow> qt_base_minor q = 100000
     \<and> qt_total_minor q = max 0 (qt_base_minor q + sum_list (map aj_amount_minor (qt_adjustments q)))"
proof -
  have "case evaluate demo_rules demo_input of Inl _ \<Rightarrow> False | Inr q \<Rightarrow> True" by code_simp
  then obtain q where q: "evaluate demo_rules demo_input = Inr q" by (auto split: sum.splits)
  have "list_all (\<lambda>d. \<bar>d\<bar> \<le> 100000) (bps demo_rules)" by code_simp
  from quote_adds_up [OF q _ _ _ this, of 50000] q show ?thesis
    by (simp add: demo_rules_def demo_input_def)
qed

section \<open>A module that is the reference guest prices like the native engine\<close>

lemma pack_unpack:
  assumes "p < 2 ^ 32" "l < 2 ^ 32"
  shows "response_ptr (pack p l) = p" "response_len (pack p l) = l"
proof -
  have m: "(0xFFFFFFFF :: 64 word) = mask 32" by (simp add: mask_eq_exp_minus_1)
  have l: "(of_nat l :: 64 word) AND 0xFFFFFFFF = of_nat l" "drop_bit 32 (of_nat l :: 64 word) = 0"
  proof -
    have u: "unat (of_nat l :: 64 word) = l" using assms(2) by (simp add: unat_of_nat)
    have "take_bit 32 (of_nat l :: 64 word) = of_nat l"
      by (rule word_unat_eq_iff [THEN iffD2]) (use assms(2) in \<open>simp add: unsigned_take_bit_eq u take_bit_nat_eq_self\<close>)
    then show "(of_nat l :: 64 word) AND 0xFFFFFFFF = of_nat l" by (simp add: m take_bit_eq_mask)
    show "drop_bit 32 (of_nat l :: 64 word) = 0"
      by (rule word_unat_eq_iff [THEN iffD2])
        (use assms(2) drop_bit_eq_div [of 32 l] take_bit_nat_eq_self [of l 64] in \<open>simp add: unsigned_drop_bit_eq u\<close>)
  qed
  have p: "unat (of_nat p :: 64 word) = p" using assms(1) by (simp add: unat_of_nat)
  have wide: "take_bit 64 (push_bit 32 p) = push_bit 32 p"
    by (rule take_bit_nat_eq_self) (use assms(1) in \<open>simp add: push_bit_eq_mult\<close>)
  have undo: "drop_bit 32 (push_bit 32 p) = p" by (simp add: drop_bit_eq_div push_bit_eq_mult)
  from wide have "unat (push_bit 32 (of_nat p) :: 64 word) = push_bit 32 p"
    by (simp only: unsigned_push_bit_eq p) simp
  then have hi: "drop_bit 32 (push_bit 32 (of_nat p) :: 64 word) = of_nat p"
    by (intro word_unat_eq_iff [THEN iffD2]) (simp add: unsigned_drop_bit_eq p wide undo)
  have low: "push_bit 32 (of_nat p) AND (0xFFFFFFFF :: 64 word) = 0"
    unfolding m by (simp add: take_bit_eq_mask [symmetric] take_bit_push_bit)
  show "response_ptr (pack p l) = p" by (simp add: response_ptr_def pack_def drop_bit_or l hi p)
  show "response_len (pack p l) = l"
    using assms(2) by (simp add: response_len_def pack_def bit.conj_disj_distrib2 low l unat_of_nat)
qed

text \<open>
  What the reference module's build gives: serde reads back what it wrote, and running the module leaves
  the guest's encoded response in its memory and answers where.
\<close>

definition runs_guest :: "(eval_error \<Rightarrow> string) \<Rightarrow> wasm_module \<Rightarrow> fare_rule_set \<times> rule_input \<Rightarrow> bool" where
  "runs_guest explain m request \<longleftrightarrow>
     (let b = wm_encode_request m request; resp = guest_response explain m b; out = wm_encode_response m resp
      in wm_decode_request m b = Inr request \<and> wm_decode_response m out = Inr resp
        \<and> (case wm_run m b of
             Trapped _ \<Rightarrow> False
           | Returned memory packed \<Rightarrow> list_ex (\<lambda>p. packed = pack p (length out) \<and> p + length out \<le> length memory
                \<and> take (length out) (drop p memory) = out) [0..<Suc (length memory)]
               \<and> length memory < 2 ^ 32))"

lemma runs_guest_call:
  assumes "runs_guest explain m request"
  shows "wasm_call m request = Inr (guest_response explain m (wm_encode_request m request))"
proof -
  define b where "b = wm_encode_request m request"
  define resp where "resp = guest_response explain m b"
  define out where "out = wm_encode_response m resp"
  from assms obtain memory p where run: "wm_run m b = Returned memory (pack p (length out))"
    and fits: "p + length out \<le> length memory" "length memory < 2 ^ 32" and out: "take (length out) (drop p memory) = out"
    unfolding runs_guest_def Let_def b_def [symmetric] resp_def [symmetric] out_def [symmetric]
    by (auto simp: list_ex_iff split: wasm_run.splits)
  have dec: "wm_decode_response m out = Inr resp"
    using assms unfolding runs_guest_def Let_def b_def [symmetric] resp_def [symmetric] out_def [symmetric] by simp
  have u: "response_ptr (pack p (length out)) = p" "response_len (pack p (length out)) = length out"
    using fits by (auto intro!: pack_unpack)
  have "wasm_call m request = Inr resp"
    unfolding wasm_call_def b_def [symmetric] using fits(1) by (simp add: run u out dec)
  then show ?thesis by (simp add: resp_def b_def)
qed

text \<open>C30: Pricing through wasmtime with the reference module gives the native engine's quote, for every
  rule set and input on which the module runs; an evaluation error comes back as the module's message.\<close>
theorem wasm_agrees_with_native:
  assumes "runs_guest explain m (rules, input)"
  shows "wasm_price m rules input = (case native_price rules input of
      Inr q \<Rightarrow> Inr q | Inl (Eval e) \<Rightarrow> Inl (Module (explain e)) | Inl (Module e) \<Rightarrow> Inl (Module e))"
proof -
  have "wm_decode_request m (wm_encode_request m (rules, input)) = Inr (rules, input)"
    using assms by (simp add: runs_guest_def Let_def)
  then have "wasm_call m (rules, input) = Inr (case evaluate rules input of
      Inr q \<Rightarrow> \<lparr>re_ok = Some q, re_err = None\<rparr> | Inl e \<Rightarrow> \<lparr>re_ok = None, re_err = Some (explain e)\<rparr>)"
    using runs_guest_call [OF assms] by (simp add: guest_response_def)
  then show ?thesis by (cases "evaluate rules input") (simp_all add: wasm_price_def native_price_def)
qed

text \<open>A module that answers this one request, its memory an empty byte and the response.\<close>

definition toy_module :: wasm_module where
  "toy_module = \<lparr>wm_run = (\<lambda>_. Returned [0, 7] (pack 1 1)), wm_encode_request = (\<lambda>_. []),
     wm_decode_request = (\<lambda>_. Inr (demo_rules, demo_input)), wm_encode_response = (\<lambda>_. [7]),
     wm_decode_response = (\<lambda>_. Inr (case evaluate demo_rules demo_input of
        Inr q \<Rightarrow> \<lparr>re_ok = Some q, re_err = None\<rparr> | Inl e \<Rightarrow> \<lparr>re_ok = None, re_err = Some ''''\<rparr>))\<rparr>"

theorem wasm_agrees_with_native_witness:
  "wasm_price toy_module demo_rules demo_input = (case native_price demo_rules demo_input of
      Inr q \<Rightarrow> Inr q | Inl (Eval e) \<Rightarrow> Inl (Module '''') | Inl (Module e) \<Rightarrow> Inl (Module e))"
  by (rule wasm_agrees_with_native [of "\<lambda>_. ''''"])
    (simp add: runs_guest_def toy_module_def guest_response_def Let_def)

end
