(* ===== verification/Fares.thy ===== *)
theory Fares
  imports Pricing Availability Api_Error
begin

text \<open>
  What is sold at which price: the fare rule table and its three endpoints
  (\<open>crates/lulan-api/src/admin.rs\<close>), the glue that derives the engine's scalars from live data
  (\<open>pricing.rs\<close>) and the catalog of ancillaries (\<open>ancillaries.rs\<close>). The \<open>jsonb\<close> column
  \<open>fare_rules.rules\<close> has the type \<open>'j\<close>; reading it with serde is the parameter \<open>parse\<close>. The
  engine the server booted with is the parameter \<open>price\<close>. The audit entries are those of \<open>Back_Office\<close>.
\<close>

section \<open>The fare rule table\<close>

record 'j fare_rules_row =
  fr_id :: uuid
  fr_active :: bool
  fr_rules :: 'j
  fr_created_at :: instant

definition load_rules :: "('j \<Rightarrow> string + fare_rule_set) \<Rightarrow> 'j fare_rules_row list \<Rightarrow> api_error + fare_rule_set" where
  "load_rules parse rows =
    (case sort_key (\<lambda>r. - fr_created_at r) (filter fr_active rows) of
       [] \<Rightarrow> Inl ServiceUnavailable
     | r # _ \<Rightarrow> map_err (\<lambda>_. Internal) (parse (fr_rules r)))"

definition list_fare_rules :: "'j fare_rules_row list \<Rightarrow> (uuid \<times> bool \<times> instant) list" where
  "list_fare_rules rows = map (\<lambda>r. (fr_id r, fr_active r, fr_created_at r))
     (take 20 (sort_key (\<lambda>r. (\<not> fr_active r, - fr_created_at r)) rows))"

definition publish_fare_rules :: "('j \<Rightarrow> string + fare_rule_set) \<Rightarrow> instant \<Rightarrow> uuid \<Rightarrow> 'j \<Rightarrow>
    'j fare_rules_row list \<Rightarrow> 'j fare_rules_row list \<times> (api_error + uuid)" where
  "publish_fare_rules parse now new_id rules rows =
    (case parse rules of
       Inl _ \<Rightarrow> (rows, Inl BadRequest)
     | Inr parsed \<Rightarrow>
         if fs_base_fare_per_segment parsed = [] then (rows, Inl BadRequest)
         else (case insert_unique fr_id \<lparr>fr_id = new_id, fr_active = True, fr_rules = rules, fr_created_at = now\<rparr>
                      (update_where fr_active (\<lambda>r. r\<lparr>fr_active := False\<rparr>) rows) of
                 None \<Rightarrow> (rows, Inl Internal)
               | Some rows' \<Rightarrow> (rows', Inr new_id)))"

definition activate_fare_rules :: "uuid \<Rightarrow> 'j fare_rules_row list \<Rightarrow> 'j fare_rules_row list \<times> (api_error + uuid)" where
  "activate_fare_rules ruleset rows =
    (if \<not> list_ex (\<lambda>r. fr_id r = ruleset) rows then (rows, Inl ApiNotFound)
     else (update_where (\<lambda>r. fr_id r = ruleset) (\<lambda>r. r\<lparr>fr_active := True\<rparr>)
             (update_where fr_active (\<lambda>r. r\<lparr>fr_active := False\<rparr>) rows), Inr ruleset))"

section \<open>Itineraries\<close>

record journey_item =
  ji_unit_code :: string
  ji_origin :: string
  ji_destination :: string
  ji_quantity :: "int option"
  ji_passenger_type :: "string option"

record priceable_item =
  pb_trip_id :: uuid
  pb_unit_code :: string
  pb_origin :: string
  pb_destination :: string
  pb_quantity :: "int option"
  pb_passenger_type :: "string option"

record priced_item =
  pi_trip_id :: uuid
  pi_unit_code :: string
  pi_origin :: string
  pi_destination :: string
  pi_from_index :: "8 word"
  pi_to_index :: "8 word"
  pi_quantity :: int
  pi_passenger_type :: "string option"
  pi_quote :: quote

record journey_ctx =
  jc_journey_count :: nat
  jc_is_round_trip :: bool

definition journey_context :: "(uuid \<times> journey_item list) list \<Rightarrow> journey_ctx" where
  "journey_context journeys =
    \<lparr>jc_journey_count = length journeys,
     jc_is_round_trip = (case journeys of
         [(trip_out, outbound), (trip_back, inbound)] \<Rightarrow> trip_out \<noteq> trip_back
           \<and> (case (outbound, inbound) of
                (out # _, bck # _) \<Rightarrow> ji_origin out = ji_destination bck \<and> ji_destination out = ji_origin bck
              | _ \<Rightarrow> False)
       | _ \<Rightarrow> False)\<rparr>"

section \<open>Pricing items against live data\<close>

text \<open>\<open>date_naive()\<close> of an instant in UTC, as a day number; day 0 was a Thursday.\<close>

definition date_of :: "instant \<Rightarrow> int" where
  "date_of t = t div hours 24"

definition weekday_of :: "instant \<Rightarrow> nat" where
  "weekday_of t = nat ((date_of t + 3) mod 7)"

definition departure_of :: "db \<Rightarrow> priceable_item \<Rightarrow> api_error + instant" where
  "departure_of d item =
     ok_or ApiNotFound (map_option tr_departs_at (List.find (\<lambda>t. tr_id t = pb_trip_id item) (trips d)))"

type_synonym pricing_engine = "fare_rule_set \<Rightarrow> rule_input \<Rightarrow> pricing_error + quote"

definition rule_input_of :: "instant \<Rightarrow> db \<Rightarrow> string option \<Rightarrow> journey_ctx \<Rightarrow> priceable_item \<Rightarrow> instant \<Rightarrow> int \<Rightarrow>
    claim_target \<Rightarrow> rule_input" where
  "rule_input_of now d promo_code context item departs_at quantity target =
    \<lparr>ri_fare_key = fare_key target (pb_unit_code item),
     ri_segments = span_segment_count (ct_span target),
     ri_quantity = quantity,
     ri_weekday = weekday_of departs_at,
     ri_days_before_departure = i32 (date_of departs_at - date_of now),
     ri_occupancy_bp = span_occupancy_bp (pb_trip_id item) (ct_unit_id target) (ct_kind target) (ct_span target) d,
     ri_promo_code = promo_code,
     ri_passenger_type = (if ct_kind target = ''seat'' then pb_passenger_type item else None),
     ri_journey_count = jc_journey_count context,
     ri_is_round_trip = jc_is_round_trip context\<rparr>"

definition price_item :: "pricing_engine \<Rightarrow> fare_rule_set \<Rightarrow> instant \<Rightarrow> db \<Rightarrow> string option \<Rightarrow> journey_ctx \<Rightarrow>
    priceable_item \<times> instant \<Rightarrow> api_error + priced_item" where
  "price_item price rules now d promo_code context = (\<lambda>(item, departs_at).
    let quantity = (case pb_quantity item of Some q \<Rightarrow> q | None \<Rightarrow> 1) in
    if quantity \<le> 0 then Inl BadRequest
    else
      and_then (map_err of_store_error
        (resolve_target now (pb_trip_id item) (pb_unit_code item) (pb_origin item) (pb_destination item) d)) (\<lambda>found.
      and_then (ok_or ApiNotFound found) (\<lambda>target.
      and_then (map_err (\<lambda>_. BadRequest)
        (price rules (rule_input_of now d promo_code context item departs_at quantity target))) (\<lambda>q.
      Inr \<lparr>pi_trip_id = pb_trip_id item, pi_unit_code = pb_unit_code item, pi_origin = pb_origin item,
        pi_destination = pb_destination item, pi_from_index = span_from (ct_span target),
        pi_to_index = span_to (ct_span target), pi_quantity = quantity,
        pi_passenger_type = (if ct_kind target = ''seat'' then pb_passenger_type item else None),
        pi_quote = q\<rparr>))))"

text \<open>All departures are looked up before the first item is priced.\<close>

definition price_items :: "('j \<Rightarrow> string + fare_rule_set) \<Rightarrow> pricing_engine \<Rightarrow> 'j fare_rules_row list \<Rightarrow> instant \<Rightarrow> db \<Rightarrow>
    priceable_item list \<Rightarrow> string option \<Rightarrow> journey_ctx \<Rightarrow> api_error + priced_item list" where
  "price_items parse price fares now d items promo_code context =
    and_then (load_rules parse fares) (\<lambda>rules.
    and_then (try_map (departure_of d) items) (\<lambda>departures.
    try_map (price_item price rules now d promo_code context) (zip items departures)))"

section \<open>Ancillaries\<close>

record ancillary_row =
  an_id :: uuid
  an_code :: string
  an_name :: string
  an_description :: string
  an_kind :: string
  an_price_minor :: int
  an_per :: string
  an_scope :: string
  an_active :: bool

record ancillary_line =
  al_code :: string
  al_trip_id :: "uuid option"
  al_passenger :: "nat option"
  al_quantity :: int

record priced_ancillary =
  pc_ancillary :: ancillary_row
  pc_line :: ancillary_line
  pc_total_minor :: int

definition list_ancillaries :: "ancillary_row list \<Rightarrow> ancillary_row list" where
  "list_ancillaries rows = sort_key (\<lambda>a. (an_kind a, an_code a)) (filter an_active rows)"

definition active_catalog :: "ancillary_row list \<Rightarrow> string \<Rightarrow> ancillary_row option" where
  "active_catalog rows code = map_of (rev (map (\<lambda>a. (an_code a, a)) (list_ancillaries rows))) code"

definition create_ancillary :: "uuid \<Rightarrow> ancillary_row \<Rightarrow> ancillary_row list \<Rightarrow> ancillary_row list \<times> (api_error + ancillary_row)" where
  "create_ancillary new_id req rows =
    (if trim (an_code req) = [] \<or> trim (an_name req) = [] then (rows, Inl BadRequest)
     else if \<not> List.member [''passenger'', ''order''] (an_per req) then (rows, Inl BadRequest)
     else if \<not> List.member [''journey'', ''itinerary''] (an_scope req) then (rows, Inl BadRequest)
     else if an_price_minor req < 0 then (rows, Inl BadRequest)
     else let row = req\<lparr>an_id := new_id, an_code := trim (an_code req), an_name := trim (an_name req), an_active := True\<rparr>
          in if list_ex (\<lambda>a. an_id a = new_id \<or> an_code a = an_code row) rows then (rows, Inl ApiConflict)
             else (rows @ [row], Inr row))"

definition remove_ancillary :: "uuid \<Rightarrow> ancillary_row list \<Rightarrow> ancillary_row list \<times> (api_error + uuid)" where
  "remove_ancillary aid rows =
    (if count_where (\<lambda>a. an_id a = aid) rows = 0 then (rows, Inl ApiNotFound)
     else (update_where (\<lambda>a. an_id a = aid) (\<lambda>a. a\<lparr>an_active := False\<rparr>) rows, Inr aid))"

definition price_line :: "ancillary_row list \<Rightarrow> uuid list \<Rightarrow> ancillary_line \<Rightarrow> api_error + priced_ancillary" where
  "price_line rows itinerary_trips line =
    and_then (ok_or BadRequest (active_catalog rows (al_code line))) (\<lambda>a.
      if al_quantity line \<le> 0 then Inl BadRequest
      else if an_scope a = ''journey'' \<and> (case al_trip_id line of None \<Rightarrow> True
             | Some trip \<Rightarrow> \<not> List.member itinerary_trips trip) then Inl BadRequest
      else if an_scope a \<noteq> ''journey'' \<and> al_trip_id line \<noteq> None then Inl BadRequest
      else if an_per a = ''passenger'' \<and> al_passenger line = None then Inl BadRequest
      else if an_per a = ''order'' \<and> al_passenger line \<noteq> None then Inl BadRequest
      else Inr \<lparr>pc_ancillary = a, pc_line = line, pc_total_minor = i64 (an_price_minor a * al_quantity line)\<rparr>)"

definition price_lines :: "ancillary_row list \<Rightarrow> ancillary_line list \<Rightarrow> uuid list \<Rightarrow> api_error + priced_ancillary list" where
  "price_lines rows lines itinerary_trips = try_map (price_line rows itinerary_trips) lines"

section \<open>Published rules price at once, and older ones can be brought back\<close>

lemma load_rules_single:
  assumes "filter fr_active rows = [r]"
  shows "load_rules parse rows = map_err (\<lambda>_. Internal) (parse (fr_rules r))"
  by (simp add: load_rules_def assms)

lemma none_active [simp]: "filter fr_active (update_where fr_active (\<lambda>r. r\<lparr>fr_active := False\<rparr>) rows) = []"
  by (induction rows) simp_all

lemma activate_single:
  assumes "distinct (map fr_id rows)" "r \<in> set rows"
  shows "load_rules parse (fst (activate_fare_rules (fr_id r) rows)) = map_err (\<lambda>_. Internal) (parse (fr_rules r))"
proof -
  let ?off = "update_where fr_active (\<lambda>r. r\<lparr>fr_active := False\<rparr>) rows"
  have off: "\<not> fr_active x" if "x \<in> set ?off" for x using that by (auto simp: update_where_def)
  have "filter fr_active (update_where (\<lambda>r'. fr_id r' = i) (\<lambda>r. r\<lparr>fr_active := True\<rparr>) rs)
      = map (\<lambda>r. r\<lparr>fr_active := True\<rparr>) (filter (\<lambda>r'. fr_id r' = i) rs)"
    if "\<And>x. x \<in> set rs \<Longrightarrow> \<not> fr_active x" for i and rs :: "'a fare_rules_row list"
    using that by (induction rs) auto
  with off have "filter fr_active (fst (activate_fare_rules (fr_id r) rows))
      = map (\<lambda>r. r\<lparr>fr_active := True\<rparr>) (filter (\<lambda>r'. fr_id r' = fr_id r) ?off)"
    using assms(2) by (auto simp: activate_fare_rules_def list_ex_iff)
  also have "filter (\<lambda>r'. fr_id r' = fr_id r) ?off = update_where fr_active (\<lambda>r. r\<lparr>fr_active := False\<rparr>) [r]"
    using filter_distinct_key [OF assms] by (subst filter_update_where) simp_all
  finally have "filter fr_active (fst (activate_fare_rules (fr_id r) rows)) = [r\<lparr>fr_active := True\<rparr>]"
    by (cases "fr_active r") simp_all
  from load_rules_single [OF this] show ?thesis by simp
qed

text \<open>A published rule set prices from the moment its transaction commits, whatever was active before,
  and an operator who activates any older one gets exactly that one back.\<close>
theorem published_rules_take_effect:
  assumes uniq: "distinct (map fr_id rows)"
    and pub: "publish_fare_rules parse now new_id rules rows = (rows', Inr i)"
  shows "load_rules parse rows' = map_err (\<lambda>_. Internal) (parse rules) \<and> parse rules \<in> range Inr
    \<and> list_all (\<lambda>r. load_rules parse (fst (activate_fare_rules (fr_id r) rows')) = map_err (\<lambda>_. Internal) (parse (fr_rules r))) rows"
proof -
  let ?off = "update_where fr_active (\<lambda>r. r\<lparr>fr_active := False\<rparr>) rows"
  let ?row = "\<lparr>fr_id = new_id, fr_active = True, fr_rules = rules, fr_created_at = now\<rparr>"
  from pub have rows': "rows' = ?off @ [?row]" and fresh: "new_id \<notin> fr_id ` set ?off" and ok: "parse rules \<in> range Inr"
    by (auto simp: publish_fare_rules_def split: sum.splits if_splits option.splits)
  have ids: "map fr_id ?off = map fr_id rows" by (simp add: map_update_where)
  then have "distinct (map fr_id ?off)" using uniq by simp
  with fresh have dist: "distinct (map fr_id rows')" by (simp add: rows')
  have "load_rules parse rows' = map_err (\<lambda>_. Internal) (parse rules)"
    by (subst load_rules_single [of _ ?row]) (simp_all add: rows')
  moreover have "load_rules parse (fst (activate_fare_rules (fr_id r) rows')) = map_err (\<lambda>_. Internal) (parse (fr_rules r))"
    if "r \<in> set rows" for r
  proof -
    have "(if fr_active r then r\<lparr>fr_active := False\<rparr> else r) \<in> set rows'"
      using that by (auto simp: rows' update_where_def)
    from activate_single [OF dist this, of parse] show ?thesis by (simp split: if_splits)
  qed
  ultimately show ?thesis using ok by (simp add: list_all_iff)
qed

text \<open>A table whose rules are stored as they are, published twice.\<close>

definition demo_fares :: "fare_rule_set fare_rules_row list" where
  "demo_fares = [\<lparr>fr_id = Uuid 1, fr_active = True, fr_rules = demo_rules, fr_created_at = 0\<rparr>]"

theorem published_rules_take_effect_witness:
  "load_rules Inr (fst (publish_fare_rules Inr 5 (Uuid 2) (demo_rules\<lparr>fs_currency := ''EUR''\<rparr>) demo_fares))
    = Inr (demo_rules\<lparr>fs_currency := ''EUR''\<rparr>)"
proof -
  let ?new = "demo_rules\<lparr>fs_currency := ''EUR''\<rparr>"
  obtain rows' where "publish_fare_rules Inr 5 (Uuid 2) ?new demo_fares = (rows', Inr (Uuid 2))"
    by (simp add: publish_fare_rules_def demo_fares_def demo_rules_def insert_unique_def)
  with published_rules_take_effect [OF _ this] show ?thesis by (simp add: demo_fares_def)
qed

end
