(* ===== verification/Quotes.thy ===== *)
theory Quotes
  imports Fares Ticket_Token
begin

text \<open>
  Signed price quotes: \<open>crates/lulan-api/src/quotes.rs\<close>. serde on the token, base64 and HMAC-SHA256 are
  third-party: the record \<open>quote_libs\<close>. Bytes are texts.
\<close>

definition QUOTE_TTL_SECONDS :: int where "QUOTE_TTL_SECONDS = 300"

record quote_token_ancillary =
  qa_line :: ancillary_line
  qa_total_minor :: int

record quote_token_item =
  qi_trip_id :: uuid
  qi_unit_code :: string
  qi_origin :: string
  qi_destination :: string
  qi_quantity :: int
  qi_passenger_type :: "string option"
  qi_price_minor :: int

record quote_token =
  qk_currency :: string
  qk_total_minor :: int
  qk_exp :: int
  qk_items :: "quote_token_item list"
  qk_ancillaries :: "quote_token_ancillary list"

record quote_libs =
  ql_to_vec :: "quote_token \<Rightarrow> string"
  ql_from_slice :: "string \<Rightarrow> quote_token option"
  ql_b64 :: "string \<Rightarrow> string"
  ql_unb64 :: "string \<Rightarrow> string option"
  ql_hmac :: "string \<Rightarrow> string \<Rightarrow> string"

definition sign_quote :: "quote_libs \<Rightarrow> string \<Rightarrow> quote_token \<Rightarrow> string" where
  "sign_quote libs secret token =
    (let payload = ql_b64 libs (ql_to_vec libs token)
     in payload @ ''.'' @ ql_b64 libs (ql_hmac libs secret payload))"

definition verify_quote :: "quote_libs \<Rightarrow> instant \<Rightarrow> string \<Rightarrow> string \<Rightarrow> quote_token option" where
  "verify_quote libs now secret token =
    Option.bind (split_once (CHR ''.'') token) (\<lambda>(payload, tag).
    Option.bind (ql_unb64 libs tag) (\<lambda>tag_bytes.
      if tag_bytes \<noteq> ql_hmac libs secret payload then None
      else
        Option.bind (Option.bind (ql_unb64 libs payload) (ql_from_slice libs)) (\<lambda>decoded.
          if qk_exp decoded > timestamp now then Some decoded else None)))"

record quote_request =
  qr_trip_id :: "uuid option"
  qr_items :: "journey_item list option"
  qr_journeys :: "(uuid \<times> journey_item list) list option"
  qr_promo_code :: "string option"
  qr_ancillaries :: "ancillary_line list"

definition normalize_journeys :: "uuid option \<Rightarrow> 'i list option \<Rightarrow> (uuid \<times> 'i list) list option \<Rightarrow>
    api_error + (uuid \<times> 'i list) list" where
  "normalize_journeys trip_id items journeys = (case (trip_id, items, journeys) of
      (None, None, Some js) \<Rightarrow>
        if js = [] \<or> list_ex (\<lambda>(_, is). is = []) js then Inl BadRequest
        else if length js > 8 then Inl BadRequest else Inr js
    | (Some trip, Some is, None) \<Rightarrow> if is = [] then Inl BadRequest else Inr [(trip, is)]
    | _ \<Rightarrow> Inl BadRequest)"

record quote_response =
  qs_currency :: string
  qs_context :: journey_ctx
  qs_items :: "priced_item list"
  qs_ancillaries :: "priced_ancillary list"
  qs_total_minor :: int
  qs_expires_at :: int
  qs_quote_token :: string

definition token_item :: "priced_item \<Rightarrow> quote_token_item" where
  "token_item p = \<lparr>qi_trip_id = pi_trip_id p, qi_unit_code = pi_unit_code p, qi_origin = pi_origin p,
     qi_destination = pi_destination p, qi_quantity = pi_quantity p, qi_passenger_type = pi_passenger_type p,
     qi_price_minor = qt_total_minor (pi_quote p)\<rparr>"

definition quote_token_of :: "instant \<Rightarrow> priced_item list \<Rightarrow> priced_ancillary list \<Rightarrow> quote_token" where
  "quote_token_of now priced anc =
    \<lparr>qk_currency = qt_currency (pi_quote (hd priced)),
     qk_total_minor = i64 (i64 (sum_list (map (\<lambda>p. qt_total_minor (pi_quote p)) priced)) + i64 (sum_list (map pc_total_minor anc))),
     qk_exp = timestamp now + QUOTE_TTL_SECONDS,
     qk_items = map token_item priced,
     qk_ancillaries = map (\<lambda>a. \<lparr>qa_line = pc_line a, qa_total_minor = pc_total_minor a\<rparr>) anc\<rparr>"

definition priceable_of :: "(uuid \<times> journey_item list) list \<Rightarrow> priceable_item list" where
  "priceable_of journeys = concat (map (\<lambda>(trip, items). map (\<lambda>i. \<lparr>pb_trip_id = trip, pb_unit_code = ji_unit_code i,
     pb_origin = ji_origin i, pb_destination = ji_destination i, pb_quantity = ji_quantity i,
     pb_passenger_type = ji_passenger_type i\<rparr>) items) journeys)"

text \<open>\<open>priced[0]\<close> is there: every journey of a normalised request has an item.\<close>

definition create_quote :: "quote_libs \<Rightarrow> ('j \<Rightarrow> string + fare_rule_set) \<Rightarrow> pricing_engine \<Rightarrow> string \<Rightarrow> instant \<Rightarrow>
    'j fare_rules_row list \<Rightarrow> ancillary_row list \<Rightarrow> db \<Rightarrow> quote_request \<Rightarrow> api_error + quote_response" where
  "create_quote libs parse price secret now fares catalog d req =
    and_then (normalize_journeys (qr_trip_id req) (qr_items req) (qr_journeys req)) (\<lambda>journeys.
    let context = journey_context journeys in
    and_then (price_items parse price fares now d (priceable_of journeys) (qr_promo_code req) context) (\<lambda>priced.
    and_then (price_lines catalog (qr_ancillaries req) (map fst journeys)) (\<lambda>anc.
      if priced = [] then Inl Panicked
      else
        let token = quote_token_of now priced anc
        in Inr \<lparr>qs_currency = qk_currency token, qs_context = context, qs_items = priced, qs_ancillaries = anc,
             qs_total_minor = qk_total_minor token, qs_expires_at = qk_exp token,
             qs_quote_token = sign_quote libs secret token\<rparr>)))"

section \<open>A quote is what was quoted, for five minutes\<close>

text \<open>What the libraries document: decoding undoes encoding, and base64 has no full stop.\<close>

definition quote_codec :: "quote_libs \<Rightarrow> string \<Rightarrow> quote_token \<Rightarrow> bool" where
  "quote_codec libs secret token \<longleftrightarrow> ql_from_slice libs (ql_to_vec libs token) = Some token
     \<and> list_all (\<lambda>s. ql_unb64 libs (ql_b64 libs s) = Some s \<and> CHR ''.'' \<notin> set (ql_b64 libs s))
          [ql_to_vec libs token, ql_hmac libs secret (ql_b64 libs (ql_to_vec libs token))]"

lemma verify_signed:
  assumes "quote_codec libs secret token"
  shows "verify_quote libs now secret (sign_quote libs secret token)
    = (if qk_exp token > timestamp now then Some token else None)"
proof -
  let ?payload = "ql_b64 libs (ql_to_vec libs token)"
  have "\<forall>c\<in>set ?payload. c \<noteq> CHR ''.''" using assms by (auto simp: quote_codec_def)
  then have "split_once (CHR ''.'') (sign_quote libs secret token) = Some (?payload, ql_b64 libs (ql_hmac libs secret ?payload))"
    by (simp add: sign_quote_def split_once_def Let_def)
  with assms show ?thesis by (simp add: verify_quote_def quote_codec_def)
qed

text \<open>C13: The token of a quote is honoured for five minutes: verifying it with the same secret, at any time before
  then, gives back exactly the prices that were computed, and from then on nothing.\<close>
theorem quote_honoured_until_expiry:
  assumes "create_quote libs parse price secret now fares catalog d req = Inr resp"
    and "quote_codec libs secret (quote_token_of now (qs_items resp) (qs_ancillaries resp))"
  shows "verify_quote libs later secret (qs_quote_token resp)
    = (if timestamp later < timestamp now + 300 then Some (quote_token_of now (qs_items resp) (qs_ancillaries resp)) else None)
    \<and> qs_total_minor resp = qk_total_minor (quote_token_of now (qs_items resp) (qs_ancillaries resp))"
proof -
  let ?t = "quote_token_of now (qs_items resp) (qs_ancillaries resp)"
  from assms(1) have "qs_quote_token resp = sign_quote libs secret ?t" "qs_total_minor resp = qk_total_minor ?t"
    by (auto simp: create_quote_def Let_def split: if_splits)
  moreover have "qk_exp ?t = timestamp now + 300" by (simp add: quote_token_of_def QUOTE_TTL_SECONDS_def)
  ultimately show ?thesis using verify_signed [OF assms(2)] by simp
qed

text \<open>A quote for the sample seat at a hundred minor units, and a codec that knows its token.\<close>

definition demo_quote_rules :: fare_rule_set where
  "demo_quote_rules = demo_rules\<lparr>fs_base_fare_per_segment := [(''Y'', 100), (''GA'', 30)]\<rparr>"

definition demo_quote_fares :: "fare_rule_set fare_rules_row list" where
  "demo_quote_fares = [\<lparr>fr_id = Uuid 1, fr_active = True, fr_rules = demo_quote_rules, fr_created_at = 0\<rparr>]"

definition demo_quote_request :: quote_request where
  "demo_quote_request = \<lparr>qr_trip_id = Some sample_trip_id,
     qr_items = Some [\<lparr>ji_unit_code = ''12A'', ji_origin = ''A'', ji_destination = ''C'', ji_quantity = None, ji_passenger_type = Some ''adult''\<rparr>],
     qr_journeys = None, qr_promo_code = None, qr_ancillaries = []\<rparr>"

definition toy_quote_libs :: "quote_token \<Rightarrow> quote_libs" where
  "toy_quote_libs token = \<lparr>ql_to_vec = (\<lambda>_. ''q''), ql_from_slice = (\<lambda>_. Some token), ql_b64 = id, ql_unb64 = Some,
     ql_hmac = (\<lambda>secret s. secret @ s)\<rparr>"

lemma toy_quote_codec: "CHR ''.'' \<notin> set secret \<Longrightarrow> quote_codec (toy_quote_libs token) secret token"
  by (simp add: quote_codec_def toy_quote_libs_def)

theorem quote_honoured_until_expiry_witness:
  "case create_quote (toy_quote_libs (quote_token_of 0 [] [])) Inr native_price ''k'' 0 demo_quote_fares [] sample_db demo_quote_request of
     Inl _ \<Rightarrow> False
   | Inr r \<Rightarrow> (case create_quote (toy_quote_libs (quote_token_of 0 (qs_items r) (qs_ancillaries r))) Inr native_price ''k'' 0
         demo_quote_fares [] sample_db demo_quote_request of
         Inl _ \<Rightarrow> False
       | Inr resp \<Rightarrow> verify_quote (toy_quote_libs (quote_token_of 0 (qs_items r) (qs_ancillaries r))) (seconds 299) ''k'' (qs_quote_token resp)
           = Some (quote_token_of 0 (qs_items resp) (qs_ancillaries resp)))"
proof -
  let ?mk = "\<lambda>token. create_quote (toy_quote_libs token) Inr native_price ''k'' 0 demo_quote_fares [] sample_db demo_quote_request"
  have "case create_quote (toy_quote_libs (quote_token_of 0 [] [])) Inr native_price ''k'' 0 demo_quote_fares [] sample_db demo_quote_request of
      Inl _ \<Rightarrow> False | Inr _ \<Rightarrow> True" by code_simp
  then obtain r where r: "?mk (quote_token_of 0 [] []) = Inr r" by (auto split: sum.splits)
  have same: "\<exists>resp. ?mk token = Inr resp \<and> qs_items resp = qs_items r \<and> qs_ancillaries resp = qs_ancillaries r" for token
    using r by (auto simp: create_quote_def Let_def split: if_splits)
  let ?token = "quote_token_of 0 (qs_items r) (qs_ancillaries r)"
  from same [of ?token] obtain resp where resp: "?mk ?token = Inr resp" "qs_items resp = qs_items r" "qs_ancillaries resp = qs_ancillaries r"
    by blast
  have "quote_codec (toy_quote_libs ?token) ''k'' (quote_token_of 0 (qs_items resp) (qs_ancillaries resp))"
    unfolding resp(2,3) by (rule toy_quote_codec) simp
  from quote_honoured_until_expiry [OF resp(1) this, of "seconds 299"] r resp(1) show ?thesis
    by (simp add: timestamp_def seconds_def)
qed

end
