(* ===== verification/Access.thy ===== *)
theory Access
  imports Api_Error Texts Ticket_Token
begin

text \<open>
  Who may do what: \<open>crates/lulan-api/src/identity.rs\<close> (customers and the identity port), \<open>auth.rs\<close> (API keys),
  \<open>staff.rs\<close> and the staff endpoints of \<open>admin.rs\<close>. Decoding a JWT, SHA-256, HMAC, base64 and the bytes of a
  uuid are third-party: the records \<open>jwt_libs\<close> and \<open>security_libs\<close>. Which provider the environment
  selects and its refreshes are in \<open>Identity_Provider\<close>, the audit log in \<open>Back_Office\<close>; the texts of errors are not modelled.
\<close>

section \<open>Identity providers\<close>

record subject =
  sb_issuer :: string
  sb_subject :: string
  sb_email :: "string option"

datatype algorithm = HS256 | HS384 | HS512 | ES256 | ES384 | RS256 | RS384 | RS512 | PS256 | PS384 | PS512 | EdDSA

datatype key_material = RSA | EllipticCurve | OctetKeyPair | OctetKey

record jwk =
  jw_kid :: "string option"
  jw_key_algorithm :: "string option"
  jw_material :: key_material

record jwt_claims =
  jc_iss :: string
  jc_sub :: string
  jc_email :: "string option"

datatype decoding_key = SecretKey string | JwkKey jwk

record jwt_validation =
  jv_algorithm :: algorithm
  jv_issuer :: string
  jv_audience :: "string option"

text \<open>
  \<open>jsonwebtoken\<close>: the algorithm and key id of a token's header, the algorithm a text names, whether a key can
  be built from a JWK, and \<open>decode\<close>.
\<close>

record jwt_libs =
  jl_header :: "string \<Rightarrow> (algorithm \<times> string option) option"
  jl_parse_alg :: "string \<Rightarrow> algorithm option"
  jl_from_jwk :: "jwk \<Rightarrow> bool"
  jl_decode :: "string \<Rightarrow> decoding_key \<Rightarrow> jwt_validation \<Rightarrow> jwt_claims option"

definition subject_of :: "jwt_claims \<Rightarrow> subject" where
  "subject_of c = \<lparr>sb_issuer = jc_iss c, sb_subject = jc_sub c, sb_email = jc_email c\<rparr>"

definition hs_verify :: "jwt_libs \<Rightarrow> string \<Rightarrow> string \<Rightarrow> string \<Rightarrow> subject option" where
  "hs_verify libs issuer secret token =
     map_option subject_of (jl_decode libs token (SecretKey secret) \<lparr>jv_algorithm = HS256, jv_issuer = issuer, jv_audience = None\<rparr>)"

definition alg_family_matches :: "algorithm \<Rightarrow> key_material \<Rightarrow> bool" where
  "alg_family_matches alg key = (case key of
      RSA \<Rightarrow> List.member [RS256, RS384, RS512, PS256, PS384, PS512] alg
    | EllipticCurve \<Rightarrow> List.member [ES256, ES384] alg
    | OctetKeyPair \<Rightarrow> List.member [EdDSA] alg
    | OctetKey \<Rightarrow> List.member [HS256, HS384, HS512] alg)"

definition jwk_algorithm :: "jwt_libs \<Rightarrow> algorithm \<Rightarrow> jwk \<Rightarrow> algorithm option" where
  "jwk_algorithm libs header_alg k = (case jw_key_algorithm k of
      Some alg \<Rightarrow> jl_parse_alg libs alg
    | None \<Rightarrow> if alg_family_matches header_alg (jw_material k) then Some header_alg else None)"

definition jwks_verify :: "jwt_libs \<Rightarrow> string \<Rightarrow> string option \<Rightarrow> jwk list \<Rightarrow> string \<Rightarrow> subject option" where
  "jwks_verify libs issuer audience keys token =
    Option.bind (jl_header libs token) (\<lambda>(header_alg, kid_opt).
    Option.bind kid_opt (\<lambda>kid.
    Option.bind (List.find (\<lambda>k. jw_kid k = Some kid) keys) (\<lambda>k.
    Option.bind (jwk_algorithm libs header_alg k) (\<lambda>alg.
      if \<not> jl_from_jwk libs k then None
      else map_option subject_of (jl_decode libs token (JwkKey k)
        \<lparr>jv_algorithm = alg, jv_issuer = issuer, jv_audience = audience\<rparr>)))))"

text \<open>The cached set: \<open>connect\<close> refuses an empty one, a refresh that fails or brings none keeps the last.\<close>

definition connect :: "jwk list option \<Rightarrow> jwk list option" where
  "connect fetched = (case fetched of Some keys \<Rightarrow> if keys = [] then None else Some keys | None \<Rightarrow> None)"

definition refresh_jwks :: "jwk list option \<Rightarrow> jwk list \<Rightarrow> jwk list" where
  "refresh_jwks fetched keys = (case fetched of Some fresh \<Rightarrow> if fresh \<noteq> [] then fresh else keys | None \<Rightarrow> keys)"

text \<open>The configured port, if any: what its \<open>verify\<close> makes of a token.\<close>

type_synonym identity_port = "(string \<Rightarrow> subject option) option"

definition bearer_subject :: "identity_port \<Rightarrow> headers \<Rightarrow> subject option" where
  "bearer_subject identity headers =
    Option.bind identity (\<lambda>verify.
    Option.bind (header_str headers ''authorization'') (\<lambda>auth.
    Option.bind (strip_prefix ''Bearer '' auth) (\<lambda>token.
      if is_prefix ''llk_'' token then None else verify token)))"

section \<open>Customers\<close>

record customer_row =
  cs_id :: uuid
  cs_issuer :: string
  cs_subject :: string
  cs_email :: "string option"

definition customer_of :: "subject \<Rightarrow> customer_row \<Rightarrow> bool" where
  "customer_of s r \<longleftrightarrow> cs_issuer r = sb_issuer s \<and> cs_subject r = sb_subject s"

definition find_customer :: "subject \<Rightarrow> customer_row list \<Rightarrow> uuid option" where
  "find_customer s rows = map_option cs_id (List.find (customer_of s) rows)"

definition upsert_customer :: "uuid \<Rightarrow> subject \<Rightarrow> customer_row list \<Rightarrow> customer_row list \<times> (db_error + uuid)" where
  "upsert_customer new_id s rows =
    (case find_customer s rows of
       Some i \<Rightarrow> (update_where (customer_of s) (\<lambda>r. r\<lparr>cs_email := (case sb_email s of Some e \<Rightarrow> Some e | None \<Rightarrow> cs_email r)\<rparr>) rows, Inr i)
     | None \<Rightarrow>
         (case insert_unique cs_id \<lparr>cs_id = new_id, cs_issuer = sb_issuer s, cs_subject = sb_subject s, cs_email = sb_email s\<rparr> rows of
            None \<Rightarrow> (rows, Inl (UniqueViolation ''customers_pkey''))
          | Some rows' \<Rightarrow> (rows', Inr new_id)))"

definition customer_auth :: "identity_port \<Rightarrow> headers \<Rightarrow> uuid \<Rightarrow> customer_row list \<Rightarrow> customer_row list \<times> (api_error + uuid)" where
  "customer_auth identity headers new_id rows =
    (case bearer_subject identity headers of
       None \<Rightarrow> (rows, Inl Unauthorized)
     | Some s \<Rightarrow> (case upsert_customer new_id s rows of (rows', r) \<Rightarrow> (rows', map_err (\<lambda>_. Internal) r)))"

text \<open>Retrieval tokens of guest orders.\<close>

record security_libs =
  sl_sha256 :: "string \<Rightarrow> bytes"
  sl_hmac :: "string \<Rightarrow> string \<Rightarrow> bytes"
  sl_b64 :: "bytes \<Rightarrow> string"
  sl_uuid_bytes :: "uuid \<Rightarrow> string"

definition retrieval_token :: "security_libs \<Rightarrow> string \<Rightarrow> uuid \<Rightarrow> string" where
  "retrieval_token libs secret order_id = sl_b64 libs (sl_hmac libs secret (''order-retrieval:'' @ sl_uuid_bytes libs order_id))"

definition verify_retrieval_token :: "security_libs \<Rightarrow> string \<Rightarrow> uuid \<Rightarrow> string \<Rightarrow> bool" where
  "verify_retrieval_token libs secret order_id token = constant_time_eq (retrieval_token libs secret order_id) token"

record customer_order =
  co_order_id :: uuid
  co_trip_ids :: "uuid list"
  co_status :: string
  co_total_minor :: int
  co_currency :: string
  co_created_at :: instant

definition my_orders :: "uuid \<Rightarrow> db \<Rightarrow> customer_order list" where
  "my_orders customer_id d =
     map (\<lambda>r. \<lparr>co_order_id = ord_id r,
         co_trip_ids = sort (remdups (map oi_trip (filter (\<lambda>oi. oi_order oi = ord_id r) (order_items d)))),
         co_status = ord_status r, co_total_minor = ord_total_minor r, co_currency = ord_currency r, co_created_at = ord_created_at r\<rparr>)
       (take 100 (sort_key (\<lambda>r. - ord_created_at r) (filter (\<lambda>r. ord_customer r = Some customer_id) (orders d))))"

definition claim_order :: "security_libs \<Rightarrow> string \<Rightarrow> instant \<Rightarrow> uuid \<Rightarrow> uuid \<Rightarrow> string \<Rightarrow> db \<Rightarrow> db \<times> (api_error + unit)" where
  "claim_order libs secret now customer_id order_id token d =
    (if \<not> verify_retrieval_token libs secret order_id token then (d, Inl Forbidden)
     else
       let guest = (\<lambda>r. ord_id r = order_id \<and> ord_customer r = None)
       in if count_where guest (orders d) = 0 then (d, Inl ApiConflict)
          else (d\<lparr>orders := update_where guest (\<lambda>r. r\<lparr>ord_customer := Some customer_id, ord_updated_at := now\<rparr>) (orders d)\<rparr>, Inr ()))"

section \<open>API keys\<close>

datatype api_role = OperatorAdmin | Integration | Validator

definition api_role_as_str :: "api_role \<Rightarrow> string" where
  "api_role_as_str r = (case r of OperatorAdmin \<Rightarrow> ''operator_admin'' | Integration \<Rightarrow> ''integration'' | Validator \<Rightarrow> ''validator'')"

definition api_role_parse :: "string \<Rightarrow> api_role option" where
  "api_role_parse s = (if s = ''operator_admin'' then Some OperatorAdmin else if s = ''integration'' then Some Integration
     else if s = ''validator'' then Some Validator else None)"

record api_key_row =
  ky_id :: uuid
  ky_hash :: bytes
  ky_label :: string
  ky_role :: string
  ky_active :: bool

record api_key_auth =
  ka_key_id :: uuid
  ka_role :: api_role

definition bearer_or_api_key :: "headers \<Rightarrow> string option" where
  "bearer_or_api_key headers =
    (if map_of headers ''x-api-key'' \<noteq> None then header_str headers ''x-api-key''
     else
       Option.bind (header_str headers ''authorization'') (\<lambda>auth.
       Option.bind (strip_prefix ''Bearer '' auth) (\<lambda>token. if is_prefix ''llk_'' token then Some token else None)))"

definition authenticate :: "security_libs \<Rightarrow> string \<Rightarrow> api_key_row list \<Rightarrow> api_error + api_key_auth option" where
  "authenticate libs key rows =
    (case List.find (\<lambda>r. ky_hash r = sl_sha256 libs key \<and> ky_active r) rows of
       None \<Rightarrow> Inr None
     | Some r \<Rightarrow> and_then (ok_or Panicked (api_role_parse (ky_role r))) (\<lambda>role. Inr (Some \<lparr>ka_key_id = ky_id r, ka_role = role\<rparr>)))"

text \<open>A key that is presented must be known.\<close>

definition known_key :: "security_libs \<Rightarrow> api_key_row list \<Rightarrow> string option \<Rightarrow> api_error + api_key_auth" where
  "known_key libs rows key =
    and_then (ok_or Unauthorized key) (\<lambda>key.
    and_then (authenticate libs key rows) (\<lambda>auth. ok_or Unauthorized auth))"

definition with_role :: "api_role list \<Rightarrow> api_error + api_key_auth \<Rightarrow> api_error + api_key_auth" where
  "with_role allowed r = and_then r (\<lambda>auth. if List.member allowed (ka_role auth) then Inr auth else Inl Forbidden)"

definition integration_auth :: "security_libs \<Rightarrow> api_key_row list \<Rightarrow> headers \<Rightarrow> api_error + api_key_auth" where
  "integration_auth libs rows headers = with_role [Integration, OperatorAdmin] (known_key libs rows (bearer_or_api_key headers))"

definition device_auth :: "security_libs \<Rightarrow> api_key_row list \<Rightarrow> headers \<Rightarrow> api_error + api_key_auth" where
  "device_auth libs rows headers = with_role [Validator, OperatorAdmin] (known_key libs rows (bearer_or_api_key headers))"

text \<open>\<open>headers.get(a).or_else(|| headers.get(b))\<close>, then \<open>to_str\<close>, with an optional \<open>Bearer\<close> prefix.\<close>

definition raw_credential :: "headers \<Rightarrow> string option" where
  "raw_credential headers =
     map_option (\<lambda>raw. case strip_prefix ''Bearer '' raw of Some key \<Rightarrow> key | None \<Rightarrow> raw)
       (if map_of headers ''x-api-key'' \<noteq> None then header_str headers ''x-api-key'' else header_str headers ''authorization'')"

definition require_integration :: "security_libs \<Rightarrow> api_key_row list \<Rightarrow> headers \<Rightarrow> api_error + api_key_auth" where
  "require_integration libs rows headers =
     with_role [Integration, OperatorAdmin] (known_key libs rows
       (Option.bind (raw_credential headers) (\<lambda>key. if is_prefix ''llk_'' key then Some key else None)))"

section \<open>Staff\<close>

datatype staff_role = Admin | Ops | Support

definition staff_role_as_str :: "staff_role \<Rightarrow> string" where
  "staff_role_as_str r = (case r of Admin \<Rightarrow> ''admin'' | Ops \<Rightarrow> ''ops'' | Support \<Rightarrow> ''support'')"

definition staff_role_parse :: "string \<Rightarrow> staff_role option" where
  "staff_role_parse s = (if s = ''admin'' then Some Admin else if s = ''ops'' then Some Ops
     else if s = ''support'' then Some Support else None)"

record staff_row =
  sf_id :: uuid
  sf_issuer :: string
  sf_subject :: string
  sf_email :: "string option"
  sf_display_name :: string
  sf_role :: string
  sf_active :: bool

record staff_member =
  sm_staff_id :: uuid
  sm_display_name :: string
  sm_role :: staff_role

definition staff_of :: "string \<Rightarrow> string \<Rightarrow> staff_row \<Rightarrow> bool" where
  "staff_of issuer subj r \<longleftrightarrow> sf_issuer r = issuer \<and> sf_subject r = subj"

definition resolve_staff :: "identity_port \<Rightarrow> headers \<Rightarrow> staff_row list \<Rightarrow> api_error + staff_member option" where
  "resolve_staff identity headers staff =
    (case bearer_subject identity headers of
       None \<Rightarrow> Inr None
     | Some s \<Rightarrow>
         (case List.find (\<lambda>r. staff_of (sb_issuer s) (sb_subject s) r \<and> sf_active r) staff of
            None \<Rightarrow> Inr None
          | Some r \<Rightarrow> and_then (ok_or Panicked (staff_role_parse (sf_role r))) (\<lambda>role.
              Inr (Some \<lparr>sm_staff_id = sf_id r, sm_display_name = sf_display_name r, sm_role = role\<rparr>))))"

definition require_staff :: "identity_port \<Rightarrow> headers \<Rightarrow> staff_row list \<Rightarrow> staff_role list \<Rightarrow> api_error + staff_member" where
  "require_staff identity headers staff allowed =
    (if bearer_subject identity headers = None then Inl Unauthorized
     else
       and_then (resolve_staff identity headers staff) (\<lambda>found.
       and_then (ok_or Forbidden found) (\<lambda>member.
         if sm_role member = Admin \<or> List.member allowed (sm_role member) then Inr member else Inl Forbidden)))"

definition any_staff :: "identity_port \<Rightarrow> headers \<Rightarrow> staff_row list \<Rightarrow> api_error + staff_member" where
  "any_staff identity headers staff = require_staff identity headers staff [Ops, Support]"

definition ops_staff :: "identity_port \<Rightarrow> headers \<Rightarrow> staff_row list \<Rightarrow> api_error + staff_member" where
  "ops_staff identity headers staff = require_staff identity headers staff [Ops]"

definition support_staff :: "identity_port \<Rightarrow> headers \<Rightarrow> staff_row list \<Rightarrow> api_error + staff_member" where
  "support_staff identity headers staff = require_staff identity headers staff [Support]"

definition admin_staff :: "identity_port \<Rightarrow> headers \<Rightarrow> staff_row list \<Rightarrow> api_error + staff_member" where
  "admin_staff identity headers staff = require_staff identity headers staff []"

text \<open>The admin surface takes an \<open>operator_admin\<close> key or an admin of the staff.\<close>

datatype actor = KeyActor uuid | StaffActor uuid

definition admin_auth :: "security_libs \<Rightarrow> identity_port \<Rightarrow> api_key_row list \<Rightarrow> staff_row list \<Rightarrow> headers \<Rightarrow> api_error + actor" where
  "admin_auth libs identity rows staff headers =
    (case bearer_or_api_key headers of
       Some key \<Rightarrow> and_then (with_role [OperatorAdmin] (known_key libs rows (Some key))) (\<lambda>auth. Inr (KeyActor (ka_key_id auth)))
     | None \<Rightarrow>
         if bearer_subject identity headers = None then Inl Unauthorized
         else
           and_then (resolve_staff identity headers staff) (\<lambda>found. case found of
              Some member \<Rightarrow> if sm_role member = Admin then Inr (StaffActor (sm_staff_id member)) else Inl Forbidden
            | None \<Rightarrow> Inl Forbidden))"

section \<open>Managing credentials\<close>

text \<open>\<open>generate_key\<close> is \<open>llk_\<close> and the hex texts of two fresh uuids, \<open>secret\<close> here.\<close>

definition create_key :: "security_libs \<Rightarrow> uuid \<Rightarrow> string \<Rightarrow> string \<Rightarrow> string \<Rightarrow> api_key_row list \<Rightarrow>
    api_key_row list \<times> (api_error + string)" where
  "create_key libs new_id secret label role_text rows =
    (case api_role_parse role_text of
       None \<Rightarrow> (rows, Inl BadRequest)
     | Some role \<Rightarrow>
         if trim label = [] then (rows, Inl BadRequest)
         else
           let key = ''llk_'' @ secret;
               row = \<lparr>ky_id = new_id, ky_hash = sl_sha256 libs key, ky_label = trim label, ky_role = api_role_as_str role, ky_active = True\<rparr>
           in if list_ex (\<lambda>r. ky_id r = new_id \<or> ky_hash r = ky_hash row) rows then (rows, Inl Internal)
              else (rows @ [row], Inr key))"

definition revoke_key :: "uuid \<Rightarrow> api_key_row list \<Rightarrow> api_key_row list \<times> (api_error + uuid)" where
  "revoke_key i rows =
    (if count_where (\<lambda>r. ky_id r = i) rows = 0 then (rows, Inl ApiNotFound)
     else (update_where (\<lambda>r. ky_id r = i) (\<lambda>r. r\<lparr>ky_active := False\<rparr>) rows, Inr i))"

definition bootstrap_admin_key :: "security_libs \<Rightarrow> uuid \<Rightarrow> string \<Rightarrow> api_key_row list \<Rightarrow> api_key_row list" where
  "bootstrap_admin_key libs new_id key rows =
    (let h = sl_sha256 libs key
     in if list_ex (\<lambda>r. ky_hash r = h) rows then update_where (\<lambda>r. ky_hash r = h) (\<lambda>r. r\<lparr>ky_active := True\<rparr>) rows
        else if list_ex (\<lambda>r. ky_id r = new_id) rows then rows
        else rows @ [\<lparr>ky_id = new_id, ky_hash = h, ky_label = ''bootstrap'', ky_role = ''operator_admin'', ky_active = True\<rparr>])"

record enroll_request =
  er_issuer :: "string option"
  er_subject :: string
  er_display_name :: string
  er_email :: "string option"
  er_role :: string

definition enroll_staff :: "string option \<Rightarrow> uuid \<Rightarrow> enroll_request \<Rightarrow> staff_row list \<Rightarrow> staff_row list \<times> (api_error + uuid)" where
  "enroll_staff idp_issuer new_id req rows =
    (case (staff_role_parse (er_role req), if er_issuer req \<noteq> None then er_issuer req else idp_issuer) of
       (None, _) \<Rightarrow> (rows, Inl BadRequest)
     | (Some _, None) \<Rightarrow> (rows, Inl BadRequest)
     | (Some role, Some issuer) \<Rightarrow>
         let subj = trim (er_subject req); name = trim (er_display_name req) in
         if subj = [] \<or> name = [] then (rows, Inl BadRequest)
         else
           (case List.find (staff_of issuer subj) rows of
              Some r \<Rightarrow> (update_where (staff_of issuer subj) (\<lambda>r. r\<lparr>sf_role := staff_role_as_str role, sf_display_name := name,
                  sf_email := er_email req, sf_active := True\<rparr>) rows, Inr (sf_id r))
            | None \<Rightarrow>
                if list_ex (\<lambda>r. sf_id r = new_id) rows then (rows, Inl Internal)
                else (rows @ [\<lparr>sf_id = new_id, sf_issuer = issuer, sf_subject = subj, sf_email = er_email req,
                     sf_display_name = name, sf_role = staff_role_as_str role, sf_active = True\<rparr>], Inr new_id)))"

text \<open>The listing parses every role with an \<open>expect\<close>.\<close>

definition list_staff :: "staff_row list \<Rightarrow> api_error + (staff_row \<times> staff_role) list" where
  "list_staff rows = try_map (\<lambda>r. and_then (ok_or Panicked (staff_role_parse (sf_role r))) (\<lambda>role. Inr (r, role))) rows"

definition revoke_staff :: "uuid \<Rightarrow> staff_row list \<Rightarrow> staff_row list \<times> (api_error + uuid)" where
  "revoke_staff i rows =
    (if count_where (\<lambda>r. sf_id r = i) rows = 0 then (rows, Inl ApiNotFound)
     else (update_where (\<lambda>r. sf_id r = i) (\<lambda>r. r\<lparr>sf_active := False\<rparr>) rows, Inr i))"

definition bootstrap_admin_staff :: "uuid \<Rightarrow> string \<Rightarrow> staff_row list \<Rightarrow> staff_row list option" where
  "bootstrap_admin_staff new_id spec rows =
    map_option (\<lambda>(issuer, subj).
      if list_ex (staff_of issuer subj) rows
      then update_where (staff_of issuer subj) (\<lambda>r. r\<lparr>sf_active := True, sf_role := ''admin''\<rparr>) rows
      else if list_ex (\<lambda>r. sf_id r = new_id) rows then rows
      else rows @ [\<lparr>sf_id = new_id, sf_issuer = issuer, sf_subject = subj, sf_email = None,
         sf_display_name = ''bootstrap admin'', sf_role = ''admin'', sf_active = True\<rparr>])
      (split_once (CHR ''|'') spec)"

section \<open>Histories of the credential tables\<close>

datatype credential_action =
    MintKey uuid string string string | RevokeKey uuid | BootKey uuid string
  | EnrollStaff uuid enroll_request | RevokeStaff uuid | BootStaff uuid string

record credentials =
  cr_keys :: "api_key_row list"
  cr_staff :: "staff_row list"

definition credential_exec :: "security_libs \<Rightarrow> string option \<Rightarrow> credential_action \<Rightarrow> credentials \<Rightarrow> credentials" where
  "credential_exec libs idp a s = (case a of
      MintKey i secret label role \<Rightarrow> s\<lparr>cr_keys := fst (create_key libs i secret label role (cr_keys s))\<rparr>
    | RevokeKey i \<Rightarrow> s\<lparr>cr_keys := fst (revoke_key i (cr_keys s))\<rparr>
    | BootKey i key \<Rightarrow> s\<lparr>cr_keys := bootstrap_admin_key libs i key (cr_keys s)\<rparr>
    | EnrollStaff i req \<Rightarrow> s\<lparr>cr_staff := fst (enroll_staff idp i req (cr_staff s))\<rparr>
    | RevokeStaff i \<Rightarrow> s\<lparr>cr_staff := fst (revoke_staff i (cr_staff s))\<rparr>
    | BootStaff i spec \<Rightarrow> (case bootstrap_admin_staff i spec (cr_staff s) of Some rows \<Rightarrow> s\<lparr>cr_staff := rows\<rparr> | None \<Rightarrow> s))"

definition credential_run :: "security_libs \<Rightarrow> string option \<Rightarrow> credential_action list \<Rightarrow> credentials \<Rightarrow> credentials" where
  "credential_run libs idp = fold (credential_exec libs idp)"

text \<open>Stored roles parse: the \<open>CHECK\<close> the \<open>expect\<close>s rely on.\<close>

definition roles_parse :: "credentials \<Rightarrow> bool" where
  "roles_parse s \<longleftrightarrow> list_all (\<lambda>r. api_role_parse (ky_role r) \<noteq> None) (cr_keys s)
     \<and> list_all (\<lambda>r. staff_role_parse (sf_role r) \<noteq> None) (cr_staff s)"

lemma ok_or_eq_Inl [simp]: "ok_or e r = Inl e' \<longleftrightarrow> r = None \<and> e' = e"
  by (cases r) auto

lemma role_texts [simp]: "api_role_parse (api_role_as_str r) = Some r" "staff_role_parse (staff_role_as_str r') = Some r'"
  by (cases r; cases r'; simp add: api_role_parse_def api_role_as_str_def staff_role_parse_def staff_role_as_str_def)+

lemma update_where_all: "list_all P rows \<Longrightarrow> (\<And>r. P r \<Longrightarrow> Q r \<Longrightarrow> P (f r)) \<Longrightarrow> list_all P (update_where Q f rows)"
  by (induction rows) auto

lemma role_literals [simp]: "api_role_parse ''operator_admin'' = Some OperatorAdmin" "staff_role_parse ''admin'' = Some Admin"
  by (simp_all add: api_role_parse_def staff_role_parse_def)

lemma roles_parse_exec: "roles_parse s \<Longrightarrow> roles_parse (credential_exec libs idp a s)"
proof (cases a)
  case (EnrollStaff i req)
  assume "roles_parse s"
  with EnrollStaff show ?thesis
    by (auto simp: roles_parse_def credential_exec_def enroll_staff_def Let_def split: option.splits intro!: update_where_all)
qed (auto simp: roles_parse_def credential_exec_def create_key_def revoke_key_def bootstrap_admin_key_def revoke_staff_def
    bootstrap_admin_staff_def Let_def split: option.splits intro!: update_where_all)

lemma roles_parse_run: "roles_parse s \<Longrightarrow> roles_parse (credential_run libs idp as s)"
  by (induction as arbitrary: s) (simp_all add: credential_run_def roles_parse_exec)

lemma authenticate_no_panic: "roles_parse s \<Longrightarrow> authenticate libs key (cr_keys s) \<noteq> Inl Panicked"
  by (auto simp: authenticate_def roles_parse_def list_all_iff split: option.splits dest: find_Some_in)

lemma resolve_no_panic: "roles_parse s \<Longrightarrow> resolve_staff identity headers (cr_staff s) \<noteq> Inl Panicked"
  by (auto simp: resolve_staff_def roles_parse_def list_all_iff split: option.splits dest: find_Some_in)

lemma known_key_no_panic: "roles_parse s \<Longrightarrow> known_key libs (cr_keys s) key \<noteq> Inl Panicked"
  using authenticate_no_panic [of s libs] by (auto simp: known_key_def split: option.splits)

definition answers :: "api_error + 'a \<Rightarrow> bool" where
  "answers r \<longleftrightarrow> r \<noteq> Inl Panicked"

text \<open>C39: Whatever credentials are minted, enrolled, bootstrapped and revoked, from empty tables on, every stored
  role is one the code parses: no guard and no listing dies on an \<open>expect\<close>.\<close>
theorem guards_never_panic:
  "let s = credential_run libs idp as \<lparr>cr_keys = [], cr_staff = []\<rparr>
   in answers (admin_auth libs identity (cr_keys s) (cr_staff s) headers)
    \<and> answers (integration_auth libs (cr_keys s) headers) \<and> answers (device_auth libs (cr_keys s) headers)
    \<and> answers (require_integration libs (cr_keys s) headers)
    \<and> answers (require_staff identity headers (cr_staff s) allowed) \<and> answers (list_staff (cr_staff s))"
proof -
  define s where "s = credential_run libs idp as \<lparr>cr_keys = [], cr_staff = []\<rparr>"
  have s: "roles_parse s" unfolding s_def by (rule roles_parse_run) (simp add: roles_parse_def)
  note no_panic = known_key_no_panic [OF s] resolve_no_panic [OF s]
  have "answers (list_staff (cr_staff s))"
    using s by (auto simp: answers_def list_staff_def roles_parse_def list_all_iff split: option.splits dest!: try_map_Inl)
  moreover have "answers (require_staff identity headers (cr_staff s) allowed)"
    using no_panic by (auto simp: answers_def require_staff_def split: option.splits if_splits)
  moreover have "answers (with_role allowed' (known_key libs (cr_keys s) key))" for allowed' key
    using no_panic by (auto simp: answers_def with_role_def split: if_splits)
  moreover from this have "answers (admin_auth libs identity (cr_keys s) (cr_staff s) headers)"
    using no_panic by (auto simp: answers_def admin_auth_def split: option.splits if_splits)
  ultimately show ?thesis by (simp add: s_def integration_auth_def device_auth_def require_integration_def)
qed

section \<open>Revocation, and who reaches the admin surface\<close>

lemma exec_hashes:
  assumes "distinct (map ky_hash (cr_keys s))"
  shows "distinct (map ky_hash (cr_keys (credential_exec libs idp a s)))"
proof -
  have u: "map ky_hash (update_where P (\<lambda>r. r\<lparr>ky_active := b\<rparr>) rows) = map ky_hash rows" for P b rows
    by (simp add: map_update_where)
  show ?thesis using assms
    by (cases a) (auto simp: credential_exec_def create_key_def revoke_key_def bootstrap_admin_key_def u list_ex_iff Let_def split: option.splits)
qed

definition dead_key :: "security_libs \<Rightarrow> string \<Rightarrow> credentials \<Rightarrow> bool" where
  "dead_key libs key s \<longleftrightarrow> (\<exists>r\<in>set (cr_keys s). ky_hash r = sl_sha256 libs key)
     \<and> (\<forall>r\<in>set (cr_keys s). ky_hash r = sl_sha256 libs key \<longrightarrow> \<not> ky_active r)"

definition boots_key :: "security_libs \<Rightarrow> string \<Rightarrow> credential_action \<Rightarrow> bool" where
  "boots_key libs key a \<longleftrightarrow> (case a of BootKey _ k \<Rightarrow> sl_sha256 libs k = sl_sha256 libs key | _ \<Rightarrow> False)"

lemma ex_update_where: "(\<And>r. r \<in> set rows \<Longrightarrow> Q r \<Longrightarrow> Q (f r)) \<Longrightarrow> \<exists>r\<in>set rows. Q r \<Longrightarrow> \<exists>r\<in>set (update_where P f rows). Q r"
  by (auto simp: update_where_def)

lemma dead_key_exec: "dead_key libs key s \<Longrightarrow> \<not> boots_key libs key a \<Longrightarrow> dead_key libs key (credential_exec libs idp a s)"
proof (cases a)
  case (RevokeKey i)
  assume dead: "dead_key libs key s"
  then have "\<exists>r\<in>set (update_where (\<lambda>r. ky_id r = i) (\<lambda>r. r\<lparr>ky_active := False\<rparr>) (cr_keys s)). ky_hash r = sl_sha256 libs key"
    by (intro ex_update_where) (auto simp: dead_key_def)
  with dead RevokeKey show ?thesis by (auto simp: dead_key_def credential_exec_def revoke_key_def set_update_where)
qed (auto simp: dead_key_def boots_key_def credential_exec_def create_key_def bootstrap_admin_key_def
      set_update_where list_ex_iff Let_def split: option.splits)

lemma dead_key_run: "dead_key libs key s \<Longrightarrow> \<not> list_ex (boots_key libs key) as \<Longrightarrow> dead_key libs key (credential_run libs idp as s)"
  by (induction as arbitrary: s) (simp_all add: credential_run_def dead_key_exec)

lemma dead_key_unknown: "dead_key libs key s \<Longrightarrow> authenticate libs key (cr_keys s) = Inr None"
  by (auto simp: dead_key_def authenticate_def find_None_iff split: option.splits dest: find_Some_in)

text \<open>C21: Revoking the key that authenticated a request ends it: whatever is minted, enrolled and revoked after, it
  never authenticates again, unless the operator boots the process with that very key.\<close>
theorem revoked_key_stays_revoked:
  assumes uniq: "distinct (map ky_hash (cr_keys s))"
    and auth: "authenticate libs key (cr_keys s) = Inr (Some who)"
    and later: "\<not> list_ex (boots_key libs key) as"
  shows "authenticate libs key (cr_keys (credential_run libs idp as (credential_exec libs idp (RevokeKey (ka_key_id who)) s))) = Inr None"
proof -
  from auth obtain r where r: "r \<in> set (cr_keys s)" "ky_hash r = sl_sha256 libs key" "ky_id r = ka_key_id who"
    by (auto simp: authenticate_def split: option.splits dest: find_Some_in)
  have same: "ky_id r' = ka_key_id who" if "r' \<in> set (cr_keys s)" "ky_hash r' = sl_sha256 libs key" for r'
    using that r uniq by (metis distinct_map inj_onD)
  let ?rows = "update_where (\<lambda>r. ky_id r = ka_key_id who) (\<lambda>r. r\<lparr>ky_active := False\<rparr>) (cr_keys s)"
  have "cr_keys (credential_exec libs idp (RevokeKey (ka_key_id who)) s) = ?rows"
    using r by (auto simp: credential_exec_def revoke_key_def count_where_zero)
  moreover have "\<exists>r\<in>set ?rows. ky_hash r = sl_sha256 libs key"
    by (rule ex_update_where) (use r in auto)
  moreover have "\<not> ky_active r'" if "r' \<in> set ?rows" "ky_hash r' = sl_sha256 libs key" for r'
    using that same by (auto simp: set_update_where)
  ultimately have "dead_key libs key (credential_exec libs idp (RevokeKey (ka_key_id who)) s)"
    unfolding dead_key_def by simp
  from dead_key_unknown [OF dead_key_run [OF this later]] show ?thesis .
qed

text \<open>The admin surface answers only to an active \<open>operator_admin\<close> key presented as such, or to an active admin
  of the staff whom the identity provider vouches for; a customer's token or a lesser key never passes.\<close>
theorem admin_surface_needs_admin:
  assumes "admin_auth libs identity rows staff headers = Inr who"
  shows "case who of
      KeyActor i \<Rightarrow> list_ex (\<lambda>r. ky_id r = i \<and> ky_active r \<and> ky_role r = ''operator_admin''
        \<and> map_option (sl_sha256 libs) (bearer_or_api_key headers) = Some (ky_hash r)) rows
    | StaffActor i \<Rightarrow> list_ex (\<lambda>r. sf_id r = i \<and> sf_active r \<and> sf_role r = ''admin''
        \<and> map_option (\<lambda>s. (sb_issuer s, sb_subject s)) (bearer_subject identity headers) = Some (sf_issuer r, sf_subject r)) staff"
proof (cases "bearer_or_api_key headers")
  case (Some key)
  with assms obtain auth where a: "authenticate libs key rows = Inr (Some auth)" "ka_role auth = OperatorAdmin" "who = KeyActor (ka_key_id auth)"
    by (auto simp: admin_auth_def with_role_def known_key_def split: if_splits option.splits)
  then obtain r where r: "r \<in> set rows" "ky_hash r = sl_sha256 libs key" "ky_active r" "api_role_parse (ky_role r) = Some OperatorAdmin" "ky_id r = ka_key_id auth"
    by (auto simp: authenticate_def split: option.splits dest: find_Some_in)
  then have "ky_role r = ''operator_admin''" by (simp add: api_role_parse_def split: if_splits)
  with r show ?thesis unfolding a(3) actor.case list_ex_iff by (intro bexI [of _ r]) (simp_all add: Some)
next
  case None
  with assms obtain member where m: "resolve_staff identity headers staff = Inr (Some member)" "sm_role member = Admin" "who = StaffActor (sm_staff_id member)"
    by (auto simp: admin_auth_def split: if_splits option.splits)
  then obtain s r where r: "bearer_subject identity headers = Some s" "r \<in> set staff" "staff_of (sb_issuer s) (sb_subject s) r" "sf_active r"
      "staff_role_parse (sf_role r) = Some Admin" "sf_id r = sm_staff_id member"
    by (auto simp: resolve_staff_def split: option.splits dest: find_Some_in)
  then have "sf_role r = ''admin''" by (simp add: staff_role_parse_def split: if_splits)
  with r show ?thesis unfolding m(3) actor.case list_ex_iff by (intro bexI [of _ r]) (simp_all add: staff_of_def)
qed

text \<open>Toy libraries: the hash of a text is its length.\<close>

definition toy_security :: security_libs where
  "toy_security = \<lparr>sl_sha256 = (\<lambda>s. [of_nat (length s)]), sl_hmac = (\<lambda>secret s. [of_nat (length s)]),
     sl_b64 = map (\<lambda>_. CHR ''x''), sl_uuid_bytes = (\<lambda>i. ''u'')\<rparr>"

definition demo_credentials :: credentials where
  "demo_credentials = credential_run toy_security (Some ''idp'')
     [BootKey (Uuid 1) ''llk_boot'', MintKey (Uuid 2) ''g'' ''gate'' ''validator'',
      EnrollStaff (Uuid 3) \<lparr>er_issuer = None, er_subject = ''ana'', er_display_name = ''Ana'', er_email = None, er_role = ''admin''\<rparr>]
     \<lparr>cr_keys = [], cr_staff = []\<rparr>"

definition demo_identity :: identity_port where
  "demo_identity = Some (\<lambda>token. Some \<lparr>sb_issuer = ''idp'', sb_subject = token, sb_email = None\<rparr>)"

theorem revoked_key_stays_revoked_witness:
  "authenticate toy_security ''llk_g'' (cr_keys demo_credentials) = Inr (Some \<lparr>ka_key_id = Uuid 2, ka_role = Validator\<rparr>)
   \<and> authenticate toy_security ''llk_g'' (cr_keys (credential_run toy_security None [BootKey (Uuid 9) ''llk_boot'']
        (credential_exec toy_security None (RevokeKey (Uuid 2)) demo_credentials))) = Inr None"
proof -
  have a: "authenticate toy_security ''llk_g'' (cr_keys demo_credentials) = Inr (Some \<lparr>ka_key_id = Uuid 2, ka_role = Validator\<rparr>)"
    by code_simp
  have d: "distinct (map ky_hash (cr_keys demo_credentials))" by code_simp
  have "\<not> list_ex (boots_key toy_security ''llk_g'') [BootKey (Uuid 9) ''llk_boot'']" by code_simp
  from revoked_key_stays_revoked [OF d a this] a show ?thesis by simp
qed

theorem admin_surface_needs_admin_witness:
  "admin_auth toy_security demo_identity (cr_keys demo_credentials) (cr_staff demo_credentials) [(''authorization'', ''Bearer ana'')]
     = Inr (StaffActor (Uuid 3))
   \<and> list_ex (\<lambda>r. sf_id r = Uuid 3 \<and> sf_active r \<and> sf_role r = ''admin'') (cr_staff demo_credentials)"
proof -
  have a: "admin_auth toy_security demo_identity (cr_keys demo_credentials) (cr_staff demo_credentials) [(''authorization'', ''Bearer ana'')]
     = Inr (StaffActor (Uuid 3))" by code_simp
  from admin_surface_needs_admin [OF a] a show ?thesis by (auto simp: list_ex_iff)
qed

end
