(* ===== verification/Holds.thy ===== *)
theory Holds
  imports Segment
begin

unbundle bit_operations_syntax

text \<open>
  Soft holds in Redis: \<open>crates/lulan-engine/src/inventory/holds.rs\<close>, the Lua script included. The
  store is its four families of keys, each value with the millisecond at which Redis drops it; a key
  is seen at \<open>now\<close> until then. A unit's hash is its list of fields. The texts the code joins with
  \<open>:\<close> and \<open>;\<close> are the tuples they spell (a uuid's text has neither character), and the
  three decimals of a field are its expiry and the two 32-bit halves of its mask, as the script's
  pattern and its 32-bit \<open>bit\<close> operations read them. A call runs at one instant; that Redis does not
  answer is not modelled.
\<close>

definition INDEX_TTL_MULTIPLIER :: int where "INDEX_TTL_MULTIPLIER = 4"

record hold_entry =
  he_exp :: int
  he_hi :: "32 word"
  he_lo :: "32 word"

type_synonym hold_fields = "(uuid \<times> hold_entry) list"

record redis =
  rd_units :: "uuid \<times> uuid \<Rightarrow> (hold_fields \<times> int) option"
  rd_index :: "uuid \<Rightarrow> (uuid list \<times> int) option"
  rd_registry :: "uuid \<Rightarrow> ((uuid \<times> uuid) \<times> int) option"
  rd_itinerary :: "uuid \<Rightarrow> ((uuid \<times> uuid \<times> uuid) list \<times> int) option"

definition seen :: "int \<Rightarrow> ('a \<times> int) option \<Rightarrow> 'a option" where
  "seen now entry = (case entry of Some (x, exp) \<Rightarrow> if now < exp then Some x else None | None \<Rightarrow> None)"

definition unit_fields :: "int \<Rightarrow> redis \<Rightarrow> uuid \<times> uuid \<Rightarrow> hold_fields" where
  "unit_fields now r key = (case seen now (rd_units r key) of Some fs \<Rightarrow> fs | None \<Rightarrow> [])"

definition index_members :: "int \<Rightarrow> redis \<Rightarrow> uuid \<Rightarrow> uuid list" where
  "index_members now r trip = (case seen now (rd_index r trip) of Some us \<Rightarrow> us | None \<Rightarrow> [])"

text \<open>\<open>HDEL\<close> and \<open>SREM\<close> keep the key's expiry; an empty hash or set is no key.\<close>

definition put_fields :: "uuid \<times> uuid \<Rightarrow> hold_fields \<Rightarrow> redis \<Rightarrow> redis" where
  "put_fields key fs r = r\<lparr>rd_units := (rd_units r)(key :=
     (case rd_units r key of Some (_, exp) \<Rightarrow> if fs = [] then None else Some (fs, exp) | None \<Rightarrow> None))\<rparr>"

definition hdel :: "int \<Rightarrow> uuid \<times> uuid \<Rightarrow> uuid \<Rightarrow> redis \<Rightarrow> redis" where
  "hdel now key hold_id r = put_fields key (filter (\<lambda>(h, _). h \<noteq> hold_id) (unit_fields now r key)) r"

definition srem :: "int \<Rightarrow> uuid \<Rightarrow> uuid list \<Rightarrow> redis \<Rightarrow> redis" where
  "srem now trip gone r = (let left = filter (\<lambda>u. \<not> List.member gone u) (index_members now r trip) in
     r\<lparr>rd_index := (rd_index r)(trip :=
       (case rd_index r trip of Some (_, exp) \<Rightarrow> if left = [] then None else Some (left, exp) | None \<Rightarrow> None))\<rparr>)"

section \<open>Masks in two halves\<close>

definition mask_hi :: "64 word \<Rightarrow> 32 word" where
  "mask_hi m = ucast (drop_bit 32 m)"

definition mask_lo :: "64 word \<Rightarrow> 32 word" where
  "mask_lo m = ucast (m AND 0xFFFFFFFF)"

definition entry_mask :: "hold_entry \<Rightarrow> 64 word" where
  "entry_mask e = push_bit 32 (ucast (he_hi e)) OR ucast (he_lo e)"

section \<open>Holding one seat\<close>

definition live_entries :: "int \<Rightarrow> hold_fields \<Rightarrow> hold_fields" where
  "live_entries now = filter (\<lambda>(_, e). now < he_exp e)"

text \<open>\<open>ACQUIRE_SCRIPT\<close>: the fields that have expired are deleted whether it admits the hold or not.\<close>

definition acquire_script :: "int \<Rightarrow> int \<Rightarrow> uuid \<Rightarrow> 32 word \<Rightarrow> 32 word \<Rightarrow> uuid \<Rightarrow> uuid \<Rightarrow> int \<Rightarrow> redis \<Rightarrow> redis \<times> int" where
  "acquire_script now ttl hold_id hi lo trip unit_id index_ttl r =
    (let key = (trip, unit_id);
         live = live_entries now (unit_fields now r key);
         union_hi = fold (\<lambda>(_, e) u. u OR he_hi e) live 0;
         union_lo = fold (\<lambda>(_, e) u. u OR he_lo e) live 0;
         max_exp = fold (\<lambda>(_, e) m. max (he_exp e) m) live (now + ttl)
     in if union_hi AND hi \<noteq> 0 \<or> union_lo AND lo \<noteq> 0 then (put_fields key live r, 0)
        else
          let fs = filter (\<lambda>(h, _). h \<noteq> hold_id) live @ [(hold_id, \<lparr>he_exp = now + ttl, he_hi = hi, he_lo = lo\<rparr>)];
              members = index_members now r trip
          in (r\<lparr>rd_units := (rd_units r)(key := Some (fs, max_exp)),
                rd_index := (rd_index r)(trip := Some (List.insert unit_id members, now + index_ttl))\<rparr>, 1))"

record hold =
  hd_hold_id :: uuid
  hd_expires_at :: int

definition acquire :: "int \<Rightarrow> int \<Rightarrow> uuid \<Rightarrow> uuid \<Rightarrow> uuid \<Rightarrow> segment_span \<Rightarrow> redis \<Rightarrow> redis \<times> hold option" where
  "acquire now ttl_ms hold_id trip unit_id span r =
    (let m = span_mask span;
         (r', admitted) = acquire_script now ttl_ms hold_id (mask_hi m) (mask_lo m) trip unit_id (ttl_ms * INDEX_TTL_MULTIPLIER) r
     in if admitted \<noteq> 1 then (r', None)
        else (r'\<lparr>rd_registry := (rd_registry r')(hold_id := Some ((trip, unit_id), now + ttl_ms))\<rparr>,
              Some \<lparr>hd_hold_id = hold_id, hd_expires_at = now + ttl_ms\<rparr>))"

definition verify :: "int \<Rightarrow> uuid \<Rightarrow> uuid \<Rightarrow> uuid \<Rightarrow> redis \<Rightarrow> bool" where
  "verify now hold_id trip unit_id r \<longleftrightarrow> seen now (rd_registry r hold_id) = Some (trip, unit_id)"

definition release_hold :: "int \<Rightarrow> uuid \<Rightarrow> redis \<Rightarrow> redis \<times> bool" where
  "release_hold now hold_id r =
    (case seen now (rd_registry r hold_id) of
       None \<Rightarrow> (r, False)
     | Some (trip, unit_id) \<Rightarrow>
         let r1 = hdel now (trip, unit_id) hold_id r;
             r2 = (if unit_fields now r1 (trip, unit_id) = [] then srem now trip [unit_id] r1 else r1)
         in (r2\<lparr>rd_registry := (rd_registry r2)(hold_id := None)\<rparr>, True))"

section \<open>Holding an itinerary\<close>

record itinerary_hold =
  ih_hold_id :: uuid
  ih_expires_at :: int
  ih_members :: "(uuid \<times> uuid) list"

text \<open>The loop over the seats; the ids of the holds taken so far are \<open>acquired\<close>.\<close>

fun acquire_seats :: "int \<Rightarrow> int \<Rightarrow> (uuid \<times> uuid \<times> uuid \<times> segment_span) list \<Rightarrow> (uuid \<times> uuid \<times> uuid) list \<Rightarrow>
    redis \<Rightarrow> redis \<times> (uuid \<times> uuid \<times> uuid) list option" where
  "acquire_seats now ttl_ms [] acquired r = (r, Some acquired)"
| "acquire_seats now ttl_ms ((hid, trip, unit_id, span) # seats) acquired r =
    (case acquire now ttl_ms hid trip unit_id span r of
       (r', Some h) \<Rightarrow> acquire_seats now ttl_ms seats (acquired @ [(hd_hold_id h, trip, unit_id)]) r'
     | (r', None) \<Rightarrow> (fold (\<lambda>(seat_hold_id, _, _) r. fst (release_hold now seat_hold_id r)) acquired r', None))"

definition acquire_itinerary :: "int \<Rightarrow> int \<Rightarrow> uuid \<Rightarrow> (nat \<Rightarrow> uuid) \<Rightarrow> (uuid \<times> uuid \<times> segment_span) list \<Rightarrow>
    redis \<Rightarrow> redis \<times> itinerary_hold option" where
  "acquire_itinerary now ttl_ms group_id new seats r =
    (case acquire_seats now ttl_ms (zip (map new [0..<length seats]) seats) [] r of
       (r', None) \<Rightarrow> (r', None)
     | (r', Some acquired) \<Rightarrow>
         (r'\<lparr>rd_itinerary := (rd_itinerary r')(group_id := Some (acquired, now + ttl_ms))\<rparr>,
          Some \<lparr>ih_hold_id = group_id, ih_expires_at = now + ttl_ms,
            ih_members = map (\<lambda>(_, trip, unit_id). (trip, unit_id)) acquired\<rparr>))"

definition itinerary_raw :: "int \<Rightarrow> uuid \<Rightarrow> redis \<Rightarrow> (uuid \<times> uuid \<times> uuid) list option" where
  "itinerary_raw now hold_id r = seen now (rd_itinerary r hold_id)"

definition itinerary_members :: "int \<Rightarrow> uuid \<Rightarrow> redis \<Rightarrow> (uuid \<times> uuid) list option" where
  "itinerary_members now hold_id r = map_option (map (\<lambda>(_, trip, unit_id). (trip, unit_id))) (itinerary_raw now hold_id r)"

definition release_itinerary :: "int \<Rightarrow> uuid \<Rightarrow> redis \<Rightarrow> redis \<times> bool" where
  "release_itinerary now hold_id r =
    (case itinerary_raw now hold_id r of
       None \<Rightarrow> (r, False)
     | Some members \<Rightarrow>
         let r' = fold (\<lambda>(seat_hold_id, _, _) r. fst (release_hold now seat_hold_id r)) members r
         in (r'\<lparr>rd_itinerary := (rd_itinerary r')(hold_id := None)\<rparr>, True))"

section \<open>The seat map\<close>

definition union_mask :: "int \<Rightarrow> hold_fields \<Rightarrow> 64 word" where
  "union_mask now fs = fold (\<lambda>(_, e) u. u OR entry_mask e) (live_entries now fs) 0"

text \<open>The scan of the index and the pruning of it are two calls; other sessions may run between them.\<close>

definition scan_units :: "int \<Rightarrow> uuid \<Rightarrow> redis \<Rightarrow> (uuid \<times> 64 word) list" where
  "scan_units now trip r = map (\<lambda>u. (u, union_mask now (unit_fields now r (trip, u)))) (index_members now r trip)"

definition live_held_units :: "int \<Rightarrow> uuid \<Rightarrow> redis \<Rightarrow> redis \<times> (uuid \<times> 64 word) list" where
  "live_held_units now trip r =
    (let scanned = scan_units now trip r;
         live = filter (\<lambda>(_, m). m \<noteq> 0) scanned;
         stale = map fst (filter (\<lambda>(_, m). m = 0) scanned)
     in (if stale = [] then r else srem now trip stale r, live))"

definition held_units :: "int \<Rightarrow> uuid \<Rightarrow> segment_span \<Rightarrow> redis \<Rightarrow> redis \<times> uuid list" where
  "held_units now trip span r =
    (let (r', live) = live_held_units now trip r
     in (r', map fst (filter (\<lambda>(_, m). m AND span_mask span \<noteq> 0) live)))"

definition held_unit_count :: "int \<Rightarrow> uuid \<Rightarrow> nat \<Rightarrow> redis \<Rightarrow> redis \<times> nat" where
  "held_unit_count now trip accurate_above r =
    (let approximate = length (index_members now r trip)
     in if approximate < accurate_above then (r, approximate)
        else let (r', live) = live_held_units now trip r in (r', length live))"

section \<open>The halves say what the mask says\<close>

lemma bit_entry_mask:
  "bit (entry_mask e) n \<longleftrightarrow> (if n < 32 then bit (he_lo e) n else bit (he_hi e) (n - 32))"
  using bit_imp_le_length [of "he_hi e" "n - 32"] bit_imp_le_length [of "he_lo e" n]
  by (auto simp: entry_mask_def bit_or_iff bit_push_bit_iff bit_ucast_iff)

lemma entry_mask_split: "entry_mask \<lparr>he_exp = x, he_hi = mask_hi m, he_lo = mask_lo m\<rparr> = m"
proof (rule bit_word_eqI)
  fix n
  have m: "(0xFFFFFFFF :: 64 word) = mask 32" by (simp add: mask_eq_exp_minus_1)
  show "n < LENGTH(64) \<Longrightarrow> bit (entry_mask \<lparr>he_exp = x, he_hi = mask_hi m, he_lo = mask_lo m\<rparr>) n = bit m n"
    unfolding bit_entry_mask hold_entry.simps mask_hi_def mask_lo_def m
    by (auto simp: bit_ucast_iff bit_drop_bit_eq bit_and_iff bit_mask_iff)
qed

lemma word_and_zero: "(a :: 'a::len word) AND b = 0 \<longleftrightarrow> (\<forall>n. \<not> (bit a n \<and> bit b n))"
  by (auto simp: bit_eq_iff bit_and_iff dest: bit_imp_le_length)

lemma halves_disjoint:
  "he_hi e AND mask_hi m = 0 \<and> he_lo e AND mask_lo m = 0 \<longleftrightarrow> entry_mask e AND m = 0"
  (is "?L \<longleftrightarrow> ?R")
proof -
  let ?m = "\<lparr>he_exp = 0, he_hi = mask_hi m, he_lo = mask_lo m\<rparr>"
  have "?R \<longleftrightarrow> (\<forall>n. \<not> (bit (entry_mask e) n \<and> bit (entry_mask ?m) n))"
    by (simp only: word_and_zero entry_mask_split)
  also have "\<dots> \<longleftrightarrow> (\<forall>n<32. \<not> (bit (he_lo e) n \<and> bit (mask_lo m) n)) \<and> (\<forall>n\<ge>32. \<not> (bit (he_hi e) (n - 32) \<and> bit (mask_hi m) (n - 32)))"
    unfolding bit_entry_mask by (auto simp: not_less)
  also have "(\<forall>n\<ge>32. \<not> (bit (he_hi e) (n - 32) \<and> bit (mask_hi m) (n - 32))) \<longleftrightarrow> (\<forall>n. \<not> (bit (he_hi e) n \<and> bit (mask_hi m) n))"
    by (metis add_diff_cancel_right' le_add2)
  also have "(\<forall>n<32. \<not> (bit (he_lo e) n \<and> bit (mask_lo m) n)) \<longleftrightarrow> (\<forall>n. \<not> (bit (he_lo e) n \<and> bit (mask_lo m) n))"
    using bit_imp_le_length [of "he_lo e"] by fastforce
  finally show ?thesis by (simp only: word_and_zero) blast
qed

lemma fold_or_disjoint:
  fixes f :: "'a \<Rightarrow> 'b::len word"
  shows "fold (\<lambda>x u. u OR f x) xs u AND m = 0 \<longleftrightarrow> u AND m = 0 \<and> (\<forall>x\<in>set xs. f x AND m = 0)"
  by (induction xs arbitrary: u) (auto simp: bit.conj_disj_distrib2 or_eq_0_iff)

section \<open>The table of live holds\<close>

text \<open>
  What the store promises: a table from a seat (trip and unit) to its holds, each with its mask and its
  expiry. A hold is admitted iff its mask meets no live one's; time takes away exactly what expires.
\<close>

type_synonym hold_table = "uuid \<times> uuid \<Rightarrow> (uuid \<times> 64 word \<times> int) set"

definition live_holds :: "int \<Rightarrow> redis \<Rightarrow> hold_table" where
  "live_holds now r key = (\<lambda>(h, e). (h, entry_mask e, he_exp e)) ` set (live_entries now (unit_fields now r key))"

definition spec_acquire :: "int \<Rightarrow> int \<Rightarrow> uuid \<Rightarrow> uuid \<times> uuid \<Rightarrow> 64 word \<Rightarrow> hold_table \<Rightarrow> hold_table \<times> bool" where
  "spec_acquire now ttl hold_id key m tbl =
    (if \<forall>(_, m', _)\<in>tbl key. m' AND m = 0 then (tbl(key := insert (hold_id, m, now + ttl) (tbl key)), True) else (tbl, False))"

definition spec_tick :: "int \<Rightarrow> hold_table \<Rightarrow> hold_table" where
  "spec_tick t tbl = (\<lambda>key. {(h, m, e) \<in> tbl key. t < e})"

definition without :: "uuid set \<Rightarrow> hold_table \<Rightarrow> hold_table" where
  "without hs tbl = (\<lambda>key. {x \<in> tbl key. fst x \<notin> hs})"

text \<open>A hash outlives its fields.\<close>

definition redis_inv :: "redis \<Rightarrow> bool" where
  "redis_inv r \<longleftrightarrow> (\<forall>key fs exp. rd_units r key = Some (fs, exp) \<longrightarrow> (\<forall>(_, e)\<in>set fs. he_exp e \<le> exp))"

lemma live_holds_cong: "rd_units r' = rd_units r \<Longrightarrow> live_holds now r' = live_holds now r"
  by (simp add: fun_eq_iff live_holds_def unit_fields_def)

lemma redis_inv_cong: "rd_units r' = rd_units r \<Longrightarrow> redis_inv r' = redis_inv r"
  by (simp add: redis_inv_def)

lemma live_holds_later: "redis_inv r \<Longrightarrow> now \<le> t \<Longrightarrow> live_holds t r = spec_tick t (live_holds now r)"
  by (fastforce simp: fun_eq_iff live_holds_def spec_tick_def unit_fields_def seen_def live_entries_def redis_inv_def
      image_iff split: option.splits)

lemma live_holds_put:
  assumes "set fs \<subseteq> set (unit_fields now r key)"
  shows "live_holds now (put_fields key fs r)
    = (live_holds now r)(key := (\<lambda>(h, e). (h, entry_mask e, he_exp e)) ` set (live_entries now fs))"
  using assms by (cases "rd_units r key")
    (auto simp: fun_eq_iff live_holds_def unit_fields_def put_fields_def seen_def live_entries_def split: if_splits)

lemma redis_inv_put: "redis_inv r \<Longrightarrow> set fs \<subseteq> set (unit_fields now r key) \<Longrightarrow> redis_inv (put_fields key fs r)"
  by (fastforce simp: redis_inv_def put_fields_def unit_fields_def seen_def split: option.splits if_splits)

lemma fold_max_exp:
  "b \<le> fold (\<lambda>(_, e) m. max (he_exp e) m) xs b \<and> (\<forall>(_, e)\<in>set xs. he_exp e \<le> fold (\<lambda>(_, e) m. max (he_exp e) m) xs b)"
proof (induction xs arbitrary: b)
  case (Cons x xs)
  from Cons [of "max (he_exp (snd x)) b"] show ?case by (auto simp: case_prod_unfold)
qed simp

definition entry_of :: "int \<Rightarrow> segment_span \<Rightarrow> hold_entry" where
  "entry_of exp span = \<lparr>he_exp = exp, he_hi = mask_hi (span_mask span), he_lo = mask_lo (span_mask span)\<rparr>"

lemma acquire_admits:
  "snd (acquire now ttl hid trip unit_id span r) \<noteq> None \<longleftrightarrow>
     (\<forall>(_, m, _)\<in>live_holds now r (trip, unit_id). m AND span_mask span = 0)"
proof -
  have "(\<forall>(_, m, _)\<in>live_holds now r (trip, unit_id). m AND span_mask span = 0)
      \<longleftrightarrow> (\<forall>(_, e)\<in>set (live_entries now (unit_fields now r (trip, unit_id))).
            he_hi e AND mask_hi (span_mask span) = 0 \<and> he_lo e AND mask_lo (span_mask span) = 0)"
    unfolding live_holds_def halves_disjoint by (simp add: case_prod_unfold)
  then show ?thesis
    by (auto simp: acquire_def acquire_script_def Let_def fold_or_disjoint case_prod_unfold)
qed

lemma acquire_None:
  assumes "acquire now ttl hid trip unit_id span r = (r', None)"
  shows "r' = put_fields (trip, unit_id) (live_entries now (unit_fields now r (trip, unit_id))) r"
  using assms by (simp add: acquire_def acquire_script_def Let_def split: if_splits)

lemma acquire_Some:
  assumes "acquire now ttl hid trip unit_id span r = (r', Some h)"
  shows "hd_hold_id h = hid \<and> hd_expires_at h = now + ttl
    \<and> rd_units r' = (rd_units r)((trip, unit_id) := Some
        (filter (\<lambda>(h, _). h \<noteq> hid) (live_entries now (unit_fields now r (trip, unit_id))) @ [(hid, entry_of (now + ttl) span)],
         fold (\<lambda>(_, e) m. max (he_exp e) m) (live_entries now (unit_fields now r (trip, unit_id))) (now + ttl)))
    \<and> rd_registry r' = (rd_registry r)(hid := Some ((trip, unit_id), now + ttl))
    \<and> rd_index r' = (rd_index r)(trip := Some (List.insert unit_id (index_members now r trip), now + ttl * INDEX_TTL_MULTIPLIER))"
  using assms by (auto simp: acquire_def acquire_script_def Let_def entry_of_def split: if_splits)

lemma live_entries_subset: "set (live_entries now fs) \<subseteq> set fs"
  by (auto simp: live_entries_def)

lemma live_entries_idem [simp]: "live_entries now (live_entries now fs) = live_entries now fs"
  by (simp add: live_entries_def)

lemma redis_inv_acquire:
  assumes "redis_inv r"
  shows "redis_inv (fst (acquire now ttl hid trip unit_id span r))"
proof (cases "acquire now ttl hid trip unit_id span r")
  case (Pair r' res)
  show ?thesis
  proof (cases res)
    case None
    with Pair acquire_None [of now ttl hid trip unit_id span r r'] redis_inv_put [OF assms live_entries_subset] show ?thesis by simp
  next
    case (Some h)
    note a = acquire_Some [OF Pair [unfolded Some]]
    show ?thesis
      unfolding redis_inv_def Pair fst_conv using assms a
        fold_max_exp [of "now + ttl" "live_entries now (unit_fields now r (trip, unit_id))"]
      by (auto simp: redis_inv_def entry_of_def split: if_splits)
  qed
qed

lemma live_holds_acquire:
  assumes "0 < ttl" and fresh: "hid \<notin> fst ` live_holds now r (trip, unit_id)"
  shows "(live_holds now (fst (acquire now ttl hid trip unit_id span r)), snd (acquire now ttl hid trip unit_id span r) \<noteq> None)
    = spec_acquire now ttl hid (trip, unit_id) (span_mask span) (live_holds now r)"
proof (cases "acquire now ttl hid trip unit_id span r")
  case (Pair r' res)
  note adm = acquire_admits [of now ttl hid trip unit_id span r, unfolded Pair snd_conv]
  show ?thesis
  proof (cases res)
    case None
    with adm show ?thesis
      using acquire_None [of now ttl hid trip unit_id span r r'] Pair
        live_holds_put [of "live_entries now (unit_fields now r (trip, unit_id))" now r "(trip, unit_id)", OF live_entries_subset]
      by (auto simp: spec_acquire_def live_holds_def [of now r "(trip, unit_id)", symmetric])
  next
    case (Some h)
    let ?live = "live_entries now (unit_fields now r (trip, unit_id))"
    note a = acquire_Some [OF Pair [unfolded Some]]
    have "filter (\<lambda>(h, _). h \<noteq> hid) ?live = ?live"
      using fresh by (force simp: filter_id_conv live_holds_def image_image)
    moreover have "now < fold (\<lambda>(_, e) m. max (he_exp e) m) ?live (now + ttl)"
      using fold_max_exp [of "now + ttl" ?live] assms(1) by linarith
    ultimately have "unit_fields now r' (trip, unit_id) = ?live @ [(hid, entry_of (now + ttl) span)]"
      using a by (simp add: unit_fields_def seen_def)
    moreover have "unit_fields now r' key = unit_fields now r key" if "key \<noteq> (trip, unit_id)" for key
      using a that by (simp add: unit_fields_def)
    moreover have "entry_mask (entry_of (now + ttl) span) = span_mask span"
      by (simp add: entry_of_def entry_mask_split)
    moreover have "he_exp (entry_of (now + ttl) span) = now + ttl" by (simp add: entry_of_def)
    moreover have "live_entries now (?live @ [(hid, entry_of (now + ttl) span)]) = ?live @ [(hid, entry_of (now + ttl) span)]"
      using assms(1) by (simp add: live_entries_def entry_of_def)
    ultimately have "live_holds now r' = (live_holds now r)((trip, unit_id) :=
        insert (hid, span_mask span, now + ttl) (live_holds now r (trip, unit_id)))"
      by (simp add: fun_eq_iff live_holds_def)
    with adm Some Pair show ?thesis by (simp add: spec_acquire_def)
  qed
qed

text \<open>C10: The store implements the table of holds: at every later instant, \<open>acquire\<close> has admitted the hold iff
  its span met no live hold on the seat, an admitted hold is there until its time and not a millisecond
  longer, and no other hold is touched.\<close>
theorem holds_refine_table:
  assumes inv: "redis_inv r" and "0 < ttl" "now \<le> t" and "hid \<notin> fst ` live_holds now r (trip, unit_id)"
  shows "case acquire now ttl hid trip unit_id span r of (r', res) \<Rightarrow>
    (case spec_acquire now ttl hid (trip, unit_id) (span_mask span) (live_holds now r) of (tbl, ok) \<Rightarrow>
      redis_inv r' \<and> (res \<noteq> None \<longleftrightarrow> ok) \<and> live_holds t r' = spec_tick t tbl)"
proof -
  obtain r' res where a: "acquire now ttl hid trip unit_id span r = (r', res)" by force
  have inv': "redis_inv r'" using redis_inv_acquire [OF inv, of now ttl hid trip unit_id span] by (simp add: a)
  show ?thesis
    using live_holds_acquire [OF assms(2,4), of span] live_holds_later [OF inv' assms(3)] inv'
    by (auto simp: a split: prod.split)
qed

definition empty_redis :: redis where
  "empty_redis = \<lparr>rd_units = (\<lambda>_. None), rd_index = (\<lambda>_. None), rd_registry = (\<lambda>_. None), rd_itinerary = (\<lambda>_. None)\<rparr>"

lemma empty_redis_inv [simp]: "redis_inv empty_redis"
  by (simp add: redis_inv_def empty_redis_def)

lemma empty_redis_live [simp]: "live_holds now empty_redis = (\<lambda>_. {})"
  by (simp add: fun_eq_iff live_holds_def unit_fields_def seen_def live_entries_def empty_redis_def)

theorem holds_refine_table_witness:
  "case acquire 1000 30000 (Uuid 9) (Uuid 1) (Uuid 2) \<lparr>span_from = 0, span_to = 2\<rparr> empty_redis of (r', res) \<Rightarrow>
     res \<noteq> None \<and> live_holds 30999 r' (Uuid 1, Uuid 2) = {(Uuid 9, 3, 31000)} \<and> live_holds 31000 r' (Uuid 1, Uuid 2) = {}"
proof -
  let ?span = "\<lparr>span_from = 0, span_to = 2\<rparr>"
  have m: "span_mask ?span = 3" by code_simp
  note h = holds_refine_table [of empty_redis 30000 1000 _ "Uuid 9" "Uuid 1" "Uuid 2" ?span, OF empty_redis_inv]
  from h [of 30999] h [of 31000] show ?thesis
    by (auto simp: spec_acquire_def spec_tick_def m split: prod.splits)
qed

section \<open>All or nothing\<close>

lemma srem_keeps [simp]: "rd_units (srem now trip us r) = rd_units r" "rd_registry (srem now trip us r) = rd_registry r"
  by (simp_all add: srem_def Let_def)

lemma put_fields_keeps [simp]: "rd_registry (put_fields key fs r) = rd_registry r" "rd_index (put_fields key fs r) = rd_index r"
  by (simp_all add: put_fields_def)

lemma release_hold_effect:
  assumes inv: "redis_inv r" and reg: "seen now (rd_registry r hid) = Some key"
  shows "redis_inv (fst (release_hold now hid r))
    \<and> live_holds now (fst (release_hold now hid r)) = (live_holds now r)(key := {x \<in> live_holds now r key. fst x \<noteq> hid})
    \<and> rd_registry (fst (release_hold now hid r)) = (rd_registry r)(hid := None)"
proof -
  obtain trip unit_id where k: "key = (trip, unit_id)" by force
  let ?fs = "filter (\<lambda>(h, _). h \<noteq> hid) (unit_fields now r key)"
  have sub: "set ?fs \<subseteq> set (unit_fields now r key)" by auto
  have units: "rd_units (fst (release_hold now hid r)) = rd_units (put_fields key ?fs r)"
    and reg': "rd_registry (fst (release_hold now hid r)) = (rd_registry r)(hid := None)"
    using reg by (simp_all add: release_hold_def k hdel_def Let_def)
  have "(\<lambda>(h, e). (h, entry_mask e, he_exp e)) ` set (live_entries now ?fs) = {x \<in> live_holds now r key. fst x \<noteq> hid}"
    by (auto simp: live_holds_def live_entries_def)
  then show ?thesis
    using live_holds_cong [OF units] live_holds_put [OF sub] redis_inv_cong [OF units] redis_inv_put [OF inv sub] reg' by simp
qed

text \<open>The holds taken so far on top of \<open>tbl\<close>: each is registered and lives on one seat only.\<close>

definition taken_on :: "int \<Rightarrow> hold_table \<Rightarrow> redis \<Rightarrow> (uuid \<times> uuid \<times> uuid) list \<Rightarrow> bool" where
  "taken_on now tbl r acquired \<longleftrightarrow> redis_inv r \<and> distinct (map fst acquired)
     \<and> without (fst ` set acquired) (live_holds now r) = tbl
     \<and> (\<forall>(h, key)\<in>set acquired. seen now (rd_registry r h) = Some key
          \<and> (\<forall>k. \<forall>x\<in>live_holds now r k. fst x = h \<longrightarrow> k = key))"

lemma taken_on_reg: "taken_on now tbl r acquired \<Longrightarrow> (h, key) \<in> set acquired \<Longrightarrow> seen now (rd_registry r h) = Some key"
  by (auto simp: taken_on_def)

lemma taken_on_seat:
  "taken_on now tbl r acquired \<Longrightarrow> (h, key) \<in> set acquired \<Longrightarrow> x \<in> live_holds now r k \<Longrightarrow> fst x = h \<Longrightarrow> k = key"
  unfolding taken_on_def by (metis (mono_tags, lifting) case_prodD)

lemma taken_onI:
  assumes "redis_inv r" "distinct (map fst acquired)" "without (fst ` set acquired) (live_holds now r) = tbl"
    and "\<And>h key. (h, key) \<in> set acquired \<Longrightarrow> seen now (rd_registry r h) = Some key"
    and "\<And>h key k x. (h, key) \<in> set acquired \<Longrightarrow> x \<in> live_holds now r k \<Longrightarrow> fst x = h \<Longrightarrow> k = key"
  shows "taken_on now tbl r acquired"
  unfolding taken_on_def
proof (intro conjI)
  show "\<forall>(h, key)\<in>set acquired. seen now (rd_registry r h) = Some key \<and> (\<forall>k. \<forall>x\<in>live_holds now r k. fst x = h \<longrightarrow> k = key)"
  proof (intro ballI, clarify)
    show "seen now (rd_registry r h) = Some key \<and> (\<forall>k. \<forall>x\<in>live_holds now r k. fst x = h \<longrightarrow> k = key)"
      if "(h, key) \<in> set acquired" for h key
      using assms(4,5) that by blast
  qed
qed (use assms in simp_all)

lemma taken_on_inv: "taken_on now tbl r acquired \<Longrightarrow> redis_inv r \<and> distinct (map fst acquired) \<and> without (fst ` set acquired) (live_holds now r) = tbl"
  by (simp add: taken_on_def)

lemma taken_on_undo:
  "taken_on now tbl r acquired \<Longrightarrow>
   redis_inv (fold (\<lambda>(h, _, _) r. fst (release_hold now h r)) acquired r)
   \<and> live_holds now (fold (\<lambda>(h, _, _) r. fst (release_hold now h r)) acquired r) = tbl"
proof (induction acquired arbitrary: r)
  case Nil
  then show ?case by (simp add: taken_on_def without_def)
next
  case (Cons a acquired)
  obtain h key where a: "a = (h, key)" by (cases a)
  let ?r = "fst (release_hold now h r)"
  from Cons.prems have t: "redis_inv r" "seen now (rd_registry r h) = Some key" "h \<notin> fst ` set acquired"
    and only: "\<And>k x. x \<in> live_holds now r k \<Longrightarrow> fst x = h \<Longrightarrow> k = key"
    by (auto simp: taken_on_def a)
  note e = release_hold_effect [OF t(1,2)]
  have l: "live_holds now ?r = without {h} (live_holds now r)"
    using e only by (auto simp: fun_eq_iff without_def)
  have "taken_on now tbl ?r acquired"
  proof (rule taken_onI)
    show "without (fst ` set acquired) (live_holds now ?r) = tbl"
      using taken_on_inv [OF Cons.prems] by (auto simp: a l without_def fun_eq_iff)
    fix h' key'
    assume h': "(h', key') \<in> set acquired"
    then have ne: "h' \<noteq> h" using t(3) by force
    have in': "(h', key') \<in> set (a # acquired)" using h' by simp
    show "k = key'" if "x \<in> live_holds now ?r k" "fst x = h'" for k x
      using taken_on_seat [OF Cons.prems in', of x k] that by (simp add: l without_def)
    show "seen now (rd_registry ?r h') = Some key'" using taken_on_reg [OF Cons.prems in'] e ne by simp
  qed (use taken_on_inv [OF Cons.prems] e in simp_all)
  from Cons.IH [OF this] show ?case by (simp add: a case_prod_unfold)
qed

lemma taken_on_step:
  assumes tk: "taken_on now tbl r acquired" and a: "acquire now ttl hid trip unit_id span r = (r', Some h)"
    and ttl: "0 < ttl" and fresh: "hid \<notin> fst ` set acquired" "\<And>k. hid \<notin> fst ` tbl k"
  shows "taken_on now tbl r' (acquired @ [(hid, trip, unit_id)])
    \<and> live_holds now r' = (live_holds now r)((trip, unit_id) := insert (hid, span_mask span, now + ttl) (live_holds now r (trip, unit_id)))"
proof -
  have no: "hid \<noteq> fst x" if "x \<in> live_holds now r k" for x k
  proof
    assume "hid = fst x"
    with that tk fresh(1) have "x \<in> tbl k" by (auto simp: taken_on_def without_def)
    with fresh(2) [of k] \<open>hid = fst x\<close> show False by blast
  qed
  then have "hid \<notin> fst ` live_holds now r (trip, unit_id)" by blast
  from live_holds_acquire [OF ttl this, of span] a
  have l: "live_holds now r' = (live_holds now r)((trip, unit_id) := insert (hid, span_mask span, now + ttl) (live_holds now r (trip, unit_id)))"
    by (auto simp: spec_acquire_def split: if_splits)
  have reg: "rd_registry r' = (rd_registry r)(hid := Some ((trip, unit_id), now + ttl))" using acquire_Some [OF a] by blast
  have inv: "redis_inv r'" using redis_inv_acquire [of r now ttl hid trip unit_id span] tk a by (simp add: taken_on_def)
  have no_hid: "(hid, m, e) \<notin> live_holds now r k" for m e k using no [of "(hid, m, e)" k] by auto
  have "taken_on now tbl r' (acquired @ [(hid, trip, unit_id)])"
  proof (rule taken_onI)
    have "without (fst ` set (acquired @ [(hid, trip, unit_id)])) (live_holds now r') = without (fst ` set acquired) (live_holds now r)"
      using no_hid by (auto simp: l without_def fun_eq_iff)
    then show "without (fst ` set (acquired @ [(hid, trip, unit_id)])) (live_holds now r') = tbl"
      using taken_on_inv [OF tk] by simp
    show "distinct (map fst (acquired @ [(hid, trip, unit_id)]))" using taken_on_inv [OF tk] fresh(1) by simp
    fix h' key
    assume h': "(h', key) \<in> set (acquired @ [(hid, trip, unit_id)])"
    show "seen now (rd_registry r' h') = Some key"
      using h' fresh(1) taken_on_reg [OF tk, of h' key] ttl by (force simp: reg seen_def)
    fix k x
    assume x: "x \<in> live_holds now r' k" "fst x = h'"
    show "k = key"
    proof (cases "h' = hid")
      case True
      with h' fresh(1) have "key = (trip, unit_id)" by force
      with True x no [of x k] show ?thesis by (auto simp: l split: if_splits)
    next
      case False
      with x have "x \<in> live_holds now r k" by (auto simp: l split: if_splits)
      moreover have "(h', key) \<in> set acquired" using h' False by simp
      ultimately show ?thesis using taken_on_seat [OF tk _ _ x(2)] by blast
    qed
  qed (rule inv)
  then show ?thesis using l by blast
qed

lemma taken_on_refused:
  assumes tk: "taken_on now tbl r acquired" and a: "acquire now ttl hid trip unit_id span r = (r', None)"
  shows "taken_on now tbl r' acquired"
proof -
  have l: "live_holds now r' = live_holds now r"
    unfolding acquire_None [OF a] using live_holds_put [of "live_entries now (unit_fields now r (trip, unit_id))" now r "(trip, unit_id)", OF live_entries_subset]
    by (simp add: live_holds_def fun_eq_iff)
  have "redis_inv r'" using redis_inv_acquire [of r now ttl hid trip unit_id span] tk a by (simp add: taken_on_def)
  moreover have "rd_registry r' = rd_registry r" by (simp add: acquire_None [OF a])
  ultimately show ?thesis using tk by (simp add: taken_on_def l)
qed

lemma acquire_seats_effect:
  assumes "taken_on now tbl r acquired" "0 < ttl" "distinct (map fst seats)"
    and "fst ` set acquired \<inter> fst ` set seats = {}" and "\<And>h k. h \<in> fst ` set seats \<Longrightarrow> h \<notin> fst ` tbl k"
  shows "case acquire_seats now ttl seats acquired r of
      (r', None) \<Rightarrow> redis_inv r' \<and> live_holds now r' = tbl
    | (r', Some acq) \<Rightarrow> redis_inv r' \<and> acq = acquired @ map (\<lambda>(h, trip, unit_id, _). (h, trip, unit_id)) seats
        \<and> without (fst ` set acq) (live_holds now r') = tbl
        \<and> (\<forall>k. live_holds now r k \<subseteq> live_holds now r' k)
        \<and> (\<forall>(h, trip, unit_id, span)\<in>set seats. (h, span_mask span, now + ttl) \<in> live_holds now r' (trip, unit_id))"
  using assms
proof (induction seats arbitrary: r acquired)
  case Nil
  then show ?case by (simp add: taken_on_def)
next
  case (Cons s seats)
  obtain hid trip unit_id span where s: "s = (hid, trip, unit_id, span)" by (cases s)
  obtain r1 res where a: "acquire now ttl hid trip unit_id span r = (r1, res)" by force
  show ?case
  proof (cases res)
    case None
    from taken_on_undo [OF taken_on_refused [OF Cons.prems(1) a [unfolded None]]] show ?thesis by (simp add: s a None)
  next
    case (Some h)
    have hid: "hd_hold_id h = hid" using acquire_Some [OF a [unfolded Some]] by simp
    note step = taken_on_step [OF Cons.prems(1) a [unfolded Some] Cons.prems(2)]
    have fresh: "hid \<notin> fst ` set acquired" "\<And>k. hid \<notin> fst ` tbl k"
      using Cons.prems(4,5) by (auto simp: s)
    note st = conjunct1 [OF step [OF fresh]] and l = conjunct2 [OF step [OF fresh]]
    have "case acquire_seats now ttl seats (acquired @ [(hid, trip, unit_id)]) r1 of
      (r', None) \<Rightarrow> redis_inv r' \<and> live_holds now r' = tbl
    | (r', Some acq) \<Rightarrow> redis_inv r' \<and> acq = (acquired @ [(hid, trip, unit_id)]) @ map (\<lambda>(h, trip, unit_id, _). (h, trip, unit_id)) seats
        \<and> without (fst ` set acq) (live_holds now r') = tbl
        \<and> (\<forall>k. live_holds now r1 k \<subseteq> live_holds now r' k)
        \<and> (\<forall>(h, trip, unit_id, span)\<in>set seats. (h, span_mask span, now + ttl) \<in> live_holds now r' (trip, unit_id))"
    proof (rule Cons.IH [OF st Cons.prems(2)])
      show "distinct (map fst seats)" using Cons.prems(3) by simp
      show "fst ` set (acquired @ [(hid, trip, unit_id)]) \<inter> fst ` set seats = {}"
        using Cons.prems(3,4) by (auto simp: s)
      show "h \<notin> fst ` tbl k" if "h \<in> fst ` set seats" for h k using Cons.prems(5) [of h k] that by simp
    qed
    moreover have "live_holds now r k \<subseteq> live_holds now r1 k" for k by (auto simp: l)
    moreover have "(hid, span_mask span, now + ttl) \<in> live_holds now r1 (trip, unit_id)" by (simp add: l)
    ultimately show ?thesis
      by (cases "acquire_seats now ttl seats (acquired @ [(hid, trip, unit_id)]) r1"; cases "snd (acquire_seats now ttl seats (acquired @ [(hid, trip, unit_id)]) r1)")
        (simp_all add: s a Some hid, blast)
  qed
qed

text \<open>C11: An itinerary hold is all or nothing: when one seat is refused, the table of holds is at every later
  instant what it would have been without the call; when it succeeds, every seat is held under its own id
  for the whole time and the other holds are untouched.\<close>
theorem itinerary_all_or_nothing:
  assumes inv: "redis_inv r" and "0 < ttl" "now \<le> t" and ids: "distinct (map new [0..<length seats])"
    and fresh: "\<forall>i<length seats. \<forall>key. new i \<notin> fst ` live_holds now r key"
  shows "case acquire_itinerary now ttl group_id new seats r of
      (r', None) \<Rightarrow> live_holds t r' = live_holds t r
    | (r', Some ih) \<Rightarrow> without (new ` {..<length seats}) (live_holds t r') = live_holds t r
        \<and> (\<forall>i<length seats. case seats ! i of (trip, unit_id, span) \<Rightarrow>
             (new i, span_mask span, now + ttl) \<in> live_holds now r' (trip, unit_id))"
proof -
  let ?seats = "zip (map new [0..<length seats]) seats"
  have fsts: "map fst ?seats = map new [0..<length seats]" by simp
  then have hs: "fst ` set ?seats = new ` {..<length seats}" by (metis atLeast_upt image_set set_map)
  have tk: "taken_on now (live_holds now r) r []" using inv by (simp add: taken_on_def without_def)
  have eff: "case acquire_seats now ttl ?seats [] r of
      (r', None) \<Rightarrow> redis_inv r' \<and> live_holds now r' = live_holds now r
    | (r', Some acq) \<Rightarrow> redis_inv r' \<and> acq = [] @ map (\<lambda>(h, trip, unit_id, _). (h, trip, unit_id)) ?seats
        \<and> without (fst ` set acq) (live_holds now r') = live_holds now r
        \<and> (\<forall>k. live_holds now r k \<subseteq> live_holds now r' k)
        \<and> (\<forall>(h, trip, unit_id, span)\<in>set ?seats. (h, span_mask span, now + ttl) \<in> live_holds now r' (trip, unit_id))"
    by (rule acquire_seats_effect [OF tk assms(2)]) (use ids fresh hs in \<open>auto simp del: map_fst_zip simp: fsts\<close>)
  obtain r' res where a: "acquire_seats now ttl ?seats [] r = (r', res)" by force
  note later = live_holds_later [OF _ assms(3)]
  show ?thesis
  proof (cases res)
    case None
    with a eff later [OF inv] later [of r'] show ?thesis by (simp add: acquire_itinerary_def)
  next
    case (Some acq)
    let ?r = "r'\<lparr>rd_itinerary := (rd_itinerary r')(group_id := Some (acq, now + ttl))\<rparr>"
    have l: "live_holds u ?r = live_holds u r'" for u by (rule live_holds_cong) simp
    note E = eff [unfolded a Some prod.case option.case append_Nil]
    note e = conjunct1 [OF E] conjunct1 [OF conjunct2 [OF conjunct2 [OF E]]]
      and acq = conjunct1 [OF conjunct2 [OF E]] and each = conjunct2 [OF conjunct2 [OF conjunct2 [OF conjunct2 [OF E]]]]
    have ids: "fst ` set acq = new ` {..<length seats}"
      unfolding hs [symmetric] acq by (force simp: case_prod_unfold image_image)
    have "without (fst ` set acq) (live_holds t r') = live_holds t r"
      unfolding later [OF inv] later [OF e(1)] e(2) [symmetric] by (auto simp add: without_def spec_tick_def fun_eq_iff case_prod_unfold)
    moreover have "case seats ! i of (trip, unit_id, span) \<Rightarrow> (new i, span_mask span, now + ttl) \<in> live_holds now r' (trip, unit_id)"
      if "i < length seats" for i
      using each nth_mem [of i ?seats] that by auto
    ultimately show ?thesis using a Some l ids by (simp add: acquire_itinerary_def)
  qed
qed

text \<open>Two seats of an itinerary while a third session holds the second one.\<close>

definition demo_redis :: redis where
  "demo_redis = fst (acquire 0 60000 (Uuid 9) (Uuid 1) (Uuid 3) \<lparr>span_from = 0, span_to = 2\<rparr> empty_redis)"

lemma demo_redis_facts:
  "redis_inv demo_redis" "live_holds 10 demo_redis = (\<lambda>_. {})((Uuid 1, Uuid 3) := {(Uuid 9, 3, 60000)})"
proof -
  let ?span = "\<lparr>span_from = 0, span_to = 2\<rparr>"
  have m: "span_mask ?span = 3" by code_simp
  show inv: "redis_inv demo_redis" unfolding demo_redis_def by (rule redis_inv_acquire) simp
  have "live_holds 0 demo_redis = (\<lambda>_. {})((Uuid 1, Uuid 3) := {(Uuid 9, 3, 60000)})"
    using live_holds_acquire [of 60000 "Uuid 9" 0 empty_redis "Uuid 1" "Uuid 3" ?span]
    by (simp add: demo_redis_def spec_acquire_def m)
  with live_holds_later [OF inv, of 0 10]
  show "live_holds 10 demo_redis = (\<lambda>_. {})((Uuid 1, Uuid 3) := {(Uuid 9, 3, 60000)})"
    by (auto simp: spec_tick_def fun_eq_iff)
qed

theorem itinerary_all_or_nothing_witness:
  "case acquire_itinerary 10 60000 (Uuid 70) (\<lambda>i. if i = 0 then Uuid 80 else Uuid 81)
      [(Uuid 1, Uuid 2, \<lparr>span_from = 0, span_to = 2\<rparr>), (Uuid 1, Uuid 3, \<lparr>span_from = 1, span_to = 2\<rparr>)] demo_redis of
     (r', None) \<Rightarrow> live_holds 11 r' = live_holds 11 demo_redis | (r', Some ih) \<Rightarrow> False"
proof -
  let ?seats = "[(Uuid 1, Uuid 2, \<lparr>span_from = 0, span_to = 2\<rparr>), (Uuid 1, Uuid 3, \<lparr>span_from = 1, span_to = 2\<rparr>)]"
  let ?new = "\<lambda>i :: nat. if i = 0 then Uuid 80 else Uuid 81"
  have "snd (acquire_itinerary 10 60000 (Uuid 70) ?new ?seats demo_redis) = None" by code_simp
  moreover have "distinct (map ?new [0..<length ?seats])" by (simp add: upt_rec)
  moreover have "\<forall>i<length ?seats. \<forall>key. ?new i \<notin> fst ` live_holds 10 demo_redis key"
    by (auto simp: demo_redis_facts(2))
  ultimately show ?thesis
    using itinerary_all_or_nothing [OF demo_redis_facts(1), of 60000 10 11 ?new ?seats "Uuid 70"]
    by (auto split: prod.splits option.splits)
qed

section \<open>What the seat map shows\<close>

definition index_complete :: "int \<Rightarrow> uuid \<Rightarrow> redis \<Rightarrow> bool" where
  "index_complete now trip r \<longleftrightarrow>
     (\<forall>u. (\<exists>(_, m, _)\<in>live_holds now r (trip, u). m \<noteq> 0) \<longrightarrow> u \<in> set (index_members now r trip))"

lemma fold_or_meets:
  fixes f :: "'a \<Rightarrow> 'b::len word"
  shows "fold (\<lambda>x u. u OR f x) xs 0 AND m \<noteq> 0 \<longleftrightarrow> (\<exists>x\<in>set xs. f x AND m \<noteq> 0)"
  using fold_or_disjoint [of f xs 0 m] by auto

lemma union_mask_meets:
  "union_mask now (unit_fields now r key) AND m \<noteq> 0 \<longleftrightarrow> (\<exists>(_, m', _)\<in>live_holds now r key. m' AND m \<noteq> 0)"
  using fold_or_meets [of "\<lambda>(_, e). entry_mask e" "live_entries now (unit_fields now r key)" m]
  by (simp add: union_mask_def live_holds_def case_prod_unfold)

lemma index_members_srem:
  "index_members now (srem now trip gone r) trip = filter (\<lambda>u. \<not> List.member gone u) (index_members now r trip)"
  by (auto simp: index_members_def srem_def seen_def Let_def split: option.splits)

lemma live_held_units_effect:
  assumes "live_held_units now trip r = (r', live)"
  shows "live = filter (\<lambda>(_, m). m \<noteq> 0) (scan_units now trip r) \<and> live_holds now r' = live_holds now r
    \<and> set (index_members now r' trip) = {u \<in> set (index_members now r trip). union_mask now (unit_fields now r (trip, u)) \<noteq> 0}"
proof -
  let ?stale = "map fst (filter (\<lambda>(_, m). m = 0) (scan_units now trip r))"
  have stale: "List.member ?stale u \<longleftrightarrow> u \<in> set (index_members now r trip) \<and> union_mask now (unit_fields now r (trip, u)) = 0" for u
    by (auto simp: scan_units_def image_iff)
  from assms have r': "r' = (if ?stale = [] then r else srem now trip ?stale r)"
    and live: "live = filter (\<lambda>(_, m). m \<noteq> 0) (scan_units now trip r)"
    by (simp_all add: live_held_units_def Let_def)
  have "live_holds now r' = live_holds now r" unfolding r' by (intro live_holds_cong) simp
  moreover have "set (index_members now r' trip) = {u \<in> set (index_members now r trip). \<not> List.member ?stale u}"
  proof (cases "?stale = []")
    case True
    then have "\<not> List.member ?stale u" for u by simp
    with True show ?thesis by (simp add: r')
  next
    case False
    then show ?thesis by (simp only: r' if_False index_members_srem set_filter)
  qed
  ultimately show ?thesis using live stale by auto
qed

text \<open>While the trip's index lists every seat with a live hold, the seat map greys out exactly the seats
  with a live hold that overlaps the span, and pruning the index costs no hold and leaves it complete.\<close>
theorem seat_map_exact:
  assumes complete: "index_complete now trip r"
  shows "case held_units now trip span r of (r', us) \<Rightarrow>
    set us = {u. \<exists>(_, m, _)\<in>live_holds now r (trip, u). m AND span_mask span \<noteq> 0}
    \<and> live_holds now r' = live_holds now r \<and> index_complete now trip r'"
proof -
  obtain r' live where l: "live_held_units now trip r = (r', live)" by force
  note e = live_held_units_effect [OF l]
  have nz: "union_mask now (unit_fields now r (trip, u)) \<noteq> 0 \<longleftrightarrow> (\<exists>(_, m, _)\<in>live_holds now r (trip, u). m \<noteq> 0)" for u
    using union_mask_meets [of now r "(trip, u)" "- 1"] by simp
  have listed: "u \<in> set (index_members now r trip)"
    if "\<exists>(_, m, _)\<in>live_holds now r (trip, u). m AND span_mask span \<noteq> 0" for u
  proof -
    from that obtain h m e where x: "(h, m, e) \<in> live_holds now r (trip, u)" "m AND span_mask span \<noteq> 0" by auto
    then have "m \<noteq> 0" by auto
    with x(1) complete show ?thesis unfolding index_complete_def by fastforce
  qed
  have "index_complete now trip r'"
    using complete e nz unfolding index_complete_def by auto
  moreover have "set (map fst (filter (\<lambda>(_, m). m AND span_mask span \<noteq> 0) live))
      = {u \<in> set (index_members now r trip). union_mask now (unit_fields now r (trip, u)) AND span_mask span \<noteq> 0}"
    using e by (force simp: scan_units_def image_iff)
  moreover have "{u \<in> set (index_members now r trip). union_mask now (unit_fields now r (trip, u)) AND span_mask span \<noteq> 0}
      = {u. \<exists>(_, m, _)\<in>live_holds now r (trip, u). m AND span_mask span \<noteq> 0}"
    unfolding union_mask_meets using listed by blast
  ultimately show ?thesis using e by (simp add: held_units_def l)
qed

theorem seat_map_exact_witness:
  "set (snd (held_units 10 (Uuid 1) \<lparr>span_from = 1, span_to = 2\<rparr> demo_redis))
    = {u. \<exists>(_, m, _)\<in>live_holds 10 demo_redis (Uuid 1, u). m AND span_mask \<lparr>span_from = 1, span_to = 2\<rparr> \<noteq> 0}"
proof -
  have "List.member (index_members 10 demo_redis (Uuid 1)) (Uuid 3)" by code_simp
  then have "index_complete 10 (Uuid 1) demo_redis"
    by (auto simp: index_complete_def demo_redis_facts(2) split: if_splits)
  from seat_map_exact [OF this, of "\<lparr>span_from = 1, span_to = 2\<rparr>"] show ?thesis by (simp split: prod.splits)
qed

text \<open>The index does lose live holds, against its comment: a short hold on another seat resets the expiry
  of the whole trip's index, and a prune deletes the entry of a hold taken after its scan. In both runs the
  hold is live and still refuses others, but the seat map does not show it.\<close>
theorem hold_hidden_from_map:
  "(let r = fst (acquire 0 30000 (Uuid 8) (Uuid 1) (Uuid 3) \<lparr>span_from = 0, span_to = 2\<rparr>
             (fst (acquire 0 1800000 (Uuid 7) (Uuid 1) (Uuid 2) \<lparr>span_from = 0, span_to = 2\<rparr> empty_redis)))
     in verify 120000 (Uuid 7) (Uuid 1) (Uuid 2) r
      \<and> snd (acquire 120000 30000 (Uuid 9) (Uuid 1) (Uuid 2) \<lparr>span_from = 0, span_to = 2\<rparr> r) = None
      \<and> snd (held_units 120000 (Uuid 1) \<lparr>span_from = 0, span_to = 2\<rparr> r) = []
      \<and> snd (held_unit_count 120000 (Uuid 1) 1 r) = 0)
   \<and> (let r0 = fst (acquire 0 30000 (Uuid 7) (Uuid 1) (Uuid 2) \<lparr>span_from = 0, span_to = 2\<rparr> empty_redis);
          scanned = scan_units 40000 (Uuid 1) r0;
          r1 = fst (acquire 40000 30000 (Uuid 8) (Uuid 1) (Uuid 2) \<lparr>span_from = 0, span_to = 2\<rparr> r0);
          r2 = srem 40000 (Uuid 1) (map fst (filter (\<lambda>(_, m). m = 0) scanned)) r1
     in verify 40001 (Uuid 8) (Uuid 1) (Uuid 2) r2
      \<and> snd (held_units 40001 (Uuid 1) \<lparr>span_from = 0, span_to = 2\<rparr> r2) = [])"
  by code_simp

end
