(* ===== verification/Reservations.thy ===== *)
theory Reservations
  imports Holds Sample Availability Api_Error Texts
begin

unbundle bit_operations_syntax

text \<open>
  The hold and claim endpoints: \<open>crates/lulan-api/src/reservations.rs\<close>. Redis is an option, as in
  \<open>AppState\<close>; the caller of a claim has been authenticated. The environment is a function from names to
  texts. The fraction of a trip that may be held is an exact quotient (numerator, denominator) here,
  an \<open>f64\<close> in the code.
\<close>

section \<open>Configuration\<close>

definition DEFAULT_HOLD_TTL_SECS :: nat where "DEFAULT_HOLD_TTL_SECS = 600"
definition MAX_HOLD_TTL_SECS :: nat where "MAX_HOLD_TTL_SECS = 1800"
definition MIN_HOLD_TTL_SECS :: nat where "MIN_HOLD_TTL_SECS = 30"
definition MAX_SEATS_PER_HOLD :: nat where "MAX_SEATS_PER_HOLD = 20"
definition DEFAULT_TRIP_HOLD_FRACTION :: "nat \<times> nat" where "DEFAULT_TRIP_HOLD_FRACTION = (3, 4)"

type_synonym environment = "string \<Rightarrow> string option"

definition default_hold_ttl :: "environment \<Rightarrow> nat" where
  "default_hold_ttl env = (case Option.bind (env ''LULAN_HOLD_DEFAULT_TTL_SECS'') parse_u64 of
     Some n \<Rightarrow> n | None \<Rightarrow> DEFAULT_HOLD_TTL_SECS)"

definition max_hold_ttl :: "environment \<Rightarrow> nat" where
  "max_hold_ttl env = (case Option.bind (env ''LULAN_HOLD_MAX_TTL_SECS'') parse_u64 of
     Some n \<Rightarrow> n | None \<Rightarrow> MAX_HOLD_TTL_SECS)"

text \<open>\<open>configured\<close> is the parsed \<open>LULAN_HOLD_MAX_TRIP_FRACTION\<close>; one that is not positive is ignored.\<close>

definition trip_hold_fraction :: "(nat \<times> nat) option \<Rightarrow> nat \<times> nat" where
  "trip_hold_fraction configured = (case configured of
     Some f \<Rightarrow> if 0 < fst f then f else DEFAULT_TRIP_HOLD_FRACTION
   | None \<Rightarrow> DEFAULT_TRIP_HOLD_FRACTION)"

text \<open>\<open>Ord::clamp\<close> panics when its bounds are crossed.\<close>

definition clamp :: "nat \<Rightarrow> nat \<Rightarrow> nat \<Rightarrow> nat option" where
  "clamp x lo hi = (if lo \<le> hi then Some (max lo (min x hi)) else None)"

section \<open>Holding\<close>

record hold_item =
  hi_unit_code :: string
  hi_origin :: string
  hi_destination :: string

record hold_request =
  hr_trip_id :: "uuid option"
  hr_items :: "hold_item list option"
  hr_journeys :: "(uuid \<times> hold_item list) list option"
  hr_ttl_seconds :: "nat option"

definition flatten_journeys :: "hold_request \<Rightarrow> api_error + (uuid \<times> hold_item) list" where
  "flatten_journeys req = (case (hr_trip_id req, hr_items req, hr_journeys req) of
      (None, None, Some journeys) \<Rightarrow>
        if journeys = [] \<or> list_ex (\<lambda>(_, items). items = []) journeys then Inl BadRequest
        else if length journeys > 8 then Inl BadRequest
        else Inr (concat (map (\<lambda>(trip, items). map (Pair trip) items) journeys))
    | (Some trip, Some items, None) \<Rightarrow>
        if items \<noteq> [] then Inr (map (Pair trip) items) else Inl BadRequest
    | _ \<Rightarrow> Inl BadRequest)"

definition hold_seat :: "instant \<Rightarrow> db \<Rightarrow> uuid \<times> hold_item \<Rightarrow> api_error + (uuid \<times> uuid \<times> segment_span)" where
  "hold_seat now d = (\<lambda>(trip, item).
    and_then (map_err of_store_error
      (resolve_target now trip (hi_unit_code item) (hi_origin item) (hi_destination item) d)) (\<lambda>found.
    and_then (ok_or ApiNotFound found) (\<lambda>target.
      if ct_kind target \<noteq> ''seat'' then Inl BadRequest
      else
        and_then (ok_or ApiNotFound (seat_mask trip (ct_unit_id target) d)) (\<lambda>occupied.
          if \<not> span_is_available (ct_span target) occupied then Inl ApiConflict
          else Inr (trip, ct_unit_id target, ct_span target)))))"

text \<open>
  The ceiling, per distinct trip; measuring may prune the index. The code walks a \<open>HashMap\<close>, whose
  order only decides which of several full trips is named.
\<close>

fun check_ceilings :: "nat \<times> nat \<Rightarrow> int \<Rightarrow> db \<Rightarrow> (uuid \<times> nat) list \<Rightarrow> redis \<Rightarrow> redis \<times> api_error option" where
  "check_ceilings f now d [] r = (r, None)"
| "check_ceilings f now d ((trip, adding) # wanted) r =
    (let total_seats = seat_count trip d in
     if total_seats = 0 then check_ceilings f now d wanted r
     else
       let ceiling = max (total_seats * fst f div snd f) 1;
           (r', held) = held_unit_count now trip ceiling r
       in if held + adding > ceiling then (r', Some ApiConflict) else check_ceilings f now d wanted r')"

definition wanted_per_trip :: "(uuid \<times> uuid \<times> segment_span) list \<Rightarrow> (uuid \<times> nat) list" where
  "wanted_per_trip seats = map (\<lambda>t. (t, count_where (\<lambda>(t', _, _). t' = t) seats)) (remdups (map fst seats))"

definition create_hold :: "environment \<Rightarrow> (nat \<times> nat) option \<Rightarrow> instant \<Rightarrow> uuid \<Rightarrow> (nat \<Rightarrow> uuid) \<Rightarrow> db \<Rightarrow> hold_request \<Rightarrow>
    redis option \<Rightarrow> redis option \<times> (api_error + itinerary_hold)" where
  "create_hold env fraction now group_id new d req store =
    (case flatten_journeys req of
       Inl e \<Rightarrow> (store, Inl e)
     | Inr flat \<Rightarrow>
         if length flat > MAX_SEATS_PER_HOLD then (store, Inl BadRequest)
         else (case store of
             None \<Rightarrow> (None, Inl ServiceUnavailable)
           | Some r \<Rightarrow>
             (case try_map (hold_seat now d) flat of
                Inl e \<Rightarrow> (Some r, Inl e)
              | Inr seats \<Rightarrow>
                  let now_ms = timestamp_millis now; f = trip_hold_fraction fraction;
                      (r1, refused) = (if fst f < snd f then check_ceilings f now_ms d (wanted_per_trip seats) r else (r, None))
                  in (case refused of
                        Some e \<Rightarrow> (Some r1, Inl e)
                      | None \<Rightarrow>
                          (case clamp (case hr_ttl_seconds req of Some t \<Rightarrow> t | None \<Rightarrow> default_hold_ttl env) MIN_HOLD_TTL_SECS (max_hold_ttl env) of
                             None \<Rightarrow> (Some r1, Inl Panicked)
                           | Some secs \<Rightarrow>
                               (case acquire_itinerary now_ms (i64 (int secs * 1000)) group_id new seats r1 of
                                  (r2, None) \<Rightarrow> (Some r2, Inl ApiConflict)
                                | (r2, Some h) \<Rightarrow> (Some r2, Inr h)))))))"

definition delete_hold :: "instant \<Rightarrow> uuid \<Rightarrow> redis option \<Rightarrow> redis option \<times> (api_error + unit)" where
  "delete_hold now hold_id store =
    (case store of
       None \<Rightarrow> (None, Inl ServiceUnavailable)
     | Some r \<Rightarrow> (case release_itinerary (timestamp_millis now) hold_id r of
           (r', True) \<Rightarrow> (Some r', Inr ())
         | (r', False) \<Rightarrow> (Some r', Inl ApiNotFound)))"

section \<open>Claiming outside an order\<close>

record claim_request =
  cr_unit_code :: string
  cr_origin :: string
  cr_destination :: string
  cr_quantity :: "int option"
  cr_hold_id :: "uuid option"

definition check_hold :: "int \<Rightarrow> uuid option \<Rightarrow> redis option \<Rightarrow> uuid \<times> uuid \<Rightarrow> api_error + unit" where
  "check_hold now_ms hold_id store seat =
    (case (hold_id, store) of
       (Some i, Some r) \<Rightarrow> (case itinerary_members now_ms i r of
           Some members \<Rightarrow> if List.member members seat then Inr () else Inl ApiConflict
         | None \<Rightarrow> Inl ApiConflict)
     | _ \<Rightarrow> Inr ())"

definition claim_target_exec :: "uuid \<Rightarrow> claim_target \<Rightarrow> int option \<Rightarrow> db \<Rightarrow> api_error + db \<times> claim_outcome" where
  "claim_target_exec trip target quantity d =
    (if ct_kind target = ''seat'' then Inr (claim_seat trip (ct_unit_id target) (ct_span target) d)
     else if ct_kind target = ''pool'' then
       (let qty = (case quantity of Some q \<Rightarrow> q | None \<Rightarrow> 1)
        in if qty \<le> 0 then Inl BadRequest
           else map_err of_store_error (claim_pool trip (ct_unit_id target) (ct_span target) qty d))
     else Inl Internal)"

definition create_claim :: "instant \<Rightarrow> uuid \<Rightarrow> claim_request \<Rightarrow> db \<Rightarrow> redis option \<Rightarrow>
    db \<times> redis option \<times> (api_error + segment_span)" where
  "create_claim now trip req d store =
    (case and_then (map_err of_store_error
             (resolve_target now trip (cr_unit_code req) (cr_origin req) (cr_destination req) d)) (\<lambda>found.
          and_then (ok_or ApiNotFound found) (\<lambda>target.
          and_then (check_hold (timestamp_millis now) (cr_hold_id req) store (trip, ct_unit_id target)) (\<lambda>_.
          and_then (claim_target_exec trip target (cr_quantity req) d) (\<lambda>(d', outcome).
          Inr (d', outcome, ct_span target))))) of
       Inl e \<Rightarrow> (d, store, Inl e)
     | Inr (d', Claimed, span) \<Rightarrow>
         (d', (case (cr_hold_id req, store) of
                 (Some i, Some r) \<Rightarrow> Some (fst (release_itinerary (timestamp_millis now) i r))
               | _ \<Rightarrow> store), Inr span)
     | Inr (d', ClaimConflict, _) \<Rightarrow> (d', store, Inl ApiConflict)
     | Inr (d', ClaimNotFound, _) \<Rightarrow> (d', store, Inl ApiNotFound))"

section \<open>What a granted hold is\<close>

lemma acquire_seats_members:
  "acquire_seats now ttl seats acquired r = (r', Some acq) \<Longrightarrow>
   acq = acquired @ map (\<lambda>(h, trip, unit_id, _). (h, trip, unit_id)) seats"
  by (induction now ttl seats acquired r rule: acquire_seats.induct)
    (auto split: prod.splits option.splits dest: acquire_Some)

lemma acquire_itinerary_granted:
  assumes "acquire_itinerary now ttl group_id new seats r = (r', Some h)"
  shows "ih_expires_at h = now + ttl \<and> ih_members h = map (\<lambda>(trip, unit_id, _). (trip, unit_id)) seats"
proof -
  from assms obtain acq where acq: "acquire_seats now ttl (zip (map new [0..<length seats]) seats) [] r = (fst (acquire_seats now ttl (zip (map new [0..<length seats]) seats) [] r), Some acq)"
    and h: "ih_expires_at h = now + ttl" "ih_members h = map (\<lambda>(_, trip, unit_id). (trip, unit_id)) acq"
    by (auto simp: acquire_itinerary_def split: prod.splits option.splits)
  have "map (\<lambda>(_, trip, unit_id, _). (trip, unit_id)) (zip (map new [0..<length seats]) seats)
      = map (\<lambda>(trip, unit_id, _). (trip, unit_id)) (map snd (zip (map new [0..<length seats]) seats))"
    by (simp only: map_map o_def case_prod_unfold)
  with acquire_seats_members [OF acq] h show ?thesis
    by (simp add: map_map o_def case_prod_unfold)
qed

lemma hold_seat_free:
  "hold_seat now d x = Inr (trip, unit_id, span) \<Longrightarrow>
   trip = fst x \<and> (\<exists>occupied. seat_mask trip unit_id d = Some occupied \<and> occupied AND span_mask span = 0)"
  by (auto simp: hold_seat_def span_is_available_def split: prod.splits if_splits)

text \<open>A granted hold covers at most twenty seats, none of them sold on its span, and always expires: after
  at least half a minute and at most the configured maximum. A maximum below half a minute makes every
  otherwise grantable request panic instead.\<close>
theorem granted_holds_are_bounded:
  assumes granted: "create_hold env fraction now group_id new d req (Some r) = (r', Inr h)" and max: "max_hold_ttl env < 2 ^ 50"
  shows "\<exists>seats. ih_members h = map (\<lambda>(trip, unit_id, _). (trip, unit_id)) seats \<and> length seats \<le> 20 \<and> MIN_HOLD_TTL_SECS \<le> max_hold_ttl env
    \<and> list_all (\<lambda>(trip, unit_id, span). \<exists>occupied. seat_mask trip unit_id d = Some occupied \<and> occupied AND span_mask span = 0) seats
    \<and> timestamp_millis now + 30000 \<le> ih_expires_at h
    \<and> ih_expires_at h \<le> timestamp_millis now + int (max_hold_ttl env) * 1000"
proof -
  from granted obtain flat seats r1 secs r2 where f: "flatten_journeys req = Inr flat" "length flat \<le> 20"
    and seats: "try_map (hold_seat now d) flat = Inr seats"
    and secs: "clamp (case hr_ttl_seconds req of Some t \<Rightarrow> t | None \<Rightarrow> default_hold_ttl env) MIN_HOLD_TTL_SECS (max_hold_ttl env) = Some secs"
    and acq: "acquire_itinerary (timestamp_millis now) (i64 (int secs * 1000)) group_id new seats r1 = (r2, Some h)"
    by (auto simp: create_hold_def MAX_SEATS_PER_HOLD_def Let_def split: sum.splits if_splits prod.splits option.splits)
  from secs have s: "30 \<le> secs" "secs \<le> max_hold_ttl env" "MIN_HOLD_TTL_SECS \<le> max_hold_ttl env"
    by (auto simp: clamp_def MIN_HOLD_TTL_SECS_def split: if_splits)
  then have "i64 (int secs * 1000) = int secs * 1000" using max by (intro i64_id) (simp add: in_i64_def)
  then have "ih_expires_at h = timestamp_millis now + int secs * 1000" using acquire_itinerary_granted [OF acq] by simp
  moreover have "\<exists>occupied. seat_mask trip unit_id d = Some occupied \<and> occupied AND span_mask span = 0"
    if in': "(trip, unit_id, span) \<in> set seats" for trip unit_id span
    using try_map_set [OF seats in'] hold_seat_free by blast
  ultimately show ?thesis
    using s f(2) try_map_length [OF seats] acquire_itinerary_granted [OF acq] by (intro exI [of _ seats]) (auto simp: list_all_iff)
qed

definition demo_hold_request :: hold_request where
  "demo_hold_request = \<lparr>hr_trip_id = Some sample_trip_id,
     hr_items = Some [\<lparr>hi_unit_code = ''12A'', hi_origin = ''A'', hi_destination = ''B''\<rparr>],
     hr_journeys = None, hr_ttl_seconds = Some 5\<rparr>"

theorem granted_holds_are_bounded_witness:
  "case snd (create_hold (\<lambda>_. None) None 0 (Uuid 70) (\<lambda>_. Uuid 80) sample_db demo_hold_request (Some empty_redis)) of
     Inl _ \<Rightarrow> False | Inr h \<Rightarrow> 30000 \<le> ih_expires_at h \<and> ih_expires_at h \<le> 1800000"
proof -
  have "case snd (create_hold (\<lambda>_. None) None 0 (Uuid 70) (\<lambda>_. Uuid 80) sample_db demo_hold_request (Some empty_redis)) of
     Inl _ \<Rightarrow> False | Inr h \<Rightarrow> True" by code_simp
  then obtain r' h where h: "create_hold (\<lambda>_. None) None 0 (Uuid 70) (\<lambda>_. Uuid 80) sample_db demo_hold_request (Some empty_redis) = (r', Inr h)"
    by (auto split: sum.splits simp: prod_eq_iff)
  from granted_holds_are_bounded [OF this] h show ?thesis
    by (auto simp: max_hold_ttl_def MAX_HOLD_TTL_SECS_def timestamp_millis_def)
qed

end
