(* ===== verification/Idempotency.thy ===== *)
theory Idempotency
  imports Api_Error Orders Ticket_Token Texts
begin

text \<open>
  \<open>Idempotency-Key\<close> handling: \<open>crates/lulan-api/src/idempotency.rs\<close> and the sweep of
  \<open>crates/lulan-engine/src/orders/mod.rs\<close>. Each function is the statements it sends; \<open>reserve\<close> sends
  two, an insert and a read, and other requests may run between them, so it is also given as its two
  steps. SHA-256, base64, serde and the text of a uuid are parameters.

  The step relation at the end runs any number of requests against the table, one statement at a
  time.
\<close>

section \<open>The table\<close>

record 'j key_row =
  ik_scope :: string
  ik_key :: string
  ik_request_hash :: bytes
  ik_status :: string
  ik_order_id :: "uuid option"
  ik_status_code :: "int option"
  ik_response :: "'j option"
  ik_created_at :: instant

record reservation =
  rv_scope :: string
  rv_key :: string

datatype 'j reserved = Disabled | Held reservation | Replay nat 'j

definition has_key :: "string \<Rightarrow> string \<Rightarrow> 'j key_row \<Rightarrow> bool" where
  "has_key scope key r \<longleftrightarrow> ik_scope r = scope \<and> ik_key r = key"

section \<open>Scope, fingerprint, header\<close>

definition key_scope :: "(uuid \<Rightarrow> string) \<Rightarrow> (string \<Rightarrow> bytes) \<Rightarrow> (bytes \<Rightarrow> string) \<Rightarrow> uuid option \<Rightarrow> string option \<Rightarrow> string" where
  "key_scope uuid_text sha256 b64 customer_id guest_contact =
    (case (customer_id, guest_contact) of
       (Some i, _) \<Rightarrow> ''customer:'' @ uuid_text i
     | (None, Some contact) \<Rightarrow> ''guest:'' @ b64 (sha256 (to_lowercase (trim contact)))
     | (None, None) \<Rightarrow> ''anonymous'')"

definition request_hash :: "('r \<Rightarrow> string option) \<Rightarrow> (string \<Rightarrow> bytes) \<Rightarrow> 'r \<Rightarrow> bytes" where
  "request_hash to_vec sha256 request = sha256 (case to_vec request of Some s \<Rightarrow> s | None \<Rightarrow> [])"

definition key_from_headers :: "headers \<Rightarrow> string option" where
  "key_from_headers headers = Option.bind (map_option trim (header_str headers ''idempotency-key''))
     (\<lambda>k. if k = [] then None else Some k)"

section \<open>Replaying, reserving, completing, releasing\<close>

text \<open>\<open>StatusCode::from_u16(code as u16).unwrap_or(OK)\<close>; a status code lies in 100 to 999.\<close>

definition status_code :: "int \<Rightarrow> nat" where
  "status_code code = (let u = code mod 65536 in if 100 \<le> u \<and> u \<le> 999 then nat u else 200)"

definition stored_response :: "'j key_row \<Rightarrow> api_error + nat \<times> 'j" where
  "stored_response row = (case (ik_status_code row, ik_response row) of
      (Some code, Some body) \<Rightarrow> Inr (status_code code, body)
    | _ \<Rightarrow> Inl Internal)"

definition replay_if_completed :: "string option \<Rightarrow> string \<Rightarrow> bytes \<Rightarrow> 'j key_row list \<Rightarrow> api_error + (nat \<times> 'j) option" where
  "replay_if_completed key_opt scope hash rows =
    (case key_opt of
       None \<Rightarrow> Inr None
     | Some key \<Rightarrow>
        (case List.find (\<lambda>r. has_key scope key r \<and> ik_status r = ''completed'') rows of
           None \<Rightarrow> Inr None
         | Some row \<Rightarrow> if ik_request_hash row \<noteq> hash then Inl ApiConflict
             else and_then (stored_response row) (\<lambda>resp. Inr (Some resp))))"

definition reserve_insert :: "instant \<Rightarrow> string \<Rightarrow> string \<Rightarrow> bytes \<Rightarrow> 'j key_row list \<Rightarrow> 'j key_row list \<times> nat" where
  "reserve_insert now scope key hash rows =
    (if list_ex (has_key scope key) rows then (rows, 0)
     else (rows @ [\<lparr>ik_scope = scope, ik_key = key, ik_request_hash = hash, ik_status = ''pending'',
             ik_order_id = None, ik_status_code = None, ik_response = None, ik_created_at = now\<rparr>], 1))"

definition reserve_read :: "string \<Rightarrow> string \<Rightarrow> bytes \<Rightarrow> 'j key_row list \<Rightarrow> api_error + 'j reserved" where
  "reserve_read scope key hash rows =
    (case List.find (has_key scope key) rows of
       None \<Rightarrow> Inr (Held \<lparr>rv_scope = scope, rv_key = key\<rparr>)
     | Some row \<Rightarrow>
         if ik_request_hash row \<noteq> hash then Inl ApiConflict
         else if ik_status row = ''completed''
         then and_then (stored_response row) (\<lambda>(code, body). Inr (Replay code body))
         else Inl ApiConflict)"

definition reserve :: "instant \<Rightarrow> string option \<Rightarrow> string \<Rightarrow> bytes \<Rightarrow> 'j key_row list \<Rightarrow>
    'j key_row list \<times> (api_error + 'j reserved)" where
  "reserve now key_opt scope hash rows =
    (case key_opt of
       None \<Rightarrow> (rows, Inr Disabled)
     | Some key \<Rightarrow>
         let (rows', claimed) = reserve_insert now scope key hash rows
         in if claimed = 1 then (rows', Inr (Held \<lparr>rv_scope = scope, rv_key = key\<rparr>))
            else (rows', reserve_read scope key hash rows'))"

definition complete :: "reservation \<Rightarrow> uuid \<Rightarrow> nat \<Rightarrow> 'j \<Rightarrow> 'j key_row list \<Rightarrow> 'j key_row list" where
  "complete rv order_id status body =
     update_where (has_key (rv_scope rv) (rv_key rv)) (\<lambda>r. r\<lparr>ik_status := ''completed'', ik_order_id := Some order_id,
       ik_status_code := Some (int status), ik_response := Some body\<rparr>)"

definition release :: "reservation \<Rightarrow> 'j key_row list \<Rightarrow> 'j key_row list" where
  "release rv = filter (\<lambda>r. \<not> (has_key (rv_scope rv) (rv_key rv) r \<and> ik_status r = ''pending''))"

definition sweep_idempotency_keys :: "instant \<Rightarrow> 'j key_row list \<Rightarrow> 'j key_row list \<times> nat" where
  "sweep_idempotency_keys now rows =
    (let dead = (\<lambda>r. ik_status r = ''pending'' \<and> ik_created_at r < now - minutes ORDER_TTL_MINUTES
           \<or> ik_status r = ''completed'' \<and> ik_created_at r < now - hours IDEMPOTENCY_RETENTION_HOURS)
     in (filter (\<lambda>r. \<not> dead r) rows, count_where dead rows))"

section \<open>Requests running against the table\<close>

text \<open>
  \<open>orders.rs\<close> reserves, books and then completes or releases. A request is a number; \<open>req\<close> gives its
  scope, key and fingerprint. \<open>Fresh_attempt\<close> is the read of \<open>reserve\<close> that finds no row.
\<close>

datatype phase = Fresh | Contended | Holding | Booked | Failed | Answered

datatype 'j key_action =
    Insert nat instant | Read nat | Fresh_attempt nat | Book nat | Book_fails nat
  | Complete nat uuid nat 'j | Release nat | Crash nat | Sweep instant

record 'j run =
  rn_keys :: "'j key_row list"
  rn_phase :: "nat \<Rightarrow> phase"
  rn_booked :: "nat list"

type_synonym requests = "nat \<Rightarrow> string \<times> string \<times> bytes"

definition req_key :: "requests \<Rightarrow> nat \<Rightarrow> string \<times> string" where
  "req_key req r = (case req r of (scope, key, _) \<Rightarrow> (scope, key))"

definition to_phase :: "nat \<Rightarrow> phase \<Rightarrow> 'j run \<Rightarrow> 'j run" where
  "to_phase r p s = s\<lparr>rn_phase := (rn_phase s)(r := p)\<rparr>"

definition req_reservation :: "requests \<Rightarrow> nat \<Rightarrow> reservation" where
  "req_reservation req r = \<lparr>rv_scope = fst (req_key req r), rv_key = snd (req_key req r)\<rparr>"

definition insert_step :: "requests \<Rightarrow> nat \<Rightarrow> instant \<Rightarrow> 'j run \<Rightarrow> 'j run" where
  "insert_step req r now s = (case req r of (scope, key, hash) \<Rightarrow>
     let (rows, claimed) = reserve_insert now scope key hash (rn_keys s)
     in to_phase r (if claimed = 1 then Holding else Contended) (s\<lparr>rn_keys := rows\<rparr>))"

definition read_step :: "requests \<Rightarrow> nat \<Rightarrow> bool \<Rightarrow> 'j run \<Rightarrow> 'j run option" where
  "read_step req r gone s = (case req r of (scope, key, hash) \<Rightarrow>
     (case reserve_read scope key hash (rn_keys s) of
        Inr (Held _) \<Rightarrow> if gone then Some (to_phase r Holding s) else None
      | _ \<Rightarrow> if gone then None else Some (to_phase r Answered s)))"

fun key_exec :: "requests \<Rightarrow> 'j key_action \<Rightarrow> 'j run \<Rightarrow> 'j run option" where
  "key_exec req (Insert r now) s = (if rn_phase s r = Fresh then Some (insert_step req r now s) else None)"
| "key_exec req (Read r) s = (if rn_phase s r = Contended then read_step req r False s else None)"
| "key_exec req (Fresh_attempt r) s = (if rn_phase s r = Contended then read_step req r True s else None)"
| "key_exec req (Book r) s =
     (if rn_phase s r = Holding then Some (to_phase r Booked (s\<lparr>rn_booked := rn_booked s @ [r]\<rparr>)) else None)"
| "key_exec req (Book_fails r) s = (if rn_phase s r = Holding then Some (to_phase r Failed s) else None)"
| "key_exec req (Complete r order_id status body) s =
     (if rn_phase s r = Booked
      then Some (to_phase r Answered (s\<lparr>rn_keys := complete (req_reservation req r) order_id status body (rn_keys s)\<rparr>)) else None)"
| "key_exec req (Release r) s =
     (if rn_phase s r = Failed
      then Some (to_phase r Answered (s\<lparr>rn_keys := release (req_reservation req r) (rn_keys s)\<rparr>)) else None)"
| "key_exec req (Crash r) s = Some (to_phase r Answered s)"
| "key_exec req (Sweep now) s = Some (s\<lparr>rn_keys := fst (sweep_idempotency_keys now (rn_keys s))\<rparr>)"

fun key_run :: "requests \<Rightarrow> 'j key_action list \<Rightarrow> 'j run \<Rightarrow> 'j run option" where
  "key_run req [] s = Some s"
| "key_run req (a # as) s = Option.bind (key_exec req a s) (key_run req as)"

definition key_start :: "'j key_row list \<Rightarrow> 'j run" where
  "key_start rows = \<lparr>rn_keys = rows, rn_phase = (\<lambda>_. Fresh), rn_booked = []\<rparr>"

fun keeps_keys :: "'j key_action \<Rightarrow> bool" where
  "keeps_keys (Fresh_attempt _) = False"
| "keeps_keys (Sweep _) = False"
| "keeps_keys _ = True"

definition owns_key :: "requests \<Rightarrow> 'j run \<Rightarrow> nat \<Rightarrow> bool" where
  "owns_key req s r \<longleftrightarrow> rn_phase s r \<in> {Holding, Booked, Failed} \<or> r \<in> set (rn_booked s)"

definition row_of :: "requests \<Rightarrow> nat \<Rightarrow> 'j key_row \<Rightarrow> bool" where
  "row_of req r row \<longleftrightarrow> has_key (fst (req_key req r)) (snd (req_key req r)) row"

definition key_inv :: "requests \<Rightarrow> 'j run \<Rightarrow> bool" where
  "key_inv req s \<longleftrightarrow>
     (\<forall>r r'. owns_key req s r \<and> owns_key req s r' \<and> req_key req r = req_key req r' \<longrightarrow> r = r')
   \<and> (\<forall>r. owns_key req s r \<longrightarrow> (\<exists>row\<in>set (rn_keys s). row_of req r row))
   \<and> (\<forall>r. rn_phase s r \<in> {Holding, Failed} \<longrightarrow> r \<notin> set (rn_booked s))
   \<and> distinct (rn_booked s)"

lemma key_inv_start: "key_inv req (key_start rows)"
  by (simp add: key_inv_def key_start_def owns_key_def)

lemma row_of_same: "req_key req r = req_key req r' \<Longrightarrow> row_of req r row = row_of req r' row"
  by (simp add: row_of_def)

text \<open>A step that neither takes a key nor drops one keeps the invariant.\<close>

lemma key_inv_shrink:
  assumes "key_inv req s" and "\<And>r. owns_key req s' r \<Longrightarrow> owns_key req s r"
    and "\<And>r row. owns_key req s' r \<Longrightarrow> row \<in> set (rn_keys s) \<Longrightarrow> row_of req r row \<Longrightarrow> \<exists>row\<in>set (rn_keys s'). row_of req r row"
    and "\<And>r. rn_phase s' r \<in> {Holding, Failed} \<Longrightarrow> r \<notin> set (rn_booked s')" and "distinct (rn_booked s')"
  shows "key_inv req s'"
  using assms unfolding key_inv_def by meson

lemma key_inv_insert:
  assumes inv: "key_inv req s" and fresh: "rn_phase s r = Fresh"
  shows "key_inv req (insert_step req r now s)"
proof -
  obtain scope key hash where q: "req r = (scope, key, hash)" by (cases "req r")
  then have k: "req_key req r = (scope, key)" by (simp add: req_key_def)
  show ?thesis
  proof (cases "list_ex (has_key scope key) (rn_keys s)")
    case True
    then have s': "insert_step req r now s = to_phase r Contended s"
      by (simp add: insert_step_def q reserve_insert_def)
    show ?thesis unfolding s'
      by (rule key_inv_shrink [OF inv]) (use inv in \<open>auto simp: owns_key_def to_phase_def key_inv_def split: if_splits\<close>)
  next
    case False
    define new :: "'a key_row" where "new = \<lparr>ik_scope = scope, ik_key = key, ik_request_hash = hash,
      ik_status = ''pending'', ik_order_id = None, ik_status_code = None, ik_response = None, ik_created_at = now\<rparr>"
    from False have s': "insert_step req r now s = to_phase r Holding (s\<lparr>rn_keys := rn_keys s @ [new]\<rparr>)"
      by (simp add: insert_step_def q reserve_insert_def new_def)
    have free: "\<not> owns_key req s r'" if "req_key req r' = (scope, key)" for r'
      using inv False that by (force simp: key_inv_def list_ex_iff row_of_def)
    then have "r \<notin> set (rn_booked s)" using k by (auto simp: owns_key_def)
    moreover have "row_of req r new" by (simp add: row_of_def k has_key_def new_def)
    moreover have o: "owns_key req (insert_step req r now s) r' \<longleftrightarrow> r' = r \<or> owns_key req s r'" for r'
      using free [OF k] by (auto simp: s' owns_key_def to_phase_def)
    ultimately show ?thesis
      using inv free k unfolding key_inv_def o by (auto simp: s' to_phase_def)
  qed
qed

lemma key_inv_release:
  assumes inv: "key_inv req s" and failed: "rn_phase s r = Failed"
  shows "key_inv req (to_phase r Answered (s\<lparr>rn_keys := release (req_reservation req r) (rn_keys s)\<rparr>))"
    (is "key_inv req ?s'")
proof (rule key_inv_shrink [OF inv])
  have r: "r \<notin> set (rn_booked s)" "owns_key req s r" using inv failed by (auto simp: key_inv_def owns_key_def)
  have o: "owns_key req ?s' r' \<longleftrightarrow> owns_key req s r' \<and> r' \<noteq> r" for r'
    using r by (auto simp: owns_key_def to_phase_def)
  then show "owns_key req s r'" if "owns_key req ?s' r'" for r' using that by blast
  show "\<exists>row\<in>set (rn_keys ?s'). row_of req r' row"
    if own: "owns_key req ?s' r'" and row: "row \<in> set (rn_keys s)" "row_of req r' row" for r' row
  proof -
    have "req_key req r' \<noteq> req_key req r" using inv own r(2) unfolding o key_inv_def by blast
    with row show ?thesis
      by (intro bexI [of _ row]) (auto simp: to_phase_def release_def req_reservation_def row_of_def has_key_def prod_eq_iff)
  qed
qed (use inv in \<open>auto simp: key_inv_def to_phase_def split: if_splits\<close>)

lemma complete_keeps_keys:
  assumes "row \<in> set rows" "row_of req r row"
  shows "\<exists>row'\<in>set (complete rv order_id status body rows). row_of req r row'"
proof -
  have "map (\<lambda>r. (ik_scope r, ik_key r)) (complete rv order_id status body rows) = map (\<lambda>r. (ik_scope r, ik_key r)) rows"
    unfolding complete_def by (rule map_update_where) simp
  then have "(\<lambda>r. (ik_scope r, ik_key r)) ` set (complete rv order_id status body rows) = (\<lambda>r. (ik_scope r, ik_key r)) ` set rows"
    by (metis set_map)
  with assms have "(ik_scope row, ik_key row) \<in> (\<lambda>r. (ik_scope r, ik_key r)) ` set (complete rv order_id status body rows)"
    by blast
  with assms(2) show ?thesis by (auto simp: row_of_def has_key_def)
qed

lemma key_inv_step:
  assumes inv: "key_inv req s" and step: "key_exec req a s = Some s'" and keeps: "keeps_keys a"
  shows "key_inv req s'"
proof (cases a)
  case (Insert r now)
  with inv step show ?thesis by (auto split: if_splits intro: key_inv_insert)
next
  case (Read r)
  with step have "s' = to_phase r Answered s"
    by (auto simp: read_step_def split: if_splits prod.splits sum.splits reserved.splits)
  with inv show ?thesis
    by (intro key_inv_shrink [OF inv]) (auto simp: owns_key_def to_phase_def key_inv_def split: if_splits)
next
  case (Book r)
  with step have ph: "rn_phase s r = Holding" and s': "s' = to_phase r Booked (s\<lparr>rn_booked := rn_booked s @ [r]\<rparr>)"
    by (auto split: if_splits)
  then have "owns_key req s' r' \<longleftrightarrow> owns_key req s r'" for r' by (auto simp: owns_key_def to_phase_def)
  with inv ph show ?thesis by (intro key_inv_shrink [OF inv]) (auto simp: key_inv_def s' to_phase_def split: if_splits)
next
  case (Book_fails r)
  with step have ph: "rn_phase s r = Holding" and s': "s' = to_phase r Failed s" by (auto split: if_splits)
  with inv show ?thesis
    by (intro key_inv_shrink [OF inv]) (auto simp: owns_key_def to_phase_def key_inv_def split: if_splits)
next
  case (Complete r i status body)
  with step have ph: "rn_phase s r = Booked"
    and s': "s' = to_phase r Answered (s\<lparr>rn_keys := complete (req_reservation req r) i status body (rn_keys s)\<rparr>)"
    by (auto split: if_splits)
  have "\<exists>row'\<in>set (rn_keys s'). row_of req r' row'" if "row \<in> set (rn_keys s)" "row_of req r' row" for r' row
    using complete_keeps_keys [OF that, of "req_reservation req r" i status body] by (simp add: s' to_phase_def)
  with inv show ?thesis
    by (intro key_inv_shrink [OF inv]) (auto simp: owns_key_def s' to_phase_def key_inv_def split: if_splits)
next
  case (Release r)
  with inv step show ?thesis by (auto split: if_splits intro: key_inv_release)
next
  case (Crash r)
  with inv step show ?thesis
    by (intro key_inv_shrink [OF inv]) (auto simp: owns_key_def to_phase_def key_inv_def split: if_splits)
qed (use keeps in simp_all)

lemma key_inv_run: "key_run req as s = Some s' \<Longrightarrow> key_inv req s \<Longrightarrow> list_all keeps_keys as \<Longrightarrow> key_inv req s'"
  by (induction as arbitrary: s) (auto simp: bind_eq_Some_conv dest: key_inv_step)

lemma distinct_all_equal:
  assumes "distinct xs" and eq: "\<And>x y. x \<in> set xs \<Longrightarrow> y \<in> set xs \<Longrightarrow> x = y"
  shows "length xs \<le> 1"
proof (rule ccontr)
  assume "\<not> length xs \<le> 1"
  then have l: "0 < length xs" "1 < length xs" by (cases xs; simp)+
  then have "xs ! 0 = xs ! 1" by (intro eq nth_mem) simp_all
  with assms(1) l show False by (simp add: nth_eq_iff_index_eq)
qed

text \<open>C6: However the statements of any number of requests interleave, crashes included, the requests that
  share a scope and a key book at most once between them, as long as no key is swept and no read of
  \<open>reserve\<close> finds its key gone.\<close>
theorem one_booking_per_key:
  assumes "key_run req actions (key_start rows) = Some s" "list_all keeps_keys actions"
  shows "count_where (\<lambda>r. req_key req r = k) (rn_booked s) \<le> 1"
proof -
  have inv: "key_inv req s" using key_inv_run [OF assms(1) key_inv_start assms(2)] .
  let ?B = "filter (\<lambda>r. req_key req r = k) (rn_booked s)"
  have "distinct ?B" using inv by (simp add: key_inv_def)
  moreover have "r = r'" if "r \<in> set ?B" "r' \<in> set ?B" for r r'
    using inv that by (auto simp: key_inv_def owns_key_def)
  ultimately have "length ?B \<le> 1" by (rule distinct_all_equal)
  then show ?thesis by (simp add: count_where_def)
qed

definition same_key :: requests where
  "same_key r = (''guest:a'', ''k'', [7])"

text \<open>A double click and a retry: one books and is completed, the other two are turned away or answered.\<close>

definition retry_actions :: "unit key_action list" where
  "retry_actions = [Insert 0 0, Insert 1 1, Read 1, Book 0, Complete 0 (Uuid 5) 201 (), Insert 2 9, Read 2]"

theorem one_booking_per_key_witness:
  "case key_run same_key retry_actions (key_start []) of None \<Rightarrow> False
   | Some s \<Rightarrow> rn_booked s = [0] \<and> count_where (\<lambda>r. req_key same_key r = (''guest:a'', ''k'')) (rn_booked s) \<le> 1"
proof -
  have "case key_run same_key retry_actions (key_start []) of None \<Rightarrow> False | Some s \<Rightarrow> rn_booked s = [0]" by code_simp
  moreover have "list_all keeps_keys retry_actions" by code_simp
  ultimately show ?thesis
    using one_booking_per_key [of same_key retry_actions "[]"] by (auto split: option.splits)
qed

text \<open>\<open>reserve\<close> does not insert again when its read finds the key gone, it goes on without a row: a
  retry that lost to a request whose booking then fails and a third one with the same key both book.\<close>
theorem key_books_twice:
  "case key_run same_key [Insert 0 0, Insert 1 1, Book_fails 0, Release 0, Fresh_attempt 1, Insert 2 2, Book 2, Book 1]
     (key_start ([] :: unit key_row list)) of
     None \<Rightarrow> False
   | Some s \<Rightarrow> count_where (\<lambda>r. req_key same_key r = (''guest:a'', ''k'')) (rn_booked s) = 2"
  by code_simp

text \<open>Once a reservation is completed, the same request under the key is answered with the stored
  response before any pricing, and a different request with a conflict.\<close>
theorem completed_key_replays:
  assumes row: "List.find (has_key scope key) rows = Some row" and code: "100 \<le> status" "status \<le> 999"
  shows "replay_if_completed (Some key) scope hash (complete \<lparr>rv_scope = scope, rv_key = key\<rparr> order_id status body rows)
    = (if ik_request_hash row = hash then Inr (Some (status, body)) else Inl ApiConflict)"
proof -
  have "List.find (\<lambda>r. has_key scope key r \<and> ik_status r = ''completed'')
      (complete \<lparr>rv_scope = scope, rv_key = key\<rparr> order_id status body rows)
    = Some (row\<lparr>ik_status := ''completed'', ik_order_id := Some order_id, ik_status_code := Some (int status), ik_response := Some body\<rparr>)"
    using row by (induction rows) (auto simp: complete_def has_key_def split: if_splits)
  with code show ?thesis
    by (simp add: replay_if_completed_def stored_response_def status_code_def)
qed

theorem completed_key_replays_witness:
  "let rows = fst (reserve 0 (Some ''k'') ''guest:a'' [7] ([] :: string key_row list))
   in replay_if_completed (Some ''k'') ''guest:a'' [7]
     (complete \<lparr>rv_scope = ''guest:a'', rv_key = ''k''\<rparr> (Uuid 5) 201 ''order'' rows) = Inr (Some (201, ''order''))"
  by (simp add: completed_key_replays Let_def reserve_def reserve_insert_def has_key_def)

end
