(* ===== verification/Payments.thy ===== *)
theory Payments
  imports Texts Ticket_Token
begin

unbundle bit_operations_syntax

text \<open>
  Payment providers: \<open>crates/lulan-engine/src/payments/mod.rs\<close> (the port and the fake provider) and
  \<open>payments/http.rs\<close> (a provider described by configuration). JSON parsing, printing and pointers, the
  HMACs, base64, the text of a uuid and the HTTP client are third-party: the record \<open>payment_libs\<close> and
  the argument \<open>send\<close>. Bodies and secrets are their bytes, as texts are. The messages inside errors and
  reading the configuration file are not modelled; a \<open>BTreeMap\<close> is its entries in key order.
\<close>

section \<open>The port\<close>

datatype payment_error = Rejected | Unavailable | CallbackBadSignature | CallbackMalformed

record payment_intent =
  pn_id :: string
  pn_client_secret :: "string option"

datatype payment_event = Captured string | PaymentDeclined string | Ignored

text \<open>The fake provider; \<open>read\<close> is serde on a callback, its intent id and status.\<close>

definition fake_create_intent :: "(uuid \<Rightarrow> string) \<Rightarrow> uuid \<Rightarrow> payment_error + payment_intent" where
  "fake_create_intent simple_text new_id = Inr \<lparr>pn_id = ''fake_pi_'' @ simple_text new_id, pn_client_secret = None\<rparr>"

definition fake_verify_callback :: "(string \<Rightarrow> (string \<times> string) option) \<Rightarrow> string option \<Rightarrow> string \<Rightarrow> payment_error + payment_event" where
  "fake_verify_callback read signature body =
    (case read body of
       None \<Rightarrow> Inl CallbackMalformed
     | Some (intent, status) \<Rightarrow>
         if status = ''succeeded'' then Inr (Captured intent)
         else if status = ''failed'' then Inr (PaymentDeclined intent)
         else Inl CallbackMalformed)"

section \<open>Configuration\<close>

datatype encoding = JsonEncoding | FormEncoding

datatype auth = BearerAuth string | BasicAuth string "string option" | HeaderAuth string string | NoAuth

record call =
  ca_path :: string
  ca_fields :: "(string \<times> string) list"
  ca_intent_id_pointer :: "string option"
  ca_client_secret_pointer :: "string option"
  ca_idempotency_header :: "string option"

datatype digest = Sha256 | Sha512

datatype signature_encoding = HexSignature | Base64Signature

datatype header_format = RawHeader | KeyValueHeader "string option" string

record webhook =
  wh_signature_header :: "string option"
  wh_header_format :: header_format
  wh_secret_env :: "string option"
  wh_signed_payload :: string
  wh_digest :: digest
  wh_encoding :: signature_encoding
  wh_tolerance_seconds :: int
  wh_event_type_pointer :: "string option"
  wh_intent_id_pointer :: string
  wh_captured_events :: "string list"
  wh_failed_events :: "string list"

record provider_config =
  pr_name :: string
  pr_base_url :: string
  pr_auth :: auth
  pr_encoding :: encoding
  pr_create_intent :: call
  pr_refund :: call
  pr_webhook :: webhook

datatype json = JNull | JBool bool | JNumber string | JString string | JArray "json list" | JObject "(string \<times> json) list"

record payment_libs =
  pl_parse :: "string \<Rightarrow> json option"
  pl_text :: "json \<Rightarrow> string"
  pl_pointer :: "json \<Rightarrow> string \<Rightarrow> json option"
  pl_hmac :: "digest \<Rightarrow> string \<Rightarrow> string \<Rightarrow> string"
  pl_base64 :: "string \<Rightarrow> string"
  pl_uuid_text :: "uuid \<Rightarrow> string"

record http_provider =
  hp_config :: provider_config
  hp_auth_header :: "(string \<times> string) option"
  hp_webhook_secret :: "string option"

text \<open>\<open>HttpProvider::new\<close>: every secret named must be in the environment; \<open>None\<close> is a refused boot.\<close>

definition resolve_auth :: "payment_libs \<Rightarrow> (string \<Rightarrow> string option) \<Rightarrow> auth \<Rightarrow> (string \<times> string) option option" where
  "resolve_auth libs env a = (case a of
      BearerAuth token_env \<Rightarrow> map_option (\<lambda>t. Some (''authorization'', ''Bearer '' @ t)) (env token_env)
    | BasicAuth token_env password_env \<Rightarrow>
        Option.bind (env token_env) (\<lambda>user.
        Option.bind (case password_env of Some key \<Rightarrow> env key | None \<Rightarrow> Some []) (\<lambda>password.
          Some (Some (''authorization'', ''Basic '' @ pl_base64 libs (user @ '':'' @ password)))))
    | HeaderAuth name value_env \<Rightarrow> map_option (\<lambda>v. Some (to_lowercase name, v)) (env value_env)
    | NoAuth \<Rightarrow> Some None)"

definition provider_new :: "payment_libs \<Rightarrow> (string \<Rightarrow> string option) \<Rightarrow> provider_config \<Rightarrow> http_provider option" where
  "provider_new libs env config =
    Option.bind (resolve_auth libs env (pr_auth config)) (\<lambda>auth_header.
    Option.bind (case wh_secret_env (pr_webhook config) of Some key \<Rightarrow> map_option Some (env key) | None \<Rightarrow> Some None) (\<lambda>secret.
      if wh_signature_header (pr_webhook config) \<noteq> None \<and> secret = None then None
      else Some \<lparr>hp_config = config, hp_auth_header = auth_header, hp_webhook_secret = secret\<rparr>))"

section \<open>Amounts and templates\<close>

record vars =
  va_order_id :: uuid
  va_amount_minor :: int
  va_currency :: string
  va_payment_intent_id :: string
  va_idempotency_key :: string

definition iso_exponent :: "string \<Rightarrow> nat" where
  "iso_exponent currency =
    (let c = to_uppercase currency in
     if List.member [''BIF'', ''CLP'', ''DJF'', ''GNF'', ''ISK'', ''JPY'', ''KMF'', ''KRW'', ''PYG'', ''RWF'', ''UGX'',
          ''VND'', ''VUV'', ''XAF'', ''XOF'', ''XPF''] c then 0
     else if List.member [''BHD'', ''IQD'', ''JOD'', ''KWD'', ''LYD'', ''OMR'', ''TND''] c then 3
     else 2)"

text \<open>\<open>{frac:0width$}\<close>: padded with zeros on the left.\<close>

definition pad_zeros :: "nat \<Rightarrow> string \<Rightarrow> string" where
  "pad_zeros width s = replicate (width - length s) (CHR ''0'') @ s"

definition amount_decimal :: "int \<Rightarrow> string \<Rightarrow> string" where
  "amount_decimal amount_minor currency =
    (let exp = iso_exponent currency in
     if exp = 0 then int_text amount_minor
     else
       let n = nat \<bar>amount_minor\<bar>; scale = 10 ^ exp
       in (if amount_minor < 0 then ''-'' else []) @ nat_text (n div scale) @ ''.'' @ pad_zeros exp (nat_text (n mod scale)))"

definition amount_major :: "int \<Rightarrow> string \<Rightarrow> int" where
  "amount_major amount_minor currency = trunc_div amount_minor (10 ^ iso_exponent currency)"

definition render :: "payment_libs \<Rightarrow> vars \<Rightarrow> string \<Rightarrow> string" where
  "render libs v template =
    fold (\<lambda>(pat, rep) s. str_replace pat rep s)
      [(''{order_id}'', pl_uuid_text libs (va_order_id v)),
       (''{amount_minor}'', int_text (va_amount_minor v)),
       (''{amount_decimal}'', amount_decimal (va_amount_minor v) (va_currency v)),
       (''{amount_major}'', int_text (amount_major (va_amount_minor v) (va_currency v))),
       (''{currency}'', va_currency v),
       (''{currency_lower}'', to_lowercase (va_currency v)),
       (''{currency_upper}'', to_uppercase (va_currency v)),
       (''{payment_intent_id}'', va_payment_intent_id v)] template"

definition form_body :: "payment_libs \<Rightarrow> (string \<times> string) list \<Rightarrow> vars \<Rightarrow> (string \<times> string) list" where
  "form_body libs fs v = map (\<lambda>(k, t). (k, render libs v t)) fs"

definition obj_insert :: "string \<Rightarrow> json \<Rightarrow> (string \<times> json) list \<Rightarrow> (string \<times> json) list" where
  "obj_insert k x kvs = (if List.member (map fst kvs) k then map (\<lambda>(k', y). if k' = k then (k', x) else (k', y)) kvs
     else kvs @ [(k, x)])"

text \<open>The walk along a dotted key: a part that is missing or not an object becomes an empty object.\<close>

fun json_put :: "string list \<Rightarrow> json \<Rightarrow> (string \<times> json) list \<Rightarrow> (string \<times> json) list" where
  "json_put [] x kvs = kvs"
| "json_put [part] x kvs = obj_insert part x kvs"
| "json_put (part # part' # parts) x kvs =
     (let child = (case map_of kvs part of Some (JObject c) \<Rightarrow> c | _ \<Rightarrow> [])
      in obj_insert part (JObject (json_put (part' # parts) x child)) kvs)"

definition json_value :: "payment_libs \<Rightarrow> vars \<Rightarrow> string \<Rightarrow> json" where
  "json_value libs v template =
    (if trim template = ''{amount_minor}'' then JNumber (int_text (va_amount_minor v))
     else if trim template = ''{amount_major}'' then JNumber (int_text (amount_major (va_amount_minor v) (va_currency v)))
     else JString (render libs v template))"

definition json_body :: "payment_libs \<Rightarrow> (string \<times> string) list \<Rightarrow> vars \<Rightarrow> json" where
  "json_body libs fs v = JObject (fold (\<lambda>(key, template) root. json_put (split_on (CHR ''.'') key) (json_value libs v template) root) fs [])"

section \<open>Calls\<close>

datatype request_body = FormBody "(string \<times> string) list" | JsonBody json

record http_request =
  rq_url :: string
  rq_headers :: "(string \<times> string) list"
  rq_body :: request_body

text \<open>No answer is \<open>None\<close>, an answer its status and body.\<close>

type_synonym http_client = "http_request \<Rightarrow> (nat \<times> string) option"

definition trim_end_slashes :: "string \<Rightarrow> string" where
  "trim_end_slashes s = rev (dropWhile (\<lambda>c. c = CHR ''/'') (rev s))"

definition http_request_of :: "payment_libs \<Rightarrow> http_provider \<Rightarrow> call \<Rightarrow> vars \<Rightarrow> http_request" where
  "http_request_of libs p c v =
    \<lparr>rq_url = trim_end_slashes (pr_base_url (hp_config p)) @ ca_path c,
     rq_headers = (case hp_auth_header p of Some h \<Rightarrow> [h] | None \<Rightarrow> [])
       @ (case ca_idempotency_header c of Some name \<Rightarrow> [(name, va_idempotency_key v)] | None \<Rightarrow> []),
     rq_body = (case pr_encoding (hp_config p) of
         FormEncoding \<Rightarrow> FormBody (form_body libs (ca_fields c) v)
       | JsonEncoding \<Rightarrow> JsonBody (json_body libs (ca_fields c) v))\<rparr>"

definition post :: "payment_libs \<Rightarrow> http_client \<Rightarrow> http_provider \<Rightarrow> call \<Rightarrow> vars \<Rightarrow> payment_error + json" where
  "post libs send p c v =
    (case send (http_request_of libs p c v) of
       None \<Rightarrow> Inl Unavailable
     | Some (status, body) \<Rightarrow>
         if 200 \<le> status \<and> status < 300 then ok_or Unavailable (pl_parse libs body)
         else if 400 \<le> status \<and> status < 500 then Inl Rejected
         else Inl Unavailable)"

definition json_as_str :: "json \<Rightarrow> string option" where
  "json_as_str j = (case j of JString s \<Rightarrow> Some s | _ \<Rightarrow> None)"

definition create_intent :: "payment_libs \<Rightarrow> http_client \<Rightarrow> http_provider \<Rightarrow> uuid \<Rightarrow> int \<Rightarrow> string \<Rightarrow> payment_error + payment_intent" where
  "create_intent libs send p order_id amount_minor currency =
    (let c = pr_create_intent (hp_config p);
         v = \<lparr>va_order_id = order_id, va_amount_minor = amount_minor, va_currency = currency,
              va_payment_intent_id = [], va_idempotency_key = pl_uuid_text libs order_id\<rparr>
     in and_then (post libs send p c v) (\<lambda>body.
        and_then (ok_or Unavailable (pl_pointer libs body (case ca_intent_id_pointer c of Some ptr \<Rightarrow> ptr | None \<Rightarrow> ''/id''))) (\<lambda>i.
          Inr \<lparr>pn_id = (case i of JString s \<Rightarrow> s | other \<Rightarrow> pl_text libs other),
               pn_client_secret = Option.bind (Option.bind (ca_client_secret_pointer c) (pl_pointer libs body)) json_as_str\<rparr>)))"

definition refund :: "payment_libs \<Rightarrow> http_client \<Rightarrow> http_provider \<Rightarrow> string \<Rightarrow> int \<Rightarrow> payment_error + unit" where
  "refund libs send p payment_intent_id amount_minor =
    (let v = \<lparr>va_order_id = Uuid 0, va_amount_minor = amount_minor, va_currency = [],
              va_payment_intent_id = payment_intent_id,
              va_idempotency_key = ''refund-'' @ payment_intent_id @ ''-'' @ int_text amount_minor\<rparr>
     in and_then (post libs send p (pr_refund (hp_config p)) v) (\<lambda>_. Inr ()))"

section \<open>Callbacks\<close>

text \<open>\<open>windows(n).position(..)\<close>: where the marker first occurs.\<close>

fun find_sub :: "string \<Rightarrow> string \<Rightarrow> nat option" where
  "find_sub marker [] = None"
| "find_sub marker (c # cs) = (if is_prefix marker (c # cs) then Some 0 else map_option Suc (find_sub marker cs))"

lemma find_sub_less: "find_sub marker s = Some i \<Longrightarrow> i < length s"
  by (induction s arbitrary: i) (auto split: if_splits)

function splice :: "string \<Rightarrow> string \<Rightarrow> string \<Rightarrow> string" where
  "splice marker body rest =
    (case find_sub marker rest of
       None \<Rightarrow> rest
     | Some idx \<Rightarrow> take idx rest @ body
         @ (if marker = [] then drop idx rest else splice marker body (drop (idx + length marker) rest)))"
  by pat_completeness auto
termination
  by (relation "measure (\<lambda>(_, _, rest). length rest)") (auto dest!: find_sub_less simp flip: length_greater_0_conv)

declare splice.simps [simp del]

definition signed_payload_bytes :: "string \<Rightarrow> int \<Rightarrow> string \<Rightarrow> string" where
  "signed_payload_bytes template ts body =
     splice ''{body}'' body (str_replace ''{timestamp}'' (int_text ts) template)"

text \<open>The timestamp and the candidate signatures of the header.\<close>

definition read_part :: "string option \<Rightarrow> string \<Rightarrow> string \<Rightarrow> int option \<times> string list \<Rightarrow> int option \<times> string list" where
  "read_part timestamp_key signature_key part = (\<lambda>(ts, signatures).
    (case split_once (CHR ''='') part of
       None \<Rightarrow> (ts, signatures)
     | Some (k, x) \<Rightarrow>
         if Some (trim k) = timestamp_key then (parse_i64 (trim x), signatures)
         else if trim k = signature_key then (ts, signatures @ [trim x])
         else (ts, signatures)))"

definition read_header :: "header_format \<Rightarrow> string \<Rightarrow> int option \<times> string list" where
  "read_header fmt header = (case fmt of
      RawHeader \<Rightarrow> (None, [trim header])
    | KeyValueHeader timestamp_key signature_key \<Rightarrow>
        fold (read_part timestamp_key signature_key) (split_on (CHR '','') header) (None, []))"

definition hex_text :: "string \<Rightarrow> string" where
  "hex_text s = concat (map (\<lambda>c. hex_byte (word_of_nat (of_char c))) s)"

definition expected_signature :: "payment_libs \<Rightarrow> webhook \<Rightarrow> string \<Rightarrow> int option \<Rightarrow> string \<Rightarrow> string" where
  "expected_signature libs wh secret ts body =
    (let signed = signed_payload_bytes (wh_signed_payload wh) (case ts of Some t \<Rightarrow> t | None \<Rightarrow> 0) body;
         mac = pl_hmac libs (wh_digest wh) secret signed
     in case wh_encoding wh of HexSignature \<Rightarrow> hex_text mac | Base64Signature \<Rightarrow> pl_base64 libs mac)"

definition too_old :: "int \<Rightarrow> int \<Rightarrow> int option \<Rightarrow> bool" where
  "too_old now tolerance ts = (case ts of
      None \<Rightarrow> False
    | Some t \<Rightarrow> tolerance > 0 \<and> i64 \<bar>i64 (now - t)\<bar> > tolerance)"

definition verify_signature :: "payment_libs \<Rightarrow> int \<Rightarrow> webhook \<Rightarrow> string \<Rightarrow> string \<Rightarrow> string \<Rightarrow> payment_error + unit" where
  "verify_signature libs now wh secret header body =
    (let (ts, candidates) = read_header (wh_header_format wh) header in
     if candidates = [] then Inl CallbackBadSignature
     else if too_old now (wh_tolerance_seconds wh) ts then Inl CallbackBadSignature
     else
       let expected = expected_signature libs wh secret ts body
       in if fold (\<lambda>c matched. matched \<or> constant_time_eq (trim c) expected) candidates False then Inr ()
          else Inl CallbackBadSignature)"

definition authenticates_callbacks :: "http_provider \<Rightarrow> bool" where
  "authenticates_callbacks p \<longleftrightarrow>
     wh_signature_header (pr_webhook (hp_config p)) \<noteq> None \<and> hp_webhook_secret p \<noteq> None"

definition check_signed :: "payment_libs \<Rightarrow> int \<Rightarrow> http_provider \<Rightarrow> string option \<Rightarrow> string \<Rightarrow> payment_error + unit" where
  "check_signed libs now p signature body =
    (if wh_signature_header (pr_webhook (hp_config p)) = None then Inr ()
     else
       and_then (ok_or CallbackBadSignature (hp_webhook_secret p)) (\<lambda>secret.
       and_then (ok_or CallbackBadSignature signature) (\<lambda>header.
         verify_signature libs now (pr_webhook (hp_config p)) secret header body)))"

definition interpret_callback :: "payment_libs \<Rightarrow> webhook \<Rightarrow> json \<Rightarrow> payment_error + payment_event" where
  "interpret_callback libs wh payload =
    (let event_type = (case Option.bind (Option.bind (wh_event_type_pointer wh) (pl_pointer libs payload)) json_as_str of
           Some s \<Rightarrow> s | None \<Rightarrow> []);
         captured = List.member (wh_captured_events wh) event_type;
         failed = List.member (wh_failed_events wh) event_type
     in if \<not> captured \<and> \<not> failed then Inr Ignored
        else and_then (ok_or CallbackMalformed (Option.bind (pl_pointer libs payload (wh_intent_id_pointer wh)) json_as_str))
          (\<lambda>intent. Inr (if captured then Captured intent else PaymentDeclined intent)))"

definition verify_callback :: "payment_libs \<Rightarrow> int \<Rightarrow> http_provider \<Rightarrow> string option \<Rightarrow> string \<Rightarrow> payment_error + payment_event" where
  "verify_callback libs now p signature body =
    and_then (check_signed libs now p signature body) (\<lambda>_.
    and_then (ok_or CallbackMalformed (pl_parse libs body)) (\<lambda>payload.
      interpret_callback libs (pr_webhook (hp_config p)) payload))"

section \<open>The port's contract\<close>

text \<open>A provider that says it authenticates its callbacks refuses one without a signature.\<close>

locale payment_port =
  fixes authenticates :: bool
    and verify :: "string option \<Rightarrow> string \<Rightarrow> payment_error + payment_event"
  assumes unsigned_refused: "authenticates \<Longrightarrow> verify None body = Inl CallbackBadSignature"
begin

lemma event_needs_credential: "verify signature body = Inr event \<Longrightarrow> \<not> authenticates \<or> signature \<noteq> None"
  using unsigned_refused by force

end

interpretation http_port: payment_port "authenticates_callbacks p" "verify_callback libs now p" for libs now p
  by unfold_locales (auto simp: verify_callback_def check_signed_def authenticates_callbacks_def)

interpretation fake_port: payment_port False "fake_verify_callback read" for read
  by unfold_locales simp

section \<open>The signed payload and the comparison\<close>

lemma splice_skip: "\<lbrakk>marker = m # ms; m \<notin> set s\<rbrakk> \<Longrightarrow> splice marker body (s @ rest) = s @ splice marker body rest"
proof (induction s)
  case (Cons c s)
  then have np: "\<not> is_prefix marker (c # x)" for x by (auto simp: is_prefix_def)
  have "splice marker body (c # x) = c # splice marker body x" for x
    using Cons.prems(1) np [of x] by (subst (1 2) splice.simps) (auto split: option.split)
  with Cons show ?case by simp
qed simp

section \<open>A Stripe-style header\<close>

definition stripe_webhook :: webhook where
  "stripe_webhook = \<lparr>wh_signature_header = Some ''stripe-signature'', wh_header_format = KeyValueHeader (Some ''t'') ''v1'',
     wh_secret_env = Some ''LULAN_PAYMENT_WEBHOOK_SECRET'', wh_signed_payload = ''{timestamp}.{body}'',
     wh_digest = Sha256, wh_encoding = HexSignature, wh_tolerance_seconds = 300,
     wh_event_type_pointer = Some ''/type'', wh_intent_id_pointer = ''/data/object/id'',
     wh_captured_events = [''payment_intent.succeeded''],
     wh_failed_events = [''payment_intent.payment_failed'', ''payment_intent.canceled'']\<rparr>"

text \<open>What Stripe sends at \<open>t\<close>.\<close>

definition stripe_header :: "payment_libs \<Rightarrow> string \<Rightarrow> nat \<Rightarrow> string \<Rightarrow> string" where
  "stripe_header libs secret t body =
     ''t='' @ nat_text t @ '',v1='' @ hex_text (pl_hmac libs Sha256 secret (nat_text t @ ''.'' @ body))"

definition plain_char :: "char \<Rightarrow> bool" where
  "plain_char c \<longleftrightarrow> \<not> is_space c \<and> \<not> List.member '',={+-.'' c"

lemma digit_plain: "m < 10 \<Longrightarrow> plain_char (digit_char m)"
proof -
  assume "m < 10"
  moreover have "list_all (\<lambda>m. plain_char (digit_char m)) [0..<10]" by code_simp
  ultimately show ?thesis by (simp add: list_all_iff)
qed

lemma hex_char_plain: "m < 16 \<Longrightarrow> plain_char (hex_char m)"
proof -
  assume "m < 16"
  moreover have "list_all (\<lambda>m. plain_char (hex_char m)) [0..<16]" by code_simp
  ultimately show ?thesis by (simp add: list_all_iff)
qed

lemma nat_text_plain: "list_all plain_char (nat_text t)"
  by (auto simp: list_all_iff dest!: nat_text_digits intro: digit_plain)

lemma hex_byte_plain: "list_all plain_char (hex_byte b)"
proof -
  have "unat b < 2 ^ LENGTH(8)" by (rule unsigned_less)
  then have "unat b div 16 < 16" by (simp add: div_less_iff_less_mult)
  then show ?thesis by (simp add: hex_byte_def hex_char_plain)
qed

lemma hex_text_plain: "list_all plain_char (hex_text s)"
  using hex_byte_plain by (auto simp: hex_text_def list_all_iff)

lemma dropWhile_plain: "list_all plain_char s \<Longrightarrow> dropWhile is_space s = s"
  by (cases s) (auto simp: plain_char_def)

lemma trim_plain: "list_all plain_char s \<Longrightarrow> trim s = s"
  unfolding trim_def by (simp add: dropWhile_plain list_all_rev)

lemma parse_i64_text: "int t \<le> 9223372036854775807 \<Longrightarrow> parse_i64 (nat_text t) = Some (int t)"
proof -
  assume t: "int t \<le> 9223372036854775807"
  obtain c cs where c: "nat_text t = c # cs" by (cases "nat_text t") auto
  have "plain_char c" using nat_text_plain [of t] by (simp add: c)
  then have "c \<noteq> CHR ''+''" "c \<noteq> CHR ''-''" by (auto simp: plain_char_def)
  with t digits_value_text [of t] show ?thesis by (simp add: parse_i64_def c in_i64_def Let_def)
qed

lemma signed_payload_stripe: "signed_payload_bytes ''{timestamp}.{body}'' (int t) body = nat_text t @ ''.'' @ body"
proof -
  have r: "str_replace ''{timestamp}'' (nat_text t) ''{timestamp}.{body}'' = nat_text t @ ''.{body}''"
    by (simp add: str_replace.simps is_prefix_def)
  have "CHR ''{'' \<notin> set (nat_text t)" using nat_text_plain [of t] by (auto simp: list_all_iff plain_char_def)
  then have "splice ''{body}'' body (nat_text t @ ''.{body}'') = nat_text t @ splice ''{body}'' body ''.{body}''"
    by (intro splice_skip) simp_all
  also have "splice ''{body}'' body ''.{body}'' = ''.'' @ body"
    by (simp add: splice.simps is_prefix_def)
  finally show ?thesis by (simp add: signed_payload_bytes_def int_text_def r)
qed

text \<open>A callback with the header Stripe computes, for any body and secret, is accepted within the tolerance
  of its timestamp, and refused outside it.\<close>
theorem stripe_header_verifies:
  assumes "0 \<le> now" "now \<le> 2 ^ 62" "int t \<le> 2 ^ 62"
  shows "verify_signature libs now stripe_webhook secret (stripe_header libs secret t body) body
    = (if \<bar>now - int t\<bar> \<le> 300 then Inr () else Inl CallbackBadSignature)"
proof -
  let ?mac = "hex_text (pl_hmac libs Sha256 secret (nat_text t @ ''.'' @ body))"
  have plain: "list_all plain_char (nat_text t)" "list_all plain_char ?mac" by (rule nat_text_plain hex_text_plain)+
  then have c: "CHR '','' \<notin> set (nat_text t)" "CHR '','' \<notin> set ?mac" by (auto simp: list_all_iff plain_char_def)
  have parts: "split_on (CHR '','') (stripe_header libs secret t body) = [''t='' @ nat_text t, ''v1='' @ ?mac]"
    using split_on_append [of "CHR '',''" "''t='' @ nat_text t" "''v1='' @ ?mac"] c
    by (simp add: stripe_header_def split_on_none)
  have keys: "trim ''t'' = ''t''" "trim ''v1'' = ''v1''" by code_simp+
  have "read_header (wh_header_format stripe_webhook) (stripe_header libs secret t body) = (Some (int t), [?mac])"
    using assms(3) unfolding read_header_def parts stripe_webhook_def
    by (simp add: read_part_def split_once_def trim_plain [OF nat_text_plain] trim_plain [OF hex_text_plain] parse_i64_text keys)
  moreover have "expected_signature libs stripe_webhook secret (Some (int t)) body = ?mac"
    by (simp add: expected_signature_def stripe_webhook_def signed_payload_stripe)
  moreover have "too_old now 300 (Some (int t)) \<longleftrightarrow> \<not> \<bar>now - int t\<bar> \<le> 300"
  proof -
    have "in_i64 (now - int t)" "in_i64 \<bar>now - int t\<bar>" using assms by (auto simp: in_i64_def)
    then show ?thesis by (simp add: too_old_def i64_id not_le)
  qed
  moreover have "wh_tolerance_seconds stripe_webhook = 300" by (simp add: stripe_webhook_def)
  ultimately show ?thesis by (simp add: verify_signature_def trim_plain [OF hex_text_plain])
qed

definition toy_libs :: payment_libs where
  "toy_libs = \<lparr>pl_parse = (\<lambda>_. None), pl_text = (\<lambda>_. []), pl_pointer = (\<lambda>_ _. None), pl_hmac = (\<lambda>_ secret body. secret @ take 2 body),
     pl_base64 = id, pl_uuid_text = (\<lambda>_. [])\<rparr>"

theorem stripe_header_verifies_witness:
  "verify_signature toy_libs 1000 stripe_webhook ''k'' (stripe_header toy_libs ''k'' 900 ''{}'') ''{}'' = Inr ()
   \<and> verify_signature toy_libs 2000 stripe_webhook ''k'' (stripe_header toy_libs ''k'' 900 ''{}'') ''{}'' = Inl CallbackBadSignature"
  by (simp add: stripe_header_verifies)

text \<open>C28: With a signature header configured, no callback becomes an event unless one of its header's signatures
  is the encoded HMAC, under the configured secret, of exactly the payload received.\<close>
theorem events_are_signed:
  assumes "verify_callback libs now p signature body = Inr event" "wh_signature_header (pr_webhook (hp_config p)) \<noteq> None"
  shows "\<exists>secret header. hp_webhook_secret p = Some secret \<and> signature = Some header
    \<and> (case read_header (wh_header_format (pr_webhook (hp_config p))) header of (ts, candidates) \<Rightarrow>
        expected_signature libs (pr_webhook (hp_config p)) secret ts body \<in> trim ` set candidates)"
proof -
  have f: "fold (\<lambda>c matched. matched \<or> P c) xs b \<longleftrightarrow> b \<or> (\<exists>x\<in>set xs. P x)" for P b and xs :: "string list"
    by (induction xs arbitrary: b) auto
  from assms obtain secret header where s: "hp_webhook_secret p = Some secret" "signature = Some header"
    "verify_signature libs now (pr_webhook (hp_config p)) secret header body = Inr ()"
    by (auto simp: verify_callback_def check_signed_def split: if_splits)
  obtain ts cs where r: "read_header (wh_header_format (pr_webhook (hp_config p))) header = (ts, cs)" by force
  from s(3) have "\<exists>c\<in>set cs. trim c = expected_signature libs (pr_webhook (hp_config p)) secret ts body"
    by (simp add: verify_signature_def r Let_def f split: if_splits)
  with s r show ?thesis by force
qed

text \<open>A provider that answers every callback's body with a capture of the intent in it.\<close>

definition toy_provider :: http_provider where
  "toy_provider = \<lparr>hp_config = \<lparr>pr_name = ''toy'', pr_base_url = ''http://x/'', pr_auth = NoAuth, pr_encoding = JsonEncoding,
       pr_create_intent = \<lparr>ca_path = ''/pay'', ca_fields = [], ca_intent_id_pointer = None, ca_client_secret_pointer = None, ca_idempotency_header = None\<rparr>,
       pr_refund = \<lparr>ca_path = ''/refund'', ca_fields = [(''amount.value'', ''{amount_decimal}'')], ca_intent_id_pointer = None,
         ca_client_secret_pointer = None, ca_idempotency_header = None\<rparr>,
       pr_webhook = stripe_webhook\<rparr>,
     hp_auth_header = None, hp_webhook_secret = Some ''k''\<rparr>"

theorem events_are_signed_witness:
  "let libs = toy_libs\<lparr>pl_parse := (\<lambda>s. Some (JString s))\<rparr>; h = stripe_header libs ''k'' 900 ''{}''
   in verify_callback libs 1000 toy_provider (Some h) ''{}'' = Inr Ignored
      \<and> (case read_header (wh_header_format stripe_webhook) h of (ts, candidates) \<Rightarrow>
          expected_signature libs stripe_webhook ''k'' ts ''{}'' \<in> trim ` set candidates)"
proof -
  let ?libs = "toy_libs\<lparr>pl_parse := (\<lambda>s. Some (JString s))\<rparr>"
  let ?h = "stripe_header ?libs ''k'' 900 ''{}''"
  have e: "verify_callback ?libs 1000 toy_provider (Some ?h) ''{}'' = Inr Ignored"
    using stripe_header_verifies [of 1000 900 ?libs "''k''" "''{}''"]
    by (simp add: verify_callback_def check_signed_def toy_provider_def interpret_callback_def toy_libs_def) (simp add: stripe_webhook_def)
  from events_are_signed [OF e] e show ?thesis by (simp add: toy_provider_def stripe_webhook_def Let_def)
qed

section \<open>Amounts\<close>

text \<open>Reading an amount back: sign, digits, and the fraction after the point.\<close>

definition decimal_minor :: "nat \<Rightarrow> string \<Rightarrow> int option" where
  "decimal_minor exp s =
    (let negative = (case s of c # _ \<Rightarrow> c = CHR ''-'' | [] \<Rightarrow> False);
         u = (if negative then tl s else s);
         n = (if exp = 0 then digits_value 0 u
              else Option.bind (split_once (CHR ''.'') u) (\<lambda>(major, frac). digits_value 0 (major @ frac)))
     in map_option (\<lambda>n. if negative then - int n else int n) n)"

lemma digits_value_shift: "digits_value (a + b) s = map_option (\<lambda>n. a * 10 ^ length s + n) (digits_value b s)"
proof (induction s arbitrary: a b)
  case (Cons c s)
  have e: "(a + b) * 10 + d = a * 10 + (b * 10 + d)" for d :: nat by simp
  show ?case unfolding digits_value.simps Let_def e Cons.IH by (simp add: mult.assoc)
qed simp

lemma digits_value_zeros: "digits_value a (replicate k (CHR ''0'')) = Some (a * 10 ^ k)"
  by (induction k arbitrary: a) (simp_all add: Let_def algebra_simps)

lemma nat_text_length: "n < 10 ^ k \<Longrightarrow> 0 < k \<Longrightarrow> length (nat_text n) \<le> k"
proof (induction n arbitrary: k rule: nat_text.induct)
  case (1 n)
  show ?case
  proof (cases "n < 10")
    case False
    with "1.prems" obtain j where k: "k = Suc j" "0 < j" by (cases k; cases "k - 1") auto
    with "1.prems"(1) have "n div 10 < 10 ^ j" by (simp add: div_less_iff_less_mult mult.commute)
    with "1.IH" [OF False] k False show ?thesis by (subst nat_text.simps) simp
  qed (use "1.prems" in \<open>subst nat_text.simps, simp\<close>)
qed

lemma digits_value_padded: "n < 10 ^ k \<Longrightarrow> 0 < k \<Longrightarrow> digits_value a (pad_zeros k (nat_text n)) = Some (a * 10 ^ k + n)"
proof -
  assume n: "n < 10 ^ k" "0 < k"
  note l = nat_text_length [OF n]
  let ?z = "k - length (nat_text n)"
  have "digits_value (a * 10 ^ ?z + 0) (nat_text n) = Some (a * 10 ^ ?z * 10 ^ length (nat_text n) + n)"
    unfolding digits_value_shift digits_value_text by simp
  moreover have "a * 10 ^ ?z * 10 ^ length (nat_text n) = a * 10 ^ k"
    using l by (simp add: mult.assoc flip: power_add)
  ultimately show ?thesis by (simp add: pad_zeros_def digits_value_append digits_value_zeros)
qed

lemma split_once_plain: "list_all plain_char s \<Longrightarrow> split_once (CHR ''.'') (s @ CHR ''.'' # r) = Some (s, r)"
proof -
  assume "list_all plain_char s"
  then have "\<forall>c\<in>set s. c \<noteq> CHR ''.''" by (auto simp: list_all_iff plain_char_def)
  then show ?thesis by (simp add: split_once_def)
qed

lemma iso_exponent_cases: "iso_exponent currency \<in> {0, 2, 3}"
  by (simp add: iso_exponent_def Let_def)

text \<open>The major-unit text a provider is sent denotes exactly the order's minor units, for every amount and
  currency, read with the decimals of the currency.\<close>
theorem amount_decimal_exact:
  "decimal_minor (iso_exponent currency) (amount_decimal amount_minor currency) = Some amount_minor"
proof -
  let ?exp = "iso_exponent currency" and ?n = "nat \<bar>amount_minor\<bar>"
  have no_sign: "\<exists>c cs. nat_text n = c # cs \<and> c \<noteq> CHR ''-''" for n
    using nat_text_plain [of n] by (cases "nat_text n") (auto simp: plain_char_def)
  have whole: "digits_value 0 (nat_text (n div 10 ^ e) @ pad_zeros e (nat_text (n mod 10 ^ e))) = Some n" if "0 < e" for n e :: nat
    using that digits_value_padded [of "n mod 10 ^ e" e "n div 10 ^ e"] by (simp add: digits_value_append digits_value_text div_mult_mod_eq)
  show ?thesis
  proof (cases "?exp = 0")
    case True
    obtain c cs where c: "nat_text (nat amount_minor) = c # cs" "c \<noteq> CHR ''-''" using no_sign by blast
    have "digits_value 0 (c # cs) = Some (nat amount_minor)" using digits_value_text [of "nat amount_minor"] by (simp only: c)
    with True c show ?thesis
      by (cases "amount_minor < 0")
        (simp_all add: amount_decimal_def decimal_minor_def int_text_def digits_value_text Let_def del: digits_value.simps)
  next
    case False
    then have e: "0 < ?exp" by simp
    define M where "M = nat_text (?n div 10 ^ ?exp)"
    define F where "F = pad_zeros ?exp (nat_text (?n mod 10 ^ ?exp))"
    have s: "split_once (CHR ''.'') (M @ CHR ''.'' # F) = Some (M, F)" unfolding M_def by (rule split_once_plain [OF nat_text_plain])
    have w: "digits_value 0 (M @ F) = Some ?n" unfolding M_def F_def by (rule whole [OF e])
    have h: "(case M @ x of c # _ \<Rightarrow> c = CHR ''-'' | [] \<Rightarrow> False) = False" for x
      using no_sign [of "?n div 10 ^ ?exp"] by (auto simp: M_def)
    have "amount_decimal amount_minor currency = (if amount_minor < 0 then ''-'' else []) @ M @ CHR ''.'' # F"
      using False by (simp add: amount_decimal_def M_def F_def Let_def)
    then show ?thesis using False by (simp add: decimal_minor_def Let_def h s w)
  qed
qed

text \<open>\<open>refund\<close> does not know the order's currency: a provider that takes \<open>{amount_decimal}\<close> is asked to
  refund two-decimal amounts whatever the order was charged in, a hundredth of a yen order.\<close>
theorem refund_forgets_currency:
  "amount_decimal 50 ''JPY'' = ''50''
   \<and> rq_body (http_request_of toy_libs toy_provider (pr_refund (hp_config toy_provider))
       \<lparr>va_order_id = Uuid 0, va_amount_minor = 50, va_currency = [], va_payment_intent_id = ''pi'', va_idempotency_key = []\<rparr>)
     = JsonBody (JObject [(''amount'', JObject [(''value'', JString ''0.50'')])])"
  by code_simp

end
