(* ===== verification/Checkout.thy ===== *)
theory Checkout
  imports Quotes Idempotency Holds Access
begin

text \<open>
  Creating an order over HTTP: \<open>create\<close> of \<open>crates/lulan-api/src/orders.rs\<close>. The handler is the sequence of its
  calls on the database, the idempotency table, the customers and Redis, run here without other requests in
  between; what interleaving can do to each of them is in \<open>Booking_System\<close>, \<open>Idempotency\<close> and \<open>Holds\<close>. The
  fingerprint and the response body are serde's, the parameters \<open>to_vec\<close> and \<open>to_value\<close>. Redis that is missing
  or does not answer is \<open>None\<close>.
\<close>

definition MAX_PASSENGERS :: nat where "MAX_PASSENGERS = 20"

section \<open>The request\<close>

record passenger_request =
  pq_full_name :: string
  pq_type :: string
  pq_birthdate :: "int option"

record order_item_request =
  oq_unit_code :: string
  oq_origin :: string
  oq_destination :: string
  oq_quantity :: "int option"
  oq_passenger :: "nat option"

record create_order_request =
  cq_trip_id :: "uuid option"
  cq_items :: "order_item_request list option"
  cq_journeys :: "(uuid \<times> order_item_request list) list option"
  cq_passengers :: "passenger_request list"
  cq_guest_contact :: "string option"
  cq_quote_token :: "string option"
  cq_promo_code :: "string option"
  cq_hold_id :: "uuid option"
  cq_ancillaries :: "ancillary_line list"

record create_order_response =
  cp_record :: order_record
  cp_retrieval_token :: string
  cp_customer_id :: "uuid option"

definition order_journeys :: "create_order_request \<Rightarrow> api_error + (uuid \<times> order_item_request list) list" where
  "order_journeys req = (case (cq_trip_id req, cq_items req, cq_journeys req) of
      (None, None, Some journeys) \<Rightarrow>
        if journeys = [] \<or> list_ex (\<lambda>(_, items). items = []) journeys then Inl BadRequest
        else if length journeys > 8 then Inl BadRequest else Inr journeys
    | (Some trip, Some items, None) \<Rightarrow> if items \<noteq> [] then Inr [(trip, items)] else Inl BadRequest
    | _ \<Rightarrow> Inl BadRequest)"

definition parse_passenger :: "passenger_request \<Rightarrow> api_error + new_passenger" where
  "parse_passenger p =
    (if trim (pq_full_name p) = [] then Inl BadRequest
     else and_then (ok_or BadRequest (passenger_parse (pq_type p))) (\<lambda>ty.
       Inr \<lparr>np_full_name = trim (pq_full_name p), np_type = ty, np_birthdate = pq_birthdate p\<rparr>))"

definition seat_passenger_type :: "new_passenger list \<Rightarrow> order_item_request \<Rightarrow> string option" where
  "seat_passenger_type ps item =
     Option.bind (case oq_passenger item of Some i \<Rightarrow> Some i | None \<Rightarrow> if length ps = 1 then Some 0 else None) (\<lambda>index.
       if index < length ps then Some (passenger_as_str (np_type (ps ! index))) else None)"

definition flat_items :: "(uuid \<times> 'i list) list \<Rightarrow> (uuid \<times> 'i) list" where
  "flat_items journeys = concat (map (\<lambda>(trip, items). map (Pair trip) items) journeys)"

text \<open>A hold that is presented must be alive and cover the trips.\<close>

definition check_itinerary_hold :: "int \<Rightarrow> uuid option \<Rightarrow> redis option \<Rightarrow> uuid list \<Rightarrow> api_error + unit" where
  "check_itinerary_hold now_ms hold_id store trip_ids =
    (case (hold_id, store) of
       (Some i, Some r) \<Rightarrow>
         (case itinerary_members now_ms i r of
            Some members \<Rightarrow> if list_all (\<lambda>t. List.member (map fst members) t) trip_ids then Inr () else Inl ApiConflict
          | None \<Rightarrow> Inl ApiConflict)
     | _ \<Rightarrow> Inr ())"

section \<open>Pricing the order\<close>

definition new_item :: "uuid \<Rightarrow> order_item_request \<Rightarrow> int \<Rightarrow> int \<Rightarrow> new_order_item" where
  "new_item trip item quantity price =
     \<lparr>ni_trip_id = trip, ni_unit_code = oq_unit_code item, ni_origin = oq_origin item, ni_destination = oq_destination item,
      ni_quantity = quantity, ni_price_minor = price, ni_passenger_index = oq_passenger item\<rparr>"

definition quantity_of :: "int option \<Rightarrow> int" where
  "quantity_of q = (case q of Some n \<Rightarrow> n | None \<Rightarrow> 1)"

definition covers_item :: "uuid \<Rightarrow> order_item_request \<Rightarrow> string option \<Rightarrow> quote_token_item \<Rightarrow> bool" where
  "covers_item trip item passenger_type q \<longleftrightarrow> qi_trip_id q = trip \<and> qi_unit_code q = oq_unit_code item
     \<and> qi_origin q = oq_origin item \<and> qi_destination q = oq_destination item
     \<and> qi_quantity q = quantity_of (oq_quantity item) \<and> qi_passenger_type q = passenger_type"

definition quoted_item :: "instant \<Rightarrow> db \<Rightarrow> new_passenger list \<Rightarrow> quote_token \<Rightarrow> uuid \<times> order_item_request \<Rightarrow>
    api_error + new_order_item" where
  "quoted_item now d ps quote = (\<lambda>(trip, item).
    and_then (map_err of_store_error (resolve_target now trip (oq_unit_code item) (oq_origin item) (oq_destination item) d)) (\<lambda>found.
    and_then (ok_or ApiNotFound found) (\<lambda>target.
    let passenger_type = (if ct_kind target = ''seat'' then seat_passenger_type ps item else None) in
    and_then (ok_or BadRequest (List.find (covers_item trip item passenger_type) (qk_items quote))) (\<lambda>quoted.
      Inr (new_item trip item (quantity_of (oq_quantity item)) (qi_price_minor quoted))))))"

definition order_priceable :: "new_passenger list \<Rightarrow> uuid \<times> order_item_request \<Rightarrow> priceable_item" where
  "order_priceable ps = (\<lambda>(trip, i). \<lparr>pb_trip_id = trip, pb_unit_code = oq_unit_code i, pb_origin = oq_origin i,
     pb_destination = oq_destination i, pb_quantity = oq_quantity i, pb_passenger_type = seat_passenger_type ps i\<rparr>)"

definition order_context :: "(uuid \<times> order_item_request list) list \<Rightarrow> journey_ctx" where
  "order_context journeys = journey_context (map (\<lambda>(trip, items). (trip, map (\<lambda>i. \<lparr>ji_unit_code = oq_unit_code i,
     ji_origin = oq_origin i, ji_destination = oq_destination i, ji_quantity = oq_quantity i, ji_passenger_type = None\<rparr>) items)) journeys)"

text \<open>One rule set prices the whole itinerary; an order is denominated in what priced it.\<close>

definition live_lines :: "('j \<Rightarrow> string + fare_rule_set) \<Rightarrow> pricing_engine \<Rightarrow> 'j fare_rules_row list \<Rightarrow> instant \<Rightarrow> db \<Rightarrow>
    new_passenger list \<Rightarrow> string option \<Rightarrow> (uuid \<times> order_item_request list) list \<Rightarrow> api_error + string \<times> new_order_item list" where
  "live_lines parse price fares now d ps promo journeys =
    (let flat = flat_items journeys in
     and_then (price_items parse price fares now d (map (order_priceable ps) flat) promo (order_context journeys)) (\<lambda>priced.
       if priced = [] then Inl Panicked
       else
         let currency = qt_currency (pi_quote (hd priced)) in
         if list_ex (\<lambda>p. qt_currency (pi_quote p) \<noteq> currency) priced then Inl Internal
         else Inr (currency, map (\<lambda>(p, _, i). \<lparr>ni_trip_id = pi_trip_id p, ni_unit_code = pi_unit_code p, ni_origin = pi_origin p,
             ni_destination = pi_destination p, ni_quantity = pi_quantity p, ni_price_minor = qt_total_minor (pi_quote p),
             ni_passenger_index = oq_passenger i\<rparr>) (zip priced flat))))"

definition ancillary_entry :: "priced_ancillary \<Rightarrow> int \<Rightarrow> new_order_ancillary" where
  "ancillary_entry p minor = \<lparr>na_ancillary_id = an_id (pc_ancillary p), na_code = an_code (pc_ancillary p), na_name = an_name (pc_ancillary p),
     na_trip_id = al_trip_id (pc_line p), na_passenger_index = al_passenger (pc_line p), na_quantity = al_quantity (pc_line p),
     na_total_minor = minor\<rparr>"

definition ancillary_entries :: "quote_token_ancillary list option \<Rightarrow> priced_ancillary list \<Rightarrow> api_error + new_order_ancillary list" where
  "ancillary_entries quoted priced = (case quoted of
      Some quoted \<Rightarrow>
        if length quoted \<noteq> length priced then Inl BadRequest
        else try_map (\<lambda>p. and_then (ok_or BadRequest (List.find (\<lambda>q. qa_line q = pc_line p) quoted)) (\<lambda>locked.
               Inr (ancillary_entry p (qa_total_minor locked)))) priced
    | None \<Rightarrow> Inr (map (\<lambda>p. ancillary_entry p (pc_total_minor p)) priced))"

text \<open>The fixed surroundings of the handler.\<close>

record 'j shop_env =
  sv_quote :: quote_libs
  sv_security :: security_libs
  sv_uuid_text :: "uuid \<Rightarrow> string"
  sv_secret :: string
  sv_identity :: identity_port
  sv_parse :: "'j \<Rightarrow> string + fare_rule_set"
  sv_price :: pricing_engine
  sv_to_vec :: "create_order_request \<Rightarrow> string option"
  sv_to_value :: "create_order_response \<Rightarrow> 'j option"

text \<open>The lines of the order and its currency, quoted or live.\<close>

definition order_lines :: "'j shop_env \<Rightarrow> 'j fare_rules_row list \<Rightarrow> ancillary_row list \<Rightarrow> instant \<Rightarrow> db \<Rightarrow> create_order_request \<Rightarrow>
    (uuid \<times> order_item_request list) list \<Rightarrow> new_passenger list \<Rightarrow>
    api_error + string \<times> new_order_item list \<times> new_order_ancillary list" where
  "order_lines env fares catalog now d req journeys ps =
    and_then (case cq_quote_token req of
        Some token \<Rightarrow>
          and_then (ok_or BadRequest (verify_quote (sv_quote env) now (sv_secret env) token)) (\<lambda>quote.
          and_then (try_map (quoted_item now d ps quote) (flat_items journeys)) (\<lambda>items.
            Inr (Some (qk_ancillaries quote), qk_currency quote, items)))
      | None \<Rightarrow>
          and_then (live_lines (sv_parse env) (sv_price env) fares now d ps (cq_promo_code req) journeys) (\<lambda>(currency, items).
            Inr (None, currency, items))) (\<lambda>(quoted, currency, items).
    and_then (price_lines catalog (cq_ancillaries req) (map fst journeys)) (\<lambda>priced.
    and_then (ancillary_entries quoted priced) (\<lambda>anc. Inr (currency, items, anc))))"

section \<open>The handler\<close>

record 'j shop =
  sh_db :: db
  sh_customers :: "customer_row list"
  sh_keys :: "'j key_row list"
  sh_redis :: "redis option"

definition create_error :: "store_error + create_outcome \<Rightarrow> api_error" where
  "create_error r = (case r of
      Inl e \<Rightarrow> of_store_error e
    | Inr (Conflict _) \<Rightarrow> ApiConflict
    | Inr (NotFound _) \<Rightarrow> ApiNotFound
    | Inr (Invalid _) \<Rightarrow> BadRequest
    | Inr (Created _) \<Rightarrow> Panicked)"

text \<open>From the reserved key on: book, give the key back or store the response, drop the hold.\<close>

definition book :: "'j shop_env \<Rightarrow> instant \<Rightarrow> (nat \<Rightarrow> uuid) \<Rightarrow> uuid option \<Rightarrow> reservation option \<Rightarrow> new_order \<Rightarrow> uuid option \<Rightarrow>
    'j shop \<Rightarrow> 'j shop \<times> (api_error + nat \<times> 'j)" where
  "book env now new customer_id reservation ord hold_id s =
    (case create now new ord (sh_db s) of
       (d', Inr (Created rec)) \<Rightarrow>
         let s1 = s\<lparr>sh_db := d', sh_redis := (case (hold_id, sh_redis s) of
                (Some i, Some r) \<Rightarrow> Some (fst (release_itinerary (timestamp_millis now) i r)) | _ \<Rightarrow> sh_redis s)\<rparr>;
             order_id = or_order_id rec
         in (case sv_to_value env \<lparr>cp_record = rec, cp_retrieval_token = retrieval_token (sv_security env) (sv_secret env) order_id,
                cp_customer_id = customer_id\<rparr> of
               None \<Rightarrow> (s1, Inl Internal)
             | Some body \<Rightarrow>
                 (s1\<lparr>sh_keys := (case reservation of Some rv \<Rightarrow> complete rv order_id 201 body (sh_keys s1) | None \<Rightarrow> sh_keys s1)\<rparr>,
                  Inr (201, body)))
     | (d', Inl (StatusPanic _)) \<Rightarrow> (s\<lparr>sh_db := d'\<rparr>, Inl Panicked)
     | (d', other) \<Rightarrow>
         (s\<lparr>sh_db := d', sh_keys := (case reservation of Some rv \<Rightarrow> release rv (sh_keys s) | None \<Rightarrow> sh_keys s)\<rparr>,
          Inl (create_error other)))"

text \<open>From the passengers to the reserved key.\<close>

definition prepare :: "'j shop_env \<Rightarrow> 'j fare_rules_row list \<Rightarrow> ancillary_row list \<Rightarrow> instant \<Rightarrow> create_order_request \<Rightarrow>
    (uuid \<times> order_item_request list) list \<Rightarrow> 'j shop \<Rightarrow>
    api_error + new_passenger list \<times> string \<times> new_order_item list \<times> new_order_ancillary list" where
  "prepare env fares catalog now req journeys s =
    and_then (try_map parse_passenger (cq_passengers req)) (\<lambda>ps.
    and_then (check_itinerary_hold (timestamp_millis now) (cq_hold_id req) (sh_redis s) (map fst (flat_items journeys))) (\<lambda>_.
    and_then (order_lines env fares catalog now (sh_db s) req journeys ps) (\<lambda>lines. Inr (ps, lines))))"

definition caller :: "'j shop_env \<Rightarrow> headers \<Rightarrow> uuid \<Rightarrow> customer_row list \<Rightarrow> customer_row list \<times> (api_error + uuid option)" where
  "caller env headers new_id rows =
    (case bearer_subject (sv_identity env) headers of
       Some s \<Rightarrow> (case upsert_customer new_id s rows of (rows', r) \<Rightarrow> (rows', and_then (map_err (\<lambda>_. Internal) r) (\<lambda>i. Inr (Some i))))
     | None \<Rightarrow> (rows, Inr None))"

text \<open>Who books what: the checks before the key is looked at. The customer is recorded even when a later one fails.\<close>

definition admit :: "'j shop_env \<Rightarrow> headers \<Rightarrow> uuid \<Rightarrow> create_order_request \<Rightarrow> customer_row list \<Rightarrow>
    customer_row list \<times> (api_error + uuid option \<times> (uuid \<times> order_item_request list) list)" where
  "admit env headers new_customer req rows =
    (case order_journeys req of
       Inl e \<Rightarrow> (rows, Inl e)
     | Inr journeys \<Rightarrow>
         if cq_passengers req = [] \<or> length (cq_passengers req) > MAX_PASSENGERS then (rows, Inl BadRequest)
         else (case caller env headers new_customer rows of
                 (rows', Inl e) \<Rightarrow> (rows', Inl e)
               | (rows', Inr customer_id) \<Rightarrow>
                   let contact = map_option trim (cq_guest_contact req)
                   in if customer_id = None \<and> (contact = None \<or> contact = Some []) then (rows', Inl BadRequest)
                      else (rows', Inr (customer_id, journeys))))"

definition caller_scope :: "'j shop_env \<Rightarrow> uuid option \<Rightarrow> create_order_request \<Rightarrow> string" where
  "caller_scope env customer_id req = key_scope (sv_uuid_text env) (sl_sha256 (sv_security env)) (sl_b64 (sv_security env))
     customer_id (map_option trim (cq_guest_contact req))"

definition fingerprint :: "'j shop_env \<Rightarrow> create_order_request \<Rightarrow> bytes" where
  "fingerprint env req = request_hash (sv_to_vec env) (sl_sha256 (sv_security env)) req"

text \<open>Taking the key and booking under it.\<close>

definition place_order :: "'j shop_env \<Rightarrow> instant \<Rightarrow> (nat \<Rightarrow> uuid) \<Rightarrow> string option \<Rightarrow> create_order_request \<Rightarrow> uuid option \<Rightarrow>
    new_order \<Rightarrow> 'j shop \<Rightarrow> 'j shop \<times> (api_error + nat \<times> 'j)" where
  "place_order env now new key_opt req customer_id ord s =
    (case reserve now key_opt (caller_scope env customer_id req) (fingerprint env req) (sh_keys s) of
       (keys', Inl e) \<Rightarrow> (s\<lparr>sh_keys := keys'\<rparr>, Inl e)
     | (keys', Inr (Replay code body)) \<Rightarrow> (s\<lparr>sh_keys := keys'\<rparr>, Inr (code, body))
     | (keys', Inr (Held rv)) \<Rightarrow> book env now new customer_id (Some rv) ord (cq_hold_id req) (s\<lparr>sh_keys := keys'\<rparr>)
     | (keys', Inr Disabled) \<Rightarrow> book env now new customer_id None ord (cq_hold_id req) (s\<lparr>sh_keys := keys'\<rparr>))"

definition the_order :: "create_order_request \<Rightarrow> uuid option \<Rightarrow>
    new_passenger list \<times> string \<times> new_order_item list \<times> new_order_ancillary list \<Rightarrow> new_order" where
  "the_order req customer_id = (\<lambda>(ps, currency, items, anc). \<lparr>no_passengers = ps, no_items = items, no_ancillaries = anc,
     no_currency = currency, no_customer_id = customer_id, no_guest_contact = map_option trim (cq_guest_contact req)\<rparr>)"

definition create_order :: "'j shop_env \<Rightarrow> 'j fare_rules_row list \<Rightarrow> ancillary_row list \<Rightarrow> instant \<Rightarrow> uuid \<Rightarrow> (nat \<Rightarrow> uuid) \<Rightarrow>
    headers \<Rightarrow> create_order_request \<Rightarrow> 'j shop \<Rightarrow> 'j shop \<times> (api_error + nat \<times> 'j)" where
  "create_order env fares catalog now new_customer new headers req s =
    (case admit env headers new_customer req (sh_customers s) of
       (customers', Inl e) \<Rightarrow> (s\<lparr>sh_customers := customers'\<rparr>, Inl e)
     | (customers', Inr (customer_id, journeys)) \<Rightarrow>
         let s1 = s\<lparr>sh_customers := customers'\<rparr>; key_opt = key_from_headers headers
         in (case replay_if_completed key_opt (caller_scope env customer_id req) (fingerprint env req) (sh_keys s1) of
               Inl e \<Rightarrow> (s1, Inl e)
             | Inr (Some resp) \<Rightarrow> (s1, Inr resp)
             | Inr None \<Rightarrow>
                 (case prepare env fares catalog now req journeys s1 of
                    Inl e \<Rightarrow> (s1, Inl e)
                  | Inr lines \<Rightarrow> place_order env now new key_opt req customer_id (the_order req customer_id lines) s1)))"

end
