(* ===== verification/Checkout_Properties.thy ===== *)
theory Checkout_Properties
  imports Checkout Booking
begin

text \<open>
  What creating an order over HTTP promises: a retry under its key is answered and books nothing, a refusal
  leaves everything as it was, and an order bought with a quote costs what the quote said.
\<close>

section \<open>The stages of the handler\<close>

lemma create_refused: "create now new ord d = (d', r) \<Longrightarrow> (\<And>rec. r \<noteq> Inr (Created rec)) \<Longrightarrow> d' = d"
proof (cases rule: create_cases [of now new ord d])
  case (attempted targets slots)
  assume "create now new ord d = (d', r)" "\<And>rec. r \<noteq> Inr (Created rec)"
  with attempted(1) show ?thesis by (cases rule: create_tx_cases [of now new ord targets slots d]) auto
qed simp

lemma reserve_outcomes:
  obtains (disabled) "key_opt = None" "reserve now key_opt scope hash rows = (rows, Inr Disabled)"
  | (held) key row where "key_opt = Some key" "list_all (\<lambda>r. \<not> has_key scope key r) rows" "has_key scope key row"
      "ik_request_hash row = hash" "ik_status row = ''pending''"
      "reserve now key_opt scope hash rows = (rows @ [row], Inr (Held \<lparr>rv_scope = scope, rv_key = key\<rparr>))"
  | (read) key row where "key_opt = Some key" "List.find (has_key scope key) rows = Some row"
      "reserve now key_opt scope hash rows = (rows, reserve_read scope key hash rows)"
proof (cases key_opt)
  case None
  then show thesis by (intro disabled) (simp_all add: reserve_def)
next
  case (Some key)
  show thesis
  proof (cases "list_ex (has_key scope key) rows")
    case True
    then obtain row where "List.find (has_key scope key) rows = Some row"
      by (cases "List.find (has_key scope key) rows") (auto simp: find_None_iff list_ex_iff)
    with Some True show thesis by (intro read [of key row]) (simp_all add: reserve_def reserve_insert_def)
  next
    case False
    with Some show thesis
      by (intro held [of key]) (auto simp: reserve_def reserve_insert_def has_key_def list_ex_iff list_all_iff)
  qed
qed

lemma reserve_read_none:
  assumes "replay_if_completed (Some key) scope hash rows = Inr None" "List.find (has_key scope key) rows = Some row"
  shows "\<exists>e. reserve_read scope key hash rows = Inl e"
proof -
  have row: "row \<in> set rows" "has_key scope key row" using find_Some_in [OF assms(2)] by simp_all
  have "ik_status row \<noteq> ''completed''" if "ik_request_hash row = hash"
  proof
    assume "ik_status row = ''completed''"
    then obtain r where "List.find (\<lambda>r. has_key scope key r \<and> ik_status r = ''completed'') rows = Some r"
      using row by (cases "List.find (\<lambda>r. has_key scope key r \<and> ik_status r = ''completed'') rows") (auto simp: find_None_iff)
    with assms(1) show False by (auto simp: replay_if_completed_def split: if_splits)
  qed
  with assms(2) show ?thesis by (auto simp: reserve_read_def)
qed

lemma create_order_cases:
  obtains (refused) cs e where "create_order env fares catalog now nc new headers req s = (s\<lparr>sh_customers := cs\<rparr>, Inl e)"
  | (replayed) cs customer_id journeys resp where "admit env headers nc req (sh_customers s) = (cs, Inr (customer_id, journeys))"
      "replay_if_completed (key_from_headers headers) (caller_scope env customer_id req) (fingerprint env req) (sh_keys s) = Inr (Some resp)"
      "create_order env fares catalog now nc new headers req s = (s\<lparr>sh_customers := cs\<rparr>, Inr resp)"
  | (booked) cs customer_id journeys lines where "admit env headers nc req (sh_customers s) = (cs, Inr (customer_id, journeys))"
      "replay_if_completed (key_from_headers headers) (caller_scope env customer_id req) (fingerprint env req) (sh_keys s) = Inr None"
      "prepare env fares catalog now req journeys (s\<lparr>sh_customers := cs\<rparr>) = Inr lines"
      "create_order env fares catalog now nc new headers req s = place_order env now new (key_from_headers headers) req customer_id
         (the_order req customer_id lines) (s\<lparr>sh_customers := cs\<rparr>)"
proof -
  obtain cs r where a: "admit env headers nc req (sh_customers s) = (cs, r)" by force
  show thesis
  proof (cases r)
    case (Inl e)
    with a show thesis by (intro refused [of cs e]) (simp add: create_order_def)
  next
    case (Inr x)
    obtain customer_id journeys where x: "x = (customer_id, journeys)" by force
    let ?rep = "replay_if_completed (key_from_headers headers) (caller_scope env customer_id req) (fingerprint env req) (sh_keys s)"
    have run: "create_order env fares catalog now nc new headers req s = (case ?rep of
          Inl e \<Rightarrow> (s\<lparr>sh_customers := cs\<rparr>, Inl e)
        | Inr (Some resp) \<Rightarrow> (s\<lparr>sh_customers := cs\<rparr>, Inr resp)
        | Inr None \<Rightarrow> (case prepare env fares catalog now req journeys (s\<lparr>sh_customers := cs\<rparr>) of
              Inl e \<Rightarrow> (s\<lparr>sh_customers := cs\<rparr>, Inl e)
            | Inr lines \<Rightarrow> place_order env now new (key_from_headers headers) req customer_id (the_order req customer_id lines) (s\<lparr>sh_customers := cs\<rparr>)))"
      using a by (simp add: create_order_def Inr x Let_def)
    show thesis
    proof (cases ?rep)
      case (Inl e)
      with run show thesis by (intro refused [of cs e]) simp
    next
      case rep: (Inr resp)
      show thesis
      proof (cases resp)
        case (Some y)
        with a rep run show thesis by (intro replayed [of cs customer_id journeys y]) (simp_all add: Inr x)
      next
        case None
        with a rep run show thesis
          by (cases "prepare env fares catalog now req journeys (s\<lparr>sh_customers := cs\<rparr>)")
            (auto simp: Inr x intro: refused booked)
      qed
    qed
  qed
qed

text \<open>Taking the key: refused with the keys as they were, or booked under a fresh pending row, or without one.\<close>

lemma place_order_cases [consumes 1]:
  assumes "replay_if_completed key_opt (caller_scope env customer_id req) (fingerprint env req) (sh_keys s) = Inr None"
  obtains (busy) e where "place_order env now new key_opt req customer_id ord s = (s, Inl e)"
  | (keyless) "key_opt = None" "place_order env now new key_opt req customer_id ord s = book env now new customer_id None ord (cq_hold_id req) s"
  | (held) key row where "key_opt = Some key" "list_all (\<lambda>r. \<not> has_key (caller_scope env customer_id req) key r) (sh_keys s)"
      "has_key (caller_scope env customer_id req) key row" "ik_request_hash row = fingerprint env req" "ik_status row = ''pending''"
      "place_order env now new key_opt req customer_id ord s = book env now new customer_id
         (Some \<lparr>rv_scope = caller_scope env customer_id req, rv_key = key\<rparr>) ord (cq_hold_id req) (s\<lparr>sh_keys := sh_keys s @ [row]\<rparr>)"
proof (cases rule: reserve_outcomes [of key_opt now "caller_scope env customer_id req" "fingerprint env req" "sh_keys s"])
  case disabled
  then show thesis by (intro keyless) (simp_all add: place_order_def)
next
  case (held key row)
  then show thesis by (intro that(3) [of key row]) (simp_all add: place_order_def)
next
  case (read key row)
  with reserve_read_none [of key _ _ "sh_keys s" row] assms obtain e where
    "reserve_read (caller_scope env customer_id req) key (fingerprint env req) (sh_keys s) = Inl e" by blast
  with read show thesis by (intro busy [of e]) (simp add: place_order_def)
qed

text \<open>Booking: everything as before with the key given back, or the order with its response under the key.\<close>

lemma book_booked:
  assumes "book env now new customer_id reservation ord hold_id s = (s', Inr resp)"
  obtains d' rec r' body where "create now new ord (sh_db s) = (d', Inr (Created rec))" "resp = (201, body)"
    "s' = s\<lparr>sh_db := d', sh_redis := r', sh_keys :=
        (case reservation of Some rv \<Rightarrow> complete rv (or_order_id rec) 201 body (sh_keys s) | None \<Rightarrow> sh_keys s)\<rparr>"
proof -
  obtain d' r where run: "create now new ord (sh_db s) = (d', r)" by force
  with assms obtain rec where r: "r = Inr (Created rec)"
    by (auto simp: book_def split: sum.splits store_error.splits create_outcome.splits)
  let ?v = "sv_to_value env \<lparr>cp_record = rec, cp_retrieval_token = retrieval_token (sv_security env) (sv_secret env) (or_order_id rec),
        cp_customer_id = customer_id\<rparr>"
  from assms run r obtain body where body: "?v = Some body" by (auto simp: book_def Let_def split: option.splits)
  show thesis
    by (rule that [of d' rec body "case (hold_id, sh_redis s) of (Some i, Some r) \<Rightarrow> Some (fst (release_itinerary (timestamp_millis now) i r))
        | _ \<Rightarrow> sh_redis s"]) (use assms run r body in \<open>auto simp: book_def Let_def cong: option.case_cong\<close>)
qed

lemma book_failed:
  assumes "\<And>resp. sv_to_value env resp \<noteq> None" "book env now new customer_id reservation ord hold_id s = (s', Inl e)" "e \<noteq> Panicked"
  shows "s' = s\<lparr>sh_keys := (case reservation of Some rv \<Rightarrow> release rv (sh_keys s) | None \<Rightarrow> sh_keys s)\<rparr>"
proof -
  obtain d' r where run: "create now new ord (sh_db s) = (d', r)" by force
  have "r \<noteq> Inr (Created rec)" for rec
  proof
    assume r: "r = Inr (Created rec)"
    obtain body where "sv_to_value env \<lparr>cp_record = rec, cp_retrieval_token = retrieval_token (sv_security env) (sv_secret env) (or_order_id rec),
        cp_customer_id = customer_id\<rparr> = Some body" using assms(1) by blast
    with assms(2) run r show False by (simp add: book_def Let_def)
  qed
  moreover from create_refused [OF run this] have "d' = sh_db s" .
  ultimately show ?thesis using assms(2,3) run
    by (auto simp: book_def split: sum.splits store_error.splits create_outcome.splits)
qed

section \<open>A refusal leaves everything as it was\<close>

lemma release_fresh:
  "list_all (\<lambda>r. \<not> has_key scope key r) rows \<Longrightarrow> has_key scope key row \<Longrightarrow> ik_status row = ''pending'' \<Longrightarrow>
   release \<lparr>rv_scope = scope, rv_key = key\<rparr> (rows @ [row]) = rows"
  by (auto simp: release_def list_all_iff intro!: filter_True)


section \<open>A retry is answered, not booked\<close>

lemma upsert_again:
  assumes "upsert_customer n s rows = (rows', Inr i)"
  shows "\<exists>rows''. upsert_customer n' s rows' = (rows'', Inr i)"
proof -
  have "find_customer s rows' = Some i"
  proof (cases "find_customer s rows")
    case None
    with assms have "rows' = rows @ [\<lparr>cs_id = i, cs_issuer = sb_issuer s, cs_subject = sb_subject s, cs_email = sb_email s\<rparr>]"
      by (auto simp: upsert_customer_def split: option.splits)
    moreover have "List.find P (xs @ [x]) = (if P x then Some x else None)" if "List.find P xs = None" for P and xs :: "customer_row list" and x
      using that by (induction xs) (auto split: if_splits)
    ultimately show ?thesis using None by (simp add: find_customer_def customer_of_def)
  next
    case (Some j)
    define f :: "customer_row \<Rightarrow> customer_row" where "f = (\<lambda>r. r\<lparr>cs_email := (case sb_email s of Some e \<Rightarrow> Some e | None \<Rightarrow> cs_email r)\<rparr>)"
    have "find_customer s (update_where (customer_of s) f rows) = find_customer s rows"
      unfolding find_customer_def by (induction rows) (simp_all add: customer_of_def f_def)
    with assms Some show ?thesis by (auto simp: upsert_customer_def f_def)
  qed
  then show ?thesis by (simp add: upsert_customer_def)
qed

lemma admit_again:
  assumes "admit env headers n req rows = (rows', Inr x)"
  shows "\<exists>rows''. admit env headers n' req rows' = (rows'', Inr x)"
proof -
  obtain rows1 who where c: "caller env headers n rows = (rows1, who)" by force
  with assms obtain journeys customer_id where a: "order_journeys req = Inr journeys" "who = Inr customer_id" "rows1 = rows'" "x = (customer_id, journeys)"
    "\<not> (cq_passengers req = [] \<or> length (cq_passengers req) > MAX_PASSENGERS)"
    "\<not> (customer_id = None \<and> (map_option trim (cq_guest_contact req) = None \<or> map_option trim (cq_guest_contact req) = Some []))"
    unfolding admit_def by (auto simp: Let_def split: sum.splits if_splits)
  have "\<exists>rows''. caller env headers n' rows' = (rows'', Inr customer_id)"
  proof (cases "bearer_subject (sv_identity env) headers")
    case None
    with c a(2,3) show ?thesis by (simp add: caller_def)
  next
    case (Some sub)
    with c a(2,3) obtain i where "upsert_customer n sub rows = (rows', Inr i)" "customer_id = Some i"
      by (auto simp: caller_def split: prod.splits)
    with upsert_again [OF this(1), of n'] Some show ?thesis by (auto simp: caller_def)
  qed
  with a show ?thesis unfolding admit_def by auto
qed

lemma completed_replays:
  assumes "list_all (\<lambda>r. \<not> has_key scope key r) rows" "has_key scope key row" "ik_request_hash row = hash"
  shows "replay_if_completed (Some key) scope hash (complete \<lparr>rv_scope = scope, rv_key = key\<rparr> i 201 body (rows @ [row])) = Inr (Some (201, body))"
proof -
  let ?rv = "\<lparr>rv_scope = scope, rv_key = key\<rparr>"
  have "complete ?rv i 201 body rows = rows"
    unfolding complete_def by (rule update_where_none) (use assms(1) in \<open>auto simp: list_all_iff\<close>)
  moreover have "List.find P (xs @ ys) = List.find P ys" if "list_all (\<lambda>r. \<not> P r) xs" for P and xs ys :: "'a key_row list"
    using that by (induction xs) simp_all
  moreover have "list_all (\<lambda>r. \<not> (has_key scope key r \<and> ik_status r = ''completed'')) rows"
    using assms(1) by (auto simp: list_all_iff)
  ultimately show ?thesis using assms(2,3)
    by (simp add: replay_if_completed_def stored_response_def status_code_def complete_def has_key_def)
qed


section \<open>A quote that is used costs what it said\<close>

text \<open>One quote has one price for a line: the same trip, unit, stops, quantity and passenger type.\<close>

definition line_key :: "priced_item \<Rightarrow> uuid \<times> string \<times> string \<times> string \<times> int \<times> string option" where
  "line_key p = (pi_trip_id p, pi_unit_code p, pi_origin p, pi_destination p, pi_quantity p, pi_passenger_type p)"

lemma price_item_facts:
  assumes "price_item price rules now d promo ctx (item, dep) = Inr p"
  obtains target where
    "resolve_target now (pi_trip_id p) (pi_unit_code p) (pi_origin p) (pi_destination p) d = Inr (Some target)"
    "price rules \<lparr>ri_fare_key = fare_key target (pi_unit_code p), ri_segments = span_segment_count (ct_span target),
       ri_quantity = pi_quantity p, ri_weekday = weekday_of dep, ri_days_before_departure = i32 (date_of dep - date_of now),
       ri_occupancy_bp = span_occupancy_bp (pi_trip_id p) (ct_unit_id target) (ct_kind target) (ct_span target) d,
       ri_promo_code = promo, ri_passenger_type = pi_passenger_type p,
       ri_journey_count = jc_journey_count ctx, ri_is_round_trip = jc_is_round_trip ctx\<rparr> = Inr (pi_quote p)"
    "pb_trip_id item = pi_trip_id p"
  using assms by (auto simp: price_item_def rule_input_of_def Let_def split: if_splits)

lemma one_price_per_line:
  assumes priced: "price_items parse price fares now d items promo ctx = Inr priced"
    and p: "p \<in> set priced" "p' \<in> set priced" "line_key p = line_key p'"
  shows "pi_quote p = pi_quote p'"
proof -
  from priced obtain rules deps where r: "try_map (departure_of d) items = Inr deps"
    "try_map (price_item price rules now d promo ctx) (zip items deps) = Inr priced" by (auto simp: price_items_def)
  have from_item: "\<exists>item dep. price_item price rules now d promo ctx (item, dep) = Inr q \<and> departure_of d item = Inr dep"
    if q: "q \<in> set priced" for q
  proof -
    from try_map_set [OF r(2) q] obtain item dep where x: "(item, dep) \<in> set (zip items deps)"
      "price_item price rules now d promo ctx (item, dep) = Inr q" by auto
    then have "departure_of d item = Inr dep" using r(1) by (auto simp: try_map_Inr_iff list_all2_iff)
    with x(2) show ?thesis by blast
  qed
  from from_item [OF p(1)] obtain i e where i: "price_item price rules now d promo ctx (i, e) = Inr p" "departure_of d i = Inr e" by blast
  from from_item [OF p(2)] obtain i' e' where i': "price_item price rules now d promo ctx (i', e') = Inr p'" "departure_of d i' = Inr e'" by blast
  obtain t where t: "resolve_target now (pi_trip_id p) (pi_unit_code p) (pi_origin p) (pi_destination p) d = Inr (Some t)"
    and q: "price rules \<lparr>ri_fare_key = fare_key t (pi_unit_code p), ri_segments = span_segment_count (ct_span t),
       ri_quantity = pi_quantity p, ri_weekday = weekday_of e, ri_days_before_departure = i32 (date_of e - date_of now),
       ri_occupancy_bp = span_occupancy_bp (pi_trip_id p) (ct_unit_id t) (ct_kind t) (ct_span t) d,
       ri_promo_code = promo, ri_passenger_type = pi_passenger_type p,
       ri_journey_count = jc_journey_count ctx, ri_is_round_trip = jc_is_round_trip ctx\<rparr> = Inr (pi_quote p)"
    and trip: "pb_trip_id i = pi_trip_id p" using i(1) by (rule price_item_facts)
  obtain t' where t': "resolve_target now (pi_trip_id p') (pi_unit_code p') (pi_origin p') (pi_destination p') d = Inr (Some t')"
    and q': "price rules \<lparr>ri_fare_key = fare_key t' (pi_unit_code p'), ri_segments = span_segment_count (ct_span t'),
       ri_quantity = pi_quantity p', ri_weekday = weekday_of e', ri_days_before_departure = i32 (date_of e' - date_of now),
       ri_occupancy_bp = span_occupancy_bp (pi_trip_id p') (ct_unit_id t') (ct_kind t') (ct_span t') d,
       ri_promo_code = promo, ri_passenger_type = pi_passenger_type p',
       ri_journey_count = jc_journey_count ctx, ri_is_round_trip = jc_is_round_trip ctx\<rparr> = Inr (pi_quote p')"
    and trip': "pb_trip_id i' = pi_trip_id p'" using i'(1) by (rule price_item_facts)
  have k: "pi_trip_id p' = pi_trip_id p" "pi_unit_code p' = pi_unit_code p" "pi_origin p' = pi_origin p"
    "pi_destination p' = pi_destination p" "pi_quantity p' = pi_quantity p" "pi_passenger_type p' = pi_passenger_type p"
    using p(3) by (simp_all add: line_key_def)
  have "e' = e" using i(2) i'(2) trip trip' k by (auto simp: departure_of_def)
  moreover have "t' = t" using t t' by (simp add: k)
  ultimately show ?thesis using q q' by (simp add: k)
qed

text \<open>An order's item asks for a quoted line.\<close>

definition line_type :: "instant \<Rightarrow> db \<Rightarrow> new_passenger list \<Rightarrow> uuid \<times> order_item_request \<Rightarrow> string option" where
  "line_type now d ps = (\<lambda>(trip, item).
    (case resolve_target now trip (oq_unit_code item) (oq_origin item) (oq_destination item) d of
       Inr (Some target) \<Rightarrow> if ct_kind target = ''seat'' then seat_passenger_type ps item else None
     | _ \<Rightarrow> None))"

definition asks_for :: "instant \<Rightarrow> db \<Rightarrow> new_passenger list \<Rightarrow> uuid \<times> order_item_request \<Rightarrow> priced_item \<Rightarrow> bool" where
  "asks_for now d ps x p \<longleftrightarrow> line_key p = (case x of (trip, item) \<Rightarrow>
     (trip, oq_unit_code item, oq_origin item, oq_destination item, quantity_of (oq_quantity item), line_type now d ps x))"

lemma quoted_item_price:
  assumes item: "quoted_item now d ps quote x = Inr ni" and token: "qk_items quote = map token_item priced"
    and one: "\<And>p p'. p \<in> set priced \<Longrightarrow> p' \<in> set priced \<Longrightarrow> line_key p = line_key p' \<Longrightarrow> pi_quote p = pi_quote p'"
    and ask: "asks_for now d ps x p" "p \<in> set priced"
  shows "ni_price_minor ni = qt_total_minor (pi_quote p)"
proof -
  obtain trip i where x: "x = (trip, i)" by force
  from item obtain q where "List.find (covers_item trip i (line_type now d ps x)) (qk_items quote) = Some q"
    "ni_price_minor ni = qi_price_minor q"
    by (auto simp: quoted_item_def x line_type_def Let_def new_item_def)
  with token obtain p' where p': "p' \<in> set priced" "covers_item trip i (line_type now d ps x) (token_item p')"
    "ni_price_minor ni = qt_total_minor (pi_quote p')" by (force dest: find_Some_in simp: token_item_def)
  from p'(2) ask(1) have "line_key p' = line_key p" by (simp add: covers_item_def asks_for_def line_key_def x token_item_def)
  with one [OF p'(1) ask(2)] p'(3) show ?thesis by simp
qed

lemma locked_totals:
  assumes quoted: "price_lines catalog lines there = Inr anc"
    and now_priced: "price_lines catalog' lines there' = Inr priced"
    and entries: "ancillary_entries (Some (map (\<lambda>a. \<lparr>qa_line = pc_line a, qa_total_minor = pc_total_minor a\<rparr>) anc)) priced = Inr es"
  shows "map na_total_minor es = map pc_total_minor anc"
proof (rule nth_equalityI)
  from quoted have q: "list_all2 (\<lambda>l a. price_line catalog there l = Inr a) lines anc" by (simp add: price_lines_def try_map_Inr_iff)
  from now_priced have n: "list_all2 (\<lambda>l a. price_line catalog' there' l = Inr a) lines priced" by (simp add: price_lines_def try_map_Inr_iff)
  let ?quoted = "map (\<lambda>a. \<lparr>qa_line = pc_line a, qa_total_minor = pc_total_minor a\<rparr>) anc"
  from entries have e: "list_all2 (\<lambda>p x. and_then (ok_or BadRequest (List.find (\<lambda>q. qa_line q = pc_line p) ?quoted))
      (\<lambda>locked. Inr (ancillary_entry p (qa_total_minor locked))) = Inr x) priced es"
    by (simp add: ancillary_entries_def try_map_Inr_iff split: if_splits)
  have len: "length es = length anc" using q n e by (simp add: list_all2_lengthD [symmetric])
  then show "length (map na_total_minor es) = length (map pc_total_minor anc)" by simp
  have line: "pc_line a = l" if "price_line c ts l = Inr a" for c ts l a
    using that by (auto simp: price_line_def split: if_splits)
  fix i assume "i < length (map na_total_minor es)"
  then have i: "i < length es" "i < length anc" "i < length priced" "i < length lines"
    using len list_all2_lengthD [OF q] list_all2_lengthD [OF n] by simp_all
  from list_all2_nthD2 [OF e i(1)] obtain x where x: "List.find (\<lambda>q. qa_line q = pc_line (priced ! i)) ?quoted = Some x"
    "ancillary_entry (priced ! i) (qa_total_minor x) = es ! i" by auto
  then have "na_total_minor (es ! i) = qa_total_minor x" by (auto simp: ancillary_entry_def dest: sym)
  with x(1) obtain a where a: "a \<in> set anc" "pc_line a = pc_line (priced ! i)" "na_total_minor (es ! i) = pc_total_minor a"
    by (force dest: find_Some_in)
  then obtain l where "price_line catalog there l = Inr a" using q by (auto simp: list_all2_conv_all_nth in_set_conv_nth)
  moreover from this have "l = lines ! i" using line a(2) list_all2_nthD [OF n i(4)] by metis
  ultimately have "a = anc ! i" using list_all2_nthD [OF q i(4)] by simp
  with a(3) i show "map na_total_minor es ! i = map pc_total_minor anc ! i" by simp
qed

lemma claim_items_orders: "claim_items oid pax items d = Inr (d', rec) \<Longrightarrow> orders d' = orders d"
proof (induction items arbitrary: d rec)
  case (Cons x items)
  obtain item target slot where x: "x = (item, target, slot)" by (metis prod_cases3)
  from Cons.prems obtain d1 its rec' where
    c: "claim_item item target d = Inr (d1, 1)"
    and rest: "claim_items oid pax items (d1\<lparr>order_items := its\<rparr>) = Inr (d', rec')"
    by (auto simp: x Let_def split: sum.splits if_splits option.splits)
  have "orders d1 = orders d"
    using c by (auto simp: claim_item_def claim_seat_exec_def claim_pool_exec_def pool_update_def split: if_splits prod.splits)
  with Cons.IH [OF rest] show ?case by simp
qed simp

lemma create_row:
  assumes "create now new ord d = (d', Inr (Created rec))"
  shows "\<exists>row. orders d' = orders d @ [row] \<and> ord_total_minor row = order_total (no_items ord) (no_ancillaries ord)
    \<and> ord_currency row = no_currency ord"
proof (cases rule: create_cases [of now new ord d])
  case (attempted targets slots)
  show ?thesis
  proof (cases rule: create_tx_cases [of now new ord targets slots d])
    case (created t d0 d0' d1 d1' ps recorded ls anc p1 p2 rec')
    from created(1) obtain row where "orders d0 = orders d @ [row]" "ord_total_minor row = t" "ord_currency row = no_currency ord"
      by (auto simp: insert_order_def split: option.splits)
    moreover have "orders d' = orders d1'" using assms attempted(1) created(5) by (auto simp: events_append_def Let_def)
    ultimately show ?thesis
      using created(9) insert_passengers_frame [OF created(2)] claim_items_orders [OF created(3)] insert_ancillaries_frame [OF created(4)]
      by simp
  qed (use assms attempted(1) in auto)
qed (use assms in auto)

lemma quoted_total:
  assumes quote: "create_quote (sv_quote env) (sv_parse env) (sv_price env) (sv_secret env) now0 fares0 catalog0 d0 qreq = Inr resp"
    and codec: "quote_codec (sv_quote env) (sv_secret env) (quote_token_of now0 (qs_items resp) (qs_ancillaries resp))"
    and token: "cq_quote_token req = Some (qs_quote_token resp)" and extras: "cq_ancillaries req = qr_ancillaries qreq"
    and asks: "list_all2 (asks_for now d ps) (flat_items journeys) (qs_items resp)"
    and lines: "order_lines env fares catalog now d req journeys ps = Inr (currency, items, anc)"
  shows "order_total items anc = qs_total_minor resp \<and> currency = qs_currency resp"
proof -
  let ?t = "quote_token_of now0 (qs_items resp) (qs_ancillaries resp)"
  from quote obtain qjs where q: "qs_quote_token resp = sign_quote (sv_quote env) (sv_secret env) ?t" "qs_total_minor resp = qk_total_minor ?t"
    "qs_currency resp = qk_currency ?t" "price_items (sv_parse env) (sv_price env) fares0 now0 d0 (priceable_of qjs) (qr_promo_code qreq)
        (journey_context qjs) = Inr (qs_items resp)" "price_lines catalog0 (qr_ancillaries qreq) (map fst qjs) = Inr (qs_ancillaries resp)"
    by (auto simp: create_quote_def Let_def split: if_splits)
  from lines obtain quote priced where l: "verify_quote (sv_quote env) now (sv_secret env) (qs_quote_token resp) = Some quote"
    "try_map (quoted_item now d ps quote) (flat_items journeys) = Inr items"
    "price_lines catalog (cq_ancillaries req) (map fst journeys) = Inr priced"
    "ancillary_entries (Some (qk_ancillaries quote)) priced = Inr anc" "currency = qk_currency quote"
    unfolding order_lines_def token by auto
  have quote: "quote = ?t" using l(1) verify_signed [OF codec, of now] by (simp add: q(1) split: if_splits)
  have tok: "qk_items quote = map token_item (qs_items resp)"
    "qk_ancillaries quote = map (\<lambda>a. \<lparr>qa_line = pc_line a, qa_total_minor = pc_total_minor a\<rparr>) (qs_ancillaries resp)"
    by (simp_all add: quote quote_token_of_def)
  have item_prices: "list_all2 (\<lambda>ni p. ni_price_minor ni = qt_total_minor (pi_quote p)) items (qs_items resp)"
    unfolding list_all2_conv_all_nth
  proof (intro conjI allI impI)
    from l(2) have li: "list_all2 (\<lambda>x ni. quoted_item now d ps quote x = Inr ni) (flat_items journeys) items" by (simp add: try_map_Inr_iff)
    note len = list_all2_lengthD [OF li] list_all2_lengthD [OF asks]
    then show "length items = length (qs_items resp)" by simp
    fix i assume i: "i < length items"
    show "ni_price_minor (items ! i) = qt_total_minor (pi_quote (qs_items resp ! i))"
      by (rule quoted_item_price [OF list_all2_nthD2 [OF li i] tok(1) one_price_per_line [OF q(4)] list_all2_nthD [OF asks]])
        (use i len in simp_all)
  qed
  have "map ni_price_minor items = map (\<lambda>p. qt_total_minor (pi_quote p)) (qs_items resp)"
    using item_prices by (intro nth_equalityI) (auto simp: list_all2_conv_all_nth)
  moreover have "map na_total_minor anc = map pc_total_minor (qs_ancillaries resp)"
    using locked_totals [OF q(5), of catalog "map fst journeys" priced anc] l(3,4) by (simp add: extras tok)
  ultimately show ?thesis by (simp add: order_total_def q l(5) quote quote_token_of_def)
qed

text \<open>C8: Accepting a quote is binding to the minor unit: an order that presents the token of a quote and asks for its
  lines is booked at the quote's total in the quote's currency, whatever has happened to the fares, the
  catalog and the occupancy since.\<close>
theorem quoted_price_is_charged:
  assumes quote: "create_quote (sv_quote env) (sv_parse env) (sv_price env) (sv_secret env) now0 fares0 catalog0 d0 qreq = Inr resp"
    and codec: "quote_codec (sv_quote env) (sv_secret env) (quote_token_of now0 (qs_items resp) (qs_ancillaries resp))"
    and token: "cq_quote_token req = Some (qs_quote_token resp)" and extras: "cq_ancillaries req = qr_ancillaries qreq"
    and request: "order_journeys req = Inr journeys" "try_map parse_passenger (cq_passengers req) = Inr ps"
    and asks: "list_all2 (asks_for now (sh_db s) ps) (flat_items journeys) (qs_items resp)"
    and run: "create_order env fares catalog now nc new headers req s = (s', Inr answer)" and fresh: "sh_db s' \<noteq> sh_db s"
  shows "\<exists>row. orders (sh_db s') = orders (sh_db s) @ [row]
    \<and> ord_total_minor row = qs_total_minor resp \<and> ord_currency row = qs_currency resp"
proof (cases rule: create_order_cases [of env fares catalog now nc new headers req s])
  case (booked cs customer_id js lines)
  from booked(1) request(1) have js: "js = journeys" by (auto simp: admit_def Let_def split: if_splits prod.splits sum.splits)
  from booked(3) request(2) obtain currency items anc where lines: "lines = (ps, currency, items, anc)"
    "order_lines env fares catalog now (sh_db s) req journeys ps = Inr (currency, items, anc)" by (auto simp: prepare_def js)
  note total = quoted_total [OF quote codec token extras asks lines(2)]
  let ?s = "s\<lparr>sh_customers := cs\<rparr>" and ?ord = "the_order req customer_id lines"
  have new_row: ?thesis if b: "book env now new customer_id reservation ?ord (cq_hold_id req) s0 = (s', Inr answer)" and same: "sh_db s0 = sh_db s"
    for reservation s0
  proof -
    from b obtain d' rec where "create now new ?ord (sh_db s) = (d', Inr (Created rec))" "sh_db s' = d'"
      by (rule book_booked) (use same in auto)
    with create_row [OF this(1)] total show ?thesis by (simp add: the_order_def lines(1))
  qed
  have rep: "replay_if_completed (key_from_headers headers) (caller_scope env customer_id req) (fingerprint env req) (sh_keys ?s) = Inr None"
    using booked(2) by simp
  from rep show ?thesis
  proof (cases rule: place_order_cases [where now = now and new = new and ord = ?ord])
    case (held key row)
    with run booked(4) have b: "book env now new customer_id (Some \<lparr>rv_scope = caller_scope env customer_id req, rv_key = key\<rparr>) ?ord
        (cq_hold_id req) (?s\<lparr>sh_keys := sh_keys ?s @ [row]\<rparr>) = (s', Inr answer)" by simp
    show ?thesis by (rule new_row [OF b]) simp
  next
    case keyless
    with run booked(4) have b: "book env now new customer_id None ?ord (cq_hold_id req) ?s = (s', Inr answer)" by simp
    show ?thesis by (rule new_row [OF b]) simp
  qed (use run booked(4) in auto)
qed (use run fresh in auto)

section \<open>A sample checkout\<close>

definition demo_shop_fares :: "string fare_rules_row list" where
  "demo_shop_fares = [\<lparr>fr_id = Uuid 1, fr_active = True, fr_rules = [], fr_created_at = 0\<rparr>]"

definition demo_env :: "quote_token \<Rightarrow> string shop_env" where
  "demo_env token = \<lparr>sv_quote = toy_quote_libs token, sv_security = toy_security, sv_uuid_text = (\<lambda>_. ''u''), sv_secret = ''k'',
     sv_identity = None, sv_parse = (\<lambda>_. Inr demo_quote_rules), sv_price = native_price, sv_to_vec = (\<lambda>_. Some ''r''),
     sv_to_value = (\<lambda>_. Some ''order'')\<rparr>"

text \<open>The token of the sample quote, and the text it is sent as.\<close>

definition demo_token :: quote_token where
  "demo_token = \<lparr>qk_currency = ''PHP'', qk_total_minor = 180, qk_exp = 300,
     qk_items = [\<lparr>qi_trip_id = sample_trip_id, qi_unit_code = ''12A'', qi_origin = ''A'', qi_destination = ''C'', qi_quantity = 1,
       qi_passenger_type = Some ''adult'', qi_price_minor = 180\<rparr>], qk_ancillaries = []\<rparr>"

definition demo_shop_quote :: "api_error + quote_response" where
  "demo_shop_quote = create_quote (toy_quote_libs demo_token) (\<lambda>_. Inr demo_quote_rules) native_price ''k'' 0
     demo_shop_fares [] sample_db demo_quote_request"

definition demo_order_request :: "string option \<Rightarrow> create_order_request" where
  "demo_order_request token = \<lparr>cq_trip_id = Some sample_trip_id,
     cq_items = Some [\<lparr>oq_unit_code = ''12A'', oq_origin = ''A'', oq_destination = ''C'', oq_quantity = None, oq_passenger = None\<rparr>],
     cq_journeys = None, cq_passengers = [\<lparr>pq_full_name = ''Ana'', pq_type = ''adult'', pq_birthdate = None\<rparr>],
     cq_guest_contact = Some ''a@b'', cq_quote_token = token, cq_promo_code = None, cq_hold_id = None, cq_ancillaries = []\<rparr>"

definition demo_shop :: "string shop" where
  "demo_shop = \<lparr>sh_db = sample_db, sh_customers = [], sh_keys = [], sh_redis = None\<rparr>"

definition demo_new :: "nat \<Rightarrow> uuid" where
  "demo_new i = Uuid (of_nat (3000 + i))"

definition demo_headers :: headers where
  "demo_headers = [(''idempotency-key'', ''k1'')]"

definition demo_checkout :: "string option \<Rightarrow> string shop \<times> (api_error + nat \<times> string)" where
  "demo_checkout token = create_order (demo_env demo_token) demo_shop_fares [] 5 (Uuid 7) demo_new demo_headers (demo_order_request token) demo_shop"

lemma demo_checkout_books: "snd (demo_checkout None) = Inr (201, ''order'')"
  by code_simp



theorem quoted_price_is_charged_witness:
  "\<exists>row. orders (sh_db (fst (demo_checkout (Some ''q.kq'')))) = orders sample_db @ [row]
     \<and> ord_total_minor row = 180 \<and> ord_currency row = ''PHP''"
proof -
  let ?ps = "[\<lparr>np_full_name = ''Ana'', np_type = Adult, np_birthdate = None\<rparr>]"
  let ?items = "[\<lparr>oq_unit_code = ''12A'', oq_origin = ''A'', oq_destination = ''C'', oq_quantity = None, oq_passenger = None\<rparr>]"
  have "case demo_shop_quote of Inl _ \<Rightarrow> False | Inr r \<Rightarrow> quote_token_of 0 (qs_items r) (qs_ancillaries r) = demo_token
      \<and> qs_quote_token r = ''q.kq'' \<and> qs_total_minor r = 180 \<and> qs_currency r = ''PHP''
      \<and> list_all2 (asks_for 5 sample_db ?ps) (flat_items [(sample_trip_id, ?items)]) (qs_items r)" by code_simp
  then obtain r where r: "demo_shop_quote = Inr r" "quote_token_of 0 (qs_items r) (qs_ancillaries r) = demo_token"
    "qs_quote_token r = ''q.kq''" "qs_total_minor r = 180" "qs_currency r = ''PHP''"
    "list_all2 (asks_for 5 sample_db ?ps) (flat_items [(sample_trip_id, ?items)]) (qs_items r)"
    by (auto split: sum.splits)
  let ?req = "demo_order_request (Some ''q.kq'')"
  have "snd (demo_checkout (Some ''q.kq'')) = Inr (201, ''order'')" by code_simp
  then have answer: "create_order (demo_env demo_token) demo_shop_fares [] 5 (Uuid 7) demo_new demo_headers ?req demo_shop
      = (fst (demo_checkout (Some ''q.kq'')), Inr (201, ''order''))" by (simp add: prod_eq_iff demo_checkout_def)
  have "length (orders (sh_db (fst (demo_checkout (Some ''q.kq''))))) = 1" by code_simp
  then have "sh_db (fst (demo_checkout (Some ''q.kq''))) \<noteq> sh_db demo_shop"
    by (auto simp: demo_shop_def sample_db_def empty_db_def)
  moreover have "try_map parse_passenger (cq_passengers ?req) = Inr ?ps" "order_journeys ?req = Inr [(sample_trip_id, ?items)]" by code_simp+
  moreover have "quote_codec (toy_quote_libs demo_token) ''k'' demo_token" by (rule toy_quote_codec) simp
  ultimately show ?thesis
    using quoted_price_is_charged [OF _ _ _ _ _ _ _ answer, of 0 demo_shop_fares "[]" sample_db demo_quote_request r "[(sample_trip_id, ?items)]" ?ps] r
    by (simp add: demo_env_def demo_shop_quote_def demo_shop_def demo_order_request_def demo_quote_request_def)
qed

end
