(* ===== verification/Order_Endpoints.thy ===== *)
theory Order_Endpoints
  imports Access Payments Tickets Holds Sample_Orders
begin

text \<open>
  The endpoints around an order: access, reading, paying, the provider's webhook and cancelling
  (\<open>crates/lulan-api/src/orders.rs\<close>), tickets and boarding (\<open>tickets.rs\<close>), search and the seat map
  (\<open>trips.rs\<close>). The payment provider is the port of \<open>Payments\<close>, a record of its calls; the signing key read
  at issue time is the argument \<open>active\<close>.
\<close>

section \<open>Access to one order\<close>

definition owns_order :: "uuid \<Rightarrow> uuid \<Rightarrow> db \<Rightarrow> bool" where
  "owns_order order_id customer_id d = list_ex (\<lambda>r. ord_id r = order_id \<and> ord_customer r = Some customer_id) (orders d)"

definition authorize_order_access :: "security_libs \<Rightarrow> string \<Rightarrow> identity_port \<Rightarrow> customer_row list \<Rightarrow> api_key_row list \<Rightarrow>
    headers \<Rightarrow> uuid \<Rightarrow> string option \<Rightarrow> db \<Rightarrow> api_error + unit" where
  "authorize_order_access libs secret identity customers keys headers order_id token d =
    (if (case token of Some t \<Rightarrow> verify_retrieval_token libs secret order_id t | None \<Rightarrow> False) then Inr ()
     else if (case Option.bind (bearer_subject identity headers) (\<lambda>s. find_customer s customers) of
         Some customer_id \<Rightarrow> owns_order order_id customer_id d | None \<Rightarrow> False) then Inr ()
     else (case raw_credential headers of
         Some key \<Rightarrow>
           if is_prefix ''llk_'' key
           then and_then (authenticate libs key keys) (\<lambda>auth. if auth \<noteq> None then Inr () else Inl Unauthorized)
           else Inl Unauthorized
       | None \<Rightarrow> Inl Unauthorized))"

section \<open>Reading, paying, cancelling\<close>

record event_summary =
  es_stream_seq :: nat
  es_event_type :: string
  es_occurred_at :: instant

definition order_details :: "api_error + unit \<Rightarrow> uuid \<Rightarrow> db \<Rightarrow> api_error + order_record \<times> event_summary list" where
  "order_details access order_id d =
    and_then access (\<lambda>_.
    and_then (map_err of_store_error (get_order order_id d)) (\<lambda>found.
    and_then (ok_or ApiNotFound found) (\<lambda>record.
      Inr (record, map (\<lambda>e. \<lparr>es_stream_seq = ev_stream_seq e, es_event_type = ev_type e, es_occurred_at = ev_occurred_at e\<rparr>)
        (events_stream order_id d)))))"

record payment_provider =
  pp_name :: string
  pp_authenticates :: bool
  pp_verify :: "string option \<Rightarrow> string \<Rightarrow> payment_error + payment_event"
  pp_create_intent :: "uuid \<Rightarrow> int \<Rightarrow> string \<Rightarrow> payment_error + payment_intent"

definition http_adapter :: "payment_libs \<Rightarrow> http_client \<Rightarrow> int \<Rightarrow> http_provider \<Rightarrow> payment_provider" where
  "http_adapter libs send now p = \<lparr>pp_name = pr_name (hp_config p), pp_authenticates = authenticates_callbacks p,
     pp_verify = verify_callback libs now p, pp_create_intent = create_intent libs send p\<rparr>"

definition payment_error_api :: "payment_error \<Rightarrow> api_error" where
  "payment_error_api e = (case e of
      Rejected \<Rightarrow> ApiConflict | Unavailable \<Rightarrow> ServiceUnavailable | CallbackBadSignature \<Rightarrow> Unauthorized | CallbackMalformed \<Rightarrow> BadRequest)"

definition answer_transition :: "db \<times> (store_error + transition_outcome) \<Rightarrow> db \<times> (api_error + order_status)" where
  "answer_transition r = (case r of
      (d, Inl e) \<Rightarrow> (d, Inl (of_store_error e))
    | (d, Inr (Applied status)) \<Rightarrow> (d, Inr status)
    | (d, Inr (NoOp _)) \<Rightarrow> (d, Inl ApiConflict)
    | (d, Inr OrderMissing) \<Rightarrow> (d, Inl ApiNotFound))"

definition pay_order :: "payment_provider \<Rightarrow> api_error + unit \<Rightarrow> instant \<Rightarrow> uuid \<Rightarrow> db \<Rightarrow>
    db \<times> (api_error + order_status \<times> payment_intent)" where
  "pay_order provider access now order_id d =
    (case and_then access (\<lambda>_.
          and_then (map_err of_store_error (get_order order_id d)) (\<lambda>found.
          and_then (ok_or ApiNotFound found) (\<lambda>record.
            map_err payment_error_api (pp_create_intent provider order_id (or_total_minor record) (or_currency record))))) of
       Inl e \<Rightarrow> (d, Inl e)
     | Inr intent \<Rightarrow>
         (case answer_transition (request_payment now order_id (pn_id intent) d) of
            (d', Inl e) \<Rightarrow> (d', Inl e)
          | (d', Inr status) \<Rightarrow> (d', Inr (status, intent))))"

definition cancel_order :: "api_error + unit \<Rightarrow> instant \<Rightarrow> uuid \<Rightarrow> db \<Rightarrow> db \<times> (api_error + order_status)" where
  "cancel_order access now order_id d =
    (case access of Inl e \<Rightarrow> (d, Inl e) | Inr _ \<Rightarrow> answer_transition (Orders.cancel now order_id d))"

section \<open>The provider's webhook\<close>

definition ends_with :: "string \<Rightarrow> string \<Rightarrow> bool" where
  "ends_with suf s = is_prefix (rev suf) (rev s)"

text \<open>Headers come in the order of the map, names in lower case.\<close>

definition signature_header :: "headers \<Rightarrow> string option" where
  "signature_header headers =
     Option.bind (List.find (\<lambda>(name, _). ends_with ''-signature'' name \<or> ends_with ''-sign'' name \<or> name = ''signature'') headers)
       (\<lambda>(_, v). if list_all header_visible v then Some v else None)"

record webhook_response =
  wr_order_status :: "order_status option"
  wr_applied :: bool

definition callback_event :: "payment_provider \<Rightarrow> security_libs \<Rightarrow> api_key_row list \<Rightarrow> headers \<Rightarrow> string \<Rightarrow> api_error + payment_event" where
  "callback_event provider libs keys headers body =
    and_then (if pp_authenticates provider then Inr () else and_then (require_integration libs keys headers) (\<lambda>_. Inr ())) (\<lambda>_.
      map_err payment_error_api (pp_verify provider (if pp_authenticates provider then signature_header headers else None) body))"

text \<open>A capture that pays the order issues its tickets; a failure to issue is logged and the order stays paid.\<close>

definition settle_payment :: "wire \<Rightarrow> seal_error + ticket_signer option \<Rightarrow> instant \<Rightarrow> (nat \<Rightarrow> uuid) \<Rightarrow> string \<Rightarrow> bool \<Rightarrow> db \<Rightarrow>
    db \<times> (api_error + webhook_response)" where
  "settle_payment w active now new intent succeeded d =
    (case apply_payment_result now intent succeeded d of
       (d', Inl e) \<Rightarrow> (d', Inl (of_store_error e))
     | (d', Inr OrderMissing) \<Rightarrow> (d', Inl ApiNotFound)
     | (d', Inr (NoOp status)) \<Rightarrow> (d', Inr \<lparr>wr_order_status = Some status, wr_applied = False\<rparr>)
     | (d', Inr (Applied status)) \<Rightarrow>
         (case (status, find_by_intent intent d') of
            (Paid, Some order_id) \<Rightarrow>
              (case issue_for_order w active now new order_id d' of
                 (d'', Inr _) \<Rightarrow> (d'', Inr \<lparr>wr_order_status = Some Ticketed, wr_applied = True\<rparr>)
               | (d'', Inl _) \<Rightarrow> (d'', Inr \<lparr>wr_order_status = Some Paid, wr_applied = True\<rparr>))
          | _ \<Rightarrow> (d', Inr \<lparr>wr_order_status = Some status, wr_applied = True\<rparr>)))"

definition payment_webhook :: "payment_provider \<Rightarrow> security_libs \<Rightarrow> api_key_row list \<Rightarrow> wire \<Rightarrow> seal_error + ticket_signer option \<Rightarrow>
    instant \<Rightarrow> (nat \<Rightarrow> uuid) \<Rightarrow> headers \<Rightarrow> string \<Rightarrow> db \<Rightarrow> db \<times> (api_error + webhook_response)" where
  "payment_webhook provider libs keys w active now new headers body d =
    (case callback_event provider libs keys headers body of
       Inl e \<Rightarrow> (d, Inl e)
     | Inr Ignored \<Rightarrow> (d, Inr \<lparr>wr_order_status = None, wr_applied = False\<rparr>)
     | Inr (Captured intent) \<Rightarrow> settle_payment w active now new intent True d
     | Inr (PaymentDeclined intent) \<Rightarrow> settle_payment w active now new intent False d)"

section \<open>Tickets and boarding\<close>

definition ticket_error_api :: "ticket_error \<Rightarrow> api_error" where
  "ticket_error_api e = (case e of
      TicketOrderMissing \<Rightarrow> ApiNotFound | NotPaid _ \<Rightarrow> ApiConflict | NoSigningKey \<Rightarrow> ServiceUnavailable
    | TicketStore (StatusPanic _) \<Rightarrow> Panicked | _ \<Rightarrow> Internal)"

definition issue_tickets :: "api_error + unit \<Rightarrow> wire \<Rightarrow> seal_error + ticket_signer option \<Rightarrow> instant \<Rightarrow> (nat \<Rightarrow> uuid) \<Rightarrow> uuid \<Rightarrow> db \<Rightarrow>
    db \<times> (api_error + issued_ticket list)" where
  "issue_tickets access w active now new order_id d =
    (case access of Inl e \<Rightarrow> (d, Inl e)
     | Inr _ \<Rightarrow> (case issue_for_order w active now new order_id d of (d', r) \<Rightarrow> (d', map_err ticket_error_api r)))"

definition list_tickets :: "api_error + unit \<Rightarrow> uuid \<Rightarrow> db \<Rightarrow> api_error + issued_ticket list" where
  "list_tickets access order_id d = and_then access (\<lambda>_. Inr (tickets_for_order order_id d))"

definition REVOCATION_HORIZON_HOURS :: int where "REVOCATION_HORIZON_HOURS = 72"

definition revocations :: "api_error + api_key_auth \<Rightarrow> instant \<Rightarrow> uuid option \<Rightarrow> db \<Rightarrow> api_error + uuid list" where
  "revocations device now trip_id d = and_then device (\<lambda>_. Inr (revoked_tickets now trip_id REVOCATION_HORIZON_HOURS d))"

record scan_request =
  sq_ticket_id :: uuid
  sq_scanned_at :: instant
  sq_result :: "string option"

text \<open>Each scan is its own transaction; the first error ends the batch with the earlier ones recorded.\<close>

fun sync_loop :: "instant \<Rightarrow> string \<Rightarrow> scan_request list \<Rightarrow> db \<Rightarrow> db \<times> (api_error + scan_outcome list)" where
  "sync_loop now device_id [] d = (d, Inr [])"
| "sync_loop now device_id (scan # scans) d =
    (case record_scan now (sq_ticket_id scan) device_id (sq_scanned_at scan)
        (case sq_result scan of Some r \<Rightarrow> r | None \<Rightarrow> ''ok'') d of
       (d', Inl e) \<Rightarrow> (d', Inl (case e of TicketStore (StatusPanic _) \<Rightarrow> Panicked | _ \<Rightarrow> Internal))
     | (d', Inr outcome) \<Rightarrow>
         (case sync_loop now device_id scans d' of (d'', r) \<Rightarrow> (d'', and_then r (\<lambda>outcomes. Inr (outcome # outcomes)))))"

definition sync_scans :: "api_error + api_key_auth \<Rightarrow> instant \<Rightarrow> string \<Rightarrow> scan_request list \<Rightarrow> db \<Rightarrow> db \<times> (api_error + scan_outcome list)" where
  "sync_scans device now device_id scans d =
    (case device of Inl e \<Rightarrow> (d, Inl e)
     | Inr _ \<Rightarrow>
         if trim device_id = [] then (d, Inl BadRequest)
         else if length scans > 1000 then (d, Inl BadRequest)
         else sync_loop now device_id scans d)"

section \<open>Search and the seat map\<close>

datatype trip_type = OneWay | RoundTrip

record search_params =
  sp_origin :: string
  sp_destination :: string
  sp_departure_date :: int
  sp_return_date :: "int option"
  sp_trip_type :: trip_type
  sp_limit :: "int option"

definition DEFAULT_SEARCH_LIMIT :: int where "DEFAULT_SEARCH_LIMIT = 50"
definition MAX_SEARCH_LIMIT :: int where "MAX_SEARCH_LIMIT = 200"

definition search_limit :: "int option \<Rightarrow> nat" where
  "search_limit lim = nat (max 1 (min (case lim of Some n \<Rightarrow> n | None \<Rightarrow> DEFAULT_SEARCH_LIMIT) MAX_SEARCH_LIMIT))"

definition search :: "search_params \<Rightarrow> db \<Rightarrow> api_error + (string \<times> trip_summary list) list" where
  "search params d =
    (if sp_trip_type params = OneWay \<and> sp_return_date params \<noteq> None then Inl BadRequest
     else if sp_trip_type params = RoundTrip \<and> sp_return_date params = None then Inl BadRequest
     else
       let lim = search_limit (sp_limit params); o1 = sp_origin params; d1 = sp_destination params in
       and_then (map_err of_store_error (search_trips o1 d1 (sp_departure_date params) lim d)) (\<lambda>outbound.
       and_then (case sp_return_date params of
           Some date \<Rightarrow> and_then (map_err of_store_error (search_trips d1 o1 date lim d)) (\<lambda>back_trips. Inr [(''return'', back_trips)])
         | None \<Rightarrow> Inr []) (\<lambda>return_leg.
         Inr ((''outbound'', outbound) # return_leg))))"

definition seat_map :: "instant \<Rightarrow> uuid \<Rightarrow> string \<Rightarrow> string \<Rightarrow> db \<Rightarrow> redis option \<Rightarrow> redis option \<times> (api_error + trip_availability_report)" where
  "seat_map now trip_id origin destination d store =
    (case and_then (map_err of_store_error (trip_availability trip_id origin destination d)) (ok_or ApiNotFound) of
       Inl e \<Rightarrow> (store, Inl e)
     | Inr report \<Rightarrow>
         (case (store, span_new (ta_from_index report) (ta_to_index report)) of
            (Some r, Inr span) \<Rightarrow>
              (case held_units (timestamp_millis now) trip_id span r of
                 (r', held) \<Rightarrow> (Some r', Inr (report\<lparr>ta_seats :=
                    map (\<lambda>s. s\<lparr>sv_held := List.member held (sv_unit_id s)\<rparr>) (ta_seats report)\<rparr>)))
          | _ \<Rightarrow> (store, Inr report)))"

section \<open>The order id is not a credential\<close>

text \<open>C17: An order is opened only by its own retrieval token, by the verified customer who owns it, or by an active API
  key; its id alone opens nothing, and neither does any other order's token.\<close>
theorem order_access_needs_credential:
  assumes "authorize_order_access libs secret identity customers keys headers order_id token d = Inr ()"
  shows "token = Some (retrieval_token libs secret order_id)
    \<or> (\<exists>s c. bearer_subject identity headers = Some s \<and> find_customer s customers = Some c
        \<and> list_ex (\<lambda>r. ord_id r = order_id \<and> ord_customer r = Some c) (orders d))
    \<or> (\<exists>key. raw_credential headers = Some key \<and> list_ex (\<lambda>r. ky_active r \<and> ky_hash r = sl_sha256 libs key) keys)"
proof -
  have "list_ex (\<lambda>r. ky_active r \<and> ky_hash r = sl_sha256 libs key) keys" if "authenticate libs key keys = Inr (Some auth)" for key auth
    using that by (auto simp: authenticate_def list_ex_iff split: option.splits dest: find_Some_in)
  with assms show ?thesis
    unfolding authorize_order_access_def verify_retrieval_token_def owns_order_def constant_time_eq_iff
    by (auto split: if_splits option.splits bind_splits)
qed

theorem order_access_needs_credential_witness:
  "authorize_order_access toy_security ''k'' demo_identity [] (cr_keys demo_credentials) [(''x-api-key'', ''llk_g'')] (Uuid 5) None empty_db = Inr ()
   \<and> (\<exists>key. raw_credential [(''x-api-key'', ''llk_g'')] = Some key
        \<and> list_ex (\<lambda>r. ky_active r \<and> ky_hash r = sl_sha256 toy_security key) (cr_keys demo_credentials))"
proof -
  let ?h = "[(''x-api-key'', ''llk_g'')] :: headers"
  have a: "authorize_order_access toy_security ''k'' demo_identity [] (cr_keys demo_credentials) ?h (Uuid 5) None empty_db = Inr ()"
    by code_simp
  have b: "bearer_subject demo_identity ?h = None" by code_simp
  from order_access_needs_credential [OF a] show ?thesis by (simp add: a b)
qed

section \<open>Callbacks\<close>

text \<open>Any provider that keeps the port's contract.\<close>

context payment_port
begin

lemma event_authenticated:
  assumes "pp_authenticates provider = authenticates" "pp_verify provider = verify"
    and "callback_event provider libs keys headers body = Inr event"
  shows "if authenticates then signature_header headers \<noteq> None \<and> verify (signature_header headers) body = Inr event
    else \<exists>auth. require_integration libs keys headers = Inr auth"
  using assms event_needs_credential by (auto simp: callback_event_def split: if_splits)

end

text \<open>C15: Money only moves on proof: when a webhook call changes anything with a configured HTTP provider, either the
  provider signs its callbacks and the call's signature header verified over exactly the body received, or it
  does not and the call came with an active integration or admin API key.\<close>
theorem webhook_moves_money_on_proof:
  assumes "payment_webhook (http_adapter plibs send at p) libs keys w active now new headers body d = (d', r)" "d' \<noteq> d"
  shows "if authenticates_callbacks p
    then \<exists>secret header. hp_webhook_secret p = Some secret \<and> signature_header headers = Some header
      \<and> verify_signature plibs at (pr_webhook (hp_config p)) secret header body = Inr ()
    else \<exists>key. raw_credential headers = Some key \<and> is_prefix ''llk_'' key
      \<and> list_ex (\<lambda>r. ky_active r \<and> ky_hash r = sl_sha256 libs key \<and> ky_role r \<in> {''integration'', ''operator_admin''}) keys"
proof -
  let ?pr = "http_adapter plibs send at p"
  from assms obtain event where e: "callback_event ?pr libs keys headers body = Inr event"
    by (cases "callback_event ?pr libs keys headers body") (auto simp: payment_webhook_def)
  have "pp_authenticates ?pr = authenticates_callbacks p" "pp_verify ?pr = verify_callback plibs at p"
    by (simp_all add: http_adapter_def)
  note proof_of = http_port.event_authenticated [OF this e]
  show ?thesis
  proof (cases "authenticates_callbacks p")
    case True
    with proof_of obtain header where h: "signature_header headers = Some header" "verify_callback plibs at p (Some header) body = Inr event"
      by auto
    with True show ?thesis by (auto simp: verify_callback_def check_signed_def authenticates_callbacks_def)
  next
    case False
    with proof_of obtain auth key where k: "raw_credential headers = Some key" "is_prefix ''llk_'' key"
      "authenticate libs key keys = Inr (Some auth)" "ka_role auth \<in> {Integration, OperatorAdmin}"
      by (auto simp: require_integration_def with_role_def known_key_def split: if_splits bind_splits)
    then obtain row where row: "row \<in> set keys" "ky_active row" "ky_hash row = sl_sha256 libs key" "api_role_parse (ky_role row) = Some (ka_role auth)"
      by (auto simp: authenticate_def split: option.splits dest: find_Some_in)
    then have "ky_role row \<in> {''integration'', ''operator_admin''}"
      using k(4) by (auto simp: api_role_parse_def split: if_splits)
    with row have "list_ex (\<lambda>r. ky_active r \<and> ky_hash r = sl_sha256 libs key \<and> ky_role r \<in> {''integration'', ''operator_admin''}) keys"
      unfolding list_ex_iff by (intro bexI [of _ row]) simp_all
    with False k(1,2) show ?thesis by simp
  qed
qed

section \<open>Replaying a boarding journal\<close>

lemma record_scan_kept:
  assumes "record_scan now tid dev at res d = (d', Inr oc)"
  shows "map tk_id (tickets d') = map tk_id (tickets d)"
    and "scan_known t dv a d \<Longrightarrow> scan_known t dv a d'"
    and "tid \<in> tk_id ` set (tickets d) \<Longrightarrow> scan_known tid dev at d'"
proof -
  have ids: "map tk_id (update_where (\<lambda>t. tk_id t = tid) (boarded_row at) ts) = map tk_id ts" for ts
    by (simp add: map_update_where boarded_row_def)
  show "map tk_id (tickets d') = map tk_id (tickets d)" using assms by (rule record_scan_frame) (simp_all add: ids)
  show "scan_known t dv a d \<Longrightarrow> scan_known t dv a d'" using assms by (rule record_scan_frame) (simp_all add: scan_known_def)
  show "tid \<in> tk_id ` set (tickets d) \<Longrightarrow> scan_known tid dev at d'"
    using assms by (rule record_scan_frame) (auto simp: scan_known_def find_None_iff)
qed

lemma record_scan_again:
  "scan_known tid dev at d \<or> tid \<notin> tk_id ` set (tickets d) \<Longrightarrow> record_scan now tid dev at res d
    = (d, Inr \<lparr>sn_ticket_id = tid, sn_status = (if tid \<in> tk_id ` set (tickets d) then ''duplicate_scan'' else ''unknown_ticket''),
        sn_order_status = None\<rparr>)"
proof (cases "List.find (\<lambda>t. tk_id t = tid) (tickets d)")
  case None
  then have "tid \<notin> tk_id ` set (tickets d)" by (auto simp: find_None_iff)
  with None show ?thesis by (simp add: record_scan_def)
next
  case (Some t)
  assume "scan_known tid dev at d \<or> tid \<notin> tk_id ` set (tickets d)"
  moreover from Some have "tid \<in> tk_id ` set (tickets d)" by (auto dest: find_Some_in)
  ultimately show ?thesis using Some by (simp add: record_scan_def scan_known_def)
qed

lemma sync_loop_kept:
  "sync_loop now dev scans d = (d', Inr outs) \<Longrightarrow> map tk_id (tickets d') = map tk_id (tickets d)
    \<and> (scan_known t dv a d \<longrightarrow> scan_known t dv a d')
    \<and> (\<forall>sc\<in>set scans. sq_ticket_id sc \<in> tk_id ` set (tickets d) \<longrightarrow> scan_known (sq_ticket_id sc) dev (sq_scanned_at sc) d')"
proof (induction scans arbitrary: d outs t dv a)
  case (Cons sc scans)
  from Cons.prems obtain d1 oc outs' where
    one: "record_scan now (sq_ticket_id sc) dev (sq_scanned_at sc) (case sq_result sc of Some r \<Rightarrow> r | None \<Rightarrow> ''ok'') d = (d1, Inr oc)"
    and rest: "sync_loop now dev scans d1 = (d', Inr outs')" by (auto split: sum.splits prod.splits)
  note kept = record_scan_kept [OF one]
  have ids: "tk_id ` set (tickets d1) = tk_id ` set (tickets d)" using kept(1) by (metis list.set_map)
  from Cons.IH [OF rest] kept ids show ?case by auto
qed simp

lemma sync_loop_again:
  "\<forall>sc\<in>set scans. sq_ticket_id sc \<in> tk_id ` set (tickets d) \<longrightarrow> scan_known (sq_ticket_id sc) dev (sq_scanned_at sc) d \<Longrightarrow>
   sync_loop now dev scans d = (d, Inr (map (\<lambda>sc. \<lparr>sn_ticket_id = sq_ticket_id sc,
     sn_status = (if sq_ticket_id sc \<in> tk_id ` set (tickets d) then ''duplicate_scan'' else ''unknown_ticket''), sn_order_status = None\<rparr>) scans))"
  by (induction scans) (auto simp: record_scan_again)

text \<open>Devices may upload their whole journal again: after a batch was accepted, sending it once more, at any later
  time, answers every scan as a duplicate (or its ticket as unknown) and changes nothing.\<close>
theorem journal_replay_is_harmless:
  assumes run: "sync_scans (Inr auth) now dev scans d = (d', Inr outcomes)"
  shows "sync_scans (Inr auth') now' dev scans d' = (d', Inr (map (\<lambda>sc. \<lparr>sn_ticket_id = sq_ticket_id sc,
     sn_status = (if sq_ticket_id sc \<in> tk_id ` set (tickets d) then ''duplicate_scan'' else ''unknown_ticket''), sn_order_status = None\<rparr>) scans))"
proof -
  from run have ok: "trim dev \<noteq> []" "\<not> length scans > 1000" "sync_loop now dev scans d = (d', Inr outcomes)"
    by (auto simp: sync_scans_def split: if_splits)
  note kept = sync_loop_kept [OF ok(3)]
  have ids: "tk_id ` set (tickets d') = tk_id ` set (tickets d)" using kept by (metis list.set_map)
  have "\<forall>sc\<in>set scans. sq_ticket_id sc \<in> tk_id ` set (tickets d') \<longrightarrow> scan_known (sq_ticket_id sc) dev (sq_scanned_at sc) d'"
    using kept ids by blast
  from sync_loop_again [OF this, of now'] ok(1,2) ids show ?thesis by (simp add: sync_scans_def)
qed

text \<open>A provider that does not sign, called with the bootstrap admin's key; a gate that uploads twice.\<close>

definition demo_callback_libs :: payment_libs where
  "demo_callback_libs = toy_libs\<lparr>pl_parse := (\<lambda>s. Some JNull),
     pl_pointer := (\<lambda>_ ptr. Some (JString (if ptr = ''/type'' then ''payment_intent.succeeded'' else ''pi_1'')))\<rparr>"

definition demo_unsigned_provider :: http_provider where
  "demo_unsigned_provider = toy_provider\<lparr>hp_config := (hp_config toy_provider)\<lparr>pr_webhook := stripe_webhook\<lparr>wh_signature_header := None\<rparr>\<rparr>\<rparr>"

definition demo_ids :: "nat \<Rightarrow> uuid" where
  "demo_ids n = Uuid (of_nat (2000 + n))"

definition demo_webhook :: "db \<times> (api_error + webhook_response)" where
  "demo_webhook = payment_webhook (http_adapter demo_callback_libs (\<lambda>_. None) 0 demo_unsigned_provider) toy_security (cr_keys demo_credentials)
     toy_wire (Inr None) 2 demo_ids [(''x-api-key'', ''llk_boot'')] ''{}'' sample_pending"

theorem webhook_moves_money_on_proof_witness:
  "snd demo_webhook = Inr \<lparr>wr_order_status = Some Paid, wr_applied = True\<rparr>
   \<and> (\<exists>key. raw_credential [(''x-api-key'', ''llk_boot'')] = Some key \<and> is_prefix ''llk_'' key
      \<and> list_ex (\<lambda>r. ky_active r \<and> ky_hash r = sl_sha256 toy_security key \<and> ky_role r \<in> {''integration'', ''operator_admin''}) (cr_keys demo_credentials))"
proof -
  have r: "snd demo_webhook = Inr \<lparr>wr_order_status = Some Paid, wr_applied = True\<rparr>" by code_simp
  have "map ord_status (orders (fst demo_webhook)) = [''paid'']" "map ord_status (orders sample_pending) = [''pending_payment'']" by code_simp+
  then have moved: "fst demo_webhook \<noteq> sample_pending" by auto
  have run: "payment_webhook (http_adapter demo_callback_libs (\<lambda>_. None) 0 demo_unsigned_provider) toy_security (cr_keys demo_credentials)
     toy_wire (Inr None) 2 demo_ids [(''x-api-key'', ''llk_boot'')] ''{}'' sample_pending = (fst demo_webhook, snd demo_webhook)"
    unfolding demo_webhook_def by (rule prod.collapse [symmetric])
  have "\<not> authenticates_callbacks demo_unsigned_provider"
    by (simp add: authenticates_callbacks_def demo_unsigned_provider_def)
  note proof_of = webhook_moves_money_on_proof [OF run moved, unfolded if_not_P [OF this]]
  show ?thesis by (rule conjI [OF r proof_of])
qed

definition demo_journal :: "scan_request list" where
  "demo_journal = [\<lparr>sq_ticket_id = Uuid 2000, sq_scanned_at = 5, sq_result = None\<rparr>, \<lparr>sq_ticket_id = Uuid 9, sq_scanned_at = 6, sq_result = Some ''expired''\<rparr>]"

theorem journal_replay_is_harmless_witness:
  "case sync_scans (Inr \<lparr>ka_key_id = Uuid 2, ka_role = Validator\<rparr>) 7 ''gate'' demo_journal sample_ticketed of
     (_, Inl _) \<Rightarrow> False
   | (d', Inr outcomes) \<Rightarrow> map sn_status outcomes = [''boarded'', ''unknown_ticket'']
       \<and> sync_scans (Inr \<lparr>ka_key_id = Uuid 2, ka_role = Validator\<rparr>) 8 ''gate'' demo_journal d' = (d', Inr
          [\<lparr>sn_ticket_id = Uuid 2000, sn_status = ''duplicate_scan'', sn_order_status = None\<rparr>,
           \<lparr>sn_ticket_id = Uuid 9, sn_status = ''unknown_ticket'', sn_order_status = None\<rparr>])"
proof -
  let ?run = "sync_scans (Inr \<lparr>ka_key_id = Uuid 2, ka_role = Validator\<rparr>) 7 ''gate'' demo_journal sample_ticketed"
  have "map_sum id (map sn_status) (snd ?run) = Inr [''boarded'', ''unknown_ticket'']" by code_simp
  then obtain d' outs where run: "?run = (d', Inr outs)" "map sn_status outs = [''boarded'', ''unknown_ticket'']"
    by (cases ?run; cases "snd ?run") auto
  have "List.member (map tk_id (tickets sample_ticketed)) (Uuid 2000)" "\<not> List.member (map tk_id (tickets sample_ticketed)) (Uuid 9)"
    by code_simp+
  then have known: "Uuid 2000 \<in> tk_id ` set (tickets sample_ticketed)" "Uuid 9 \<notin> tk_id ` set (tickets sample_ticketed)"
    unfolding List.member_iff list.set_map .
  note again = journal_replay_is_harmless [OF run(1), of "\<lparr>ka_key_id = Uuid 2, ka_role = Validator\<rparr>" 8]
  have answers: "map (\<lambda>sc. \<lparr>sn_ticket_id = sq_ticket_id sc, sn_status = (if sq_ticket_id sc \<in> tk_id ` set (tickets sample_ticketed)
      then ''duplicate_scan'' else ''unknown_ticket''), sn_order_status = None\<rparr>) demo_journal
    = [\<lparr>sn_ticket_id = Uuid 2000, sn_status = ''duplicate_scan'', sn_order_status = None\<rparr>,
       \<lparr>sn_ticket_id = Uuid 9, sn_status = ''unknown_ticket'', sn_order_status = None\<rparr>]"
    unfolding demo_journal_def by (simp only: list.map scan_request.simps known if_True if_False)
  show ?thesis unfolding run(1) prod.case sum.case by (rule conjI [OF run(2) again [unfolded answers]])
qed

end
