(* ===== verification/Webhooks.thy ===== *)
theory Webhooks
  imports Events Payments Api_Error
begin

text \<open>
  The operator's webhooks: \<open>crates/lulan-engine/src/webhooks/mod.rs\<close> (signature, fan-out of outbox events into
  the delivery queue, one pass of the delivery worker) and \<open>crates/lulan-api/src/webhooks_admin.rs\<close> (the
  endpoints' administration; the audit log is not modelled). The HTTP client is the argument \<open>send\<close>, asked with
  the delivery's id and the request, \<open>body_of\<close> is the JSON text of the event's body, and \<open>locked\<close> tells the rows
  another worker holds (\<open>SKIP LOCKED\<close>). A pass is one transaction, and only passes that commit are modelled.
\<close>

section \<open>The signature header\<close>

definition lulan_signature :: "payment_libs \<Rightarrow> string \<Rightarrow> int \<Rightarrow> string \<Rightarrow> string" where
  "lulan_signature libs secret ts body =
     ''t='' @ int_text ts @ '',v1='' @ hex_text (pl_hmac libs Sha256 secret (int_text ts @ ''.'' @ body))"

definition read_signature_part :: "string \<Rightarrow> int option \<times> string option \<Rightarrow> int option \<times> string option" where
  "read_signature_part part = (\<lambda>(ts, sig).
    (case split_once (CHR ''='') part of
       None \<Rightarrow> (ts, sig)
     | Some (k, v) \<Rightarrow> if k = ''t'' then (parse_i64 v, sig) else if k = ''v1'' then (ts, Some v) else (ts, sig)))"

definition verify_lulan_signature :: "payment_libs \<Rightarrow> string \<Rightarrow> string \<Rightarrow> string \<Rightarrow> bool" where
  "verify_lulan_signature libs secret header body =
    (case fold read_signature_part (split_on (CHR '','') header) (None, None) of
       (Some ts, Some sig) \<Rightarrow>
         constant_time_eq (lulan_signature libs secret ts body) (''t='' @ int_text ts @ '',v1='' @ sig)
     | _ \<Rightarrow> False)"

section \<open>Endpoints\<close>

record endpoint_row =
  we_id :: uuid
  we_url :: string
  we_secret :: string
  we_event_types :: "string list"
  we_active :: bool
  we_created_at :: instant

record delivery_row =
  wd_id :: nat
  wd_endpoint :: uuid
  wd_sequence :: nat
  wd_status :: string
  wd_attempts :: int
  wd_next_attempt_at :: instant
  wd_last_error :: "string option"
  wd_delivered_at :: "instant option"

record hooks =
  hk_endpoints :: "endpoint_row list"
  hk_deliveries :: "delivery_row list"

record endpoint_view =
  wv_id :: uuid
  wv_url :: string
  wv_event_types :: "string list"
  wv_active :: bool
  wv_secret :: "string option"

text \<open>The handlers' \<open>admin\<close> argument is the guard's answer; \<open>id\<close> and the two halves of the secret are fresh UUIDs.\<close>

definition create_webhook :: "api_error + unit \<Rightarrow> instant \<Rightarrow> uuid \<Rightarrow> string \<Rightarrow> string \<Rightarrow> string list \<Rightarrow> hooks \<Rightarrow>
    hooks \<times> (api_error + endpoint_view)" where
  "create_webhook admin now new_id random url event_types s =
    (case admin of Inl e \<Rightarrow> (s, Inl e)
     | Inr _ \<Rightarrow>
         if \<not> is_prefix ''http://'' url \<and> \<not> is_prefix ''https://'' url then (s, Inl BadRequest)
         else
           let secret = ''whsec_'' @ random in
           (case insert_unique we_id \<lparr>we_id = new_id, we_url = url, we_secret = secret, we_event_types = event_types,
               we_active = True, we_created_at = now\<rparr> (hk_endpoints s) of
              None \<Rightarrow> (s, Inl Internal)
            | Some rows \<Rightarrow> (s\<lparr>hk_endpoints := rows\<rparr>,
                Inr \<lparr>wv_id = new_id, wv_url = url, wv_event_types = event_types, wv_active = True, wv_secret = Some secret\<rparr>)))"

definition list_webhooks :: "api_error + unit \<Rightarrow> hooks \<Rightarrow> api_error + endpoint_view list" where
  "list_webhooks admin s = and_then admin (\<lambda>_. Inr (map (\<lambda>w. \<lparr>wv_id = we_id w, wv_url = we_url w,
     wv_event_types = we_event_types w, wv_active = we_active w, wv_secret = None\<rparr>) (sort_key we_created_at (hk_endpoints s))))"

definition remove_webhook :: "api_error + unit \<Rightarrow> uuid \<Rightarrow> hooks \<Rightarrow> hooks \<times> (api_error + uuid)" where
  "remove_webhook admin i s =
    (case admin of Inl e \<Rightarrow> (s, Inl e)
     | Inr _ \<Rightarrow>
         if count_where (\<lambda>w. we_id w = i) (hk_endpoints s) = 0 then (s, Inl ApiNotFound)
         else (s\<lparr>hk_endpoints := update_where (\<lambda>w. we_id w = i) (\<lambda>w. w\<lparr>we_active := False\<rparr>) (hk_endpoints s)\<rparr>, Inr i))"

section \<open>Fanning an event out\<close>

definition wants :: "string \<Rightarrow> endpoint_row \<Rightarrow> bool" where
  "wants event_type w \<longleftrightarrow> we_active w \<and> (we_event_types w = [] \<or> List.member (we_event_types w) event_type)"

definition enqueue :: "instant \<Rightarrow> nat \<Rightarrow> endpoint_row \<Rightarrow> delivery_row list \<Rightarrow> delivery_row list" where
  "enqueue now sequence w rows =
    (case insert_unique (\<lambda>r. (wd_endpoint r, wd_sequence r))
        \<lparr>wd_id = Suc (length rows), wd_endpoint = we_id w, wd_sequence = sequence, wd_status = ''pending'', wd_attempts = 0,
         wd_next_attempt_at = now, wd_last_error = None, wd_delivered_at = None\<rparr> rows of
       None \<Rightarrow> rows | Some rows' \<Rightarrow> rows')"

definition sink_deliver :: "instant \<Rightarrow> event_row \<Rightarrow> hooks \<Rightarrow> hooks" where
  "sink_deliver now event s = s\<lparr>hk_deliveries :=
     fold (enqueue now (ev_sequence event)) (filter (wants (ev_type event)) (hk_endpoints s)) (hk_deliveries s)\<rparr>"

section \<open>One pass of the worker\<close>

definition MAX_ATTEMPTS :: int where "MAX_ATTEMPTS = 8"
definition BASE_BACKOFF_SECS :: int where "BASE_BACKOFF_SECS = 2"

record webhook_post =
  wp_delivery :: nat
  wp_endpoint :: uuid
  wp_sequence :: nat
  wp_url :: string
  wp_signature :: string
  wp_body :: string

record delivery_stats =
  ds_delivered :: nat
  ds_retried :: nat
  ds_exhausted :: nat

text \<open>What the client answers: its error's text, or the status code and its printed form.\<close>

type_synonym webhook_client = "nat \<Rightarrow> webhook_post \<Rightarrow> string + nat \<times> string"

definition due_rows :: "(nat \<Rightarrow> bool) \<Rightarrow> instant \<Rightarrow> event_row list \<Rightarrow> hooks \<Rightarrow> (delivery_row \<times> endpoint_row \<times> event_row) list" where
  "due_rows locked now log s =
     [(d, w, e). d \<leftarrow> filter (\<lambda>d. wd_status d = ''pending'' \<and> wd_next_attempt_at d \<le> now \<and> \<not> locked (wd_id d)) (hk_deliveries s),
        w \<leftarrow> filter (\<lambda>w. we_id w = wd_endpoint d \<and> we_active w) (hk_endpoints s),
        e \<leftarrow> filter (\<lambda>e. ev_sequence e = wd_sequence d) log]"

definition due_batch :: "(nat \<Rightarrow> bool) \<Rightarrow> instant \<Rightarrow> event_row list \<Rightarrow> hooks \<Rightarrow> (delivery_row \<times> endpoint_row \<times> event_row) list" where
  "due_batch locked now log s = take 20 (sort_key (\<lambda>x. wd_next_attempt_at (fst x)) (due_rows locked now log s))"

definition webhook_request :: "payment_libs \<Rightarrow> (event_row \<Rightarrow> string) \<Rightarrow> int \<Rightarrow> delivery_row \<times> endpoint_row \<times> event_row \<Rightarrow> webhook_post" where
  "webhook_request libs body_of unix_time = (\<lambda>(d, w, e).
     \<lparr>wp_delivery = wd_id d, wp_endpoint = we_id w, wp_sequence = ev_sequence e, wp_url = we_url w,
      wp_signature = lulan_signature libs (we_secret w) unix_time (body_of e), wp_body = body_of e\<rparr>)"

definition accepted :: "string + nat \<times> string \<Rightarrow> bool" where
  "accepted outcome = (case outcome of Inr (status, _) \<Rightarrow> 200 \<le> status \<and> status < 300 | Inl _ \<Rightarrow> False)"

definition outcome_error :: "string + nat \<times> string \<Rightarrow> string" where
  "outcome_error outcome = (case outcome of Inr (_, shown) \<Rightarrow> ''HTTP '' @ shown | Inl err \<Rightarrow> err)"

definition settle_attempt :: "instant \<Rightarrow> string + nat \<times> string \<Rightarrow> int \<Rightarrow> delivery_row \<Rightarrow> delivery_row" where
  "settle_attempt now outcome attempts r =
    (if accepted outcome
     then r\<lparr>wd_status := ''delivered'', wd_attempts := i32 (wd_attempts r + 1), wd_delivered_at := Some now\<rparr>
     else
       let next_attempt = i32 (attempts + 1) in
       if next_attempt \<ge> MAX_ATTEMPTS
       then r\<lparr>wd_status := ''failed'', wd_attempts := next_attempt, wd_last_error := Some (outcome_error outcome)\<rparr>
       else r\<lparr>wd_attempts := next_attempt, wd_last_error := Some (outcome_error outcome),
              wd_next_attempt_at := now + seconds (push_bit (nat (min next_attempt 8)) BASE_BACKOFF_SECS)\<rparr>)"

definition count_attempt :: "string + nat \<times> string \<Rightarrow> int \<Rightarrow> delivery_stats \<Rightarrow> delivery_stats" where
  "count_attempt outcome attempts st =
    (if accepted outcome then st\<lparr>ds_delivered := Suc (ds_delivered st)\<rparr>
     else if i32 (attempts + 1) \<ge> MAX_ATTEMPTS then st\<lparr>ds_exhausted := Suc (ds_exhausted st)\<rparr>
     else st\<lparr>ds_retried := Suc (ds_retried st)\<rparr>)"

fun deliver_loop :: "payment_libs \<Rightarrow> (event_row \<Rightarrow> string) \<Rightarrow> webhook_client \<Rightarrow> (nat \<Rightarrow> int) \<Rightarrow> instant \<Rightarrow>
    (delivery_row \<times> endpoint_row \<times> event_row) list \<Rightarrow> delivery_row list \<Rightarrow> delivery_stats \<Rightarrow>
    delivery_row list \<times> delivery_stats \<times> webhook_post list" where
  "deliver_loop libs body_of send unix now [] rows st = (rows, st, [])"
| "deliver_loop libs body_of send unix now (row # rest) rows st =
    (let i = wd_id (fst row);
         request = webhook_request libs body_of (unix i) row;
         outcome = send i request;
         attempts = wd_attempts (fst row)
     in case deliver_loop libs body_of send unix now rest
          (update_where (\<lambda>r. wd_id r = i) (settle_attempt now outcome attempts) rows) (count_attempt outcome attempts st) of
        (rows', st', posts) \<Rightarrow> (rows', st', request # posts))"

definition deliver_due :: "payment_libs \<Rightarrow> (event_row \<Rightarrow> string) \<Rightarrow> webhook_client \<Rightarrow> (nat \<Rightarrow> int) \<Rightarrow> (nat \<Rightarrow> bool) \<Rightarrow> instant \<Rightarrow>
    event_row list \<Rightarrow> hooks \<Rightarrow> hooks \<times> delivery_stats \<times> webhook_post list" where
  "deliver_due libs body_of send unix locked now log s =
    (case deliver_loop libs body_of send unix now (due_batch locked now log s) (hk_deliveries s)
        \<lparr>ds_delivered = 0, ds_retried = 0, ds_exhausted = 0\<rparr> of
       (rows, stats, posts) \<Rightarrow> (s\<lparr>hk_deliveries := rows\<rparr>, stats, posts))"

end
