(* ===== verification/Webhook_Properties.thy ===== *)
theory Webhook_Properties
  imports Webhooks
begin

text \<open>
  The webhook pipeline end to end: commits append events, the relay fans them out, the worker posts them,
  endpoints come and go. The relay's queue writes are their own transactions, so a relay pass that dies after
  some events has queued deliveries without marking the outbox: it will offer those events again.
\<close>

datatype hub_action =
    Commit uuid string event_payload instant
  | Relay instant "nat option"
  | Pass webhook_client "nat \<Rightarrow> int" "nat \<Rightarrow> bool" instant
  | AddHook instant uuid string string "string list"
  | RemoveHook uuid

definition relay_webhooks :: "instant \<Rightarrow> nat option \<Rightarrow> db \<times> hooks \<Rightarrow> db \<times> hooks" where
  "relay_webhooks now dies = (\<lambda>(d, s).
    (let batch = (case dies of Some n \<Rightarrow> take n (relay_batch d) | None \<Rightarrow> relay_batch d)
     in (if dies = None then fst (relay_once (\<lambda>_. True) now d) else d, fold (\<lambda>(_, e). sink_deliver now e) batch s)))"

fun hub_exec :: "payment_libs \<Rightarrow> (event_row \<Rightarrow> string) \<Rightarrow> hub_action \<Rightarrow> db \<times> hooks \<Rightarrow> (db \<times> hooks) \<times> webhook_post list" where
  "hub_exec libs body_of (Commit sid ty p now) (d, s) = ((events_append sid ty p now d, s), [])"
| "hub_exec libs body_of (Relay now dies) (d, s) = (relay_webhooks now dies (d, s), [])"
| "hub_exec libs body_of (Pass send unix locked now) (d, s) =
     (case deliver_due libs body_of send unix locked now (events d) s of (s', _, posts) \<Rightarrow> ((d, s'), posts))"
| "hub_exec libs body_of (AddHook now i random url types) (d, s) = ((d, fst (create_webhook (Inr ()) now i random url types s)), [])"
| "hub_exec libs body_of (RemoveHook i) (d, s) = ((d, fst (remove_webhook (Inr ()) i s)), [])"

fun hub_run :: "payment_libs \<Rightarrow> (event_row \<Rightarrow> string) \<Rightarrow> hub_action list \<Rightarrow> db \<times> hooks \<Rightarrow> (db \<times> hooks) \<times> webhook_post list" where
  "hub_run libs body_of [] x = (x, [])"
| "hub_run libs body_of (a # as) x =
     (case hub_exec libs body_of a x of (y, posts) \<Rightarrow>
       (case hub_run libs body_of as y of (z, posts') \<Rightarrow> (z, posts @ posts')))"

definition no_hooks :: hooks where "no_hooks = \<lparr>hk_endpoints = [], hk_deliveries = []\<rparr>"

section \<open>The queue's invariant\<close>

definition sent_count :: "nat \<Rightarrow> webhook_post list \<Rightarrow> int" where
  "sent_count i posts = int (length (filter (\<lambda>p. wp_delivery p = i) posts))"

definition delivery_ok :: "delivery_row \<Rightarrow> bool" where
  "delivery_ok r \<longleftrightarrow> 0 \<le> wd_attempts r \<and> wd_attempts r \<le> 8 \<and> (wd_status r = ''pending'' \<longrightarrow> wd_attempts r < 8)"

definition rows_ok :: "delivery_row list \<Rightarrow> webhook_post list \<Rightarrow> bool" where
  "rows_ok rows posts \<longleftrightarrow> map wd_id rows = [1..<Suc (length rows)] \<and> distinct (map (\<lambda>r. (wd_endpoint r, wd_sequence r)) rows)
     \<and> (\<forall>r\<in>set rows. delivery_ok r \<and> wd_attempts r = sent_count (wd_id r) posts)
     \<and> (\<forall>p\<in>set posts. \<exists>r\<in>set rows. wd_id r = wp_delivery p \<and> wd_endpoint r = wp_endpoint p \<and> wd_sequence r = wp_sequence p)"

definition hub_ok :: "db \<times> hooks \<Rightarrow> webhook_post list \<Rightarrow> bool" where
  "hub_ok = (\<lambda>(d, s) posts. log_ok d \<and> distinct (map we_id (hk_endpoints s)) \<and> rows_ok (hk_deliveries s) posts)"

definition budget :: "delivery_row list \<Rightarrow> nat" where
  "budget rows = sum_list (map (\<lambda>r. if wd_status r = ''pending'' then nat (MAX_ATTEMPTS - wd_attempts r) else 0) rows)"

lemma sent_count_simps [simp]: "sent_count i [] = 0" "sent_count i (p # posts) = (if wp_delivery p = i then 1 else 0) + sent_count i posts"
  "sent_count i (posts @ posts') = sent_count i posts + sent_count i posts'"
  by (simp_all add: sent_count_def)

lemma sent_count_none: "\<forall>p\<in>set posts. wp_delivery p < i \<Longrightarrow> sent_count i posts = 0"
  by (auto simp: sent_count_def filter_empty_conv)

lemma rows_ok_ids: "rows_ok rows posts \<Longrightarrow> distinct (map wd_id rows)"
  by (metis distinct_upt rows_ok_def)

lemma rows_ok_bound: "rows_ok rows posts \<Longrightarrow> p \<in> set posts \<Longrightarrow> wp_delivery p < Suc (length rows)"
proof -
  assume ok: "rows_ok rows posts" and p: "p \<in> set posts"
  then obtain r where r: "r \<in> set rows" "wd_id r = wp_delivery p" by (auto simp: rows_ok_def)
  then have "wp_delivery p \<in> set (map wd_id rows)" by (simp add: image_iff bexI [of _ r])
  with ok show ?thesis by (auto simp: rows_ok_def)
qed

lemma enqueue_ok: "rows_ok rows posts \<Longrightarrow> rows_ok (enqueue now q w rows) posts"
proof -
  assume ok: "rows_ok rows posts"
  have "sent_count (Suc (length rows)) posts = 0"
    using rows_ok_bound [OF ok] by (intro sent_count_none) auto
  with ok show ?thesis
    by (auto simp: enqueue_def insert_unique_def rows_ok_def delivery_ok_def)
qed

lemma sink_deliver_ok:
  "rows_ok (hk_deliveries s) posts \<Longrightarrow> rows_ok (hk_deliveries (sink_deliver now e s)) posts"
  "hk_endpoints (sink_deliver now e s) = hk_endpoints s"
proof -
  have "rows_ok rows posts \<Longrightarrow> rows_ok (fold (enqueue now q) ws rows) posts" for q ws rows
    by (induction ws arbitrary: rows) (simp_all add: enqueue_ok)
  then show "rows_ok (hk_deliveries s) posts \<Longrightarrow> rows_ok (hk_deliveries (sink_deliver now e s)) posts"
    by (simp add: sink_deliver_def)
qed (simp add: sink_deliver_def)

lemma fan_out_ok:
  "rows_ok (hk_deliveries s) posts \<Longrightarrow> rows_ok (hk_deliveries (fold (\<lambda>(_, e). sink_deliver now e) batch s)) posts
    \<and> hk_endpoints (fold (\<lambda>(_, e). sink_deliver now e) batch s) = hk_endpoints s"
  by (induction batch arbitrary: s) (auto simp: sink_deliver_ok)

section \<open>One attempt\<close>

lemma settle_attempt_same [simp]:
  "wd_id (settle_attempt now out a r) = wd_id r" "wd_endpoint (settle_attempt now out a r) = wd_endpoint r"
  "wd_sequence (settle_attempt now out a r) = wd_sequence r"
  by (simp_all add: settle_attempt_def Let_def)

lemma settle_attempt_counts:
  assumes "delivery_ok r" "wd_status r = ''pending''" "a = wd_attempts r"
  shows "delivery_ok (settle_attempt now out a r)" "wd_attempts (settle_attempt now out a r) = wd_attempts r + 1"
    and "budget [settle_attempt now out a r] + 1 \<le> budget [r]"
proof -
  have "i32 (wd_attempts r + 1) = wd_attempts r + 1" using assms by (intro i32_id) (auto simp: delivery_ok_def in_i32_def)
  with assms show "delivery_ok (settle_attempt now out a r)" "wd_attempts (settle_attempt now out a r) = wd_attempts r + 1"
      "budget [settle_attempt now out a r] + 1 \<le> budget [r]"
    by (auto simp: settle_attempt_def delivery_ok_def budget_def MAX_ATTEMPTS_def Let_def)
qed

lemma budget_update:
  assumes "distinct (map wd_id rows)" "r \<in> set rows"
  shows "budget (update_where (\<lambda>x. wd_id x = wd_id r) f rows) + budget [r] = budget rows + budget [f r]"
  using assms
proof (induction rows)
  case (Cons x rows)
  show ?case
  proof (cases "x = r")
    case True
    with Cons.prems have "\<And>y. y \<in> set rows \<Longrightarrow> wd_id y \<noteq> wd_id r" by (auto simp: image_iff)
    then have "update_where (\<lambda>x. wd_id x = wd_id r) f rows = rows" by (rule update_where_none)
    with True show ?thesis by (simp add: budget_def)
  next
    case False
    with Cons.prems have "wd_id x \<noteq> wd_id r" by (auto simp: image_iff)
    with Cons False show ?thesis by (simp add: budget_def)
  qed
qed simp

lemma attempt_ok:
  fixes now :: instant and out :: "string + nat \<times> string"
  assumes ok: "rows_ok rows posts" and r: "r \<in> set rows" "wd_status r = ''pending''"
    and p: "wp_delivery p = wd_id r" "wp_endpoint p = wd_endpoint r" "wp_sequence p = wd_sequence r"
  defines "rows' \<equiv> update_where (\<lambda>x. wd_id x = wd_id r) (settle_attempt now out (wd_attempts r)) rows"
  shows "rows_ok rows' (posts @ [p])" "budget rows' + 1 \<le> budget rows"
proof -
  have ids: "distinct (map wd_id rows)" by (rule rows_ok_ids [OF ok])
  then have same: "x = r" if "x \<in> set rows" "wd_id x = wd_id r" for x
    using that r(1) distinct_key_eq by metis
  have rok: "delivery_ok r" using ok r by (simp add: rows_ok_def)
  note cnt = settle_attempt_counts [OF rok r(2) refl, of now out]
  have "map wd_id rows' = map wd_id rows" "map (\<lambda>r. (wd_endpoint r, wd_sequence r)) rows' = map (\<lambda>r. (wd_endpoint r, wd_sequence r)) rows"
    unfolding rows'_def by (rule map_update_where; simp)+
  moreover have "delivery_ok x' \<and> wd_attempts x' = sent_count (wd_id x') (posts @ [p])" if "x' \<in> set rows'" for x'
  proof -
    from that obtain x where x: "x \<in> set rows" "x' = (if wd_id x = wd_id r then settle_attempt now out (wd_attempts r) x else x)"
      by (auto simp: rows'_def update_where_def)
    with ok have "delivery_ok x" "wd_attempts x = sent_count (wd_id x) posts" by (auto simp: rows_ok_def)
    with x same [OF x(1)] cnt p(1) show ?thesis by (cases "wd_id x = wd_id r") auto
  qed
  moreover have "\<exists>x'\<in>set rows'. wd_id x' = wd_id x \<and> wd_endpoint x' = wd_endpoint x \<and> wd_sequence x' = wd_sequence x" if "x \<in> set rows" for x
    using imageI [OF that, of "\<lambda>x. if wd_id x = wd_id r then settle_attempt now out (wd_attempts r) x else x"]
    by (intro bexI [of _ "if wd_id x = wd_id r then settle_attempt now out (wd_attempts r) x else x"]) (simp_all add: rows'_def update_where_def)
  moreover have "length rows' = length rows" by (simp add: rows'_def)
  ultimately show "rows_ok rows' (posts @ [p])"
    using ok r(1) p unfolding rows_ok_def by (auto; metis)
  show "budget rows' + 1 \<le> budget rows"
    using budget_update [OF ids r(1), of "settle_attempt now out (wd_attempts r)"] cnt(3) by (simp add: rows'_def)
qed

section \<open>One pass\<close>

definition due_ok :: "delivery_row list \<Rightarrow> (delivery_row \<times> endpoint_row \<times> event_row) list \<Rightarrow> bool" where
  "due_ok rows batch \<longleftrightarrow> distinct (map (\<lambda>x. wd_id (fst x)) batch)
     \<and> (\<forall>(r, w, e)\<in>set batch. r \<in> set rows \<and> wd_status r = ''pending'' \<and> we_id w = wd_endpoint r \<and> ev_sequence e = wd_sequence r)"

lemma deliver_loop_ok:
  "due_ok rows batch \<Longrightarrow> rows_ok rows posts \<Longrightarrow> deliver_loop libs body_of send unix now batch rows st = (rows', st', new) \<Longrightarrow>
   rows_ok rows' (posts @ new) \<and> budget rows' + length new \<le> budget rows"
proof (induction batch arbitrary: rows posts st new)
  case (Cons x batch)
  obtain r w e where x: "x = (r, w, e)" by (cases x) auto
  let ?p = "webhook_request libs body_of (unix (wd_id r)) x"
  let ?rows = "update_where (\<lambda>y. wd_id y = wd_id r) (settle_attempt now (send (wd_id r) ?p) (wd_attempts r)) rows"
  from Cons.prems(3) obtain st1 new' where rest: "deliver_loop libs body_of send unix now batch ?rows st1 = (rows', st', new')" "new = ?p # new'"
    by (auto simp: x Let_def split: prod.splits)
  from Cons.prems(1) have r: "r \<in> set rows" "wd_status r = ''pending''" "we_id w = wd_endpoint r" "ev_sequence e = wd_sequence r"
    and others: "wd_id r \<notin> (\<lambda>y. wd_id (fst y)) ` set batch" "due_ok rows batch" by (auto simp: due_ok_def x)
  have p: "wp_delivery ?p = wd_id r" "wp_endpoint ?p = wd_endpoint r" "wp_sequence ?p = wd_sequence r"
    using r by (simp_all add: webhook_request_def x)
  note step = attempt_ok [OF Cons.prems(2) r(1,2) p, of now "send (wd_id r) ?p"]
  have "due_ok ?rows batch"
    using others by (force simp: due_ok_def set_update_where)
  from Cons.IH [OF this step(1) rest(1)] step(2) rest(2) show ?case by simp
qed simp

lemma at_most_one: "distinct (map key rows) \<Longrightarrow> length (filter (\<lambda>x. key x = k \<and> P x) rows) \<le> 1"
  by (induction rows) (auto simp: filter_empty_conv image_iff)

lemma distinct_join:
  assumes "distinct (map key ds)" "\<And>d. length (F d) \<le> 1" "\<And>d. length (G d) \<le> 1"
  shows "distinct (map (\<lambda>x. key (fst x)) [(d, w, e). d \<leftarrow> ds, w \<leftarrow> F d, e \<leftarrow> G d])"
  using assms(1)
proof (induction ds)
  case (Cons d ds)
  have "F d = [] \<or> (\<exists>w. F d = [w])" "G d = [] \<or> (\<exists>e. G d = [e])"
    using assms(2,3) [of d] by (cases "F d"; cases "G d"; force)+
  with Cons show ?case by (auto simp: image_iff)
qed simp

lemma distinct_sort_key: "distinct (map f (sort_key g xs)) \<longleftrightarrow> distinct (map f xs)"
  by (simp add: distinct_map)

lemma due_rows_ok:
  assumes ok: "hub_ok (d, s) posts"
  shows "due_ok (hk_deliveries s) (due_rows locked now (events d) s)"
proof -
  have "distinct (map wd_id (hk_deliveries s))" using ok by (auto simp: hub_ok_def intro: rows_ok_ids)
  then have ids: "distinct (map wd_id (filter P (hk_deliveries s)))" for P by (rule distinct_map_filter)
  have seqs: "distinct (map ev_sequence (events d))" using ok by (simp add: hub_ok_def log_ok_def)
  have eps: "distinct (map we_id (hk_endpoints s))" using ok by (simp add: hub_ok_def)
  have "distinct (map (\<lambda>x. wd_id (fst x)) (due_rows locked now (events d) s))"
    unfolding due_rows_def using at_most_one [OF seqs, where P = "\<lambda>_. True"] at_most_one [OF eps]
    by (intro distinct_join ids) simp_all
  then show ?thesis by (auto simp: due_ok_def due_rows_def)
qed

lemma due_batch_ok: "hub_ok (d, s) posts \<Longrightarrow> due_ok (hk_deliveries s) (due_batch locked now (events d) s)"
proof -
  assume "hub_ok (d, s) posts"
  then have ok: "due_ok (hk_deliveries s) (due_rows locked now (events d) s)" by (rule due_rows_ok)
  have "set (due_batch locked now (events d) s) \<subseteq> set (due_rows locked now (events d) s)"
    by (auto simp: due_batch_def dest: in_set_takeD)
  moreover have "distinct (map (\<lambda>x. wd_id (fst x)) (due_batch locked now (events d) s))"
    using ok by (simp add: due_ok_def due_batch_def take_map [symmetric] distinct_sort_key)
  ultimately show ?thesis using ok unfolding due_ok_def by blast
qed

lemma deliver_due_ok:
  assumes "hub_ok (d, s) posts" "deliver_due libs body_of send unix locked now (events d) s = (s', stats, new)"
  shows "hub_ok (d, s') (posts @ new)" "budget (hk_deliveries s') + length new \<le> budget (hk_deliveries s)"
  using assms deliver_loop_ok [OF due_batch_ok [OF assms(1)]]
  by (auto simp: deliver_due_def hub_ok_def split: prod.splits)

lemma log_ok_events: "events d' = events d \<Longrightarrow> log_ok d' \<longleftrightarrow> log_ok d"
  by (simp add: log_ok_def)

lemma relay_once_events: "events (fst (relay_once deliver now d)) = events d"
  by (simp add: relay_once_def split: prod.split)

lemma hub_exec_ok: "hub_ok x posts \<Longrightarrow> hub_exec libs body_of a x = (y, new) \<Longrightarrow> hub_ok y (posts @ new)"
proof (cases a)
  case (Pass send unix locked now)
  assume "hub_ok x posts" "hub_exec libs body_of a x = (y, new)"
  with Pass show ?thesis by (cases x) (auto split: prod.splits dest: deliver_due_ok)
next
  case (Relay now dies)
  assume ok: "hub_ok x posts" and run: "hub_exec libs body_of a x = (y, new)"
  obtain d s where x: "x = (d, s)" by fastforce
  let ?y = "relay_webhooks now dies (d, s)"
  have "events (fst ?y) = events d" by (simp add: relay_webhooks_def Let_def relay_once_events)
  from log_ok_events [OF this] have "log_ok (fst ?y)" using ok by (simp add: hub_ok_def x)
  moreover have "rows_ok (hk_deliveries (snd ?y)) posts \<and> hk_endpoints (snd ?y) = hk_endpoints s"
    using ok fan_out_ok [of s posts] unfolding hub_ok_def x relay_webhooks_def Let_def prod.case snd_conv by blast
  moreover have "y = ?y" "new = []" using run by (simp_all add: x Relay)
  ultimately show ?thesis using ok by (simp add: hub_ok_def x case_prod_beta)
qed (cases x; auto simp: hub_ok_def create_webhook_def remove_webhook_def log_ok_append Let_def map_update_where split: if_splits option.splits)+

lemma hub_run_ok: "hub_ok x posts \<Longrightarrow> hub_run libs body_of as x = (y, new) \<Longrightarrow> hub_ok y (posts @ new)"
proof (induction as arbitrary: x posts new)
  case (Cons a as)
  from Cons.prems(2) obtain x' p p' where "hub_exec libs body_of a x = (x', p)" "hub_run libs body_of as x' = (y, p')" "new = p @ p'"
    by (auto split: prod.splits)
  with Cons.IH [of x' "posts @ p" p'] hub_exec_ok [OF Cons.prems(1)] show ?case by simp
qed simp

lemma hub_ok_start: "hub_ok (empty_db, no_hooks) []"
  by (simp add: hub_ok_def no_hooks_def rows_ok_def log_ok_def empty_db_def)

section \<open>How often a receiver is called\<close>

lemma posts_of_pair:
  assumes ok: "rows_ok rows posts"
  shows "length (filter (\<lambda>p. wp_endpoint p = ep \<and> wp_sequence p = q) posts) \<le> 8"
proof (cases "\<exists>p\<in>set posts. wp_endpoint p = ep \<and> wp_sequence p = q")
  case False
  then show ?thesis by (simp add: filter_empty_conv [THEN iffD2])
next
  case True
  have row: "\<exists>r\<in>set rows. wd_id r = wp_delivery p \<and> (wd_endpoint r, wd_sequence r) = (wp_endpoint p, wp_sequence p)" if "p \<in> set posts" for p
    using ok that unfolding rows_ok_def by simp
  from True row obtain r where r: "r \<in> set rows" "(wd_endpoint r, wd_sequence r) = (ep, q)" by blast
  have "distinct (map (\<lambda>r. (wd_endpoint r, wd_sequence r)) rows)" using ok by (simp add: rows_ok_def)
  then have "wp_delivery p = wd_id r" if "p \<in> set posts" "wp_endpoint p = ep" "wp_sequence p = q" for p
    using row [OF that(1)] that(2,3) r distinct_key_eq by metis
  then have eq: "filter (\<lambda>p. wp_endpoint p = ep \<and> wp_sequence p = q) posts
      = filter (\<lambda>p. wp_endpoint p = ep \<and> wp_sequence p = q) (filter (\<lambda>p. wp_delivery p = wd_id r) posts)"
    unfolding filter_filter by (intro filter_cong) auto
  have "length (filter (\<lambda>p. wp_endpoint p = ep \<and> wp_sequence p = q) posts) \<le> length (filter (\<lambda>p. wp_delivery p = wd_id r) posts)"
    by (rule ord_eq_le_trans [OF arg_cong [where f = length, OF eq] length_filter_le])
  then have "int (length (filter (\<lambda>p. wp_endpoint p = ep \<and> wp_sequence p = q) posts)) \<le> sent_count (wd_id r) posts"
    by (simp add: sent_count_def)
  also have "\<dots> \<le> 8" using ok r(1) by (auto simp: rows_ok_def delivery_ok_def)
  finally show ?thesis by simp
qed


lemma passes_budget:
  "hub_ok x sent \<Longrightarrow> hub_run libs body_of (map (\<lambda>(send, unix, locked, now). Pass send unix locked now) passes) x = (y, posts) \<Longrightarrow>
   length posts + budget (hk_deliveries (snd y)) \<le> budget (hk_deliveries (snd x))"
proof (induction passes arbitrary: x sent posts)
  case (Cons a passes)
  obtain send unix locked now where a: "a = (send, unix, locked, now)" by (cases a) auto
  obtain d s where x: "x = (d, s)" by fastforce
  obtain s' stats new where pass: "deliver_due libs body_of send unix locked now (events d) s = (s', stats, new)" by (metis prod_cases3)
  obtain posts' where rest: "hub_run libs body_of (map (\<lambda>(send, unix, locked, now). Pass send unix locked now) passes) (d, s') = (y, posts')"
      "posts = new @ posts'"
    using Cons.prems(2) by (auto simp: a x pass split: prod.splits)
  have ok: "hub_ok (d, s) sent" using Cons.prems(1) by (simp add: x)
  from Cons.IH [OF deliver_due_ok(1) [OF ok pass] rest(1)] deliver_due_ok(2) [OF ok pass] rest(2)
  show ?case by (simp add: x)
qed simp


section \<open>Receivers that answer\<close>

definition stamp :: "instant \<Rightarrow> delivery_row \<Rightarrow> delivery_row" where
  "stamp now r = r\<lparr>wd_status := ''delivered'', wd_attempts := i32 (wd_attempts r + 1), wd_delivered_at := Some now\<rparr>"

lemma stamp_id [simp]: "wd_id (stamp now r) = wd_id r"
  by (simp add: stamp_def)

lemma update_where_join:
  "(\<And>r. key (f r) = key r) \<Longrightarrow> i \<notin> I \<Longrightarrow>
   update_where (\<lambda>r. key r \<in> I) f (update_where (\<lambda>r. key r = i) f rows) = update_where (\<lambda>r. key r \<in> insert i I) f rows"
  by (induction rows) auto

lemma deliver_loop_accepted:
  assumes "\<And>i p. accepted (send i p)"
  shows "distinct (map (\<lambda>x. wd_id (fst x)) batch) \<Longrightarrow> deliver_loop libs body_of send unix now batch rows st = (rows', st', posts) \<Longrightarrow>
    rows' = update_where (\<lambda>r. wd_id r \<in> (\<lambda>x. wd_id (fst x)) ` set batch) (stamp now) rows \<and> ds_delivered st' = ds_delivered st + length batch"
proof (induction batch arbitrary: rows st posts)
  case (Cons x batch)
  have "settle_attempt now (send i p) a = stamp now" for i p a using assms by (intro ext) (simp add: settle_attempt_def stamp_def)
  moreover have "count_attempt (send i p) a st = st\<lparr>ds_delivered := Suc (ds_delivered st)\<rparr>" for i p a
    using assms by (simp add: count_attempt_def)
  ultimately obtain posts' where "deliver_loop libs body_of send unix now batch (update_where (\<lambda>r. wd_id r = wd_id (fst x)) (stamp now) rows)
      (st\<lparr>ds_delivered := Suc (ds_delivered st)\<rparr>) = (rows', st', posts')"
    using Cons.prems(2) by (auto simp: Let_def split: prod.splits)
  from Cons.IH [OF _ this] Cons.prems(1) update_where_join [of wd_id "stamp now" "wd_id (fst x)" "(\<lambda>x. wd_id (fst x)) ` set batch" rows]
  show ?case by simp
qed (simp add: update_where_none)

lemma filter_join: "[(d, w, e). d \<leftarrow> filter Q ds, w \<leftarrow> F d, e \<leftarrow> G d] = filter (\<lambda>x. Q (fst x)) [(d, w, e). d \<leftarrow> ds, w \<leftarrow> F d, e \<leftarrow> G d]"
proof (induction ds)
  case (Cons d ds)
  have "filter (\<lambda>x. Q (fst x)) [(d, w, e). w \<leftarrow> F d, e \<leftarrow> G d] = (if Q d then [(d, w, e). w \<leftarrow> F d, e \<leftarrow> G d] else [])"
    by (auto simp: filter_concat filter_map comp_def)
  with Cons show ?case by simp
qed simp

lemma filter_update_gone:
  "(\<And>r. Q r \<Longrightarrow> \<not> P (f r)) \<Longrightarrow> filter P (update_where Q f rows) = filter (\<lambda>r. \<not> Q r) (filter P rows)"
  by (induction rows) auto

lemma due_rows_stamped:
  "due_rows locked now log (s\<lparr>hk_deliveries := update_where (\<lambda>r. wd_id r \<in> I) (stamp now') (hk_deliveries s)\<rparr>)
    = filter (\<lambda>x. wd_id (fst x) \<notin> I) (due_rows locked now log s)"
  unfolding due_rows_def by (simp add: filter_update_gone stamp_def filter_join [where Q = "\<lambda>r. wd_id r \<notin> I", symmetric])

lemma filter_not_taken: "distinct (map f xs) \<Longrightarrow> filter (\<lambda>x. f x \<notin> f ` set (take n xs)) xs = drop n xs"
proof -
  assume d: "distinct (map f xs)"
  have "filter (\<lambda>x. f x \<notin> f ` set (take n xs)) (take n xs @ drop n xs) = drop n xs"
  proof -
    have "distinct (map f (take n xs) @ map f (drop n xs))" using d by (metis append_take_drop_id map_append)
    then have "f x \<notin> f ` set (take n xs)" if "x \<in> set (drop n xs)" for x using that by auto
    then show ?thesis unfolding filter_append by (auto simp: filter_empty_conv filter_id_conv)
  qed
  then show ?thesis by simp
qed

lemma pass_clears:
  assumes ok: "hub_ok (d, s) sent" and all: "\<And>i p. accepted (send i p)"
    and pass: "deliver_due libs body_of send unix locked now (events d) s = (s', stats, posts)"
  shows "length (due_rows locked now (events d) s') = length (due_rows locked now (events d) s) - 20"
    and "ds_delivered stats = min 20 (length (due_rows locked now (events d) s))"
proof -
  let ?L = "due_rows locked now (events d) s"
  let ?S = "sort_key (\<lambda>x. wd_next_attempt_at (fst x)) ?L"
  let ?I = "(\<lambda>x. wd_id (fst x)) ` set (take 20 ?S)"
  have ids: "distinct (map (\<lambda>x. wd_id (fst x)) ?L)" using due_rows_ok [OF ok] by (simp add: due_ok_def)
  obtain rows where run: "deliver_loop libs body_of send unix now (take 20 ?S) (hk_deliveries s) \<lparr>ds_delivered = 0, ds_retried = 0, ds_exhausted = 0\<rparr> = (rows, stats, posts)"
    "s' = s\<lparr>hk_deliveries := rows\<rparr>"
    using pass by (auto simp: deliver_due_def due_batch_def split: prod.splits)
  have "distinct (map (\<lambda>x. wd_id (fst x)) (take 20 ?S))" using ids by (simp add: take_map [symmetric] distinct_sort_key)
  note res = deliver_loop_accepted [OF all this run(1)]
  have "due_rows locked now (events d) s' = filter (\<lambda>x. wd_id (fst x) \<notin> ?I) ?L"
    unfolding run(2) using res by (simp add: due_rows_stamped)
  then have "length (due_rows locked now (events d) s') = length (filter (\<lambda>x. wd_id (fst x) \<notin> ?I) ?S)"
    by (simp add: filter_sort)
  also have "\<dots> = length (drop 20 ?S)" using ids by (simp add: filter_not_taken distinct_sort_key)
  finally show "length (due_rows locked now (events d) s') = length ?L - 20" by simp
  show "ds_delivered stats = min 20 (length ?L)" using res by simp
qed


section \<open>The signature\<close>

lemma hex_byte_inj: "hex_byte a = hex_byte b \<Longrightarrow> a = b"
proof -
  assume h: "hex_byte a = hex_byte b"
  have lt: "unat c div 16 < 16" for c :: "8 word"
    using unsigned_less [of c] by (simp add: div_less_iff_less_mult)
  have char: "hex_char m = hex_char n \<Longrightarrow> m < 16 \<Longrightarrow> n < 16 \<Longrightarrow> m = n" for m n
    by (metis hex_digit_char option.inject)
  have "hex_char (unat a div 16) = hex_char (unat b div 16)" "hex_char (unat a mod 16) = hex_char (unat b mod 16)"
    using h unfolding hex_byte_def list.inject by blast+
  then have "unat a div 16 = unat b div 16" "unat a mod 16 = unat b mod 16"
    using char [OF _ lt lt] char [OF _ mod_less_divisor mod_less_divisor] by auto
  then have "unat a = unat b" by (metis div_mult_mod_eq)
  then show "a = b" by (rule unsigned_word_eqI)
qed

lemma hex_text_inj: "hex_text a = hex_text b \<longleftrightarrow> a = b"
proof -
  have byte: "hex_byte (word_of_nat (of_char x)) = hex_byte (word_of_nat (of_char y)) \<Longrightarrow> x = y" for x y :: char
  proof -
    have u: "unat (word_of_nat (of_char c) :: 8 word) = of_char c" for c
      using nat_of_char_less_256 [of c] by (simp add: unat_of_nat)
    assume "hex_byte (word_of_nat (of_char x)) = hex_byte (word_of_nat (of_char y))"
    then have "word_of_nat (of_char x) = (word_of_nat (of_char y) :: 8 word)" by (rule hex_byte_inj)
    then have "of_char x = (of_char y :: nat)" using u by metis
    then show "x = y" by simp
  qed
  have "hex_text a = hex_text b \<Longrightarrow> a = b" for a b
  proof (induction a arbitrary: b)
    case Nil
    then show ?case by (cases b) (simp_all add: hex_text_def hex_byte_def)
  next
    case (Cons x a)
    then obtain y b' where b: "b = y # b'" by (cases b) (simp_all add: hex_text_def hex_byte_def)
    have "length (hex_byte u) = length (hex_byte v)" for u v by (simp add: hex_byte_def)
    with Cons.prems have "hex_byte (word_of_nat (of_char x)) = hex_byte (word_of_nat (of_char y))" "hex_text a = hex_text b'"
      by (simp_all add: hex_text_def b)
    with byte Cons.IH show ?case by (simp add: b)
  qed
  then show ?thesis by blast
qed

lemma int_text_chars: "c \<in> set (int_text t) \<Longrightarrow> c = CHR ''-'' \<or> plain_char c"
  using nat_text_plain by (auto simp: int_text_def list_all_iff split: if_splits)

lemma parse_i64_int_text: "in_i64 t \<Longrightarrow> parse_i64 (int_text t) = Some t"
proof (cases "t < 0")
  case True
  assume t: "in_i64 t"
  with True show ?thesis by (simp add: int_text_def parse_i64_def digits_value_text Let_def)
next
  case False
  assume t: "in_i64 t"
  with False show ?thesis using parse_i64_text [of "nat t"] by (simp add: int_text_def in_i64_def)
qed

text \<open>A receiver that holds the secret accepts what the worker signs, and nothing signed with another secret or for
  another body: verification of a header made at \<open>t\<close> succeeds exactly when both HMACs of the timestamped body agree.\<close>
theorem webhook_signature_verifies:
  assumes "in_i64 t"
  shows "verify_lulan_signature libs secret (lulan_signature libs secret' t body') body
    \<longleftrightarrow> pl_hmac libs Sha256 secret (int_text t @ ''.'' @ body) = pl_hmac libs Sha256 secret' (int_text t @ ''.'' @ body')"
proof -
  let ?mac = "hex_text (pl_hmac libs Sha256 secret' (int_text t @ ''.'' @ body'))"
  have "CHR '','' \<notin> set (int_text t)" using int_text_chars [of "CHR '',''" t] by (auto simp: plain_char_def)
  moreover have "CHR '','' \<notin> set ?mac" using hex_text_plain by (auto simp: list_all_iff plain_char_def)
  ultimately have "split_on (CHR '','') (lulan_signature libs secret' t body') = [''t='' @ int_text t, ''v1='' @ ?mac]"
    using split_on_append [of "CHR '',''" "''t='' @ int_text t" "''v1='' @ ?mac"] by (simp add: lulan_signature_def split_on_none)
  then show ?thesis
    by (simp add: verify_lulan_signature_def read_signature_part_def split_once_def parse_i64_int_text [OF assms] lulan_signature_def hex_text_inj)
qed

theorem webhook_signature_verifies_witness:
  "verify_lulan_signature toy_libs ''k'' (lulan_signature toy_libs ''k'' 17 ''{}'') ''{}''
   \<and> \<not> verify_lulan_signature toy_libs ''k'' (lulan_signature toy_libs ''x'' 17 ''{}'') ''{}''"
  using webhook_signature_verifies [of 17 toy_libs "''k''" "''k''" "''{}''" "''{}''"] webhook_signature_verifies [of 17 toy_libs "''k''" "''x''" "''{}''" "''{}''"]
  by (simp add: in_i64_def toy_libs_def)

text \<open>One endpoint, one event, a relay pass that dies and is repeated, a receiver that accepts everything.\<close>

definition demo_hub_actions :: "hub_action list" where
  "demo_hub_actions = [AddHook 1 (Uuid 1) ''r'' ''https://x'' [], Commit (Uuid 7) ''created'' EmptyPayload 2, Relay 3 (Some 1), Relay 4 None]"

definition demo_hub :: "(db \<times> hooks) \<times> webhook_post list" where
  "demo_hub = hub_run toy_libs (\<lambda>_. ''{}'') demo_hub_actions (empty_db, no_hooks)"


end
