(* ===== verification/Rate_Limit.thy ===== *)
theory Rate_Limit
  imports Texts Api_Error Access
begin

text \<open>
  The per-caller rate limiter (\<open>crates/lulan-api/src/rate_limit.rs\<close>): the Lua script on a Redis sorted set, whom a
  request is charged to, and the middleware. The sorted set of a key is its members with their scores and the
  key's expiry; \<open>parse_ip\<close> is \<open>IpAddr::from_str\<close> followed by printing, SHA-256 is \<open>sl_sha256\<close>.
\<close>

section \<open>The script\<close>

record zset =
  zs_entries :: "(nat \<times> string) list"
  zs_expires_at :: "nat option"

definition zset_at :: "nat \<Rightarrow> zset \<Rightarrow> (nat \<times> string) list" where
  "zset_at clock z = (case zs_expires_at z of Some t \<Rightarrow> if t \<le> clock then [] else zs_entries z | None \<Rightarrow> zs_entries z)"

definition limit_script :: "nat \<Rightarrow> nat \<Rightarrow> nat \<Rightarrow> nat \<Rightarrow> string \<Rightarrow> zset \<Rightarrow> zset \<times> nat" where
  "limit_script clock now_ms window_ms lim member z =
    (let kept = filter (\<lambda>(score, _). \<not> int score \<le> int now_ms - int window_ms) (zset_at clock z);
         z1 = \<lparr>zs_entries = kept, zs_expires_at = (if kept = [] then None else zs_expires_at z)\<rparr>
     in if length kept \<ge> lim then (z1, 0)
        else (\<lparr>zs_entries = filter (\<lambda>(_, m). m \<noteq> member) kept @ [(now_ms, member)], zs_expires_at = Some (clock + window_ms)\<rparr>, 1))"

section \<open>Whom to charge\<close>

definition WINDOW_SECS :: nat where "WINDOW_SECS = 60"
definition DEFAULT_WRITE_LIMIT :: nat where "DEFAULT_WRITE_LIMIT = 300"
definition DEFAULT_READ_LIMIT :: nat where "DEFAULT_READ_LIMIT = 1200"

definition env_u64 :: "(string \<Rightarrow> string option) \<Rightarrow> string \<Rightarrow> nat \<Rightarrow> nat" where
  "env_u64 env key dflt = (case Option.bind (env key) parse_u64 of Some n \<Rightarrow> n | None \<Rightarrow> dflt)"

definition trusted_proxy_hops :: "(string \<Rightarrow> string option) \<Rightarrow> nat" where
  "trusted_proxy_hops env = env_u64 env ''LULAN_TRUSTED_PROXY_HOPS'' 0"

record http_request =
  rq_path :: string
  rq_method :: string
  rq_headers :: headers
  rq_peer :: "string option"

definition client_ip :: "(string \<Rightarrow> string option) \<Rightarrow> nat \<Rightarrow> http_request \<Rightarrow> string option" where
  "client_ip parse_ip hops req =
    (if hops = 0 then rq_peer req
     else
       let forwarded = (case header_str (rq_headers req) ''x-forwarded-for'' of
           Some v \<Rightarrow> map trim (split_on (CHR '','') v) | None \<Rightarrow> [])
       in case (if hops \<le> length forwarded then parse_ip (forwarded ! (length forwarded - hops)) else None) of
            Some ip \<Rightarrow> Some ip | None \<Rightarrow> rq_peer req)"

definition caller_key :: "security_libs \<Rightarrow> (string \<Rightarrow> string option) \<Rightarrow> nat \<Rightarrow> http_request \<Rightarrow> string" where
  "caller_key libs parse_ip hops req =
    (case Option.bind (case map_of (rq_headers req) ''x-api-key'' of Some v \<Rightarrow> Some v | None \<Rightarrow> map_of (rq_headers req) ''authorization'')
         (\<lambda>v. if list_all header_visible v then Some v else None) of
       Some key \<Rightarrow> ''key:'' @ concat (map hex_byte (take 4 (sl_sha256 libs key)))
     | None \<Rightarrow> (case client_ip parse_ip hops req of Some ip \<Rightarrow> ''ip:'' @ ip | None \<Rightarrow> ''ip:unknown''))"

section \<open>The middleware\<close>

definition is_read :: "http_request \<Rightarrow> bool" where
  "is_read req = List.member [''GET'', ''HEAD''] (rq_method req)"

definition bucket_limit :: "(string \<Rightarrow> string option) \<Rightarrow> bool \<Rightarrow> nat" where
  "bucket_limit env read =
    (if read then env_u64 env ''LULAN_RATE_LIMIT_READS'' DEFAULT_READ_LIMIT else env_u64 env ''LULAN_RATE_LIMIT'' DEFAULT_WRITE_LIMIT)"

definition limiter_key :: "bool \<Rightarrow> string \<Rightarrow> string" where
  "limiter_key read caller = ''rl:'' @ (if read then ''r'' else ''w'') @ '':{'' @ caller @ ''}''"

definition limiter_member :: "nat \<Rightarrow> string \<Rightarrow> string" where
  "limiter_member now_ms simple = nat_text now_ms @ ''-'' @ simple"

text \<open>
  The answer is whether the request goes on; \<open>store\<close> is \<open>None\<close> without Redis, and \<open>up\<close> tells whether Redis answers.
  Redis measures expiry on its own \<open>clock\<close>, the scores are the server's \<open>now_ms\<close>.
\<close>

definition rate_limit :: "security_libs \<Rightarrow> (string \<Rightarrow> string option) \<Rightarrow> (string \<Rightarrow> string option) \<Rightarrow> bool \<Rightarrow> nat \<Rightarrow> nat \<Rightarrow> string \<Rightarrow>
    http_request \<Rightarrow> (string \<Rightarrow> zset) option \<Rightarrow> (string \<Rightarrow> zset) option \<times> (api_error + unit)" where
  "rate_limit libs parse_ip env up clock now_ms simple req store =
    (if \<not> is_prefix ''/v1'' (rq_path req) then (store, Inr ())
     else case store of
       None \<Rightarrow> (store, Inr ())
     | Some redis \<Rightarrow>
         if \<not> up then (store, Inr ())
         else
           let key = limiter_key (is_read req) (caller_key libs parse_ip (trusted_proxy_hops env) req) in
           (case limit_script clock now_ms (WINDOW_SECS * 1000) (bucket_limit env (is_read req)) (limiter_member now_ms simple) (redis key) of
              (z, allowed) \<Rightarrow> (Some (redis(key := z)), if allowed = 0 then Inl TooManyRequests else Inr ())))"

section \<open>The window\<close>

record arrival =
  av_now_ms :: nat
  av_simple :: string
  av_request :: http_request

text \<open>A sequence of requests and which of them go on; one clock for the servers and Redis.\<close>

fun limit_run :: "security_libs \<Rightarrow> (string \<Rightarrow> string option) \<Rightarrow> (string \<Rightarrow> string option) \<Rightarrow> arrival list \<Rightarrow>
    (string \<Rightarrow> zset) option \<Rightarrow> (arrival \<times> bool) list" where
  "limit_run libs parse_ip env [] store = []"
| "limit_run libs parse_ip env (a # arrivals) store =
    (case rate_limit libs parse_ip env True (av_now_ms a) (av_now_ms a) (av_simple a) (av_request a) store of
       (store', r) \<Rightarrow> (a, r = Inr ()) # limit_run libs parse_ip env arrivals store')"

definition charged_to :: "security_libs \<Rightarrow> (string \<Rightarrow> string option) \<Rightarrow> (string \<Rightarrow> string option) \<Rightarrow> string \<Rightarrow> arrival \<Rightarrow> bool" where
  "charged_to libs parse_ip env key a \<longleftrightarrow> is_prefix ''/v1'' (rq_path (av_request a))
     \<and> limiter_key (is_read (av_request a)) (caller_key libs parse_ip (trusted_proxy_hops env) (av_request a)) = key"

text \<open>What the set of a key would still count at a later \<open>n\<close>.\<close>

definition live :: "nat \<Rightarrow> nat \<Rightarrow> zset \<Rightarrow> (nat \<times> string) list" where
  "live w n z = filter (\<lambda>(score, _). \<not> int score \<le> int n - int w) (zset_at n z)"

definition recent :: "nat \<Rightarrow> nat \<Rightarrow> (nat \<times> string) list \<Rightarrow> (nat \<times> string) list" where
  "recent w n adm = filter (\<lambda>(score, _). n < score + w) adm"

definition tracks :: "nat \<Rightarrow> nat \<Rightarrow> zset \<Rightarrow> (nat \<times> string) list \<Rightarrow> bool" where
  "tracks w since z adm \<longleftrightarrow> (\<forall>n\<ge>since. live w n z = recent w n adm) \<and> (\<forall>(score, _)\<in>set adm. score \<le> since)"

lemma recent_mono: "n \<le> n' \<Longrightarrow> recent w n' (recent w n adm) = recent w n' adm"
  by (auto simp: recent_def intro!: filter_cong)

lemma script_tracks:
  assumes tr: "tracks w since z adm" and now: "since \<le> now" and m: "member \<notin> snd ` set adm" and w: "0 < w"
    and run: "limit_script now now w lim member z = (z', allowed)"
  shows "if length (recent w now adm) < lim then allowed = 1 \<and> tracks w now z' (adm @ [(now, member)]) else allowed = 0 \<and> tracks w now z' adm"
proof -
  have kept: "filter (\<lambda>(score, _). \<not> int score \<le> int now - int w) (zset_at now z) = recent w now adm"
    using tr now by (simp add: tracks_def live_def)
  have live': "live w n z = recent w n adm" if "now \<le> n" for n using tr now that by (simp add: tracks_def)
  show ?thesis
  proof (cases "length (recent w now adm) < lim")
    case True
    have "filter (\<lambda>(_, x). x \<noteq> member) (recent w now adm) = recent w now adm"
      using m by (induction adm) (auto simp: recent_def)
    then have z': "z' = \<lparr>zs_entries = recent w now adm @ [(now, member)], zs_expires_at = Some (now + w)\<rparr>" "allowed = 1"
      using run True by (simp_all add: limit_script_def Let_def kept)
    have old: "score \<le> now" if "(score, x) \<in> set adm" for score x using tr now that by (fastforce simp: tracks_def)
    have "live w n z' = recent w n (adm @ [(now, member)])" if n: "now \<le> n" for n
    proof (cases "now + w \<le> n")
      case True
      have "\<forall>p\<in>set (adm @ [(now, member)]). \<not> n < fst p + w"
      proof
        fix p assume "p \<in> set (adm @ [(now, member)])"
        then have "fst p \<le> now" using old [of "fst p" "snd p"] by auto
        with True show "\<not> n < fst p + w" by simp
      qed
      then have "recent w n (adm @ [(now, member)]) = []" unfolding recent_def filter_empty_conv case_prod_unfold by blast
      with True show ?thesis by (simp add: live_def zset_at_def z'(1))
    next
      case False
      have "live w n z' = recent w n (recent w now adm @ [(now, member)])"
        using False by (auto simp: live_def zset_at_def z'(1) recent_def intro!: filter_cong)
      then show ?thesis using recent_mono [OF n, of w adm] by (simp add: recent_def)
    qed
    with True old z'(2) show ?thesis by (auto simp: tracks_def)
  next
    case False
    then have z': "z' = \<lparr>zs_entries = recent w now adm, zs_expires_at = (if recent w now adm = [] then None else zs_expires_at z)\<rparr>" "allowed = 0"
      using run by (simp_all add: limit_script_def Let_def kept)
    have "live w n z' = recent w n adm" if n: "now \<le> n" for n
    proof (cases "\<exists>t\<le>n. zs_expires_at z = Some t")
      case True
      then have "recent w n adm = []" using live' [OF n] by (auto simp: live_def zset_at_def)
      moreover have "live w n z' = recent w n (recent w now adm) \<or> live w n z' = []"
        using True by (auto simp: live_def zset_at_def z'(1))
      ultimately show ?thesis using recent_mono [OF n, of w adm] by auto
    next
      case False
      define kept where "kept = recent w now adm"
      have "live w n z' = recent w n kept"
        using False unfolding z'(1) kept_def [symmetric]
        by (auto simp: live_def zset_at_def recent_def intro!: filter_cong split: option.splits)
      then have "live w n z' = recent w n (recent w now adm)" by (simp add: kept_def)
      then show ?thesis using recent_mono [OF n] by simp
    qed
    with False z'(2) tr now show ?thesis by (force simp: tracks_def)
  qed
qed

text \<open>The window bound of a list of admissions.\<close>

definition spread :: "nat \<Rightarrow> nat \<Rightarrow> (nat \<times> string) list \<Rightarrow> bool" where
  "spread w lim adm \<longleftrightarrow> (\<forall>t. length (filter (\<lambda>(score, _). score \<le> t \<and> t < score + w) adm) \<le> lim)"

lemma spread_snoc:
  assumes sp: "spread w lim adm" and old: "\<forall>(score, _)\<in>set adm. score \<le> now" and room: "length (recent w now adm) < lim"
  shows "spread w lim (adm @ [(now, member)])"
  unfolding spread_def
proof (intro allI)
  fix t
  let ?in = "\<lambda>(score, _). score \<le> t \<and> t < score + w"
  show "length (filter ?in (adm @ [(now, member)])) \<le> lim"
  proof (cases "now \<le> t \<and> t < now + w")
    case True
    have eq: "filter ?in adm = filter ?in (recent w now adm)" using True by (auto simp: recent_def intro!: filter_cong)
    have "length (filter ?in adm) \<le> length (recent w now adm)" by (rule ord_eq_le_trans [OF arg_cong [where f = length, OF eq] length_filter_le])
    with True room show ?thesis by simp
  next
    case False
    with sp show ?thesis by (auto simp: spread_def)
  qed
qed

definition admission :: "arrival \<Rightarrow> nat \<times> string" where
  "admission a = (av_now_ms a, limiter_member (av_now_ms a) (av_simple a))"

lemma limiter_key_inject: "limiter_key read caller = limiter_key read' caller' \<longleftrightarrow> read = read' \<and> caller = caller'"
  by (auto simp: limiter_key_def)

lemma rate_limit_uncharged:
  assumes "\<not> charged_to libs parse_ip env key a"
  shows "\<exists>redis'. fst (rate_limit libs parse_ip env True n n simple (av_request a) (Some redis)) = Some redis' \<and> redis' key = redis key"
  using assms by (auto simp: rate_limit_def charged_to_def Let_def split: prod.split)

lemma rate_limit_charged:
  assumes ch: "charged_to libs parse_ip env (limiter_key read caller) a"
    and tr: "tracks 60000 since (redis (limiter_key read caller)) adm" "since \<le> av_now_ms a" "snd (admission a) \<notin> snd ` set adm"
    and run: "rate_limit libs parse_ip env True (av_now_ms a) (av_now_ms a) (av_simple a) (av_request a) (Some redis) = (store', r)"
  shows "\<exists>redis' adm'. store' = Some redis' \<and> tracks 60000 (av_now_ms a) (redis' (limiter_key read caller)) adm'
    \<and> adm' = adm @ (if r = Inr () then [admission a] else []) \<and> (r = Inr () \<longrightarrow> length (recent 60000 (av_now_ms a) adm) < bucket_limit env read)"
proof -
  let ?k = "limiter_key read caller"
  have k: "is_prefix ''/v1'' (rq_path (av_request a))" "limiter_key (is_read (av_request a)) (caller_key libs parse_ip (trusted_proxy_hops env) (av_request a)) = ?k"
    using ch by (simp_all add: charged_to_def)
  then have rd: "is_read (av_request a) = read" by (simp add: limiter_key_inject)
  have w: "WINDOW_SECS * 1000 = 60000" by (simp add: WINDOW_SECS_def)
  obtain z allowed where sc: "limit_script (av_now_ms a) (av_now_ms a) 60000 (bucket_limit env read) (snd (admission a)) (redis ?k) = (z, allowed)"
    by fastforce
  have st: "store' = Some (redis(?k := z))" "r = (if allowed = 0 then Inl TooManyRequests else Inr ())"
    using run k sc by (simp_all add: rate_limit_def Let_def rd w admission_def)
  from script_tracks [OF tr(1,2,3) _ sc] st show ?thesis
    by (auto simp: admission_def split: if_splits)
qed

lemma limit_run_spread:
  "sorted (since # map av_now_ms arrivals) \<Longrightarrow> distinct (map snd adm @ map (\<lambda>a. snd (admission a)) arrivals) \<Longrightarrow>
   tracks 60000 since (redis (limiter_key read caller)) adm \<Longrightarrow> spread 60000 (bucket_limit env read) adm \<Longrightarrow>
   spread 60000 (bucket_limit env read) (adm @ map (\<lambda>x. admission (fst x))
     (filter (\<lambda>x. snd x \<and> charged_to libs parse_ip env (limiter_key read caller) (fst x)) (limit_run libs parse_ip env arrivals (Some redis))))"
proof (induction arrivals arbitrary: since adm redis)
  case (Cons a arrivals)
  let ?k = "limiter_key read caller"
  obtain store' r where one: "rate_limit libs parse_ip env True (av_now_ms a) (av_now_ms a) (av_simple a) (av_request a) (Some redis) = (store', r)"
    by fastforce
  have fresh: "snd (admission a) \<notin> snd ` set adm" using Cons.prems(2) by auto
  have since: "since \<le> av_now_ms a" "sorted (av_now_ms a # map av_now_ms arrivals)" using Cons.prems(1) by auto
  show ?case
  proof (cases "charged_to libs parse_ip env ?k a")
    case True
    from rate_limit_charged [OF True Cons.prems(3) since(1) fresh one] obtain redis' adm' where n: "store' = Some redis'"
      "tracks 60000 (av_now_ms a) (redis' ?k) adm'" "adm' = adm @ (if r = Inr () then [admission a] else [])"
      "r = Inr () \<longrightarrow> length (recent 60000 (av_now_ms a) adm) < bucket_limit env read" by blast
    have "\<forall>(score, _)\<in>set adm. score \<le> av_now_ms a" using Cons.prems(3) since(1) by (fastforce simp: tracks_def)
    then have "spread 60000 (bucket_limit env read) adm'"
      using n(3,4) Cons.prems(4) spread_snoc [OF Cons.prems(4)] by (auto simp: admission_def)
    moreover have dist: "distinct (map snd adm' @ map (\<lambda>a. snd (admission a)) arrivals)" using Cons.prems(2) n(3) by auto
    ultimately have rest: "spread 60000 (bucket_limit env read) (adm' @ map (\<lambda>x. admission (fst x))
        (filter (\<lambda>x. snd x \<and> charged_to libs parse_ip env ?k (fst x)) (limit_run libs parse_ip env arrivals store')))"
      using Cons.IH [where redis = redis', OF since(2) dist n(2)] n(1) by simp
    then show ?thesis using n(3) True by (cases "r = Inr ()") (simp_all add: one)
  next
    case False
    then obtain redis' where n: "store' = Some redis'" "redis' ?k = redis ?k"
      using rate_limit_uncharged [OF False, of "av_now_ms a" "av_simple a" redis] one by auto
    have tr: "tracks 60000 (av_now_ms a) (redis' ?k) adm" using Cons.prems(3) since(1) n(2) by (fastforce simp: tracks_def)
    have dist: "distinct (map snd adm @ map (\<lambda>a. snd (admission a)) arrivals)" using Cons.prems(2) by auto
    from Cons.IH [where redis = redis', OF since(2) dist tr Cons.prems(4)] n(1) False show ?thesis by (simp add: one)
  qed
qed simp


definition demo_env :: "string \<Rightarrow> string option" where
  "demo_env name = (if name = ''LULAN_RATE_LIMIT'' then Some ''2'' else if name = ''LULAN_TRUSTED_PROXY_HOPS'' then Some ''1'' else None)"

definition demo_arrival :: "nat \<Rightarrow> string \<Rightarrow> arrival" where
  "demo_arrival n simple = \<lparr>av_now_ms = n, av_simple = simple,
     av_request = \<lparr>rq_path = ''/v1/holds'', rq_method = ''POST'', rq_headers = [], rq_peer = Some ''1.2.3.4''\<rparr>\<rparr>"

lemma demo_limits: "bucket_limit demo_env False = 2" "trusted_proxy_hops demo_env = 1"
  by (simp_all add: bucket_limit_def env_u64_def demo_env_def parse_u64_def trusted_proxy_hops_def Let_def)

lemma demo_digits: "nat_text 1 = ''1''" "nat_text 2 = ''2''" "nat_text (Suc 0) = ''1''"
  by code_simp+


section \<open>Forged proxy entries\<close>

lemma split_on_any: "split_on c (s @ c # t) = split_on c s @ split_on c t"
proof (induction s)
  case (Cons x s)
  have "split_on c u \<noteq> []" for u by (induction u) (auto split: list.splits)
  with Cons show ?case by (auto split: list.splits)
qed simp

text \<open>What a client puts in front of the entries its proxies append does not move it to another bucket - provided it
  is plain text: one byte outside ASCII makes the whole header unreadable, and the request is charged to the proxy.\<close>
theorem forwarded_attribution:
  assumes "0 < hops" "hops \<le> length (split_on (CHR '','') appended)" "list_all header_visible appended"
  shows "client_ip parse_ip hops (req\<lparr>rq_headers := (''x-forwarded-for'', junk @ '','' @ appended) # rest\<rparr>)
    = (if list_all header_visible junk then client_ip parse_ip hops (req\<lparr>rq_headers := (''x-forwarded-for'', appended) # rest\<rparr>) else rq_peer req)"
proof -
  let ?f = "map trim (split_on (CHR '','') junk)" and ?g = "map trim (split_on (CHR '','') appended)"
  have comma: "header_visible (CHR '','')" by (simp add: header_visible_def)
  have "length (?f @ ?g) - hops = length ?f + (length ?g - hops)" using assms(2) by simp
  then have "(?f @ ?g) ! (length (?f @ ?g) - hops) = ?g ! (length ?g - hops)" by (simp only: nth_append_length_plus)
  with assms comma show ?thesis by (simp add: client_ip_def header_str_def split_on_any Let_def split: option.split)
qed

theorem forwarded_attribution_witness:
  "client_ip Some 1 (av_request (demo_arrival 1 ''a'')\<lparr>rq_headers := [(''x-forwarded-for'', ''9.9.9.9'' @ '','' @ ''5.6.7.8'')]\<rparr>) = Some ''5.6.7.8''
   \<and> client_ip Some 1 (av_request (demo_arrival 1 ''a'')\<lparr>rq_headers := [(''x-forwarded-for'', [CHR 0xE9] @ '','' @ ''5.6.7.8'')]\<rparr>) = Some ''1.2.3.4''"
proof -
  have s: "list_all header_visible ''5.6.7.8''" "list_all header_visible ''9.9.9.9''" "\<not> list_all header_visible [CHR 0xE9]" "trim ''5.6.7.8'' = ''5.6.7.8''"
    by code_simp+
  have n: "split_on (CHR '','') ''5.6.7.8'' = [''5.6.7.8'']" by (simp add: split_on_none)
  note th = forwarded_attribution [where hops = 1 and appended = "''5.6.7.8''", unfolded n, OF _ _ s(1)]
  have plain: "client_ip Some 1 (av_request (demo_arrival 1 ''a'')\<lparr>rq_headers := [(''x-forwarded-for'', ''5.6.7.8'')]\<rparr>) = Some ''5.6.7.8''"
    unfolding client_ip_def header_str_def by (simp add: header_visible_def n s(4))
  have "rq_peer (av_request (demo_arrival 1 ''a'')) = Some ''1.2.3.4''" by (simp add: demo_arrival_def)
  with plain th [of Some "''9.9.9.9''" "[]" "av_request (demo_arrival 1 ''a'')"] th [of Some "[CHR 0xE9]" "[]" "av_request (demo_arrival 1 ''a'')"] s(2,3)
  show ?thesis by simp
qed

end
