(* ===== verification/Gtfs.thy ===== *)
theory Gtfs
  imports Booking_System Texts
begin

text \<open>
  The schedule importer \<open>crates/lulan-api/src/gtfs.rs\<close>: the feed's rows as the CSV reader parses them (the reader is
  outside the repository, and so is \<open>parse_date\<close>, chrono's parser of \<open>%Y%m%d\<close>), stop patterns as routes, services as dated
  trips. The whole import is one transaction. Fresh ids come from a supply that the state counts; dates are day numbers.
\<close>

section \<open>The feed\<close>

record gtfs_agency =
  ga_id :: string
  ga_name :: string

record gtfs_stop =
  gs_id :: string
  gs_name :: string
  gs_timezone :: string

record gtfs_route =
  gr_id :: string
  gr_short_name :: string
  gr_long_name :: string

record gtfs_trip =
  gt_route :: string
  gt_service :: string
  gt_trip :: string

record gtfs_stop_time =
  st_trip :: string
  st_arrival :: string
  st_departure :: string
  st_stop :: string
  st_sequence :: nat

record gtfs_calendar =
  gc_service :: string
  gc_weekdays :: "nat list"
  gc_start :: string
  gc_end :: string

record gtfs_feed =
  gf_agencies :: "gtfs_agency list"
  gf_stops :: "gtfs_stop list"
  gf_routes :: "gtfs_route list"
  gf_trips :: "gtfs_trip list"
  gf_stop_times :: "gtfs_stop_time list"
  gf_calendars :: "gtfs_calendar list"

record gtfs_options =
  go_days :: int
  go_seats :: nat
  go_vessel :: "string option"

datatype gtfs_error = NoAgency | BadTime | BadDate | NoSuchVessel | UnknownStopRef | ImportDb

definition parse_i32 :: "string \<Rightarrow> int option" where
  "parse_i32 s = Option.bind (parse_i64 s) (\<lambda>x. if in_i32 x then Some x else None)"

definition gtfs_minutes :: "string \<Rightarrow> gtfs_error + int" where
  "gtfs_minutes time =
    (case split_on (CHR '':'') time of
       h # m # _ \<Rightarrow>
         and_then (ok_or BadTime (parse_i32 h)) (\<lambda>hours.
         and_then (ok_or BadTime (parse_i32 m)) (\<lambda>mins. Inr (i32 (i32 (hours * 60) + mins))))
     | _ \<Rightarrow> Inl BadTime)"

definition gtfs_date :: "(string \<Rightarrow> int option) \<Rightarrow> string \<Rightarrow> gtfs_error + int" where
  "gtfs_date parse_date s = ok_or BadDate (parse_date s)"

text \<open>Day 0 is 1970-01-01, a Thursday.\<close>

definition days_from_monday :: "int \<Rightarrow> nat" where
  "days_from_monday day = nat ((day + 3) mod 7)"

section \<open>The state of an import\<close>

record importer =
  im_db :: db
  im_next :: nat
  im_patterns :: "((string \<times> string list) \<times> (uuid \<times> int)) list"
  im_counts :: "string \<Rightarrow> nat"
  im_skipped :: nat
  im_dated :: nat

definition fresh :: "(nat \<Rightarrow> uuid) \<Rightarrow> importer \<Rightarrow> uuid" where
  "fresh new im = new (im_next im)"

definition put_db :: "db \<Rightarrow> importer \<Rightarrow> importer" where
  "put_db d im = im\<lparr>im_db := d, im_next := Suc (im_next im)\<rparr>"

section \<open>Operator, locations, vehicle\<close>

definition ascii_alphanumeric :: "char \<Rightarrow> bool" where
  "ascii_alphanumeric c = (let n = of_char c :: nat in 48 \<le> n \<and> n \<le> 57 \<or> 65 \<le> n \<and> n \<le> 90 \<or> 97 \<le> n \<and> n \<le> 122)"

definition gtfs_operator_code :: "gtfs_agency \<Rightarrow> string" where
  "gtfs_operator_code a = (if ga_id a = [] then to_uppercase (take 8 (filter ascii_alphanumeric (ga_name a))) else ga_id a)"

definition upsert_operator :: "(nat \<Rightarrow> uuid) \<Rightarrow> string \<Rightarrow> string \<Rightarrow> importer \<Rightarrow> gtfs_error + importer \<times> uuid" where
  "upsert_operator new code name im =
    (let d = im_db im; i = fresh new im
     in case List.find (\<lambda>p. op_code p = code) (operators d) of
          Some p \<Rightarrow> Inr (put_db (d\<lparr>operators := update_where (\<lambda>p. op_code p = code) (\<lambda>p. p\<lparr>op_name := name\<rparr>) (operators d)\<rparr>) im, op_id p)
        | None \<Rightarrow>
            if list_ex (\<lambda>p. op_id p = i) (operators d) then Inl ImportDb
            else Inr (put_db (d\<lparr>operators := operators d @ [\<lparr>op_id = i, op_code = code, op_name = name\<rparr>]\<rparr>) im, i))"

definition upsert_location :: "(nat \<Rightarrow> uuid) \<Rightarrow> gtfs_stop \<Rightarrow> importer \<times> (string \<times> uuid) list \<Rightarrow> gtfs_error + importer \<times> (string \<times> uuid) list" where
  "upsert_location new stop = (\<lambda>(im, ids).
    (let d = im_db im; i = fresh new im
     in case List.find (\<lambda>l. lo_code l = gs_id stop) (locations d) of
          Some l \<Rightarrow> Inr (put_db (d\<lparr>locations := update_where (\<lambda>l. lo_code l = gs_id stop) (\<lambda>l. l\<lparr>lo_name := gs_name stop\<rparr>) (locations d)\<rparr>) im,
             (gs_id stop, lo_id l) # ids)
        | None \<Rightarrow>
            if list_ex (\<lambda>l. lo_id l = i) (locations d) then Inl ImportDb
            else Inr (put_db (d\<lparr>locations := locations d @ [\<lparr>lo_id = i, lo_code = gs_id stop, lo_name = gs_name stop,
                     lo_timezone = (if gs_timezone stop = [] then ''UTC'' else gs_timezone stop)\<rparr>]\<rparr>) im, (gs_id stop, i) # ids)))"

text \<open>Rows of four seats, the last one cut at the number asked for.\<close>

definition vehicle_seat_codes :: "nat \<Rightarrow> string list" where
  "vehicle_seat_codes seats = take seats (concat (map (\<lambda>row. map (\<lambda>letter. nat_text row @ [letter]) ''ABCD'')
     [1..<Suc (max ((seats + 3) div 4) 1)]))"

definition add_vehicle_seat :: "(nat \<Rightarrow> uuid) \<Rightarrow> uuid \<Rightarrow> string \<Rightarrow> importer \<Rightarrow> gtfs_error + importer" where
  "add_vehicle_seat new res_id code im =
    and_then (map_err (\<lambda>_. ImportDb) (insert_unit \<lparr>cu_id = fresh new im, cu_resource = res_id, cu_kind = ''seat'', cu_code = code,
        cu_fare_class = Some ''economy'', cu_pool_capacity = None, cu_admission = False\<rparr> (im_db im))) (\<lambda>d. Inr (put_db d im))"

definition import_vehicle :: "(nat \<Rightarrow> uuid) \<Rightarrow> gtfs_options \<Rightarrow> string \<Rightarrow> string \<Rightarrow> importer \<Rightarrow> gtfs_error + importer \<times> uuid" where
  "import_vehicle new opts agency_name operator_code im =
    (case go_vessel opts of
       Some code \<Rightarrow> and_then (ok_or NoSuchVessel (List.find (\<lambda>r. re_code r = code) (resources (im_db im)))) (\<lambda>r. Inr (im, re_id r))
     | None \<Rightarrow>
         let code = ''GTFS-'' @ operator_code; d = im_db im; i = fresh new im
         in (case List.find (\<lambda>r. re_code r = code) (resources d) of
               Some r \<Rightarrow> Inr (im, re_id r)
             | None \<Rightarrow>
                 if list_ex (\<lambda>r. re_id r = i) (resources d) then Inl ImportDb
                 else and_then (try_fold (add_vehicle_seat new i) (vehicle_seat_codes (go_seats opts))
                        (put_db (d\<lparr>resources := resources d @ [\<lparr>re_id = i, re_code = code, re_name = agency_name @ '' vehicle'', re_kind = ''bus''\<rparr>]\<rparr>) im))
                      (\<lambda>im'. Inr (im', i))))"

definition vehicle_seats :: "uuid \<Rightarrow> db \<Rightarrow> (uuid \<times> int option) list" where
  "vehicle_seats res_id d = map (\<lambda>u. (cu_id u, None)) (filter (\<lambda>u. cu_resource u = res_id \<and> cu_kind u = ''seat'') (capacity_units d))"

section \<open>Stop patterns\<close>

definition trip_stops :: "gtfs_feed \<Rightarrow> string \<Rightarrow> gtfs_stop_time list" where
  "trip_stops feed trip_id = filter (\<lambda>s. st_trip s = trip_id) (sort_key (\<lambda>s. (st_trip s, st_sequence s)) (gf_stop_times feed))"

definition gtfs_route_name :: "gtfs_feed \<Rightarrow> string \<Rightarrow> string" where
  "gtfs_route_name feed rid =
    (case List.find (\<lambda>r. gr_id r = rid) (rev (gf_routes feed)) of
       Some r \<Rightarrow> if gr_short_name r = [] then gr_long_name r else gr_short_name r
     | None \<Rightarrow> rid)"

definition gtfs_insert_stop :: "(string \<times> uuid) list \<Rightarrow> uuid \<Rightarrow> int \<Rightarrow> nat \<times> gtfs_stop_time \<Rightarrow> db \<Rightarrow> gtfs_error + db" where
  "gtfs_insert_stop location_ids rid first = (\<lambda>(index, st) d.
    and_then (ok_or UnknownStopRef (map_of location_ids (st_stop st))) (\<lambda>loc.
    and_then (gtfs_minutes (st_arrival st)) (\<lambda>arrive.
    and_then (gtfs_minutes (st_departure st)) (\<lambda>depart.
      if list_ex (\<lambda>s. rs_route s = rid \<and> rs_stop_index s = i16 (int index)) (route_stops d) then Inr d
      else if list_ex (\<lambda>s. rs_route s = rid \<and> rs_location s = loc) (route_stops d) then Inl ImportDb
      else Inr (d\<lparr>route_stops := route_stops d @ [\<lparr>rs_route = rid, rs_stop_index = i16 (int index), rs_location = loc,
             rs_arrive_offset = i32 (arrive - first), rs_depart_offset = i32 (depart - first)\<rparr>]\<rparr>)))))"

definition new_pattern :: "(nat \<Rightarrow> uuid) \<Rightarrow> gtfs_feed \<Rightarrow> (string \<times> uuid) list \<Rightarrow> gtfs_trip \<Rightarrow> gtfs_stop_time list \<Rightarrow>
    importer \<Rightarrow> gtfs_error + importer" where
  "new_pattern new feed location_ids trip stops im =
    (let base_name = gtfs_route_name feed (gt_route trip);
         code = base_name @ ''-'' @ nat_text (im_counts im (gt_route trip));
         d = im_db im; i = fresh new im
     in
     and_then (gtfs_minutes (st_departure (hd stops))) (\<lambda>first.
     and_then (if list_ex (\<lambda>r. ro_code r = code) (routes d) then Inr d
         else if list_ex (\<lambda>r. ro_id r = i) (routes d) then Inl ImportDb
         else Inr (d\<lparr>routes := routes d @ [\<lparr>ro_id = i, ro_code = code, ro_name = base_name\<rparr>]\<rparr>)) (\<lambda>d1.
     and_then (ok_or ImportDb (List.find (\<lambda>r. ro_code r = code) (routes d1))) (\<lambda>r.
     and_then (try_fold (gtfs_insert_stop location_ids (ro_id r) first) (zip [0..<length stops] stops) d1) (\<lambda>d2.
       Inr ((put_db d2 im)\<lparr>im_patterns := ((gt_route trip, map st_stop stops), (ro_id r, first)) # im_patterns im,
              im_counts := (im_counts im)(gt_route trip := Suc (im_counts im (gt_route trip)))\<rparr>))))))"

section \<open>Dated trips\<close>

definition dated_trip :: "uuid \<Rightarrow> uuid \<Rightarrow> uuid \<Rightarrow> uuid \<Rightarrow> string \<Rightarrow> int \<Rightarrow> int \<Rightarrow> int \<Rightarrow> trip_row" where
  "dated_trip i rid vid operator_id service_number segments first date =
     \<lparr>tr_id = i, tr_route = rid, tr_resource = vid, tr_service_date = date, tr_departs_at = date * hours 24 + minutes first,
      tr_segment_count = segments, tr_operator = Some operator_id, tr_service_number = Some service_number, tr_status = ''scheduled''\<rparr>"

definition import_date :: "(nat \<Rightarrow> uuid) \<Rightarrow> uuid \<times> int \<Rightarrow> uuid \<Rightarrow> uuid \<Rightarrow> string \<Rightarrow> int \<Rightarrow> (uuid \<times> int option) list \<Rightarrow> nat list \<Rightarrow>
    int \<Rightarrow> importer \<Rightarrow> gtfs_error + importer" where
  "import_date new pattern vid operator_id service_number segments seats weekdays date im =
    (if weekdays ! days_from_monday date \<noteq> 1 then Inr im
     else and_then (map_err (\<lambda>_. ImportDb) (insert_trip
              (dated_trip (fresh new im) (fst pattern) vid operator_id service_number segments (snd pattern) date) segments seats (im_db im, [])))
            (\<lambda>(d, inserted). Inr ((put_db d im)\<lparr>im_dated := im_dated im + length inserted\<rparr>)))"

definition import_trip :: "(nat \<Rightarrow> uuid) \<Rightarrow> (string \<Rightarrow> int option) \<Rightarrow> int \<Rightarrow> gtfs_options \<Rightarrow> gtfs_feed \<Rightarrow> (string \<times> uuid) list \<Rightarrow>
    uuid \<Rightarrow> uuid \<Rightarrow> (uuid \<times> int option) list \<Rightarrow> gtfs_trip \<Rightarrow> importer \<Rightarrow> gtfs_error + importer" where
  "import_trip new parse_date today opts feed location_ids operator_id vid seats trip im =
    (let stops = trip_stops feed (gt_trip trip);
         key = (gt_route trip, map st_stop stops);
         skip = im\<lparr>im_skipped := Suc (im_skipped im)\<rparr>
     in if length stops < 2 \<or> length stops > 64 then Inr skip
        else
          and_then (if map_of (im_patterns im) key = None then new_pattern new feed location_ids trip stops im else Inr im) (\<lambda>im1.
          (case (map_of (im_patterns im1) key, List.find (\<lambda>c. gc_service c = gt_service trip) (rev (gf_calendars feed))) of
             (Some pattern, Some service) \<Rightarrow>
               and_then (gtfs_date parse_date (gc_start service)) (\<lambda>start.
               and_then (gtfs_date parse_date (gc_end service)) (\<lambda>end_date.
                 try_fold (import_date new pattern vid operator_id (gt_trip trip) (int (length stops) - 1) seats (gc_weekdays service))
                   [max start today..min end_date (today + go_days opts)] im1))
           | _ \<Rightarrow> Inr (im1\<lparr>im_skipped := Suc (im_skipped im1)\<rparr>))))"

definition import_gtfs :: "(nat \<Rightarrow> uuid) \<Rightarrow> (string \<Rightarrow> int option) \<Rightarrow> int \<Rightarrow> gtfs_options \<Rightarrow> gtfs_feed \<Rightarrow> db \<Rightarrow> db \<times> (gtfs_error + nat \<times> nat)" where
  "import_gtfs new parse_date today opts feed d =
    (let start = \<lparr>im_db = d, im_next = 0, im_patterns = [], im_counts = (\<lambda>_. 0), im_skipped = 0, im_dated = 0\<rparr> in
     case (and_then (ok_or NoAgency (case gf_agencies feed of a # _ \<Rightarrow> Some a | [] \<Rightarrow> None)) (\<lambda>agency.
           and_then (upsert_operator new (gtfs_operator_code agency) (ga_name agency) start) (\<lambda>(im1, operator_id).
           and_then (try_fold (upsert_location new) (gf_stops feed) (im1, [])) (\<lambda>(im2, location_ids).
           and_then (import_vehicle new opts (ga_name agency) (gtfs_operator_code agency) im2) (\<lambda>(im3, vid).
           try_fold (import_trip new parse_date today opts feed location_ids operator_id vid (vehicle_seats vid (im_db im3))) (gf_trips feed) im3))))) of
       Inl e \<Rightarrow> (d, Inl e)
     | Inr im \<Rightarrow> (im_db im, Inr (im_dated im, im_skipped im)))"

section \<open>An import disturbs no booking\<close>

lemma system_inv_operators [simp]: "system_inv (d\<lparr>operators := x\<rparr>) = system_inv d"
proof -
  have "claims_inv (d\<lparr>operators := x\<rparr>) = claims_inv d" by (rule claims_inv_cong) (simp_all add: order_view_def)
  moreover have "log_inv (d\<lparr>operators := x\<rparr>) = log_inv d" by (rule log_inv_cong) (simp_all add: order_view_def)
  ultimately show ?thesis by (simp add: system_inv_def booking_inv_def units_ok_def)
qed

lemma try_fold_keeps: "try_fold f xs s = Inr s' \<Longrightarrow> P s \<Longrightarrow> (\<And>x s s'. f x s = Inr s' \<Longrightarrow> P s \<Longrightarrow> P s') \<Longrightarrow> P s'"
  by (rule try_fold_invariant)

lemma put_db_simps [simp]: "im_db (put_db d im) = d" "im_patterns (put_db d im) = im_patterns im" "im_dated (put_db d im) = im_dated im"
  by (simp_all add: put_db_def)

lemma upserts_inv:
  "upsert_operator new c n im = Inr (im', i) \<Longrightarrow> system_inv (im_db im) \<Longrightarrow> system_inv (im_db im')"
  "upsert_location new stop x = Inr y \<Longrightarrow> system_inv (im_db (fst x)) \<Longrightarrow> system_inv (im_db (fst y))"
  by (auto simp: upsert_operator_def upsert_location_def Let_def split: option.splits if_splits prod.splits)

lemma import_vehicle_inv:
  assumes "import_vehicle new opts name code im = Inr (im', vid)" "system_inv (im_db im)"
  shows "system_inv (im_db im')"
proof -
  have seat: "system_inv (im_db t)" if "add_vehicle_seat new i c s = Inr t" "system_inv (im_db s)" for i c s t
    using that by (auto simp: add_vehicle_seat_def elim!: insert_unit_inv)
  have "system_inv (im_db t)" if "try_fold (add_vehicle_seat new i) cs s = Inr t" "system_inv (im_db s)" for i cs s t
    using that by (rule try_fold_keeps [where P = "\<lambda>im. system_inv (im_db im)"]) (rule seat)
  with assms show ?thesis
    by (auto simp: import_vehicle_def Let_def split: option.splits if_splits)
qed

lemma gtfs_insert_stop_frame: "gtfs_insert_stop ids rid first x d = Inr d' \<Longrightarrow> system_inv d' = system_inv d \<and> trips d' = trips d"
  by (auto simp: gtfs_insert_stop_def split: prod.splits if_splits)

lemma new_pattern_frame:
  assumes "new_pattern new feed ids trip stops im = Inr im'"
  shows "(system_inv (im_db im) \<longrightarrow> system_inv (im_db im')) \<and> trips (im_db im') = trips (im_db im)
    \<and> map_of (im_patterns im') (gt_route trip, map st_stop stops) \<noteq> None"
proof -
  have stops: "(system_inv d \<longrightarrow> system_inv d') \<and> trips d' = trips d" if "try_fold (gtfs_insert_stop ids rid first) xs d = Inr d'" for rid first xs d d'
    using that by (rule try_fold_keeps [where P = "\<lambda>x. (system_inv d \<longrightarrow> system_inv x) \<and> trips x = trips d"]) (auto dest!: gtfs_insert_stop_frame)
  let ?name = "gtfs_route_name feed (gt_route trip)" and ?d = "im_db im"
  let ?code = "?name @ ''-'' @ nat_text (im_counts im (gt_route trip))"
  obtain first d1 rid d2 where new: "(if list_ex (\<lambda>r. ro_code r = ?code) (routes ?d) then Inr ?d
      else if list_ex (\<lambda>r. ro_id r = fresh new im) (routes ?d) then Inl ImportDb
      else Inr (?d\<lparr>routes := routes ?d @ [\<lparr>ro_id = fresh new im, ro_code = ?code, ro_name = ?name\<rparr>]\<rparr>)) = Inr d1"
    "try_fold (gtfs_insert_stop ids rid first) (zip [0..<length stops] stops) d1 = Inr d2" "im_db im' = d2"
    "im_patterns im' = ((gt_route trip, map st_stop stops), (rid, first)) # im_patterns im"
    using assms unfolding new_pattern_def Let_def and_then_eq_Inr by auto
  have "(system_inv ?d \<longrightarrow> system_inv d1) \<and> trips d1 = trips ?d" using new(1) by (auto split: if_splits)
  with stops [OF new(2)] new(3,4) show ?thesis by auto
qed

lemma import_date_inv: "import_date new pat vid op sn segs (vehicle_seats v d0) wd date im = Inr im' \<Longrightarrow> system_inv (im_db im) \<Longrightarrow> system_inv (im_db im')"
  by (auto simp: import_date_def vehicle_seats_def split: if_splits dest!: insert_trip_inv)

definition pattern_key :: "gtfs_feed \<Rightarrow> gtfs_trip \<Rightarrow> string \<times> string list" where
  "pattern_key feed trip = (gt_route trip, map st_stop (trip_stops feed (gt_trip trip)))"

definition ensure_pattern :: "(nat \<Rightarrow> uuid) \<Rightarrow> gtfs_feed \<Rightarrow> (string \<times> uuid) list \<Rightarrow> gtfs_trip \<Rightarrow> importer \<Rightarrow> gtfs_error + importer" where
  "ensure_pattern new feed ids trip im =
    (if map_of (im_patterns im) (pattern_key feed trip) = None then new_pattern new feed ids trip (trip_stops feed (gt_trip trip)) im else Inr im)"

lemma ensure_pattern_frame:
  assumes "ensure_pattern new feed ids trip im = Inr im'"
  shows "system_inv (im_db im) \<longrightarrow> system_inv (im_db im')" "\<exists>pat. map_of (im_patterns im') (pattern_key feed trip) = Some pat"
  using assms new_pattern_frame [of new feed ids trip "trip_stops feed (gt_trip trip)" im im']
  by (auto simp: ensure_pattern_def pattern_key_def split: if_splits)

text \<open>The branches of one trip.\<close>

lemma import_trip_cases [consumes 1, case_names Short NoService Dates]:
  assumes "import_trip new pd today opts feed ids op vid seats trip im = Inr im'"
  obtains "length (trip_stops feed (gt_trip trip)) < 2 \<or> length (trip_stops feed (gt_trip trip)) > 64" "im' = im\<lparr>im_skipped := Suc (im_skipped im)\<rparr>"
  | im1 where "\<not> (length (trip_stops feed (gt_trip trip)) < 2 \<or> length (trip_stops feed (gt_trip trip)) > 64)"
      "ensure_pattern new feed ids trip im = Inr im1" "List.find (\<lambda>c. gc_service c = gt_service trip) (rev (gf_calendars feed)) = None"
      "im' = im1\<lparr>im_skipped := Suc (im_skipped im1)\<rparr>"
  | im1 pat service a b where "\<not> (length (trip_stops feed (gt_trip trip)) < 2 \<or> length (trip_stops feed (gt_trip trip)) > 64)"
      "ensure_pattern new feed ids trip im = Inr im1" "map_of (im_patterns im1) (pattern_key feed trip) = Some pat"
      "List.find (\<lambda>c. gc_service c = gt_service trip) (rev (gf_calendars feed)) = Some service"
      "pd (gc_start service) = Some a" "pd (gc_end service) = Some b"
      "try_fold (import_date new pat vid op (gt_trip trip) (int (length (trip_stops feed (gt_trip trip))) - 1) seats (gc_weekdays service))
        [max a today..min b (today + go_days opts)] im1 = Inr im'"
proof (cases "length (trip_stops feed (gt_trip trip)) < 2 \<or> length (trip_stops feed (gt_trip trip)) > 64")
  case True
  with assms that(1) show ?thesis by (simp add: import_trip_def Let_def)
next
  case False
  with assms obtain im1 where im1: "ensure_pattern new feed ids trip im = Inr im1"
    by (auto simp: import_trip_def Let_def ensure_pattern_def pattern_key_def)
  obtain pat where pat: "map_of (im_patterns im1) (pattern_key feed trip) = Some pat" using ensure_pattern_frame [OF im1] by blast
  note run = assms [unfolded import_trip_def Let_def, folded pattern_key_def, folded ensure_pattern_def, unfolded im1 if_not_P [OF False] and_then.simps pat]
  show ?thesis
  proof (cases "List.find (\<lambda>c. gc_service c = gt_service trip) (rev (gf_calendars feed))")
    case None
    with run False im1 that(2) show ?thesis by simp
  next
    case (Some service)
    with run obtain a b where ab: "pd (gc_start service) = Some a" "pd (gc_end service) = Some b"
      "try_fold (import_date new pat vid op (gt_trip trip) (int (length (trip_stops feed (gt_trip trip))) - 1) seats (gc_weekdays service))
        [max a today..min b (today + go_days opts)] im1 = Inr im'"
      by (auto simp: gtfs_date_def)
    show ?thesis by (rule that(3) [OF False im1 pat Some ab])
  qed
qed

lemma import_trip_inv:
  assumes "import_trip new pd today opts feed ids op vid (vehicle_seats v d0) trip im = Inr im'" "system_inv (im_db im)"
  shows "system_inv (im_db im')"
  using assms(1)
proof (cases rule: import_trip_cases)
  case (Dates im1 pat service a b)
  then have "system_inv (im_db im1)" using ensure_pattern_frame(1) assms(2) by blast
  with Dates(7) show ?thesis by (rule try_fold_keeps [where P = "\<lambda>im. system_inv (im_db im)"]) (rule import_date_inv)
qed (use assms(2) ensure_pattern_frame(1) in \<open>auto\<close>)


section \<open>Departures of the same pattern\<close>

definition departs :: "uuid \<Rightarrow> uuid \<Rightarrow> instant \<Rightarrow> db \<Rightarrow> bool" where
  "departs rid vid at d \<longleftrightarrow> (\<exists>t\<in>set (trips d). tr_route t = rid \<and> tr_resource t = vid \<and> tr_departs_at t = at)"

lemma insert_trip_departs:
  assumes "insert_trip row segs units (d, ids) = Inr (d', ids')"
  shows "departs (tr_route row) (tr_resource row) (tr_departs_at row) d'" "set (trips d) \<subseteq> set (trips d')"
    "1 \<le> tr_segment_count row \<and> tr_segment_count row \<le> 64"
proof -
  have occ: "trips y = trips x" if "try_fold (insert_occupancy tid segs) us x = Inr y" for tid us x y
    using that refl by (rule try_fold_keeps [where P = "\<lambda>z. trips z = trips x"])
      (auto simp: insert_occupancy_def Let_def split: prod.splits option.splits if_splits)
  show "departs (tr_route row) (tr_resource row) (tr_departs_at row) d'" "set (trips d) \<subseteq> set (trips d')"
    "1 \<le> tr_segment_count row \<and> tr_segment_count row \<le> 64"
    using assms by (auto simp: insert_trip_def departs_def list_ex_iff split: if_splits dest!: occ)
qed

lemma import_date_departs:
  assumes "import_date new pat vid op sn segs seats wd date im = Inr im'"
  shows "set (trips (im_db im)) \<subseteq> set (trips (im_db im')) \<and> im_patterns im' = im_patterns im
    \<and> (wd ! days_from_monday date = 1 \<longrightarrow> departs (fst pat) vid (date * hours 24 + minutes (snd pat)) (im_db im') \<and> 1 \<le> segs \<and> segs \<le> 64)"
proof (cases "wd ! days_from_monday date = 1")
  case True
  let ?row = "dated_trip (fresh new im) (fst pat) vid op sn segs (snd pat) date"
  from assms True obtain d ids where ins: "insert_trip ?row segs seats (im_db im, []) = Inr (d, ids)" "im' = (put_db d im)\<lparr>im_dated := im_dated im + length ids\<rparr>"
    by (cases "insert_trip ?row segs seats (im_db im, [])") (auto simp: import_date_def)
  from insert_trip_departs [OF ins(1)] ins(2) show ?thesis by (simp add: dated_trip_def)
qed (use assms in \<open>simp add: import_date_def\<close>)

lemma import_dates_departs:
  "try_fold (import_date new pat vid op sn segs seats wd) dates im = Inr im' \<Longrightarrow>
   set (trips (im_db im)) \<subseteq> set (trips (im_db im')) \<and> im_patterns im' = im_patterns im
   \<and> (\<forall>date\<in>set dates. wd ! days_from_monday date = 1 \<longrightarrow> departs (fst pat) vid (date * hours 24 + minutes (snd pat)) (im_db im') \<and> 1 \<le> segs \<and> segs \<le> 64)"
proof (induction dates arbitrary: im)
  case (Cons date dates)
  then obtain im1 where one: "import_date new pat vid op sn segs seats wd date im = Inr im1"
    "try_fold (import_date new pat vid op sn segs seats wd) dates im1 = Inr im'" by auto
  from import_date_departs [OF one(1)] Cons.IH [OF one(2)] show ?case by (auto simp: departs_def)
qed simp

lemma import_dates_again:
  "\<forall>date\<in>set dates. wd ! days_from_monday date = 1 \<longrightarrow> departs (fst pat) vid (date * hours 24 + minutes (snd pat)) (im_db im) \<and> 1 \<le> segs \<and> segs \<le> 64 \<Longrightarrow>
   \<exists>im'. try_fold (import_date new pat vid op sn segs seats wd) dates im = Inr im' \<and> im_db im' = im_db im \<and> im_dated im' = im_dated im"
proof (induction dates arbitrary: im)
  case (Cons date dates)
  have "\<exists>im1. import_date new pat vid op sn segs seats wd date im = Inr im1 \<and> im_db im1 = im_db im \<and> im_dated im1 = im_dated im"
    using Cons.prems by (auto simp: import_date_def insert_trip_def dated_trip_def departs_def list_ex_iff)
  then obtain im1 where one: "import_date new pat vid op sn segs seats wd date im = Inr im1" "im_db im1 = im_db im" "im_dated im1 = im_dated im" by blast
  with Cons.IH [of im1] Cons.prems show ?case by auto
qed simp

text \<open>A route pattern keeps the departure time of the first trip seen with it: a later trip of the same stops and service adds
  nothing, whatever its times are - of a timetable's departures on a pattern only the first is imported.\<close>
theorem later_departures_are_lost:
  assumes first: "import_trip new parse_date today opts feed ids op vid seats t1 im = Inr im1"
    and same: "gt_route t2 = gt_route t1" "gt_service t2 = gt_service t1"
      "map st_stop (trip_stops feed (gt_trip t2)) = map st_stop (trip_stops feed (gt_trip t1))"
  shows "\<exists>im2. import_trip new parse_date today opts feed ids op vid seats t2 im1 = Inr im2 \<and> im_db im2 = im_db im1 \<and> im_dated im2 = im_dated im1"
proof -
  let ?stops = "trip_stops feed (gt_trip t1)"
  have len: "length (trip_stops feed (gt_trip t2)) = length ?stops" using same(3) by (metis length_map)
  have key: "pattern_key feed t2 = pattern_key feed t1" using same by (simp add: pattern_key_def)
  have again: "import_trip new parse_date today opts feed ids op vid seats t2 x
      = (case List.find (\<lambda>c. gc_service c = gt_service t1) (rev (gf_calendars feed)) of
           None \<Rightarrow> Inr (x\<lparr>im_skipped := Suc (im_skipped x)\<rparr>)
         | Some service \<Rightarrow> and_then (gtfs_date parse_date (gc_start service)) (\<lambda>a. and_then (gtfs_date parse_date (gc_end service)) (\<lambda>b.
             try_fold (import_date new pat vid op (gt_trip t2) (int (length ?stops) - 1) seats (gc_weekdays service))
               [max a today..min b (today + go_days opts)] x)))"
    if "\<not> (length ?stops < 2 \<or> length ?stops > 64)" "map_of (im_patterns x) (pattern_key feed t1) = Some pat" for x pat
    using that key unfolding import_trip_def Let_def len same(2) pattern_key_def by (simp split: option.split)
  from first show ?thesis
  proof (cases rule: import_trip_cases)
    case Short
    then show ?thesis by (simp add: import_trip_def Let_def len)
  next
    case (NoService im0)
    obtain pat where "map_of (im_patterns im0) (pattern_key feed t1) = Some pat" using ensure_pattern_frame [OF NoService(2)] by blast
    then show ?thesis using NoService again [of im1 pat] by simp
  next
    case (Dates im0 pat service a b)
    note added = import_dates_departs [OF Dates(7)]
    have "map_of (im_patterns im1) (pattern_key feed t1) = Some pat" using added Dates(3) by simp
    note rerun = again [OF Dates(1) this]
    have "\<exists>im2. try_fold (import_date new pat vid op (gt_trip t2) (int (length ?stops) - 1) seats (gc_weekdays service))
        [max a today..min b (today + go_days opts)] im1 = Inr im2 \<and> im_db im2 = im_db im1 \<and> im_dated im2 = im_dated im1"
      by (rule import_dates_again) (use added in blast)
    then show ?thesis unfolding rerun using Dates(4,5,6) by (simp add: gtfs_date_def)
  qed
qed

text \<open>A line A - B with a morning and an evening trip: two days, two departures, both in the morning.\<close>

definition demo_feed :: gtfs_feed where
  "demo_feed = \<lparr>gf_agencies = [\<lparr>ga_id = ''OP'', ga_name = ''Line''\<rparr>],
     gf_stops = [\<lparr>gs_id = ''A'', gs_name = ''Alpha'', gs_timezone = []\<rparr>, \<lparr>gs_id = ''B'', gs_name = ''Beta'', gs_timezone = []\<rparr>],
     gf_routes = [\<lparr>gr_id = ''r'', gr_short_name = ''R'', gr_long_name = []\<rparr>],
     gf_trips = [\<lparr>gt_route = ''r'', gt_service = ''d'', gt_trip = ''am''\<rparr>, \<lparr>gt_route = ''r'', gt_service = ''d'', gt_trip = ''pm''\<rparr>],
     gf_stop_times = [\<lparr>st_trip = ''am'', st_arrival = ''8:00:00'', st_departure = ''8:00:00'', st_stop = ''A'', st_sequence = 1\<rparr>,
       \<lparr>st_trip = ''am'', st_arrival = ''9:00:00'', st_departure = ''9:00:00'', st_stop = ''B'', st_sequence = 2\<rparr>,
       \<lparr>st_trip = ''pm'', st_arrival = ''18:00:00'', st_departure = ''18:00:00'', st_stop = ''A'', st_sequence = 1\<rparr>,
       \<lparr>st_trip = ''pm'', st_arrival = ''19:00:00'', st_departure = ''19:00:00'', st_stop = ''B'', st_sequence = 2\<rparr>],
     gf_calendars = [\<lparr>gc_service = ''d'', gc_weekdays = [1, 1, 1, 1, 1, 1, 1], gc_start = [], gc_end = []\<rparr>]\<rparr>"

definition demo_ids :: "nat \<Rightarrow> uuid" where
  "demo_ids n = Uuid (of_nat n)"

definition demo_options :: gtfs_options where
  "demo_options = \<lparr>go_days = 5, go_seats = 2, go_vessel = None\<rparr>"

definition demo_date :: "string \<Rightarrow> int option" where
  "demo_date s = Some 1"


definition demo_import :: "gtfs_trip \<Rightarrow> importer \<Rightarrow> gtfs_error + importer" where
  "demo_import = import_trip demo_ids demo_date 0 demo_options demo_feed [(''A'', Uuid 1), (''B'', Uuid 2)] (Uuid 3) (Uuid 4) [(Uuid 5, None)]"

definition demo_importer :: importer where
  "demo_importer = \<lparr>im_db = empty_db, im_next = 6, im_patterns = [], im_counts = (\<lambda>_. 0), im_skipped = 0, im_dated = 0\<rparr>"

theorem later_departures_are_lost_witness:
  "case demo_import (hd (gf_trips demo_feed)) demo_importer of
     Inl _ \<Rightarrow> False
   | Inr im1 \<Rightarrow> im_dated im1 = 1 \<and> (\<exists>im2. demo_import (gf_trips demo_feed ! 1) im1 = Inr im2 \<and> im_db im2 = im_db im1 \<and> im_dated im2 = im_dated im1)"
proof -
  have "map_sum id im_dated (demo_import (hd (gf_trips demo_feed)) demo_importer) = Inr 1" by code_simp
  then obtain im1 where im1: "demo_import (hd (gf_trips demo_feed)) demo_importer = Inr im1" "im_dated im1 = 1"
    by (cases "demo_import (hd (gf_trips demo_feed)) demo_importer") auto
  have same: "gt_route (gf_trips demo_feed ! 1) = gt_route (hd (gf_trips demo_feed))"
    "gt_service (gf_trips demo_feed ! 1) = gt_service (hd (gf_trips demo_feed))" by (simp_all add: demo_feed_def)
  have "map st_stop (trip_stops demo_feed (gt_trip (gf_trips demo_feed ! 1))) = map st_stop (trip_stops demo_feed (gt_trip (hd (gf_trips demo_feed))))"
    by code_simp
  from later_departures_are_lost [OF im1(1) [unfolded demo_import_def] same this] im1 show ?thesis by (simp add: demo_import_def)
qed

end
