(* ===== verification/Server.thy ===== *)
theory Server
  imports Booking_System Idempotency Gtfs Payments
begin

text \<open>
  How the server starts and what it keeps doing: \<open>crates/lulan-api/src/config.rs\<close>, the decisions of \<open>main.rs\<close> (providers,
  secrets, the import's flags, the sweeper), \<open>cors.rs\<close>, \<open>health.rs\<close> and the request timeout of \<open>lib.rs\<close>. Connecting,
  reading files and loading a WebAssembly module are arguments that answer whether they succeed; routing is in \<open>Router\<close>.
\<close>

section \<open>Configuration\<close>

record config =
  cf_listen_addr :: string
  cf_database_url :: "string option"
  cf_redis_url :: "string option"
  cf_pricing_wasm :: "string option"
  cf_quote_secret :: "string option"
  cf_payment_provider :: "string option"

definition config_from_env :: "(string \<Rightarrow> string option) \<Rightarrow> config" where
  "config_from_env env = \<lparr>cf_listen_addr = (case env ''LULAN_LISTEN_ADDR'' of Some a \<Rightarrow> a | None \<Rightarrow> ''0.0.0.0:8080''),
     cf_database_url = env ''DATABASE_URL'', cf_redis_url = env ''REDIS_URL'', cf_pricing_wasm = env ''LULAN_PRICING_WASM'',
     cf_quote_secret = env ''LULAN_QUOTE_SECRET'', cf_payment_provider = env ''LULAN_PAYMENT_PROVIDER''\<rparr>"

fun import_flags :: "string list \<Rightarrow> gtfs_options \<Rightarrow> gtfs_options option" where
  "import_flags [] opts = Some opts"
| "import_flags [flag] opts = None"
| "import_flags (flag # v # rest) opts =
    (if flag = ''--days'' then Option.bind (parse_i64 v) (\<lambda>n. import_flags rest (opts\<lparr>go_days := n\<rparr>))
     else if flag = ''--seats'' then Option.bind (parse_u64 v) (\<lambda>n. if n < 2 ^ 32 then import_flags rest (opts\<lparr>go_seats := n\<rparr>) else None)
     else if flag = ''--vessel'' then import_flags rest (opts\<lparr>go_vessel := Some v\<rparr>)
     else None)"

section \<open>Starting\<close>

datatype boot_error = DatabaseUnreachable | ProviderRefused | BootstrapRefused | PricingRefused | SecretTooShort | SecretMissing | SigningKeyRefused

datatype payment_adapter = FakeAdapter | HttpAdapter http_provider

datatype pricing_adapter = NativePricing | WasmPricing string

record app_state =
  ap_database :: bool
  ap_redis :: bool
  ap_pricing :: pricing_adapter
  ap_payments :: payment_adapter
  ap_quote_secret :: string

definition MIN_QUOTE_SECRET_LEN :: nat where "MIN_QUOTE_SECRET_LEN = 32"

text \<open>\<open>preset\<close> is the text of the built-in description, \<open>read\<close> a file, \<open>from_json\<close> serde on \<open>ProviderConfig\<close>.\<close>

definition choose_payments :: "payment_libs \<Rightarrow> (string \<Rightarrow> string option) \<Rightarrow> string \<Rightarrow> (string \<Rightarrow> string option) \<Rightarrow>
    (string \<Rightarrow> provider_config option) \<Rightarrow> string option \<Rightarrow> boot_error + payment_adapter" where
  "choose_payments libs env preset read from_json spec =
    (case spec of
       None \<Rightarrow> Inr FakeAdapter
     | Some s \<Rightarrow>
         and_then (ok_or ProviderRefused (if s = ''stripe'' then Some preset else read s)) (\<lambda>source.
         and_then (ok_or ProviderRefused (from_json source)) (\<lambda>cfg.
         and_then (ok_or ProviderRefused (provider_new libs env cfg)) (\<lambda>p. Inr (HttpAdapter p)))))"

definition choose_secret :: "string option \<Rightarrow> bool \<Rightarrow> string \<Rightarrow> boot_error + string" where
  "choose_secret configured database ephemeral =
    (case (configured, database) of
       (Some secret, _) \<Rightarrow> if length secret < MIN_QUOTE_SECRET_LEN then Inl SecretTooShort else Inr secret
     | (None, True) \<Rightarrow> Inl SecretMissing
     | (None, False) \<Rightarrow> Inr ephemeral)"

text \<open>What the world answers at boot; \<open>bw_bootstraps\<close> is the outcome of the two bootstraps of \<open>Access\<close>, \<open>bw_signing_key\<close> of sealing and
  loading the ticket keys (\<open>Ticket_Keys\<close>). The background tasks start after the bootstraps.\<close>

record boot_world =
  bw_connect :: "string \<Rightarrow> bool"
  bw_connect_redis :: "string \<Rightarrow> bool"
  bw_read :: "string \<Rightarrow> string option"
  bw_from_json :: "string \<Rightarrow> provider_config option"
  bw_preset :: string
  bw_bootstraps :: bool
  bw_wasm_loads :: "string \<Rightarrow> bool"
  bw_signing_key :: bool
  bw_ephemeral :: string

definition boot :: "payment_libs \<Rightarrow> (string \<Rightarrow> string option) \<Rightarrow> boot_world \<Rightarrow> boot_error + app_state" where
  "boot libs env world =
    (let cfg = config_from_env env in
     and_then (case cf_database_url cfg of
         Some url \<Rightarrow> if bw_connect world url then Inr True else Inl DatabaseUnreachable
       | None \<Rightarrow> Inr False) (\<lambda>database.
     let redis = (case cf_redis_url cfg of Some url \<Rightarrow> bw_connect_redis world url | None \<Rightarrow> False) in
     and_then (choose_payments libs env (bw_preset world) (bw_read world) (bw_from_json world) (cf_payment_provider cfg)) (\<lambda>payments.
     if database \<and> \<not> bw_bootstraps world then Inl BootstrapRefused
     else
     and_then (case cf_pricing_wasm cfg of
         Some path \<Rightarrow> if bw_wasm_loads world path then Inr (WasmPricing path) else Inl PricingRefused
       | None \<Rightarrow> Inr NativePricing) (\<lambda>pricing.
     and_then (choose_secret (cf_quote_secret cfg) database (bw_ephemeral world)) (\<lambda>secret.
       if database \<and> \<not> bw_signing_key world then Inl SigningKeyRefused
       else Inr \<lparr>ap_database = database, ap_redis = redis, ap_pricing = pricing, ap_payments = payments, ap_quote_secret = secret\<rparr>)))))"

text \<open>A server that takes bookings never signs with a weak or a temporary secret: one that starts with a database has the configured
  secret of at least 32 bytes, and it runs the fake payment provider exactly when none is configured.\<close>
theorem boot_is_configured:
  assumes "boot libs env world = Inr app"
  shows "(if ap_database app then env ''LULAN_QUOTE_SECRET'' = Some (ap_quote_secret app) \<and> 32 \<le> length (ap_quote_secret app)
      else env ''DATABASE_URL'' = None)
    \<and> (ap_payments app = FakeAdapter \<longleftrightarrow> env ''LULAN_PAYMENT_PROVIDER'' = None)"
proof -
  have pay: "a = FakeAdapter \<longleftrightarrow> spec = None" if "choose_payments libs env p r j spec = Inr a" for p r j spec a
    using that by (cases spec) (auto simp: choose_payments_def)
  have sec: "(configured = Some s \<and> 32 \<le> length s) \<or> (configured = None \<and> \<not> database)" if "choose_secret configured database e = Inr s" for configured database e s
    using that by (auto simp: choose_secret_def MIN_QUOTE_SECRET_LEN_def split: option.splits bool.splits if_splits)
  define database where "database \<longleftrightarrow> env ''DATABASE_URL'' \<noteq> None"
  from assms have app: "ap_database app = database"
      "choose_payments libs env (bw_preset world) (bw_read world) (bw_from_json world) (env ''LULAN_PAYMENT_PROVIDER'') = Inr (ap_payments app)"
      "choose_secret (env ''LULAN_QUOTE_SECRET'') database (bw_ephemeral world) = Inr (ap_quote_secret app)"
    by (cases "env ''DATABASE_URL''"; force simp: boot_def config_from_env_def Let_def database_def split: option.splits if_splits)+
  from pay [OF app(2)] sec [OF app(3)] show ?thesis by (auto simp: app(1) database_def)
qed

section \<open>The sweeper\<close>

definition SWEEP_CASCADE_LIMIT :: nat where "SWEEP_CASCADE_LIMIT = 200"

definition sweeper_tick :: "(string \<Rightarrow> int \<Rightarrow> bool) \<Rightarrow> instant \<Rightarrow> db \<times> 'j key_row list \<Rightarrow> db \<times> 'j key_row list" where
  "sweeper_tick refund_ok now = (\<lambda>(d, keys).
    (let d1 = fst (expire_due now d);
         keys1 = fst (sweep_idempotency_keys now keys)
     in (fst (settle_cancelled_trips refund_ok now SWEEP_CASCADE_LIMIT d1), keys1)))"

section \<open>Browsers, probes, timeouts\<close>

datatype allowed_origins = AnyOrigin | Origins "string list"

definition header_value_ok :: "string \<Rightarrow> bool" where
  "header_value_ok s = list_all (\<lambda>c. let n = of_char c :: nat in 32 \<le> n \<and> n \<noteq> 127 \<or> n = 9) s"

definition layer_for :: "string \<Rightarrow> allowed_origins option" where
  "layer_for origins =
    (if trim origins = ''*'' then Some AnyOrigin
     else
       let parsed = filter header_value_ok (filter (\<lambda>s. s \<noteq> []) (map trim (split_on (CHR '','') origins)))
       in if parsed = [] then None else Some (Origins parsed))"

definition layer_from_env :: "(string \<Rightarrow> string option) \<Rightarrow> allowed_origins option" where
  "layer_from_env env = Option.bind (env ''LULAN_CORS_ALLOWED_ORIGINS'') layer_for"

record health_report =
  hr_healthy :: bool
  hr_database :: string
  hr_redis :: string

text \<open>A dependency is absent, or there and answering or not.\<close>

definition probe :: "bool option \<Rightarrow> string" where
  "probe dep = (case dep of None \<Rightarrow> ''skipped'' | Some True \<Rightarrow> ''ok'' | Some False \<Rightarrow> ''error'')"

definition health_ready :: "bool option \<Rightarrow> bool option \<Rightarrow> nat \<times> health_report" where
  "health_ready database redis =
    (let healthy = probe database \<noteq> ''error'' \<and> probe redis \<noteq> ''error''
     in (if healthy then 200 else 503, \<lparr>hr_healthy = healthy, hr_database = probe database, hr_redis = probe redis\<rparr>))"

definition request_timeout_secs :: "(string \<Rightarrow> string option) \<Rightarrow> nat" where
  "request_timeout_secs env = (case Option.bind (env ''LULAN_REQUEST_TIMEOUT_SECS'') parse_u64 of
     Some secs \<Rightarrow> if secs > 0 then secs else 30 | None \<Rightarrow> 30)"

definition demo_boot_env :: "string \<Rightarrow> string option" where
  "demo_boot_env name = (if name = ''DATABASE_URL'' then Some ''db'' else if name = ''LULAN_QUOTE_SECRET'' then Some (replicate 32 (CHR ''k'')) else None)"

definition demo_world :: boot_world where
  "demo_world = \<lparr>bw_connect = (\<lambda>_. True), bw_connect_redis = (\<lambda>_. False), bw_read = (\<lambda>_. None), bw_from_json = (\<lambda>_. None),
     bw_preset = [], bw_bootstraps = True, bw_wasm_loads = (\<lambda>_. False), bw_signing_key = True, bw_ephemeral = []\<rparr>"

theorem boot_is_configured_witness:
  "case boot toy_libs demo_boot_env demo_world of
     Inl _ \<Rightarrow> False
   | Inr app \<Rightarrow> (if ap_database app then demo_boot_env ''LULAN_QUOTE_SECRET'' = Some (ap_quote_secret app) \<and> 32 \<le> length (ap_quote_secret app)
        else demo_boot_env ''DATABASE_URL'' = None)
      \<and> (ap_payments app = FakeAdapter \<longleftrightarrow> demo_boot_env ''LULAN_PAYMENT_PROVIDER'' = None)"
proof -
  have run: "boot toy_libs demo_boot_env demo_world = Inr \<lparr>ap_database = True, ap_redis = False, ap_pricing = NativePricing,
      ap_payments = FakeAdapter, ap_quote_secret = replicate 32 (CHR ''k'')\<rparr>"
    by (simp add: boot_def config_from_env_def demo_boot_env_def demo_world_def choose_payments_def choose_secret_def MIN_QUOTE_SECRET_LEN_def Let_def)
  show ?thesis unfolding run sum.case by (rule boot_is_configured [OF run])
qed

end
