(* ===== verification/Support.thy ===== *)
theory Support
  imports Scheduling Texts
begin

text \<open>
  The order search of the support desk: \<open>search_orders\<close> of \<open>crates/lulan-api/src/admin.rs\<close>, with PostgreSQL's \<open>ILIKE\<close> (\<open>%\<close> any
  text, \<open>_\<close> any character, a backslash quotes the next one; both sides in lower case). \<open>SELECT DISTINCT\<close> over an order's
  columns keeps each order once: an order is listed when some row of the join satisfies the conditions. Two orders of one instant keep the table's order.
\<close>

fun sql_like :: "string \<Rightarrow> string \<Rightarrow> bool" where
  "sql_like [] s = (s = [])"
| "sql_like (p # ps) [] = (p = CHR ''%'' \<and> sql_like ps [])"
| "sql_like (p # ps) (c # cs) =
    (if p = CHR ''%'' then sql_like ps (c # cs) \<or> sql_like (p # ps) cs
     else if p = CHR 0x5C then (case ps of [] \<Rightarrow> False | q # qs \<Rightarrow> q = c \<and> sql_like qs cs)
     else (p = CHR ''_'' \<or> p = c) \<and> sql_like ps cs)"

definition ilike :: "string \<Rightarrow> string option \<Rightarrow> bool" where
  "ilike pattern column = (case column of Some s \<Rightarrow> sql_like (to_lowercase pattern) (to_lowercase s) | None \<Rightarrow> False)"

definition contains_filter :: "string option \<Rightarrow> string option \<Rightarrow> bool" where
  "contains_filter param column = (case param of None \<Rightarrow> True | Some s \<Rightarrow> ilike (''%'' @ s @ ''%'') column)"

definition order_matches :: "string option \<Rightarrow> string option \<Rightarrow> uuid option \<Rightarrow> db \<Rightarrow> order_row \<Rightarrow> bool" where
  "order_matches contact name trip d r =
    list_ex (\<lambda>p. list_ex (\<lambda>oi.
        contains_filter contact (ord_guest_contact r)
      \<and> contains_filter name (map_option pa_full_name p)
      \<and> (case trip of None \<Rightarrow> True | Some t \<Rightarrow> map_option oi_trip oi = Some t))
      (left_join (\<lambda>oi. oi_order oi = ord_id r) (order_items d)))
      (left_join (\<lambda>p. pa_order p = ord_id r) (passengers d))"

record order_hit =
  oh_order_id :: uuid
  oh_passenger_name :: string
  oh_status :: string
  oh_total_minor :: int
  oh_currency :: string
  oh_guest_contact :: "string option"
  oh_created_at :: instant

definition search_orders :: "api_error + unit \<Rightarrow> string option \<Rightarrow> string option \<Rightarrow> uuid option \<Rightarrow> db \<Rightarrow> api_error + order_hit list" where
  "search_orders support contact name trip d =
    and_then support (\<lambda>_.
      if contact = None \<and> name = None \<and> trip = None then Inl BadRequest
      else Inr (map (\<lambda>r. \<lparr>oh_order_id = ord_id r, oh_passenger_name = ord_passenger_name r, oh_status = ord_status r,
          oh_total_minor = ord_total_minor r, oh_currency = ord_currency r, oh_guest_contact = ord_guest_contact r,
          oh_created_at = ord_created_at r\<rparr>)
        (take 50 (sort_key (\<lambda>r. - ord_created_at r) (filter (order_matches contact name trip d) (orders d))))))"

section \<open>Searching for a plain text\<close>

definition plain_pattern :: "string \<Rightarrow> bool" where
  "plain_pattern s \<longleftrightarrow> list_all (\<lambda>c. \<not> List.member [CHR ''%'', CHR ''_'', CHR 0x5C] c) s"

lemma sql_like_percent [simp]: "sql_like ''%'' s"
  by (induction s) auto

lemma sql_like_prefix: "plain_pattern s \<Longrightarrow> sql_like (s @ ''%'') t \<longleftrightarrow> (\<exists>b. t = s @ b)"
proof (induction s arbitrary: t)
  case (Cons p s)
  then show ?case by (cases t) (auto simp: plain_pattern_def)
qed simp

lemma sql_like_anywhere: "sql_like (CHR ''%'' # ps) t \<longleftrightarrow> (\<exists>a b. t = a @ b \<and> sql_like ps b)"
proof (induction t)
  case (Cons c t)
  have "(\<exists>a b. c # t = a @ b \<and> sql_like ps b) \<longleftrightarrow> sql_like ps (c # t) \<or> (\<exists>a b. t = a @ b \<and> sql_like ps b)"
    by (metis append_Cons append_Nil list.inject neq_Nil_conv)
  with Cons show ?case by simp
qed simp

lemma ilike_contains: "plain_pattern (to_lowercase s) \<Longrightarrow>
  ilike (''%'' @ s @ ''%'') (Some t) \<longleftrightarrow> (\<exists>a b. to_lowercase t = a @ to_lowercase s @ b)"
proof -
  assume plain: "plain_pattern (to_lowercase s)"
  have lower: "to_lowercase (''%'' @ s @ ''%'') = CHR ''%'' # to_lowercase s @ ''%''" by (simp add: to_lowercase_def)
  show ?thesis unfolding ilike_def option.case lower sql_like_anywhere sql_like_prefix [OF plain] by blast
qed

lemma left_join_ex: "list_ex (\<lambda>p. P) (left_join Q rows) \<longleftrightarrow> P"
  by (auto simp: left_join_def list_ex_iff split: list.splits)

text \<open>Searching by contact for a text without wildcards lists the newest fifty orders whose contact contains it, in any case of
  letters, and each of them once.\<close>
theorem contact_search_is_substring:
  assumes "plain_pattern (to_lowercase s)"
  shows "map_sum id (map oh_order_id) (search_orders (Inr ()) (Some s) None None d)
    = Inr (map ord_id (take 50 (sort_key (\<lambda>r. - ord_created_at r)
        (filter (\<lambda>r. \<exists>t a b. ord_guest_contact r = Some t \<and> to_lowercase t = a @ to_lowercase s @ b) (orders d)))))"
proof -
  have "order_matches (Some s) None None d r \<longleftrightarrow> (\<exists>t a b. ord_guest_contact r = Some t \<and> to_lowercase t = a @ to_lowercase s @ b)" for r
  proof (cases "ord_guest_contact r")
    case None
    then show ?thesis by (simp add: order_matches_def contains_filter_def ilike_def left_join_ex)
  next
    case (Some t)
    then show ?thesis using ilike_contains [OF assms, of t] by (simp add: order_matches_def contains_filter_def left_join_ex)
  qed
  then have "order_matches (Some s) None None d
      = (\<lambda>r. \<exists>t a b. ord_guest_contact r = Some t \<and> to_lowercase t = a @ to_lowercase s @ b)" by (intro ext)
  then show ?thesis by (simp add: search_orders_def comp_def)
qed

definition demo_contacts :: db where
  "demo_contacts = sample_pending\<lparr>orders := map (\<lambda>r. r\<lparr>ord_guest_contact := Some ''Ann X''\<rparr>) (orders sample_pending)\<rparr>"

theorem contact_search_is_substring_witness:
  "map_sum id length (search_orders (Inr ()) (Some ''x'') None None demo_contacts) = Inr 1
   \<and> map_sum id (map oh_order_id) (search_orders (Inr ()) (Some ''x'') None None demo_contacts)
    = Inr (map ord_id (take 50 (sort_key (\<lambda>r. - ord_created_at r)
        (filter (\<lambda>r. \<exists>t a b. ord_guest_contact r = Some t \<and> to_lowercase t = a @ to_lowercase ''x'' @ b) (orders demo_contacts)))))"
proof
  show "map_sum id length (search_orders (Inr ()) (Some ''x'') None None demo_contacts) = Inr 1" by code_simp
  have "plain_pattern (to_lowercase ''x'')" by code_simp
  then show "map_sum id (map oh_order_id) (search_orders (Inr ()) (Some ''x'') None None demo_contacts)
    = Inr (map ord_id (take 50 (sort_key (\<lambda>r. - ord_created_at r)
        (filter (\<lambda>r. \<exists>t a b. ord_guest_contact r = Some t \<and> to_lowercase t = a @ to_lowercase ''x'' @ b) (orders demo_contacts)))))"
    by (rule contact_search_is_substring)
qed

end
