(* ===== verification/Validate_Js.thy ===== *)
theory Validate_Js
  imports Complex_Main Ticket_Token Texts
begin

text \<open>
  The JavaScript bindings of the validator: \<open>crates/lulan-validate-wasm/src/lib.rs\<close>. What serde reads from a JS value is an
  argument (its error text or the value), \<open>parse_uuid\<close> is the uuid crate's parser and \<open>debug\<close> Rust's \<open>{:?}\<close>.
  A number is a finite double, a real here; the result object is the verified ticket.
\<close>

definition js_error :: "string \<Rightarrow> string \<Rightarrow> string" where
  "js_error code detail = code @ '': '' @ detail"

text \<open>\<open>as i64\<close>: towards zero, saturating.\<close>

definition f64_as_i64 :: "real \<Rightarrow> int" where
  "f64_as_i64 x = max (- 9223372036854775808) (min 9223372036854775807 (if x < 0 then \<lceil>x\<rceil> else \<lfloor>x\<rfloor>))"

definition uuid_from_str :: "(string \<Rightarrow> uuid option) \<Rightarrow> (string \<Rightarrow> string) \<Rightarrow> string \<Rightarrow> string + uuid" where
  "uuid_from_str parse_uuid debug s = ok_or (debug s @ '' is not a valid UUID'') (parse_uuid s)"

definition parse_revoked :: "(string \<Rightarrow> uuid option) \<Rightarrow> (string \<Rightarrow> string) \<Rightarrow> (string + string list) option \<Rightarrow> string + uuid list" where
  "parse_revoked parse_uuid debug revoked =
    (case revoked of
       None \<Rightarrow> Inr []
     | Some value \<Rightarrow>
         and_then (map_err (js_error ''bad_revocations'') value) (\<lambda>ids.
           try_map (\<lambda>s. map_err (js_error ''bad_revocations'') (uuid_from_str parse_uuid debug s)) ids))"

definition error_code :: "validation_error \<Rightarrow> string" where
  "error_code e = (case e of Malformed \<Rightarrow> ''malformed'' | UnsupportedVersion _ \<Rightarrow> ''unsupported_version'' | UnknownKey _ \<Rightarrow> ''unknown_key''
     | BadSignature \<Rightarrow> ''bad_signature'' | TicketExpired _ \<Rightarrow> ''expired'' | WrongTrip \<Rightarrow> ''wrong_trip'' | Revoked \<Rightarrow> ''revoked'')"

definition error_text :: "(string \<Rightarrow> string) \<Rightarrow> validation_error \<Rightarrow> string" where
  "error_text debug e = (case e of
      Malformed \<Rightarrow> ''token is malformed''
    | UnsupportedVersion v \<Rightarrow> ''unsupported ticket version '' @ nat_text (unat v)
    | UnknownKey kid \<Rightarrow> ''unknown signing key '' @ debug kid @ '' '' @ [CHR 0xE2, CHR 0x80, CHR 0x94] @ '' refresh the cached key set''
    | BadSignature \<Rightarrow> ''signature verification failed''
    | TicketExpired t \<Rightarrow> ''ticket expired at '' @ int_text t
    | WrongTrip \<Rightarrow> ''ticket is for a different trip''
    | Revoked \<Rightarrow> ''ticket was revoked (refunded or cancelled)'')"

definition validation_error_to_js :: "(string \<Rightarrow> string) \<Rightarrow> validation_error \<Rightarrow> string" where
  "validation_error_to_js debug e = js_error (error_code e) (error_text debug e)"

definition js_verify_with_revocations :: "wire \<Rightarrow> (string \<Rightarrow> uuid option) \<Rightarrow> (string \<Rightarrow> string) \<Rightarrow> string \<Rightarrow> string + key_entry list \<Rightarrow>
    real \<Rightarrow> string option \<Rightarrow> (string + string list) option \<Rightarrow> string + verified_ticket" where
  "js_verify_with_revocations w parse_uuid debug token keys now_unix expected_trip revoked =
    and_then (map_err (js_error ''bad_key_set'') keys) (\<lambda>keys.
    and_then (case expected_trip of
        Some s \<Rightarrow> if s \<noteq> [] then map_err (js_error ''bad_expected_trip'') (and_then (uuid_from_str parse_uuid debug s) (\<lambda>u. Inr (Some u))) else Inr None
      | None \<Rightarrow> Inr None) (\<lambda>expected.
    and_then (parse_revoked parse_uuid debug revoked) (\<lambda>revoked_ids.
      map_err (validation_error_to_js debug) (verify_ticket_with_revocations w token keys (f64_as_i64 now_unix) expected revoked_ids))))"

definition js_verify :: "wire \<Rightarrow> (string \<Rightarrow> uuid option) \<Rightarrow> (string \<Rightarrow> string) \<Rightarrow> string \<Rightarrow> string + key_entry list \<Rightarrow>
    real \<Rightarrow> string option \<Rightarrow> string + verified_ticket" where
  "js_verify w parse_uuid debug token keys now_unix expected_trip =
     js_verify_with_revocations w parse_uuid debug token keys now_unix expected_trip None"

section \<open>The same verdict\<close>

lemma error_code_colon: "CHR '':'' \<notin> set (error_code e)"
  by (cases e) (auto simp: error_code_def)

lemma try_map_parsed: "(\<And>u. f (g u) = Inr u) \<Longrightarrow> try_map f (map g us) = Inr us"
  by (induction us) auto

text \<open>The browser gets the core's verdict: on well-formed arguments the binding accepts exactly the tickets the core accepts, and
  the message it throws for any other starts with the code of the core's error, which can be read back up to the colon.\<close>
theorem js_verdict_is_the_cores:
  assumes codec: "\<And>u. parse_uuid (uuid_text u) = Some u" "\<And>u. uuid_text u \<noteq> []"
  shows "(case js_verify_with_revocations w parse_uuid debug token (Inr keys) now_unix (map_option uuid_text trip) (Some (Inr (map uuid_text revoked))) of
      Inr ticket \<Rightarrow> verify_ticket_with_revocations w token keys (f64_as_i64 now_unix) trip revoked = Inr ticket
    | Inl message \<Rightarrow> (\<exists>e. verify_ticket_with_revocations w token keys (f64_as_i64 now_unix) trip revoked = Inl e
        \<and> takeWhile (\<lambda>c. c \<noteq> CHR '':'') message = error_code e))"
proof -
  have "try_map (\<lambda>s. map_err (js_error ''bad_revocations'') (uuid_from_str parse_uuid debug s)) (map uuid_text revoked) = Inr revoked"
    by (rule try_map_parsed) (simp add: uuid_from_str_def codec)
  then have run: "js_verify_with_revocations w parse_uuid debug token (Inr keys) now_unix (map_option uuid_text trip) (Some (Inr (map uuid_text revoked)))
      = map_err (validation_error_to_js debug) (verify_ticket_with_revocations w token keys (f64_as_i64 now_unix) trip revoked)"
    using codec by (cases trip) (simp_all add: js_verify_with_revocations_def parse_revoked_def uuid_from_str_def)
  have code: "takeWhile (\<lambda>c. c \<noteq> CHR '':'') (validation_error_to_js debug e) = error_code e" for e
  proof -
    have "takeWhile (\<lambda>c. c \<noteq> CHR '':'') (error_code e @ '': '' @ t) = error_code e" for t
      using error_code_colon [of e] by (subst takeWhile_append2) auto
    then show ?thesis by (simp add: validation_error_to_js_def js_error_def)
  qed
  show ?thesis unfolding run
    by (cases "verify_ticket_with_revocations w token keys (f64_as_i64 now_unix) trip revoked") (simp_all add: code)
qed

definition demo_uuid_text :: "uuid \<Rightarrow> string" where
  "demo_uuid_text u = replicate (Suc (unat (uuid_bits u))) (CHR ''u'')"

definition demo_uuid_parse :: "string \<Rightarrow> uuid option" where
  "demo_uuid_parse s = Some (Uuid (of_nat (length s - 1)))"

theorem js_verdict_is_the_cores_witness:
  "case js_verify_with_revocations toy_wire demo_uuid_parse id ''LT2.x'' (Inr []) 0 (map_option demo_uuid_text None) (Some (Inr (map demo_uuid_text []))) of
      Inr ticket \<Rightarrow> verify_ticket_with_revocations toy_wire ''LT2.x'' [] (f64_as_i64 0) None [] = Inr ticket
    | Inl message \<Rightarrow> (\<exists>e. verify_ticket_with_revocations toy_wire ''LT2.x'' [] (f64_as_i64 0) None [] = Inl e
        \<and> takeWhile (\<lambda>c. c \<noteq> CHR '':'') message = error_code e)"
proof (rule js_verdict_is_the_cores)
  show "demo_uuid_parse (demo_uuid_text u) = Some u" for u by (cases u) (simp add: demo_uuid_parse_def demo_uuid_text_def)
  show "demo_uuid_text u \<noteq> []" for u by (simp add: demo_uuid_text_def)
qed

end
