(* ===== verification/Seed.thy ===== *)
theory Seed
  imports Gtfs Fares Payments
begin

text \<open>
  The demo data, \<open>crates/lulan-api/src/seed.rs\<close>: a ferry line in both directions and a concert at an arena. Every transaction is a
  function of the tables; uuids come from a supply \<open>new\<close> that \<open>sd_next\<close> counts, the clock is the argument \<open>now\<close>. The advisory lock
  makes the transactions atomic, so several seeders are an interleaving of them. \<open>serde_json::Value\<close> is the type \<open>json\<close>, serde on
  \<open>FareRuleSet\<close> the parameter \<open>parse\<close>.
\<close>

section \<open>The demo's constants\<close>

definition STOPS :: "(string \<times> string) list" where
  "STOPS = [(''BTG'', ''Batangas''), (''CTC'', ''Caticlan''), (''ILO'', ''Iloilo''), (''CEB'', ''Cebu'')]"

definition SEGMENTS :: int where "SEGMENTS = 3"
definition DAYS :: int where "DAYS = 7"

definition STOP_SCHEDULE :: "(int \<times> int) list" where
  "STOP_SCHEDULE = [(0, 0), (240, 270), (510, 540), (780, 780)]"

text \<open>Both rule sets, keys in the order \<open>serde_json::Map\<close> keeps them.\<close>

definition num :: "nat \<Rightarrow> json" where
  "num n = JNumber (nat_text n)"

definition obj :: "(string \<times> json) list \<Rightarrow> json" where
  "obj members = JObject (sort_key fst members)"

definition ferry_rules :: json where
  "ferry_rules = obj [
     (''currency'', JString ''PHP''),
     (''base_fare_per_segment'', obj [(''economy'', num 15000), (''business'', num 30000), (''VEHICLE_DECK'', num 100000), (''CARGO_KG'', num 500)]),
     (''peak_weekdays'', JArray [num 4, num 5, num 6]),
     (''peak_surcharge_bp'', num 1500),
     (''occupancy_tiers'', JArray [obj [(''min_occupancy_bp'', num 5000), (''surcharge_bp'', num 1000)],
        obj [(''min_occupancy_bp'', num 8000), (''surcharge_bp'', num 2500)]]),
     (''advance_purchase_tiers'', JArray [obj [(''min_days'', num 7), (''discount_bp'', num 1000)],
        obj [(''min_days'', num 14), (''discount_bp'', num 2000)]]),
     (''promos'', obj [(''BAGONGBYAHE'', num 500)]),
     (''round_trip_discount_bp'', num 1000),
     (''passenger_type_discounts'', obj [(''senior'', num 2000), (''pwd'', num 2000), (''child'', num 5000), (''infant'', num 10000)])]"

definition arena_rules :: json where
  "arena_rules = obj [
     (''currency'', JString ''USD''),
     (''base_fare_per_segment'', obj [(''vip'', num 25000), (''lower_box'', num 12000), (''upper_box'', num 7500), (''GENERAL_ADMISSION'', num 4500)]),
     (''peak_weekdays'', JArray [num 4, num 5, num 6]),
     (''peak_surcharge_bp'', num 1000),
     (''occupancy_tiers'', JArray [obj [(''min_occupancy_bp'', num 8000), (''surcharge_bp'', num 1500)]]),
     (''advance_purchase_tiers'', JArray [obj [(''min_days'', num 14), (''discount_bp'', num 1000)]]),
     (''promos'', obj [(''EARLYBIRD'', num 1500)]),
     (''round_trip_discount_bp'', num 0),
     (''passenger_type_discounts'', obj [(''child'', num 5000), (''senior'', num 2000), (''pwd'', num 2000), (''infant'', num 10000)])]"

text \<open>Code, name, kind, price in minor units, per, scope.\<close>

definition ancillary_catalog :: "(string \<times> string \<times> string \<times> int \<times> string \<times> string) list" where
  "ancillary_catalog = [
     (''BAG20'', ''Checked bag 20 kg'', ''baggage'', 25000, ''passenger'', ''journey''),
     (''MEAL_STD'', ''Onboard meal'', ''meal'', 12000, ''passenger'', ''journey''),
     (''INSURE'', ''Travel insurance'', ''insurance'', 15000, ''passenger'', ''itinerary''),
     (''PRIORITY'', ''Priority boarding'', ''service'', 8000, ''passenger'', ''journey'')]"

text \<open>Rows 1 to 3 business, 4 to 13 economy, letters A to D.\<close>

definition ferry_seats :: "(string \<times> string) list" where
  "ferry_seats = concat (map (\<lambda>row. map (\<lambda>letter. (nat_text row @ [letter], if row \<le> 3 then ''business'' else ''economy'')) ''ABCD'') [1..<14])"

definition ferry_pools :: "(string \<times> int) list" where
  "ferry_pools = [(''VEHICLE_DECK'', 20), (''CARGO_KG'', 5000)]"

definition ARENA_SECTIONS :: "(string \<times> string \<times> nat) list" where
  "ARENA_SECTIONS = [(''VIP'', ''vip'', 20), (''LOWER'', ''lower_box'', 40), (''UPPER'', ''upper_box'', 40)]"

definition ARENA_GA_CAPACITY :: int where "ARENA_GA_CAPACITY = 5000"

definition arena_seats :: "(string \<times> string) list" where
  "arena_seats = concat (map (\<lambda>(prefix, fare_class, n). map (\<lambda>i. (prefix @ ''-'' @ nat_text i, fare_class)) [1..<Suc n]) ARENA_SECTIONS)"

section \<open>State and rows\<close>

record seeder =
  sd_db :: db
  sd_fares :: "json fare_rules_row list"
  sd_ancillaries :: "ancillary_row list"
  sd_next :: nat

datatype seed_error = SeedDb | BadRules | NoOutbound | NoOperator | NoTrip | NoSeat

type_synonym draft = "db \<times> nat"

definition seed_location :: "(nat \<Rightarrow> uuid) \<Rightarrow> string \<times> string \<Rightarrow> draft \<times> uuid list \<Rightarrow> seed_error + draft \<times> uuid list" where
  "seed_location new = (\<lambda>(code, name) ((d, n), ids).
    if list_ex (\<lambda>l. lo_id l = new n \<or> lo_code l = code) (locations d) then Inl SeedDb
    else Inr ((d\<lparr>locations := locations d @ [\<lparr>lo_id = new n, lo_code = code, lo_name = name, lo_timezone = ''Asia/Manila''\<rparr>]\<rparr>, Suc n),
           ids @ [new n]))"

definition seed_operator :: "(nat \<Rightarrow> uuid) \<Rightarrow> string \<Rightarrow> string \<Rightarrow> draft \<Rightarrow> seed_error + draft \<times> uuid" where
  "seed_operator new code name = (\<lambda>(d, n).
    if list_ex (\<lambda>p. op_id p = new n \<or> op_code p = code) (operators d) then Inl SeedDb
    else Inr ((d\<lparr>operators := operators d @ [\<lparr>op_id = new n, op_code = code, op_name = name\<rparr>]\<rparr>, Suc n), new n))"

definition seed_route :: "(nat \<Rightarrow> uuid) \<Rightarrow> string \<Rightarrow> string \<Rightarrow> draft \<Rightarrow> seed_error + draft \<times> uuid" where
  "seed_route new code name = (\<lambda>(d, n).
    if list_ex (\<lambda>r. ro_id r = new n \<or> ro_code r = code) (routes d) then Inl SeedDb
    else Inr ((d\<lparr>routes := routes d @ [\<lparr>ro_id = new n, ro_code = code, ro_name = name\<rparr>]\<rparr>, Suc n), new n))"

definition seed_stop :: "uuid \<Rightarrow> (int \<times> int) list \<Rightarrow> nat \<times> uuid \<Rightarrow> db \<Rightarrow> seed_error + db" where
  "seed_stop rid schedule = (\<lambda>(index, loc) d.
    if i16 (int index) < 0 \<or> list_ex (\<lambda>s. rs_route s = rid \<and> (rs_stop_index s = i16 (int index) \<or> rs_location s = loc)) (route_stops d)
    then Inl SeedDb
    else Inr (d\<lparr>route_stops := route_stops d @ [\<lparr>rs_route = rid, rs_stop_index = i16 (int index), rs_location = loc,
           rs_arrive_offset = fst (schedule ! index), rs_depart_offset = snd (schedule ! index)\<rparr>]\<rparr>))"

definition seed_resource :: "(nat \<Rightarrow> uuid) \<Rightarrow> string \<Rightarrow> string \<Rightarrow> string \<Rightarrow> draft \<Rightarrow> seed_error + draft \<times> uuid" where
  "seed_resource new code name kind = (\<lambda>(d, n).
    if list_ex (\<lambda>r. re_id r = new n \<or> re_code r = code) (resources d) then Inl SeedDb
    else Inr ((d\<lparr>resources := resources d @ [\<lparr>re_id = new n, re_code = code, re_name = name, re_kind = kind\<rparr>]\<rparr>, Suc n), new n))"

definition seed_seat :: "(nat \<Rightarrow> uuid) \<Rightarrow> uuid \<Rightarrow> string \<times> string \<Rightarrow> draft \<times> (uuid \<times> string) list \<Rightarrow> seed_error + draft \<times> (uuid \<times> string) list" where
  "seed_seat new res_id = (\<lambda>(code, fare_class) ((d, n), ids).
    and_then (map_err (\<lambda>_. SeedDb) (insert_unit \<lparr>cu_id = new n, cu_resource = res_id, cu_kind = ''seat'', cu_code = code,
        cu_fare_class = Some fare_class, cu_pool_capacity = None, cu_admission = False\<rparr> d)) (\<lambda>d'. Inr ((d', Suc n), ids @ [(new n, code)])))"

definition seed_pool :: "(nat \<Rightarrow> uuid) \<Rightarrow> uuid \<Rightarrow> bool \<Rightarrow> string \<times> int \<Rightarrow> draft \<times> (uuid \<times> int) list \<Rightarrow> seed_error + draft \<times> (uuid \<times> int) list" where
  "seed_pool new res_id admission = (\<lambda>(code, capacity) ((d, n), ids).
    and_then (map_err (\<lambda>_. SeedDb) (insert_unit \<lparr>cu_id = new n, cu_resource = res_id, cu_kind = ''pool'', cu_code = code,
        cu_fare_class = None, cu_pool_capacity = Some capacity, cu_admission = admission\<rparr> d)) (\<lambda>d'. Inr ((d', Suc n), ids @ [(new n, capacity)])))"

text \<open>A departure: its row and an occupancy row per unit. Here a second departure at the same time is an error.\<close>

definition seed_trip :: "trip_row \<Rightarrow> (uuid \<times> int option) list \<Rightarrow> db \<Rightarrow> seed_error + db" where
  "seed_trip row units d =
    (if \<not> (1 \<le> tr_segment_count row \<and> tr_segment_count row \<le> 64)
        \<or> list_ex (\<lambda>t. tr_route t = tr_route row \<and> tr_resource t = tr_resource row \<and> tr_departs_at t = tr_departs_at row) (trips d)
        \<or> list_ex (\<lambda>t. tr_id t = tr_id row) (trips d)
     then Inl SeedDb
     else map_err (\<lambda>_. SeedDb) (try_fold (insert_occupancy (tr_id row) (tr_segment_count row)) units (d\<lparr>trips := trips d @ [row]\<rparr>)))"

definition sailing_row :: "uuid \<Rightarrow> uuid \<Rightarrow> uuid \<Rightarrow> uuid \<Rightarrow> string \<Rightarrow> int \<Rightarrow> instant \<Rightarrow> int \<Rightarrow> trip_row" where
  "sailing_row i rid res_id operator_id number date clock segments =
    \<lparr>tr_id = i, tr_route = rid, tr_resource = res_id, tr_service_date = date, tr_departs_at = date * hours 24 + clock,
     tr_segment_count = segments, tr_operator = Some operator_id, tr_service_number = Some number, tr_status = ''scheduled''\<rparr>"

definition seed_sailing :: "(nat \<Rightarrow> uuid) \<Rightarrow> uuid \<Rightarrow> uuid \<Rightarrow> uuid \<Rightarrow> instant \<Rightarrow> int \<Rightarrow> (uuid \<times> int option) list \<Rightarrow> string \<times> int \<Rightarrow>
    draft \<times> uuid list \<Rightarrow> seed_error + draft \<times> uuid list" where
  "seed_sailing new rid res_id operator_id clock segments units = (\<lambda>(number, date) ((d, n), ids).
    and_then (seed_trip (sailing_row (new n) rid res_id operator_id number date clock segments) units d) (\<lambda>d'.
      Inr ((d', Suc n), ids @ [new n])))"

section \<open>Fare rules and ancillaries\<close>

definition current_rules :: "json fare_rules_row list \<Rightarrow> json option" where
  "current_rules rows = (case sort_key (\<lambda>r. - fr_created_at r) (filter fr_active rows) of [] \<Rightarrow> None | r # _ \<Rightarrow> Some (fr_rules r))"

definition replace_rules :: "(nat \<Rightarrow> uuid) \<Rightarrow> instant \<Rightarrow> json \<Rightarrow> seeder \<Rightarrow> seed_error + seeder" where
  "replace_rules new now rules s =
    (case insert_unique fr_id \<lparr>fr_id = new (sd_next s), fr_active = True, fr_rules = rules, fr_created_at = now\<rparr>
            (update_where fr_active (\<lambda>r. r\<lparr>fr_active := False\<rparr>) (sd_fares s)) of
       None \<Rightarrow> Inl SeedDb
     | Some rows \<Rightarrow> Inr (s\<lparr>sd_fares := rows, sd_next := Suc (sd_next s)\<rparr>))"

definition seed_fare_rules :: "(json \<Rightarrow> string + fare_rule_set) \<Rightarrow> (nat \<Rightarrow> uuid) \<Rightarrow> instant \<Rightarrow> seeder \<Rightarrow> seed_error + seeder" where
  "seed_fare_rules parse new now s =
    (case parse ferry_rules of
       Inl _ \<Rightarrow> Inl BadRules
     | Inr _ \<Rightarrow> if current_rules (sd_fares s) = Some ferry_rules then Inr s else replace_rules new now ferry_rules s)"

text \<open>One turn of the loop of \<open>seed_ancillaries\<close>: its own statement, so its own transaction.\<close>

definition seed_ancillary :: "(nat \<Rightarrow> uuid) \<Rightarrow> string \<times> string \<times> string \<times> int \<times> string \<times> string \<Rightarrow> seeder \<Rightarrow> seed_error + seeder" where
  "seed_ancillary new = (\<lambda>(code, name, kind, price, per, scope) s.
    if list_ex (\<lambda>a. an_code a = code) (sd_ancillaries s) then Inr (s\<lparr>sd_next := Suc (sd_next s)\<rparr>)
    else if list_ex (\<lambda>a. an_id a = new (sd_next s)) (sd_ancillaries s) then Inl SeedDb
    else Inr (s\<lparr>sd_ancillaries := sd_ancillaries s @ [\<lparr>an_id = new (sd_next s), an_code = code, an_name = name, an_description = [],
           an_kind = kind, an_price_minor = price, an_per = per, an_scope = scope, an_active = True\<rparr>], sd_next := Suc (sd_next s)\<rparr>))"

section \<open>The ferry network\<close>

definition has_route :: "string \<Rightarrow> db \<Rightarrow> bool" where
  "has_route code d = list_ex (\<lambda>r. ro_code r = code) (routes d)"

text \<open>The tables of the outbound transaction, up to the seat that is marked as sold.\<close>

definition outbound_tables :: "(nat \<Rightarrow> uuid) \<Rightarrow> int \<Rightarrow> draft \<Rightarrow> seed_error + draft \<times> uuid list \<times> (uuid \<times> string) list" where
  "outbound_tables new today dn =
    and_then (try_fold (seed_location new) STOPS (dn, [])) (\<lambda>(dn, location_ids).
    and_then (seed_operator new ''LUL'' ''Lulan Ferries'' dn) (\<lambda>(dn, operator_id).
    and_then (seed_route new ''BTG-CEB'' (''Batangas '' @ [CHR 0xE2, CHR 0x80, CHR 0x93] @ '' Cebu'') dn) (\<lambda>((d, n), rid).
    and_then (try_fold (seed_stop rid STOP_SCHEDULE) (zip [0..<length location_ids] location_ids) d) (\<lambda>d.
    and_then (seed_resource new ''MV-LULAN-1'' ''MV Lulan One'' ''ferry'' (d, n)) (\<lambda>(dn, res_id).
    and_then (try_fold (seed_seat new res_id) ferry_seats (dn, [])) (\<lambda>(dn, seat_ids).
    and_then (try_fold (seed_pool new res_id False) ferry_pools (dn, [])) (\<lambda>(dn, pool_ids).
    and_then (try_fold (seed_sailing new rid res_id operator_id 0 SEGMENTS
          (map (\<lambda>(i, _). (i, None)) seat_ids @ map (\<lambda>(i, c). (i, Some c)) pool_ids))
        (map (\<lambda>day. (''LUL 501'', today + day)) [0..DAYS - 1]) (dn, [])) (\<lambda>(dn, trip_ids).
    Inr (dn, trip_ids, seat_ids)))))))))"

definition sell_12A :: "uuid list \<Rightarrow> (uuid \<times> string) list \<Rightarrow> db \<Rightarrow> seed_error + db" where
  "sell_12A trip_ids seat_ids d =
    and_then (case trip_ids of [] \<Rightarrow> Inl NoTrip | first # _ \<Rightarrow> Inr first) (\<lambda>first.
    and_then (ok_or NoSeat (List.find (\<lambda>(_, code). code = ''12A'') seat_ids)) (\<lambda>seat.
    Inr (d\<lparr>seat_occupancy := update_where (\<lambda>r. so_trip r = first \<and> so_unit r = fst seat) (\<lambda>r. r\<lparr>so_mask := 5\<rparr>) (seat_occupancy d)\<rparr>)))"

definition seed_outbound :: "(nat \<Rightarrow> uuid) \<Rightarrow> instant \<Rightarrow> draft \<Rightarrow> seed_error + draft" where
  "seed_outbound new now dn =
    (if has_route ''BTG-CEB'' (fst dn) then Inr dn
     else
       and_then (outbound_tables new (date_of now) dn) (\<lambda>((d, n), trip_ids, seat_ids).
       and_then (sell_12A trip_ids seat_ids d) (\<lambda>d. Inr (d, n))))"

text \<open>\<open>INSERT .. SELECT .. FROM locations WHERE code = $3\<close>: no location of that code, no row.\<close>

definition seed_return_stop :: "uuid \<Rightarrow> nat \<times> string \<Rightarrow> db \<Rightarrow> seed_error + db" where
  "seed_return_stop rid = (\<lambda>(index, code) d.
    try_fold (\<lambda>l. seed_stop rid STOP_SCHEDULE (index, lo_id l)) (filter (\<lambda>l. lo_code l = code) (locations d)) d)"

definition seed_return_route :: "(nat \<Rightarrow> uuid) \<Rightarrow> instant \<Rightarrow> draft \<Rightarrow> seed_error + draft" where
  "seed_return_route new now = (\<lambda>(d, n).
    if has_route ''CEB-BTG'' d then Inr (d, n)
    else
      and_then (ok_or NoOutbound (List.find (\<lambda>r. re_code r = ''MV-LULAN-1'') (resources d))) (\<lambda>res.
      and_then (ok_or NoOperator (List.find (\<lambda>p. op_code p = ''LUL'') (operators d))) (\<lambda>opr.
      and_then (seed_route new ''CEB-BTG'' (''Cebu '' @ [CHR 0xE2, CHR 0x80, CHR 0x93] @ '' Batangas'') (d, n)) (\<lambda>((d, n), rid).
      and_then (try_fold (seed_return_stop rid) (zip [0..<length STOPS] (rev (map fst STOPS))) d) (\<lambda>d.
      and_then (try_fold (seed_sailing new rid (re_id res) (op_id opr) (hours 12) SEGMENTS
            (map (\<lambda>u. (cu_id u, cu_pool_capacity u)) (filter (\<lambda>u. cu_resource u = re_id res) (capacity_units d))))
          (map (\<lambda>day. (''LUL 502'', date_of now + day)) [0..DAYS - 1]) ((d, n), [])) (\<lambda>(dn, trip_ids).
      Inr dn))))))"

text \<open>The transactions of \<open>seed\<close>, in order; what committed before an error stays.\<close>

definition on_db :: "(draft \<Rightarrow> seed_error + draft) \<Rightarrow> seeder \<Rightarrow> seed_error + seeder" where
  "on_db f s = and_then (f (sd_db s, sd_next s)) (\<lambda>(d, n). Inr (s\<lparr>sd_db := d, sd_next := n\<rparr>))"

definition seed_steps :: "(json \<Rightarrow> string + fare_rule_set) \<Rightarrow> (nat \<Rightarrow> uuid) \<Rightarrow> instant \<Rightarrow> (seeder \<Rightarrow> seed_error + seeder) list" where
  "seed_steps parse new now = seed_fare_rules parse new now # map (seed_ancillary new) ancillary_catalog
     @ [on_db (seed_outbound new now), on_db (seed_return_route new now)]"

fun run_steps :: "(seeder \<Rightarrow> seed_error + seeder) list \<Rightarrow> seeder \<Rightarrow> seeder \<times> (seed_error + unit)" where
  "run_steps [] s = (s, Inr ())"
| "run_steps (f # fs) s = (case f s of Inl e \<Rightarrow> (s, Inl e) | Inr s' \<Rightarrow> run_steps fs s')"

definition seed :: "(json \<Rightarrow> string + fare_rule_set) \<Rightarrow> (nat \<Rightarrow> uuid) \<Rightarrow> instant \<Rightarrow> seeder \<Rightarrow> seeder \<times> (seed_error + unit)" where
  "seed parse new now = run_steps (seed_steps parse new now)"

text \<open>Seeders that start together: each turn runs the next transaction of one of them, as the lock lets it.\<close>

record race =
  rc_tables :: seeder
  rc_cursor :: "nat \<Rightarrow> nat"
  rc_failed :: "nat list"

definition seeder_turn :: "(json \<Rightarrow> string + fare_rule_set) \<Rightarrow> (nat \<Rightarrow> uuid) \<Rightarrow> (nat \<Rightarrow> instant) \<Rightarrow> nat \<Rightarrow> race \<Rightarrow> race" where
  "seeder_turn parse new now i r =
    (let steps = seed_steps parse new (now i); k = rc_cursor r i
     in if k < length steps then
          (case (steps ! k) (rc_tables r) of
             Inl _ \<Rightarrow> r\<lparr>rc_cursor := (rc_cursor r)(i := length steps), rc_failed := rc_failed r @ [i]\<rparr>
           | Inr s \<Rightarrow> r\<lparr>rc_tables := s, rc_cursor := (rc_cursor r)(i := Suc k)\<rparr>)
        else r)"

definition start_race :: "seeder \<Rightarrow> race" where
  "start_race s = \<lparr>rc_tables = s, rc_cursor = (\<lambda>_. 0), rc_failed = []\<rparr>"

definition run_race :: "(json \<Rightarrow> string + fare_rule_set) \<Rightarrow> (nat \<Rightarrow> uuid) \<Rightarrow> (nat \<Rightarrow> instant) \<Rightarrow> nat list \<Rightarrow> seeder \<Rightarrow> race" where
  "run_race parse new now schedule s = fold (seeder_turn parse new now) schedule (start_race s)"

section \<open>The concert\<close>

definition seed_arena :: "(nat \<Rightarrow> uuid) \<Rightarrow> instant \<Rightarrow> draft \<Rightarrow> seed_error + draft" where
  "seed_arena new now dn =
    and_then (try_fold (seed_location new) [(''DOORS'', ''Doors open''), (''END'', ''Show ends'')] (dn, [])) (\<lambda>(dn, loc_ids).
    and_then (seed_operator new ''SRN'' ''Sirena Live'' dn) (\<lambda>(dn, operator_id).
    and_then (seed_route new ''ARENA-SHOW'' ''Sirena Live at the Big Dome'' dn) (\<lambda>((d, n), rid).
    and_then (try_fold (seed_stop rid [(0, 0), (180, 180)]) (zip [0..<length loc_ids] loc_ids) d) (\<lambda>d.
    and_then (seed_resource new ''ARENA-1'' ''The Big Dome'' ''other'' (d, n)) (\<lambda>(dn, res_id).
    and_then (try_fold (seed_seat new res_id) arena_seats (dn, [])) (\<lambda>(dn, seat_ids).
    and_then (seed_pool new res_id True (''GENERAL_ADMISSION'', ARENA_GA_CAPACITY) (dn, [])) (\<lambda>(dn, ga_ids).
    and_then (try_fold (seed_sailing new rid res_id operator_id (hours 12) 1
          (map (\<lambda>(i, _). (i, None)) seat_ids @ map (\<lambda>(i, c). (i, Some c)) ga_ids))
        (map (\<lambda>(idx, day). (''NIGHT '' @ nat_text (idx + 1), date_of now + day)) [(0, 2), (1, 3), (2, 4)]) (dn, [])) (\<lambda>(dn, trip_ids).
    Inr dn))))))))"

definition seed_events :: "(json \<Rightarrow> string + fare_rule_set) \<Rightarrow> (nat \<Rightarrow> uuid) \<Rightarrow> instant \<Rightarrow> seeder \<Rightarrow> seed_error + seeder" where
  "seed_events parse new now s =
    (case parse arena_rules of
       Inl _ \<Rightarrow> Inl BadRules
     | Inr _ \<Rightarrow>
         if has_route ''ARENA-SHOW'' (sd_db s) then Inr s
         else and_then (replace_rules new now arena_rules s) (on_db (seed_arena new now)))"

end
