(* ===== verification/Seed_Properties.thy ===== *)
theory Seed_Properties
  imports Seed
begin

text \<open>
  What the seeders do. The insertion loops have closed results as long as the ids are fresh and the codes are free; from these
  follow that interleaved seeders never collide, that seeding again changes nothing, that no booking is disturbed, and what a
  freshly seeded database offers for sale.
\<close>

section \<open>The insertion loops\<close>

definition location_rows :: "(nat \<Rightarrow> uuid) \<Rightarrow> nat \<Rightarrow> (string \<times> string) list \<Rightarrow> location_row list" where
  "location_rows new n cs = map (\<lambda>(i, code, name). \<lparr>lo_id = new i, lo_code = code, lo_name = name, lo_timezone = ''Asia/Manila''\<rparr>)
     (zip [n..<n + length cs] cs)"

lemma fst_not_in: "a \<notin> fst ` A \<Longrightarrow> (a, b) \<notin> A"
  by force

text \<open>A supply has \<open>l\<close> ids to give, from the \<open>n\<close>th on different from each other and from those of \<open>A\<close>.\<close>

definition fresh_ids :: "(nat \<Rightarrow> uuid) \<Rightarrow> nat \<Rightarrow> nat \<Rightarrow> uuid set \<Rightarrow> bool" where
  "fresh_ids new n l A \<longleftrightarrow> inj_on new {n..<l} \<and> (\<forall>m. n \<le> m \<and> m < l \<longrightarrow> new m \<notin> A)"

lemma fresh_ids_eq: "fresh_ids new n l A \<Longrightarrow> n \<le> a \<Longrightarrow> a < l \<Longrightarrow> n \<le> b \<Longrightarrow> b < l \<Longrightarrow> new a = new b \<longleftrightarrow> a = b"
  by (auto simp: fresh_ids_def dest: inj_onD)

lemma fresh_ids_more:
  assumes "fresh_ids new n l A" "n \<le> k" "B \<subseteq> A \<union> new ` {n..<k}"
  shows "fresh_ids new k l B"
proof -
  have "new m \<notin> new ` {n..<k}" if "k \<le> m" "m < l" for m
    using fresh_ids_eq [OF assms(1)] assms(2) that by auto
  moreover have "new m \<notin> A" if "k \<le> m" "m < l" for m using assms(1,2) that by (simp add: fresh_ids_def)
  moreover have "inj_on new {k..<l}" using assms(1,2) by (auto simp: fresh_ids_def intro: inj_on_subset)
  ultimately show ?thesis using assms(3) unfolding fresh_ids_def by blast
qed

lemma fresh_ids_now: "fresh_ids new n l A \<Longrightarrow> n < l \<Longrightarrow> new n \<notin> A"
  by (simp add: fresh_ids_def)

lemma new_distinct: "fresh_ids new n l A \<Longrightarrow> n \<le> a \<Longrightarrow> b \<le> l \<Longrightarrow> distinct (map new [a..<b])"
  by (auto simp: fresh_ids_def distinct_map intro: inj_on_subset)

lemma not_in_image: "k \<notin> f ` A \<longleftrightarrow> (\<forall>x\<in>A. f x \<noteq> k)"
  by auto

lemma seed_locations:
  assumes "fresh_ids new n l (lo_id ` set (locations d))" "n + length cs \<le> l" "distinct (map fst cs)" "fst ` set cs \<inter> lo_code ` set (locations d) = {}"
  shows "try_fold (seed_location new) cs ((d, n), ids)
    = Inr ((d\<lparr>locations := locations d @ location_rows new n cs\<rparr>, n + length cs), ids @ map new [n..<n + length cs])"
  using assms
proof (induction cs arbitrary: d n ids)
  case (Cons c cs)
  obtain code name where c: "c = (code, name)" by force
  let ?d = "d\<lparr>locations := locations d @ [\<lparr>lo_id = new n, lo_code = code, lo_name = name, lo_timezone = ''Asia/Manila''\<rparr>]\<rparr>"
  have now: "new n \<notin> lo_id ` set (locations d)" using fresh_ids_now [OF Cons.prems(1)] Cons.prems(2) by simp
  have step: "seed_location new c ((d, n), ids) = Inr ((?d, Suc n), ids @ [new n])"
    using now Cons.prems(4) by (auto simp: seed_location_def c list_ex_iff not_in_image)
  have "try_fold (seed_location new) cs ((?d, Suc n), ids @ [new n])
    = Inr ((?d\<lparr>locations := locations ?d @ location_rows new (Suc n) cs\<rparr>, Suc n + length cs), (ids @ [new n]) @ map new [Suc n..<Suc n + length cs])"
    by (rule Cons.IH [OF fresh_ids_more [OF Cons.prems(1)]]) (use Cons.prems(2-4) in \<open>auto simp: c\<close>)
  then show ?case by (simp add: step [unfolded c] location_rows_def upt_conv_Cons c del: upt_Suc)
qed (simp add: location_rows_def)

lemma seed_locations_to:
  assumes "fresh_ids new n l (lo_id ` set (locations d))" "n + length cs \<le> l" "distinct (map fst cs)" "fst ` set cs \<inter> lo_code ` set (locations d) = {}"
    and "n' = n + length cs"
  shows "try_fold (seed_location new) cs ((d, n), ids)
    = Inr ((d\<lparr>locations := locations d @ location_rows new n cs\<rparr>, n'), ids @ map new [n..<n'])"
  using seed_locations [OF assms(1-4)] assms(5) by simp

definition stop_row :: "uuid \<Rightarrow> (int \<times> int) list \<Rightarrow> nat \<times> uuid \<Rightarrow> route_stop_row" where
  "stop_row rid schedule x = \<lparr>rs_route = rid, rs_stop_index = i16 (int (fst x)), rs_location = snd x,
     rs_arrive_offset = fst (schedule ! fst x), rs_depart_offset = snd (schedule ! fst x)\<rparr>"

lemma seed_stops:
  assumes "distinct (map (\<lambda>x. i16 (int (fst x))) xs)" "distinct (map snd xs)" "\<forall>x\<in>set xs. 0 \<le> i16 (int (fst x))"
    and "\<forall>s\<in>set (route_stops d). rs_route s = rid \<longrightarrow> rs_stop_index s \<notin> (\<lambda>x. i16 (int (fst x))) ` set xs \<and> rs_location s \<notin> snd ` set xs"
  shows "try_fold (seed_stop rid schedule) xs d = Inr (d\<lparr>route_stops := route_stops d @ map (stop_row rid schedule) xs\<rparr>)"
  using assms
proof (induction xs arbitrary: d)
  case (Cons x xs)
  have step: "seed_stop rid schedule x d = Inr (d\<lparr>route_stops := route_stops d @ [stop_row rid schedule x]\<rparr>)"
    using Cons.prems by (cases x) (auto simp: seed_stop_def stop_row_def list_ex_iff)
  let ?d = "d\<lparr>route_stops := route_stops d @ [stop_row rid schedule x]\<rparr>"
  have "try_fold (seed_stop rid schedule) xs ?d = Inr (?d\<lparr>route_stops := route_stops ?d @ map (stop_row rid schedule) xs\<rparr>)"
    by (rule Cons.IH) (use Cons.prems in \<open>auto simp: stop_row_def\<close>)
  then show ?case by (simp add: step)
qed simp

lemma i16_small: "i < 32768 \<Longrightarrow> i16 (int i) = int i"
  by (simp add: i16_def signed_take_bit_int_eq_self)

lemma seed_stop_list:
  assumes "distinct ls" "length ls = k" "k \<le> 4" "rid \<notin> rs_route ` set (route_stops d)"
  shows "try_fold (seed_stop rid schedule) (zip [0..<k] ls) d = Inr (d\<lparr>route_stops := route_stops d @ map (stop_row rid schedule) (zip [0..<k] ls)\<rparr>)"
  unfolding assms(2) [symmetric]
proof (rule seed_stops)
  have idx: "i16 (int (fst x)) = int (fst x)" if "x \<in> set (zip [0..<length ls] ls)" for x
  proof -
    have "fst x \<in> set [0..<length ls]" using that by (metis set_zip_leftD surjective_pairing)
    then show ?thesis using assms(2,3) by (intro i16_small) simp
  qed
  have "map (\<lambda>x. i16 (int (fst x))) (zip [0..<length ls] ls) = map (\<lambda>x. int (fst x)) (zip [0..<length ls] ls)"
    by (rule map_cong [OF refl idx])
  also have "\<dots> = map int (map fst (zip [0..<length ls] ls))" by (simp only: map_map o_def)
  also have "\<dots> = map int [0..<length ls]" by simp
  finally have "map (\<lambda>x. i16 (int (fst x))) (zip [0..<length ls] ls) = map int [0..<length ls]" .
  then show "distinct (map (\<lambda>x. i16 (int (fst x))) (zip [0..<length ls] ls))" by (simp add: distinct_map)
  show "\<forall>x\<in>set (zip [0..<length ls] ls). 0 \<le> i16 (int (fst x))" using idx by simp
qed (use assms in auto)

definition seat_row :: "(nat \<Rightarrow> uuid) \<Rightarrow> uuid \<Rightarrow> nat \<times> string \<times> string \<Rightarrow> capacity_unit_row" where
  "seat_row new res_id = (\<lambda>(i, code, fare_class). \<lparr>cu_id = new i, cu_resource = res_id, cu_kind = ''seat'', cu_code = code,
     cu_fare_class = Some fare_class, cu_pool_capacity = None, cu_admission = False\<rparr>)"

definition pool_row :: "(nat \<Rightarrow> uuid) \<Rightarrow> uuid \<Rightarrow> bool \<Rightarrow> nat \<times> string \<times> int \<Rightarrow> capacity_unit_row" where
  "pool_row new res_id admission = (\<lambda>(i, code, capacity). \<lparr>cu_id = new i, cu_resource = res_id, cu_kind = ''pool'', cu_code = code,
     cu_fare_class = None, cu_pool_capacity = Some capacity, cu_admission = admission\<rparr>)"

lemma seat_row_facts:
  assumes "x \<in> set (map (seat_row new res_id) (zip ns cs))"
  obtains i c where "i \<in> set ns" "c \<in> set cs" "cu_id x = new i" "cu_code x = fst c" "cu_resource x = res_id" "cu_pool_capacity x = None"
proof -
  from assms obtain i c where "(i, c) \<in> set (zip ns cs)" "x = seat_row new res_id (i, c)" by auto
  with that [of i c] show thesis by (auto simp: seat_row_def split: prod.splits dest: set_zip_leftD set_zip_rightD)
qed

lemma pool_row_facts:
  assumes "x \<in> set (map (pool_row new res_id adm) (zip ns cs))"
  obtains i c where "i \<in> set ns" "c \<in> set cs" "cu_id x = new i" "cu_code x = fst c" "cu_resource x = res_id" "cu_pool_capacity x = Some (snd c)"
proof -
  from assms obtain i c where "(i, c) \<in> set (zip ns cs)" "x = pool_row new res_id adm (i, c)" by auto
  with that [of i c] show thesis by (auto simp: pool_row_def split: prod.splits dest: set_zip_leftD set_zip_rightD)
qed

lemma seed_seats:
  assumes "fresh_ids new n l (cu_id ` set (capacity_units d))" "n + length cs \<le> l" "distinct (map fst cs)"
    and "\<forall>u\<in>set (capacity_units d). cu_resource u = res_id \<longrightarrow> cu_code u \<notin> fst ` set cs"
  shows "try_fold (seed_seat new res_id) cs ((d, n), ids)
    = Inr ((d\<lparr>capacity_units := capacity_units d @ map (seat_row new res_id) (zip [n..<n + length cs] cs)\<rparr>, n + length cs),
        ids @ zip (map new [n..<n + length cs]) (map fst cs))"
  using assms
proof (induction cs arbitrary: d n ids)
  case (Cons c cs)
  let ?d = "d\<lparr>capacity_units := capacity_units d @ [seat_row new res_id (n, c)]\<rparr>"
  have now: "new n \<notin> cu_id ` set (capacity_units d)" using fresh_ids_now [OF Cons.prems(1)] Cons.prems(2) by simp
  have step: "seed_seat new res_id c ((d, n), ids) = Inr ((?d, Suc n), ids @ [(new n, fst c)])"
    using now Cons.prems(4) by (auto simp: seed_seat_def seat_row_def insert_unit_def list_ex_iff not_in_image split: prod.splits)
  have "try_fold (seed_seat new res_id) cs ((?d, Suc n), ids @ [(new n, fst c)])
    = Inr ((?d\<lparr>capacity_units := capacity_units ?d @ map (seat_row new res_id) (zip [Suc n..<Suc n + length cs] cs)\<rparr>, Suc n + length cs),
        (ids @ [(new n, fst c)]) @ zip (map new [Suc n..<Suc n + length cs]) (map fst cs))"
    by (rule Cons.IH [OF fresh_ids_more [OF Cons.prems(1)]]) (use Cons.prems(2-4) in \<open>auto simp: seat_row_def split: prod.splits dest: fst_not_in\<close>)
  then show ?case by (simp add: step upt_conv_Cons del: upt_Suc)
qed simp

lemma seed_seats_to:
  assumes "fresh_ids new n l (cu_id ` set (capacity_units d))" "n + length cs \<le> l" "distinct (map fst cs)"
    and "\<forall>u\<in>set (capacity_units d). cu_resource u = res_id \<longrightarrow> cu_code u \<notin> fst ` set cs"
    and "n' = n + length cs"
  shows "try_fold (seed_seat new res_id) cs ((d, n), ids)
    = Inr ((d\<lparr>capacity_units := capacity_units d @ map (seat_row new res_id) (zip [n..<n'] cs)\<rparr>, n'),
        ids @ zip (map new [n..<n']) (map fst cs))"
  using seed_seats [OF assms(1-4)] assms(5) by simp

lemma seed_pools:
  assumes "fresh_ids new n l (cu_id ` set (capacity_units d))" "n + length cs \<le> l" "distinct (map fst cs)"
    and "\<forall>u\<in>set (capacity_units d). cu_resource u = res_id \<longrightarrow> cu_code u \<notin> fst ` set cs"
  shows "try_fold (seed_pool new res_id adm) cs ((d, n), ids)
    = Inr ((d\<lparr>capacity_units := capacity_units d @ map (pool_row new res_id adm) (zip [n..<n + length cs] cs)\<rparr>, n + length cs),
        ids @ zip (map new [n..<n + length cs]) (map snd cs))"
  using assms
proof (induction cs arbitrary: d n ids)
  case (Cons c cs)
  let ?d = "d\<lparr>capacity_units := capacity_units d @ [pool_row new res_id adm (n, c)]\<rparr>"
  have now: "new n \<notin> cu_id ` set (capacity_units d)" using fresh_ids_now [OF Cons.prems(1)] Cons.prems(2) by simp
  have step: "seed_pool new res_id adm c ((d, n), ids) = Inr ((?d, Suc n), ids @ [(new n, snd c)])"
    using now Cons.prems(4) by (auto simp: seed_pool_def pool_row_def insert_unit_def list_ex_iff not_in_image split: prod.splits)
  have "try_fold (seed_pool new res_id adm) cs ((?d, Suc n), ids @ [(new n, snd c)])
    = Inr ((?d\<lparr>capacity_units := capacity_units ?d @ map (pool_row new res_id adm) (zip [Suc n..<Suc n + length cs] cs)\<rparr>, Suc n + length cs),
        (ids @ [(new n, snd c)]) @ zip (map new [Suc n..<Suc n + length cs]) (map snd cs))"
    by (rule Cons.IH [OF fresh_ids_more [OF Cons.prems(1)]]) (use Cons.prems(2-4) in \<open>auto simp: pool_row_def split: prod.splits dest: fst_not_in\<close>)
  then show ?case by (simp add: step upt_conv_Cons del: upt_Suc)
qed simp

lemma seed_pools_to:
  assumes "fresh_ids new n l (cu_id ` set (capacity_units d))" "n + length cs \<le> l" "distinct (map fst cs)"
    and "\<forall>u\<in>set (capacity_units d). cu_resource u = res_id \<longrightarrow> cu_code u \<notin> fst ` set cs"
    and "n' = n + length cs"
  shows "try_fold (seed_pool new res_id adm) cs ((d, n), ids)
    = Inr ((d\<lparr>capacity_units := capacity_units d @ map (pool_row new res_id adm) (zip [n..<n'] cs)\<rparr>, n'),
        ids @ zip (map new [n..<n']) (map snd cs))"
  using seed_pools [OF assms(1-4)] assms(5) by simp

text \<open>The occupancy rows of one trip.\<close>

definition seats_of :: "uuid \<Rightarrow> (uuid \<times> int option) list \<Rightarrow> seat_occupancy_row list" where
  "seats_of t units = map (\<lambda>x. \<lparr>so_trip = t, so_unit = fst x, so_mask = 0\<rparr>) (filter (\<lambda>x. snd x = None) units)"

definition pools_of :: "uuid \<Rightarrow> int \<Rightarrow> (uuid \<times> int option) list \<Rightarrow> pool_occupancy_row list" where
  "pools_of t segs units = map (\<lambda>x. \<lparr>pl_trip = t, pl_unit = fst x, pl_remaining = replicate (nat (i32 segs)) (the (snd x))\<rparr>)
     (filter (\<lambda>x. snd x \<noteq> None) units)"

definition with_rows :: "seat_occupancy_row list \<Rightarrow> pool_occupancy_row list \<Rightarrow> db \<Rightarrow> db" where
  "with_rows seats pools d = d\<lparr>seat_occupancy := seat_occupancy d @ seats, pool_occupancy := pool_occupancy d @ pools\<rparr>"

lemma insert_occupancies:
  assumes "distinct (map fst units)" "\<forall>x\<in>set units. \<forall>c. snd x = Some c \<longrightarrow> 0 \<le> c"
    and "\<forall>x\<in>set units. (t, fst x) \<notin> seat_key ` set (seat_occupancy d) \<and> (t, fst x) \<notin> pool_key ` set (pool_occupancy d)"
  shows "try_fold (insert_occupancy t segs) units d = Inr (with_rows (seats_of t units) (pools_of t segs units) d)"
  using assms
proof (induction units arbitrary: d)
  case (Cons x xs)
  let ?d = "with_rows (seats_of t [x]) (pools_of t segs [x]) d"
  have step: "insert_occupancy t segs x d = Inr ?d"
    using Cons.prems
    by (cases x; cases "snd x")
      (auto simp: insert_occupancy_def with_rows_def seats_of_def pools_of_def list_ex_iff Let_def not_in_image)
  have "try_fold (insert_occupancy t segs) xs ?d = Inr (with_rows (seats_of t xs) (pools_of t segs xs) ?d)"
    by (rule Cons.IH) (use Cons.prems in \<open>auto simp: with_rows_def seats_of_def pools_of_def seat_key_def pool_key_def split: if_splits dest: fst_not_in\<close>)
  then show ?case by (simp add: step) (simp add: with_rows_def seats_of_def pools_of_def)
qed (simp add: with_rows_def seats_of_def pools_of_def)

text \<open>A series of departures.\<close>

definition with_trips :: "trip_row list \<Rightarrow> int \<Rightarrow> (uuid \<times> int option) list \<Rightarrow> db \<Rightarrow> db" where
  "with_trips rows segs units d = with_rows (concat (map (\<lambda>t. seats_of (tr_id t) units) rows)) (concat (map (\<lambda>t. pools_of (tr_id t) segs units) rows))
     (d\<lparr>trips := trips d @ rows\<rparr>)"

definition sailings :: "(nat \<Rightarrow> uuid) \<Rightarrow> nat \<Rightarrow> uuid \<Rightarrow> uuid \<Rightarrow> uuid \<Rightarrow> instant \<Rightarrow> int \<Rightarrow> (string \<times> int) list \<Rightarrow> trip_row list" where
  "sailings new n rid res_id operator_id clock segs days =
     map (\<lambda>(i, number, date). sailing_row (new i) rid res_id operator_id number date clock segs) (zip [n..<n + length days] days)"

lemma with_trips_simps [simp]:
  "locations (with_trips rows segs units d) = locations d" "routes (with_trips rows segs units d) = routes d"
  "operators (with_trips rows segs units d) = operators d" "route_stops (with_trips rows segs units d) = route_stops d"
  "resources (with_trips rows segs units d) = resources d" "capacity_units (with_trips rows segs units d) = capacity_units d"
  "trips (with_trips rows segs units d) = trips d @ rows"
  "seat_occupancy (with_trips rows segs units d) = seat_occupancy d @ concat (map (\<lambda>t. seats_of (tr_id t) units) rows)"
  "pool_occupancy (with_trips rows segs units d) = pool_occupancy d @ concat (map (\<lambda>t. pools_of (tr_id t) segs units) rows)"
  by (simp_all add: with_trips_def with_rows_def)

lemma occupancy_trips: "x \<in> set (seats_of t units) \<Longrightarrow> so_trip x = t" "y \<in> set (pools_of t segs units) \<Longrightarrow> pl_trip y = t"
  by (auto simp: seats_of_def pools_of_def)

lemma seed_sailings:
  assumes "fresh_ids new n l (tr_id ` set (trips d) \<union> so_trip ` set (seat_occupancy d) \<union> pl_trip ` set (pool_occupancy d))" "n + length days \<le> l"
    and "distinct (map snd days)" "\<forall>t\<in>set (trips d). tr_route t = rid \<longrightarrow> (\<forall>x\<in>set days. tr_departs_at t \<noteq> snd x * hours 24 + clock)"
    and segs: "1 \<le> segs" "segs \<le> 64" and units: "distinct (map fst units)" "\<forall>x\<in>set units. \<forall>c. snd x = Some c \<longrightarrow> 0 \<le> c"
  shows "try_fold (seed_sailing new rid res_id operator_id clock segs units) days ((d, n), ids)
    = Inr ((with_trips (sailings new n rid res_id operator_id clock segs days) segs units d, n + length days), ids @ map new [n..<n + length days])"
  using assms(1-4)
proof (induction days arbitrary: d n ids)
  case (Cons x days)
  let ?row = "sailing_row (new n) rid res_id operator_id (fst x) (snd x) clock segs"
  let ?d = "with_trips [?row] segs units d"
  have id: "tr_id ?row = new n" "tr_route ?row = rid" "tr_departs_at ?row = snd x * hours 24 + clock" "tr_segment_count ?row = segs"
    by (simp_all add: sailing_row_def)
  have new: "new n \<notin> tr_id ` set (trips d)" "new n \<notin> so_trip ` set (seat_occupancy d)" "new n \<notin> pl_trip ` set (pool_occupancy d)"
    using fresh_ids_now [OF Cons.prems(1)] Cons.prems(2) by auto
  have "try_fold (insert_occupancy (new n) segs) units (d\<lparr>trips := trips d @ [?row]\<rparr>)
      = Inr (with_rows (seats_of (new n) units) (pools_of (new n) segs units) (d\<lparr>trips := trips d @ [?row]\<rparr>))"
    by (rule insert_occupancies [OF units]) (use new in \<open>auto simp: seat_key_def pool_key_def not_in_image\<close>)
  then have trip: "seed_trip ?row units d = Inr ?d"
    using new Cons.prems(4) segs by (auto simp: seed_trip_def id list_ex_iff with_trips_def not_in_image)
  then have step: "seed_sailing new rid res_id operator_id clock segs units x ((d, n), ids) = Inr ((?d, Suc n), ids @ [new n])"
    by (cases x) (simp add: seed_sailing_def)
  have "try_fold (seed_sailing new rid res_id operator_id clock segs units) days ((?d, Suc n), ids @ [new n])
      = Inr ((with_trips (sailings new (Suc n) rid res_id operator_id clock segs days) segs units ?d, Suc n + length days),
          (ids @ [new n]) @ map new [Suc n..<Suc n + length days])"
  proof (rule Cons.IH)
    show "\<forall>t\<in>set (trips ?d). tr_route t = rid \<longrightarrow> (\<forall>x\<in>set days. tr_departs_at t \<noteq> snd x * hours 24 + clock)"
      using Cons.prems(3,4) by (auto simp: id hours_def minutes_def seconds_def)
    show "fresh_ids new (Suc n) l (tr_id ` set (trips ?d) \<union> so_trip ` set (seat_occupancy ?d) \<union> pl_trip ` set (pool_occupancy ?d))"
      by (rule fresh_ids_more [OF Cons.prems(1)]) (auto simp: id dest: occupancy_trips)
  qed (use Cons.prems in auto)
  moreover have "sailings new n rid res_id operator_id clock segs (x # days) = ?row # sailings new (Suc n) rid res_id operator_id clock segs days"
    by (cases x) (simp add: sailings_def upt_conv_Cons del: upt_Suc)
  ultimately show ?case by (simp add: step id upt_conv_Cons del: upt_Suc) (simp add: with_trips_def with_rows_def id)
qed (simp add: sailings_def with_trips_def with_rows_def)

lemma seed_sailings_to:
  assumes "fresh_ids new n l (tr_id ` set (trips d) \<union> so_trip ` set (seat_occupancy d) \<union> pl_trip ` set (pool_occupancy d))" "n + length days \<le> l"
    and "distinct (map snd days)" "\<forall>t\<in>set (trips d). tr_route t = rid \<longrightarrow> (\<forall>x\<in>set days. tr_departs_at t \<noteq> snd x * hours 24 + clock)"
    and segs: "1 \<le> segs" "segs \<le> 64" and units: "distinct (map fst units)" "\<forall>x\<in>set units. \<forall>c. snd x = Some c \<longrightarrow> 0 \<le> c"
    and "n' = n + length days"
  shows "try_fold (seed_sailing new rid res_id operator_id clock segs units) days ((d, n), ids)
    = Inr ((with_trips (sailings new n rid res_id operator_id clock segs days) segs units d, n'), ids @ map new [n..<n'])"
  using seed_sailings [OF assms(1-8)] assms(9) by simp

section \<open>The ferry network\<close>

text \<open>All ids in use, and a supply that gives none of them.\<close>

definition taken :: "db \<Rightarrow> uuid set" where
  "taken d = lo_id ` set (locations d) \<union> op_id ` set (operators d) \<union> ro_id ` set (routes d) \<union> rs_route ` set (route_stops d)
     \<union> re_id ` set (resources d) \<union> cu_id ` set (capacity_units d) \<union> cu_resource ` set (capacity_units d)
     \<union> tr_id ` set (trips d) \<union> tr_route ` set (trips d) \<union> so_trip ` set (seat_occupancy d) \<union> pl_trip ` set (pool_occupancy d)"

definition supplies :: "(nat \<Rightarrow> uuid) \<Rightarrow> nat \<Rightarrow> draft \<Rightarrow> bool" where
  "supplies new l dn \<longleftrightarrow> fresh_ids new (snd dn) l (taken (fst dn))"

definition demo_free :: "db \<Rightarrow> bool" where
  "demo_free d \<longleftrightarrow> fst ` set STOPS \<inter> lo_code ` set (locations d) = {} \<and> ''LUL'' \<notin> op_code ` set (operators d)
     \<and> ''BTG-CEB'' \<notin> ro_code ` set (routes d) \<and> ''MV-LULAN-1'' \<notin> re_code ` set (resources d)"

definition ferry_units :: "(nat \<Rightarrow> uuid) \<Rightarrow> nat \<Rightarrow> (uuid \<times> int option) list" where
  "ferry_units new n = map (\<lambda>i. (new i, None)) [n + 7..<n + 59] @ [(new (n + 59), Some 20), (new (n + 60), Some 5000)]"

definition outbound_days :: "int \<Rightarrow> (string \<times> int) list" where
  "outbound_days today = map (\<lambda>day. (''LUL 501'', today + day)) [0..DAYS - 1]"

definition outbound_rows :: "(nat \<Rightarrow> uuid) \<Rightarrow> nat \<Rightarrow> int \<Rightarrow> trip_row list" where
  "outbound_rows new n today = sailings new (n + 61) (new (n + 5)) (new (n + 6)) (new (n + 4)) 0 SEGMENTS (outbound_days today)"

definition outbound_db :: "(nat \<Rightarrow> uuid) \<Rightarrow> int \<Rightarrow> draft \<Rightarrow> db" where
  "outbound_db new today = (\<lambda>(d, n). with_trips (outbound_rows new n today) SEGMENTS (ferry_units new n)
     (d\<lparr>locations := locations d @ location_rows new n STOPS,
        operators := operators d @ [\<lparr>op_id = new (n + 4), op_code = ''LUL'', op_name = ''Lulan Ferries''\<rparr>],
        routes := routes d @ [\<lparr>ro_id = new (n + 5), ro_code = ''BTG-CEB'',
          ro_name = ''Batangas '' @ [CHR 0xE2, CHR 0x80, CHR 0x93] @ '' Cebu''\<rparr>],
        route_stops := route_stops d @ map (stop_row (new (n + 5)) STOP_SCHEDULE) (zip [0..<4] (map new [n..<n + 4])),
        resources := resources d @ [\<lparr>re_id = new (n + 6), re_code = ''MV-LULAN-1'', re_name = ''MV Lulan One'', re_kind = ''ferry''\<rparr>],
        capacity_units := capacity_units d @ map (seat_row new (new (n + 6))) (zip [n + 7..<n + 59] ferry_seats)
          @ map (pool_row new (new (n + 6)) False) (zip [n + 59..<n + 61] ferry_pools)\<rparr>))"

text \<open>The demo's lists.\<close>

lemma ferry_units_facts:
  "map fst (ferry_units new n) = map new [n + 7..<n + 61]" "\<forall>x\<in>set (ferry_units new n). \<forall>c. snd x = Some c \<longrightarrow> 0 \<le> c"
proof -
  have "[n + 7..<n + 61] = [n + 7..<n + 59] @ [n + 59, n + 60]"
  proof -
    have "[n + 59..<n + 61] = [n + 59, n + 60]" by (simp add: upt_rec)
    moreover have "[n + 7..<n + 61] = [n + 7..<n + 59] @ [n + 59..<n + 61]"
      using upt_add_eq_append [of "n + 7" "n + 59" 2] by (simp add: add.commute)
    ultimately show ?thesis by simp
  qed
  then show "map fst (ferry_units new n) = map new [n + 7..<n + 61]" by (simp add: ferry_units_def o_def del: upt_rec_numeral)
  show "\<forall>x\<in>set (ferry_units new n). \<forall>c. snd x = Some c \<longrightarrow> 0 \<le> c" by (auto simp: ferry_units_def)
qed

lemma ferry_seat_codes: "distinct (map fst ferry_seats)" "length ferry_seats = 52" "fst (ferry_seats ! 44) = ''12A''"
  by code_simp+

lemma nat_text_eq: "nat_text m = nat_text n \<longleftrightarrow> m = n"
  by (metis digits_value_text option.inject)

lemma arena_seats_split: "map fst arena_seats = map (\<lambda>i. ''VIP-'' @ nat_text i) [1..<21] @ map (\<lambda>i. ''LOWER-'' @ nat_text i) [1..<41] @ map (\<lambda>i. ''UPPER-'' @ nat_text i) [1..<41]"
  by (simp add: arena_seats_def ARENA_SECTIONS_def o_def del: upt_Suc upt_rec_numeral)

lemma arena_seat_codes: "distinct (map fst arena_seats)" "length arena_seats = 100" "\<forall>x\<in>set arena_seats. fst x \<noteq> ''GENERAL_ADMISSION''"
proof -
  show "distinct (map fst arena_seats)" unfolding arena_seats_split
    by (auto simp: distinct_map inj_on_def nat_text_eq simp del: upt_Suc upt_rec_numeral)
  show "length arena_seats = 100" by (simp add: arena_seats_def ARENA_SECTIONS_def del: upt_Suc upt_rec_numeral)
  have "''GENERAL_ADMISSION'' \<notin> set (map fst arena_seats)" unfolding arena_seats_split by (auto simp del: upt_Suc upt_rec_numeral)
  then show "\<forall>x\<in>set arena_seats. fst x \<noteq> ''GENERAL_ADMISSION''" by (metis image_eqI list.set_map)
qed

lemma ferry_pool_codes: "distinct (map fst ferry_pools)" "length ferry_pools = 2" "fst ` set ferry_pools \<inter> fst ` set ferry_seats = {}"
  by code_simp+

lemma STOPS_codes: "distinct (map fst STOPS)" "length STOPS = 4"
  by (simp_all add: STOPS_def)

lemma outbound_days: "length (outbound_days today) = 7" "map snd (outbound_days today) = map ((+) today) [0..6]"
  by (simp_all add: outbound_days_def DAYS_def o_def)

lemma supplies_simps:
  assumes "supplies new l (d, n)" "n \<le> m" "m < l"
  shows "new m \<notin> lo_id ` set (locations d)" "new m \<notin> op_id ` set (operators d)"
    "new m \<notin> ro_id ` set (routes d)" "new m \<notin> rs_route ` set (route_stops d)"
    "new m \<notin> re_id ` set (resources d)" "new m \<notin> cu_id ` set (capacity_units d)"
    "new m \<notin> cu_resource ` set (capacity_units d)" "new m \<notin> tr_id ` set (trips d)"
    "new m \<notin> tr_route ` set (trips d)" "new m \<notin> so_trip ` set (seat_occupancy d)"
    "new m \<notin> pl_trip ` set (pool_occupancy d)"
  using assms by (auto simp: supplies_def taken_def fresh_ids_def)

lemma supplies_fresh:
  assumes "supplies new l (d, n)" "n \<le> k" "A \<subseteq> taken d \<union> new ` {n..<k}"
  shows "fresh_ids new k l A"
  using assms fresh_ids_more [of new n l "taken d" k A] by (simp add: supplies_def)

lemma taken_parts:
  "lo_id ` set (locations d) \<subseteq> taken d" "cu_id ` set (capacity_units d) \<subseteq> taken d"
  "tr_id ` set (trips d) \<union> so_trip ` set (seat_occupancy d) \<union> pl_trip ` set (pool_occupancy d) \<subseteq> taken d"
  by (auto simp: taken_def)

lemma ferry_unit_list:
  "map (\<lambda>(i, _). (i, None)) (zip (map new [n + 7..<n + 59]) (map fst ferry_seats)) @ map (\<lambda>(i, c). (i, Some c)) (zip (map new [n + 59..<n + 61]) (map snd ferry_pools))
   = ferry_units new n"
proof -
  have "map (\<lambda>(i, _). (i, None)) (zip xs ys) = map (\<lambda>i. (i, None)) xs" if "length xs = length ys" for xs :: "uuid list" and ys :: "string list"
    using that by (induction xs ys rule: list_induct2) simp_all
  from this [of "map new [n + 7..<n + 59]" "map fst ferry_seats"]
  have "map (\<lambda>(i, _). (i, None)) (zip (map new [n + 7..<n + 59]) (map fst ferry_seats)) = map (\<lambda>i. (new i, None)) [n + 7..<n + 59]"
    by (simp add: ferry_seat_codes o_def)
  moreover have "[n + 59..<n + 61] = [n + 59, n + 60]" by (simp add: upt_rec)
  ultimately show ?thesis by (simp add: ferry_units_def ferry_seat_codes ferry_pools_def o_def)
qed

text \<open>The vessel's units: 52 seats, then two pools.\<close>

lemma seed_ferry_units:
  assumes fresh: "fresh_ids new n l (cu_id ` set (capacity_units d))" and n: "n1 = n + 52" "n2 = n + 54" "n2 \<le> l"
    and vessel: "res_id \<notin> cu_resource ` set (capacity_units d)"
  shows "try_fold (seed_seat new res_id) ferry_seats ((d, n), [])
      = Inr ((d\<lparr>capacity_units := capacity_units d @ map (seat_row new res_id) (zip [n..<n1] ferry_seats)\<rparr>, n1), zip (map new [n..<n1]) (map fst ferry_seats))" (is "?seats")
    "try_fold (seed_pool new res_id False) ferry_pools ((d\<lparr>capacity_units := capacity_units d @ map (seat_row new res_id) (zip [n..<n1] ferry_seats)\<rparr>, n1), [])
      = Inr ((d\<lparr>capacity_units := capacity_units d @ map (seat_row new res_id) (zip [n..<n1] ferry_seats) @ map (pool_row new res_id False) (zip [n1..<n2] ferry_pools)\<rparr>, n2),
          zip (map new [n1..<n2]) (map snd ferry_pools))" (is "?pools")
proof -
  have old: "cu_resource u \<noteq> res_id" if "u \<in> set (capacity_units d)" for u using vessel that by (simp add: not_in_image)
  show ?seats
    by (rule seed_seats_to [OF fresh, where ids = "[]", unfolded append_Nil]) (use n old in \<open>auto simp: ferry_seat_codes\<close>)
  let ?us = "capacity_units d @ map (seat_row new res_id) (zip [n..<n1] ferry_seats)"
  let ?d = "d\<lparr>capacity_units := ?us\<rparr>"
  have "cu_id ` set (map (seat_row new res_id) (zip [n..<n1] ferry_seats)) \<subseteq> new ` {n..<n1}" by (auto simp del: set_map elim!: seat_row_facts)
  then have "fresh_ids new n1 l (cu_id ` set (capacity_units ?d))" using n by (intro fresh_ids_more [OF fresh]) (auto simp: image_Un)
  moreover have "\<forall>u\<in>set (capacity_units ?d). cu_resource u = res_id \<longrightarrow> cu_code u \<notin> fst ` set ferry_pools"
  proof
    fix u assume "u \<in> set (capacity_units ?d)"
    then consider "u \<in> set (capacity_units d)" | "u \<in> set (map (seat_row new res_id) (zip [n..<n1] ferry_seats))" by auto
    then show "cu_resource u = res_id \<longrightarrow> cu_code u \<notin> fst ` set ferry_pools"
      by cases (use old ferry_pool_codes(3) in \<open>auto simp del: set_map elim!: seat_row_facts\<close>)
  qed
  ultimately have "try_fold (seed_pool new res_id False) ferry_pools ((?d, n1), [])
      = Inr ((?d\<lparr>capacity_units := capacity_units ?d @ map (pool_row new res_id False) (zip [n1..<n2] ferry_pools)\<rparr>, n2), [] @ zip (map new [n1..<n2]) (map snd ferry_pools))"
    using n by (intro seed_pools_to) (simp_all add: ferry_pool_codes add.commute)
  then show ?pools by simp
qed

lemma outbound_result:
  assumes "supplies new l (d, n)" "demo_free d" "n + 68 \<le> l"
  shows "outbound_tables new today (d, n)
    = Inr ((outbound_db new today (d, n), n + 68), map new [n + 61..<n + 68], zip (map new [n + 7..<n + 59]) (map fst ferry_seats))"
proof -
  note new = supplies_simps [OF assms(1)] and fresh = supplies_fresh [OF assms(1)]
  let ?loc = "d\<lparr>locations := locations d @ location_rows new n STOPS\<rparr>"
  let ?net = "?loc\<lparr>operators := operators d @ [\<lparr>op_id = new (n + 4), op_code = ''LUL'', op_name = ''Lulan Ferries''\<rparr>],
      routes := routes d @ [\<lparr>ro_id = new (n + 5), ro_code = ''BTG-CEB'',
        ro_name = ''Batangas '' @ [CHR 0xE2, CHR 0x80, CHR 0x93] @ '' Cebu''\<rparr>]\<rparr>"
  let ?stops = "zip [0..<4] (map new [n..<n + 4])"
  let ?line = "?net\<lparr>route_stops := route_stops d @ map (stop_row (new (n + 5)) STOP_SCHEDULE) ?stops,
      resources := resources d @ [\<lparr>re_id = new (n + 6), re_code = ''MV-LULAN-1'', re_name = ''MV Lulan One'', re_kind = ''ferry''\<rparr>]\<rparr>"
  let ?seats = "map (seat_row new (new (n + 6))) (zip [n + 7..<n + 59] ferry_seats)"
  have a: "try_fold (seed_location new) STOPS ((d, n), []) = Inr ((?loc, n + 4), map new [n..<n + 4])"
    by (rule seed_locations_to [where ids = "[]", unfolded append_Nil]) (use assms(2,3) fresh [OF order_refl, of "lo_id ` set (locations d)"] taken_parts [of d] in \<open>auto simp: STOPS_codes demo_free_def\<close>)
  have b: "seed_operator new ''LUL'' ''Lulan Ferries'' (?loc, n + 4) = Inr ((?loc\<lparr>operators := operators d
      @ [\<lparr>op_id = new (n + 4), op_code = ''LUL'', op_name = ''Lulan Ferries''\<rparr>]\<rparr>, n + 5), new (n + 4))"
    using new(2) [of "n + 4"] assms(2,3) by (auto simp: seed_operator_def demo_free_def list_ex_iff not_in_image)
  have c: "seed_route new ''BTG-CEB'' (''Batangas '' @ [CHR 0xE2, CHR 0x80, CHR 0x93] @ '' Cebu'') (?loc\<lparr>operators := operators d
      @ [\<lparr>op_id = new (n + 4), op_code = ''LUL'', op_name = ''Lulan Ferries''\<rparr>]\<rparr>, n + 5) = Inr ((?net, n + 6), new (n + 5))"
    using new(3) [of "n + 5"] assms(2,3) by (auto simp: seed_route_def demo_free_def list_ex_iff not_in_image)
  have e: "try_fold (seed_stop (new (n + 5)) STOP_SCHEDULE) ?stops ?net = Inr (?net\<lparr>route_stops := route_stops ?net @ map (stop_row (new (n + 5)) STOP_SCHEDULE) ?stops\<rparr>)"
    by (rule seed_stop_list) (use new_distinct [OF assms(1) [unfolded supplies_def]] new(4) [of "n + 5"] assms(3) in simp_all)
  have f: "seed_resource new ''MV-LULAN-1'' ''MV Lulan One'' ''ferry'' (?net\<lparr>route_stops := route_stops ?net @ map (stop_row (new (n + 5)) STOP_SCHEDULE) ?stops\<rparr>, n + 6)
      = Inr ((?line, n + 7), new (n + 6))"
    using new(5) [of "n + 6"] assms(2,3) by (auto simp: seed_resource_def demo_free_def list_ex_iff not_in_image)
  have units: "fresh_ids new (n + 7) l (cu_id ` set (capacity_units ?line))" "new (n + 6) \<notin> cu_resource ` set (capacity_units ?line)"
    using fresh [of "n + 7" "cu_id ` set (capacity_units d)"] taken_parts(2) [of d] new(7) [of "n + 6"] assms(3) by auto
  have n: "n + 59 = n + 7 + 52" "n + 61 = n + 7 + 54" "n + 61 \<le> l" using assms(3) by simp_all
  note g = seed_ferry_units [OF units(1) n units(2)]
  let ?ship = "?line\<lparr>capacity_units := capacity_units ?line @ ?seats @ map (pool_row new (new (n + 6)) False) (zip [n + 59..<n + 61] ferry_pools)\<rparr>"
  have k: "try_fold (seed_sailing new (new (n + 5)) (new (n + 6)) (new (n + 4)) 0 SEGMENTS (ferry_units new n)) (outbound_days today) ((?ship, n + 61), [])
      = Inr ((outbound_db new today (d, n), n + 68), map new [n + 61..<n + 68])"
  proof -
    have "try_fold (seed_sailing new (new (n + 5)) (new (n + 6)) (new (n + 4)) 0 SEGMENTS (ferry_units new n)) (outbound_days today) ((?ship, n + 61), [])
        = Inr ((with_trips (outbound_rows new n today) SEGMENTS (ferry_units new n) ?ship, n + 68), [] @ map new [n + 61..<n + 68])"
      unfolding outbound_rows_def
    proof (rule seed_sailings_to)
      show "distinct (map snd (outbound_days today))" by (simp add: outbound_days distinct_map)
      show "distinct (map fst (ferry_units new n))" "\<forall>x\<in>set (ferry_units new n). \<forall>c. snd x = Some c \<longrightarrow> 0 \<le> c"
        using ferry_units_facts [of new n] new_distinct [OF assms(1) [unfolded supplies_def]] assms(3) by simp_all
      show "fresh_ids new (n + 61) l (tr_id ` set (trips ?ship) \<union> so_trip ` set (seat_occupancy ?ship) \<union> pl_trip ` set (pool_occupancy ?ship))"
      proof (rule fresh)
        show "tr_id ` set (trips ?ship) \<union> so_trip ` set (seat_occupancy ?ship) \<union> pl_trip ` set (pool_occupancy ?ship) \<subseteq> taken d \<union> new ` {n..<n + 61}"
          using taken_parts(3) [of d] by (simp add: le_supI1)
      qed simp
    qed (use new(9) [of "n + 5", unfolded not_in_image] assms(3) in \<open>auto simp: SEGMENTS_def outbound_days\<close>)
    then show ?thesis by (simp add: outbound_db_def)
  qed
  show ?thesis
    by (simp only: outbound_tables_def a b c e f g ferry_unit_list k split and_then.simps length_map length_upt add_diff_cancel_left' outbound_days_def [symmetric])
qed

end
