(* ===== verification/Seed_Runs.thy ===== *)
theory Seed_Runs
  imports Seed_Properties
begin

text \<open>
  Whole runs of the seeders: the effect of each transaction of \<open>seed.rs\<close>, several seeders starting at once, seeding again, the
  booking invariant, and which of the demo's departures can be booked.
\<close>

section \<open>Each step succeeds\<close>

lemma sold_seat: "List.find (\<lambda>(_, code). code = ''12A'') (zip (map new [n + 7..<n + 59]) (map fst ferry_seats)) = Some (new (n + 51), ''12A'')"
proof -
  let ?zs = "zip (map new [n + 7..<n + 59]) (map fst ferry_seats)"
  have len: "length (map new [n + 7..<n + 59]) = length (map fst ferry_seats)" by (simp add: ferry_seat_codes)
  have "44 < length ?zs" using len by (simp add: ferry_seat_codes)
  moreover have "?zs ! 44 = (new (n + 51), ''12A'')" using len ferry_seat_codes by (simp add: add.commute)
  ultimately have mem: "(new (n + 51), ''12A'') \<in> set ?zs" by (metis nth_mem)
  have "distinct (map snd ?zs)" using len ferry_seat_codes(1) by (simp only: map_snd_zip)
  from find_distinct_key [OF this mem] show ?thesis by (simp add: case_prod_unfold)
qed

lemma outbound_trip_ids: "[n + 61..<n + 68] = (n + 61) # [n + 62..<n + 68]"
  by (simp add: upt_conv_Cons)

definition demo_outbound :: "(nat \<Rightarrow> uuid) \<Rightarrow> int \<Rightarrow> draft \<Rightarrow> db" where
  "demo_outbound new today dn = (outbound_db new today dn)\<lparr>seat_occupancy :=
     update_where (\<lambda>r. so_trip r = new (snd dn + 61) \<and> so_unit r = new (snd dn + 51)) (\<lambda>r. r\<lparr>so_mask := 5\<rparr>) (seat_occupancy (outbound_db new today dn))\<rparr>"

lemma seed_outbound_result:
  assumes "supplies new l (d, n)" "demo_free d" "n + 68 \<le> l"
  shows "seed_outbound new now (d, n) = Inr (demo_outbound new (date_of now) (d, n), n + 68)"
proof -
  have "\<not> has_route ''BTG-CEB'' d" using assms(2) by (auto simp: demo_free_def has_route_def list_ex_iff not_in_image)
  then show ?thesis
    by (simp add: seed_outbound_def outbound_result [OF assms] sell_12A_def sold_seat outbound_trip_ids demo_outbound_def del: upt_Suc)
qed

lemma demo_outbound_simps [simp]:
  "locations (demo_outbound new today (d, n)) = locations d @ location_rows new n STOPS"
  "operators (demo_outbound new today (d, n)) = operators d @ [\<lparr>op_id = new (n + 4), op_code = ''LUL'', op_name = ''Lulan Ferries''\<rparr>]"
  "routes (demo_outbound new today (d, n)) = routes d @ [\<lparr>ro_id = new (n + 5), ro_code = ''BTG-CEB'',
     ro_name = ''Batangas '' @ [CHR 0xE2, CHR 0x80, CHR 0x93] @ '' Cebu''\<rparr>]"
  "route_stops (demo_outbound new today (d, n)) = route_stops d @ map (stop_row (new (n + 5)) STOP_SCHEDULE) (zip [0..<4] (map new [n..<n + 4]))"
  "resources (demo_outbound new today (d, n)) = resources d
     @ [\<lparr>re_id = new (n + 6), re_code = ''MV-LULAN-1'', re_name = ''MV Lulan One'', re_kind = ''ferry''\<rparr>]"
  "capacity_units (demo_outbound new today (d, n)) = capacity_units d @ map (seat_row new (new (n + 6))) (zip [n + 7..<n + 59] ferry_seats)
     @ map (pool_row new (new (n + 6)) False) (zip [n + 59..<n + 61] ferry_pools)"
  "trips (demo_outbound new today (d, n)) = trips d @ outbound_rows new n today"
  "map seat_key (seat_occupancy (demo_outbound new today (d, n)))
     = map seat_key (seat_occupancy d @ concat (map (\<lambda>t. seats_of (tr_id t) (ferry_units new n)) (outbound_rows new n today)))"
  "pool_occupancy (demo_outbound new today (d, n))
     = pool_occupancy d @ concat (map (\<lambda>t. pools_of (tr_id t) SEGMENTS (ferry_units new n)) (outbound_rows new n today))"
  by (simp_all add: demo_outbound_def outbound_db_def map_update_where seat_key_def)

definition tables_ok :: "db \<Rightarrow> bool" where
  "tables_ok d \<longleftrightarrow> distinct (map lo_id (locations d)) \<and> distinct (map lo_code (locations d)) \<and> distinct (map cu_id (capacity_units d))
     \<and> (\<forall>u\<in>set (capacity_units d). \<forall>c. cu_pool_capacity u = Some c \<longrightarrow> 0 \<le> c)"

lemma location_rows_keys: "map lo_id (location_rows new n cs) = map new [n..<n + length cs]" "map lo_code (location_rows new n cs) = map fst cs"
proof -
  have "map (\<lambda>(i, code, name). new i) (zip [n..<n + length cs] cs) = map new (map fst (zip [n..<n + length cs] cs))" by (simp only: map_map o_def case_prod_unfold)
  then show "map lo_id (location_rows new n cs) = map new [n..<n + length cs]" by (simp add: location_rows_def o_def case_prod_unfold)
  have "map (\<lambda>(i, code, name). code) (zip [n..<n + length cs] cs) = map fst (map snd (zip [n..<n + length cs] cs))" by (simp only: map_map o_def case_prod_unfold)
  then show "map lo_code (location_rows new n cs) = map fst cs" by (simp add: location_rows_def o_def case_prod_unfold)
qed

lemma unit_row_keys:
  "map cu_id (map (seat_row new res_id) (zip ns cs)) = map new (map fst (zip ns cs))"
  "map cu_id (map (pool_row new res_id adm) (zip ns ps)) = map new (map fst (zip ns ps))"
  by (simp_all add: seat_row_def pool_row_def case_prod_unfold)

lemma sailings_facts:
  "t \<in> set (sailings new n rid res_id operator_id clock segs days) \<Longrightarrow> tr_id t \<in> new ` {n..<n + length days} \<and> tr_route t = rid"
  "so \<in> set (concat (map (\<lambda>t. seats_of (tr_id t) units) (sailings new n rid res_id operator_id clock segs days))) \<Longrightarrow> so_trip so \<in> new ` {n..<n + length days}"
  "pl \<in> set (concat (map (\<lambda>t. pools_of (tr_id t) segs units) (sailings new n rid res_id operator_id clock segs days))) \<Longrightarrow> pl_trip pl \<in> new ` {n..<n + length days}"
proof -
  show t: "t \<in> set (sailings new n rid res_id operator_id clock segs days) \<Longrightarrow> tr_id t \<in> new ` {n..<n + length days} \<and> tr_route t = rid" for t
    by (auto simp: sailings_def sailing_row_def dest: set_zip_leftD)
  show "so \<in> set (concat (map (\<lambda>t. seats_of (tr_id t) units) (sailings new n rid res_id operator_id clock segs days))) \<Longrightarrow> so_trip so \<in> new ` {n..<n + length days}"
    using t by (auto dest!: occupancy_trips)
  show "pl \<in> set (concat (map (\<lambda>t. pools_of (tr_id t) segs units) (sailings new n rid res_id operator_id clock segs days))) \<Longrightarrow> pl_trip pl \<in> new ` {n..<n + length days}"
    using t by (auto dest!: occupancy_trips)
qed

lemma Un_mono_new: "A \<subseteq> A' \<union> N \<Longrightarrow> B \<subseteq> B' \<union> N \<Longrightarrow> A \<union> B \<subseteq> A' \<union> B' \<union> N"
  by blast

lemma taken_outbound: "taken (demo_outbound new today (d, n)) \<subseteq> taken d \<union> new ` {n..<n + 68}"
proof -
  let ?X = "demo_outbound new today (d, n)" and ?new = "new ` {n..<n + 68}"
  have "lo_id ` set (location_rows new n STOPS) = new ` {n..<n + 4}"
    using arg_cong [OF location_rows_keys(1) [of new n STOPS], of set] by (simp add: STOPS_codes)
  then have "lo_id ` set (locations ?X) \<subseteq> lo_id ` set (locations d) \<union> ?new" by (auto simp: image_Un)
  have "ro_id ` set (routes ?X) \<subseteq> ro_id ` set (routes d) \<union> ?new" by auto
  have "op_id ` set (operators ?X) \<subseteq> op_id ` set (operators d) \<union> ?new" "re_id ` set (resources ?X) \<subseteq> re_id ` set (resources d) \<union> ?new"
    "rs_route ` set (route_stops ?X) \<subseteq> rs_route ` set (route_stops d) \<union> ?new"
    by (auto simp: stop_row_def)
  have "cu_id ` set (capacity_units ?X) \<subseteq> cu_id ` set (capacity_units d) \<union> ?new"
    "cu_resource ` set (capacity_units ?X) \<subseteq> cu_resource ` set (capacity_units d) \<union> ?new"
    by (auto simp del: set_map elim!: seat_row_facts pool_row_facts)
  have "tr_id ` set (trips ?X) \<subseteq> tr_id ` set (trips d) \<union> ?new" "tr_route ` set (trips ?X) \<subseteq> tr_route ` set (trips d) \<union> ?new"
    by (auto simp: outbound_rows_def outbound_days dest!: sailings_facts(1))
  have "so_trip ` set (seat_occupancy ?X) \<subseteq> so_trip ` set (seat_occupancy d) \<union> ?new"
  proof -
    have key: "so_trip ` set xs = fst ` set (map seat_key xs)" for xs by (force simp: seat_key_def)
    have rows: "so_trip r \<in> ?new" if "r \<in> set (concat (map (\<lambda>t. seats_of (tr_id t) (ferry_units new n)) (outbound_rows new n today)))" for r
      using sailings_facts(2) [OF that [unfolded outbound_rows_def]] by (auto simp: outbound_days)
    show ?thesis unfolding key [of "seat_occupancy ?X"] demo_outbound_simps key [symmetric] set_append image_Un using rows by blast
  qed
  have "pl_trip ` set (pool_occupancy ?X) \<subseteq> pl_trip ` set (pool_occupancy d) \<union> ?new"
  proof -
    have rows: "pl_trip r \<in> ?new" if "r \<in> set (concat (map (\<lambda>t. pools_of (tr_id t) SEGMENTS (ferry_units new n)) (outbound_rows new n today)))" for r
      using sailings_facts(3) [OF that [unfolded outbound_rows_def]] by (auto simp: outbound_days)
    show ?thesis unfolding demo_outbound_simps set_append image_Un using rows by blast
  qed
  show ?thesis unfolding taken_def by (intro Un_mono_new) fact+
qed

lemma outbound_keeps:
  assumes "supplies new l (d, n)" "demo_free d" "tables_ok d" "n + 68 \<le> l"
  shows "supplies new l (demo_outbound new today (d, n), n + 68)" "tables_ok (demo_outbound new today (d, n))"
proof -
  note free = supplies_simps [OF assms(1)]
  have dist: "distinct (map new [a..<b])" if "n \<le> a" "b \<le> l" for a b using new_distinct [OF assms(1) [unfolded supplies_def]] that by simp
  show "supplies new l (demo_outbound new today (d, n), n + 68)"
    using supplies_fresh [OF assms(1), of "n + 68"] taken_outbound [of new today d n] by (simp add: supplies_def)
  have ids: "set (map lo_id (locations d)) \<inter> set (map new [n..<n + 4]) = {}" using free(1) assms(4) by (force simp: not_in_image)
  have "distinct (map lo_id (locations d) @ map new [n..<n + 4])"
    using assms(3,4) dist ids by (simp only: distinct_append tables_ok_def)
  moreover have "distinct (map lo_code (locations d) @ map fst STOPS)"
    using assms(2,3) STOPS_codes by (auto simp: demo_free_def tables_ok_def)
  moreover have "distinct (map cu_id (capacity_units d) @ map new [n + 7..<n + 59] @ map new [n + 59..<n + 61])"
  proof -
    have "set (map cu_id (capacity_units d)) \<inter> set (map new [n + 7..<n + 61]) = {}" using free(6) assms(4) by (force simp: not_in_image)
    moreover have "map new [n + 7..<n + 59] @ map new [n + 59..<n + 61] = map new [n + 7..<n + 61]"
      using upt_add_eq_append [of "n + 7" "n + 59" 2] by (simp add: add.commute flip: map_append)
    ultimately show ?thesis using assms(3,4) dist by (simp only: distinct_append tables_ok_def)
  qed
  moreover have "u \<in> set (map (pool_row new r adm) (zip ns ferry_pools)) \<Longrightarrow> cu_pool_capacity u = Some c \<Longrightarrow> 0 \<le> c" for u c r adm ns
    by (auto simp: ferry_pools_def simp del: set_map elim!: pool_row_facts)
  moreover have "u \<in> set (map (seat_row new r) (zip ns ferry_seats)) \<Longrightarrow> cu_pool_capacity u = None" for u r ns
    by (auto simp del: set_map elim!: seat_row_facts)
  ultimately show "tables_ok (demo_outbound new today (d, n))"
    using assms(3) unfolding tables_ok_def demo_outbound_simps map_append location_rows_keys unit_row_keys
    by (auto simp: STOPS_codes ferry_seat_codes ferry_pool_codes simp del: distinct_append map_map set_map)
qed

text \<open>The stops of the way back: one per code that a location has.\<close>

definition stop_at :: "db \<Rightarrow> uuid \<Rightarrow> string list \<Rightarrow> route_stop_row \<Rightarrow> bool" where
  "stop_at d rid codes x \<longleftrightarrow> rs_route x = rid
     \<and> (\<exists>i<length codes. rs_stop_index x = int i \<and> (\<exists>l\<in>set (locations d). lo_code l = codes ! i \<and> rs_location x = lo_id l))"

lemma try_fold_append: "try_fold f (xs @ ys) s = and_then (try_fold f xs s) (try_fold f ys)"
proof (induction xs arbitrary: s)
  case (Cons x xs)
  show ?case by (cases "f x s") (simp_all add: Cons.IH)
qed simp

lemma return_stops:
  assumes "tables_ok d" "distinct codes" "length codes \<le> 4" "rid \<notin> rs_route ` set (route_stops d)"
  shows "\<exists>extra. try_fold (seed_return_stop rid) (zip [0..<length codes] codes) d = Inr (d\<lparr>route_stops := route_stops d @ extra\<rparr>)
    \<and> list_all (stop_at d rid codes) extra"
  using assms(2,3)
proof (induction codes rule: rev_induct)
  case Nil
  show ?case by (intro exI [of _ "[]"]) simp
next
  case (snoc c codes)
  then obtain extra where run: "try_fold (seed_return_stop rid) (zip [0..<length codes] codes) d = Inr (d\<lparr>route_stops := route_stops d @ extra\<rparr>)"
    and extra: "\<And>x. x \<in> set extra \<Longrightarrow> stop_at d rid codes x" by (auto simp: list_all_iff)
  let ?d = "d\<lparr>route_stops := route_stops d @ extra\<rparr>"
  have more: "stop_at d rid (codes @ [c]) x" if "x \<in> set extra" for x
    using extra [OF that] by (auto simp: stop_at_def nth_append intro: less_SucI)
  have zip: "zip [0..<Suc (length codes)] (codes @ [c]) = zip [0..<length codes] codes @ [(length codes, c)]" by simp
  show ?case
  proof (cases "filter (\<lambda>l. lo_code l = c) (locations d)")
    case Nil
    then have "seed_return_stop rid (length codes, c) ?d = Inr ?d" by (simp add: seed_return_stop_def)
    then show ?thesis using run more by (intro exI [of _ extra]) (simp add: zip try_fold_append list_all_iff del: upt_Suc)
  next
    case (Cons l ls)
    then have l: "l \<in> set (locations d)" "lo_code l = c" by (auto simp: filter_eq_Cons_iff)
    have "filter (\<lambda>l'. lo_code l' = lo_code l) (locations d) = [l]"
      by (rule filter_distinct_key) (use assms(1) l in \<open>simp_all add: tables_ok_def\<close>)
    then have one: "seed_return_stop rid (length codes, c) ?d = seed_stop rid STOP_SCHEDULE (length codes, lo_id l) ?d"
      using l(2) by (cases "seed_stop rid STOP_SCHEDULE (length codes, lo_id l) ?d") (simp_all add: seed_return_stop_def)
    have free: "\<not> (rs_route s = rid \<and> (rs_stop_index s = int (length codes) \<or> rs_location s = lo_id l))" if "s \<in> set (route_stops ?d)" for s
    proof (cases "s \<in> set extra")
      case True
      then obtain i l' where i: "i < length codes" "rs_stop_index s = int i" "l' \<in> set (locations d)" "lo_code l' = codes ! i" "rs_location s = lo_id l'"
        using extra [OF True] by (auto simp: stop_at_def)
      have "lo_id l' \<noteq> lo_id l"
        using distinct_key_eq [of lo_id "locations d" l' l] assms(1) i l snoc.prems(1) by (auto simp: tables_ok_def)
      with i show ?thesis by simp
    qed (use that assms(4) in auto)
    let ?row = "stop_row rid STOP_SCHEDULE (length codes, lo_id l)"
    have idx: "i16 (int (length codes)) = int (length codes)" by (rule i16_small) (use snoc.prems(2) in simp)
    have "seed_stop rid STOP_SCHEDULE (length codes, lo_id l) ?d = Inr (?d\<lparr>route_stops := route_stops ?d @ [?row]\<rparr>)"
      using free by (simp add: seed_stop_def stop_row_def idx list_ex_iff)
    moreover have "stop_at d rid (codes @ [c]) ?row"
      using l by (simp add: stop_at_def stop_row_def idx) (metis length_append_singleton lessI nth_append_length)
    ultimately show ?thesis using run more one
      by (intro exI [of _ "extra @ [?row]"]) (simp add: zip try_fold_append list_all_iff del: upt_Suc)
  qed
qed

text \<open>What every later step relies on.\<close>

definition step_effect :: "(nat \<Rightarrow> uuid) \<Rightarrow> nat \<Rightarrow> draft \<Rightarrow> draft \<Rightarrow> bool" where
  "step_effect new l dn dn' \<longleftrightarrow> supplies new l dn' \<and> tables_ok (fst dn') \<and> snd dn \<le> snd dn' \<and> snd dn' \<le> snd dn + 68
     \<and> set (routes (fst dn)) \<subseteq> set (routes (fst dn')) \<and> set (resources (fst dn)) \<subseteq> set (resources (fst dn'))
     \<and> set (operators (fst dn)) \<subseteq> set (operators (fst dn'))"

lemma outbound_effect:
  assumes "supplies new l (d, n)" "demo_free d" "tables_ok d" "n + 68 \<le> l"
  shows "step_effect new l (d, n) (demo_outbound new today (d, n), n + 68)"
  using outbound_keeps [OF assms] by (auto simp: step_effect_def)

lemma departures_effect:
  assumes sup: "supplies new l (d, n)" and ok: "tables_ok d" and k: "0 < k" "k \<le> 68" and extra: "list_all (\<lambda>x. rs_route x = new n) extra"
    and rows: "\<forall>t\<in>set rows. tr_id t \<in> new ` {n..<n + k} \<and> tr_route t = new n" and route: "ro_id route = new n"
  shows "step_effect new l (d, n) (with_trips rows segs units (d\<lparr>routes := routes d @ [route], route_stops := route_stops d @ extra\<rparr>), n + k)"
proof -
  let ?d3 = "with_trips rows segs units (d\<lparr>routes := routes d @ [route], route_stops := route_stops d @ extra\<rparr>)" and ?new = "new ` {n..<n + k}"
  have n: "new n \<in> ?new" using k(1) by auto
  have "rs_route ` set (route_stops ?d3) \<subseteq> rs_route ` set (route_stops d) \<union> ?new" using extra n by (auto simp: list_all_iff)
  have "ro_id ` set (routes ?d3) \<subseteq> ro_id ` set (routes d) \<union> ?new" using n route by auto
  have "tr_id ` set (trips ?d3) \<subseteq> tr_id ` set (trips d) \<union> ?new" "tr_route ` set (trips ?d3) \<subseteq> tr_route ` set (trips d) \<union> ?new" using rows n by auto
  have "so_trip ` set (seat_occupancy ?d3) \<subseteq> so_trip ` set (seat_occupancy d) \<union> ?new" using rows by (auto dest!: occupancy_trips)
  have "pl_trip ` set (pool_occupancy ?d3) \<subseteq> pl_trip ` set (pool_occupancy d) \<union> ?new" using rows by (auto dest!: occupancy_trips)
  have "lo_id ` set (locations ?d3) \<subseteq> lo_id ` set (locations d) \<union> ?new" "op_id ` set (operators ?d3) \<subseteq> op_id ` set (operators d) \<union> ?new"
    "re_id ` set (resources ?d3) \<subseteq> re_id ` set (resources d) \<union> ?new" "cu_id ` set (capacity_units ?d3) \<subseteq> cu_id ` set (capacity_units d) \<union> ?new"
    "cu_resource ` set (capacity_units ?d3) \<subseteq> cu_resource ` set (capacity_units d) \<union> ?new" by auto
  have "taken ?d3 \<subseteq> taken d \<union> ?new" unfolding taken_def by (intro Un_mono_new) fact+
  then have "supplies new l (?d3, n + k)" using supplies_fresh [OF sup, of "n + k"] by (simp add: supplies_def)
  then show ?thesis using ok k(2) by (auto simp: step_effect_def tables_ok_def)
qed

lemma find_key: "k \<in> f ` set xs \<Longrightarrow> \<exists>x. List.find (\<lambda>x. f x = k) xs = Some x"
  by (induction xs) auto

lemma return_result:
  assumes sup: "supplies new l (d, n)" and l: "n + 8 \<le> l" and ok: "tables_ok d" and res: "''MV-LULAN-1'' \<in> re_code ` set (resources d)"
    and opr: "''LUL'' \<in> op_code ` set (operators d)"
  shows "\<exists>dn. seed_return_route new now (d, n) = Inr dn \<and> step_effect new l (d, n) dn \<and> has_route ''CEB-BTG'' (fst dn)"
proof (cases "has_route ''CEB-BTG'' d")
  case True
  then show ?thesis using sup ok by (simp add: seed_return_route_def step_effect_def)
next
  case False
  note new = supplies_simps [OF sup] and fresh = supplies_fresh [OF sup]
  note free = new [unfolded not_in_image, rule_format]
  obtain r where r: "List.find (\<lambda>r. re_code r = ''MV-LULAN-1'') (resources d) = Some r" using find_key [OF res] by blast
  obtain p where p: "List.find (\<lambda>p. op_code p = ''LUL'') (operators d) = Some p" using find_key [OF opr] by blast
  let ?route = "\<lparr>ro_id = new n, ro_code = ''CEB-BTG'', ro_name = ''Cebu '' @ [CHR 0xE2, CHR 0x80, CHR 0x93] @ '' Batangas''\<rparr>"
  let ?d1 = "d\<lparr>routes := routes d @ [?route]\<rparr>"
  have route: "seed_route new ''CEB-BTG'' (''Cebu '' @ [CHR 0xE2, CHR 0x80, CHR 0x93] @ '' Batangas'') (d, n) = Inr ((?d1, Suc n), new n)"
    using False free(3) [of n] l by (auto simp: seed_route_def has_route_def list_ex_iff)
  have codes: "distinct (rev (map fst STOPS))" "length (rev (map fst STOPS)) = length STOPS" "length STOPS \<le> 4" using STOPS_codes by simp_all
  have ok1: "tables_ok ?d1" using ok by (simp add: tables_ok_def)
  obtain extra where stops: "try_fold (seed_return_stop (new n)) (zip [0..<length STOPS] (rev (map fst STOPS))) ?d1
      = Inr (d\<lparr>routes := routes d @ [?route], route_stops := route_stops d @ extra\<rparr>)"
    and extra: "list_all (stop_at ?d1 (new n) (rev (map fst STOPS))) extra"
    using return_stops [OF ok1 codes(1), of "new n"] codes new(4) [of n] l by auto
  let ?d2 = "d\<lparr>routes := routes d @ [?route], route_stops := route_stops d @ extra\<rparr>"
  let ?units = "map (\<lambda>u. (cu_id u, cu_pool_capacity u)) (filter (\<lambda>u. cu_resource u = re_id r) (capacity_units ?d2))"
  let ?days = "map (\<lambda>day. (''LUL 502'', date_of now + day)) [0..DAYS - 1]"
  let ?rows = "sailings new (Suc n) (new n) (re_id r) (op_id p) (hours 12) SEGMENTS ?days"
  have days: "length ?days = 7" by (simp add: DAYS_def)
  have run: "try_fold (seed_sailing new (new n) (re_id r) (op_id p) (hours 12) SEGMENTS ?units) ?days ((?d2, Suc n), [])
      = Inr ((with_trips ?rows SEGMENTS ?units ?d2, n + 8), map new [Suc n..<n + 8])"
  proof (rule seed_sailings_to [where ids = "[]", unfolded append_Nil])
    show "distinct (map snd ?days)" by (simp add: DAYS_def o_def distinct_map)
    show "distinct (map fst ?units)" using ok by (auto simp: tables_ok_def o_def intro: distinct_map_filter)
    show "\<forall>x\<in>set ?units. \<forall>c. snd x = Some c \<longrightarrow> 0 \<le> c" using ok by (auto simp: tables_ok_def)
    show "\<forall>t\<in>set (trips ?d2). tr_route t = new n \<longrightarrow> (\<forall>x\<in>set ?days. tr_departs_at t \<noteq> snd x * hours 24 + hours 12)" using free(9) [of n] l by auto
    show "fresh_ids new (Suc n) l (tr_id ` set (trips ?d2) \<union> so_trip ` set (seat_occupancy ?d2) \<union> pl_trip ` set (pool_occupancy ?d2))"
    proof (rule fresh)
      show "tr_id ` set (trips ?d2) \<union> so_trip ` set (seat_occupancy ?d2) \<union> pl_trip ` set (pool_occupancy ?d2) \<subseteq> taken d \<union> new ` {n..<Suc n}"
        using taken_parts(3) [of d] by auto
    qed simp
  qed (use l in \<open>simp_all add: SEGMENTS_def DAYS_def\<close>)
  let ?d3 = "with_trips ?rows SEGMENTS ?units ?d2"
  have "seed_return_route new now (d, n) = Inr (?d3, n + 8)"
    using False by (simp only: seed_return_route_def split if_False r p route stops run and_then.simps ok_or.simps)
  moreover have "step_effect new l (d, n) (?d3, n + 8)"
  proof (rule departures_effect [OF sup ok])
    show "list_all (\<lambda>x. rs_route x = new n) extra" using extra by (auto simp: list_all_iff stop_at_def)
    show "\<forall>t\<in>set ?rows. tr_id t \<in> new ` {n..<n + 8} \<and> tr_route t = new n" using sailings_facts(1) days by fastforce
  qed simp_all
  moreover have "has_route ''CEB-BTG'' ?d3" by (simp add: has_route_def)
  ultimately show ?thesis by simp
qed

section \<open>Seeders that start together\<close>

definition demo_vessel :: "db \<Rightarrow> bool" where
  "demo_vessel d \<longleftrightarrow> has_route ''BTG-CEB'' d \<and> ''MV-LULAN-1'' \<in> re_code ` set (resources d) \<and> ''LUL'' \<in> op_code ` set (operators d)"

definition ready :: "(nat \<Rightarrow> uuid) \<Rightarrow> nat \<Rightarrow> seeder \<Rightarrow> bool" where
  "ready new l s \<longleftrightarrow> supplies new l (sd_db s, sd_next s)
     \<and> fresh_ids new (sd_next s) l (fr_id ` set (sd_fares s) \<union> an_id ` set (sd_ancillaries s))
     \<and> tables_ok (sd_db s) \<and> (demo_free (sd_db s) \<or> demo_vessel (sd_db s))"

text \<open>The effects of the first \<open>k\<close> steps; none of them is ever undone.\<close>

definition settled :: "nat \<Rightarrow> seeder \<Rightarrow> bool" where
  "settled k s \<longleftrightarrow> (0 < k \<longrightarrow> current_rules (sd_fares s) = Some ferry_rules)
     \<and> fst ` set (take (k - 1) ancillary_catalog) \<subseteq> an_code ` set (sd_ancillaries s)
     \<and> (5 < k \<longrightarrow> has_route ''BTG-CEB'' (sd_db s)) \<and> (6 < k \<longrightarrow> has_route ''CEB-BTG'' (sd_db s))"

definition demo_complete :: "seeder \<Rightarrow> bool" where
  "demo_complete s \<longleftrightarrow> current_rules (sd_fares s) = Some ferry_rules
     \<and> list_all (\<lambda>c. list_ex (\<lambda>a. an_code a = fst c) (sd_ancillaries s)) ancillary_catalog
     \<and> has_route ''BTG-CEB'' (sd_db s) \<and> has_route ''CEB-BTG'' (sd_db s)"

lemma catalog_length [simp]: "length ancillary_catalog = 4"
  by (simp add: ancillary_catalog_def)

lemma steps_length [simp]: "length (seed_steps parse new now) = 7"
  by (simp add: seed_steps_def)

lemma settled_complete: "settled 7 s \<longleftrightarrow> demo_complete s"
  by (auto simp: settled_def demo_complete_def list_all_iff list_ex_iff image_iff) (force)+

definition grows :: "seeder \<Rightarrow> seeder \<Rightarrow> bool" where
  "grows s s' \<longleftrightarrow> (current_rules (sd_fares s) = Some ferry_rules \<longrightarrow> current_rules (sd_fares s') = Some ferry_rules)
     \<and> an_code ` set (sd_ancillaries s) \<subseteq> an_code ` set (sd_ancillaries s') \<and> set (routes (sd_db s)) \<subseteq> set (routes (sd_db s'))"

lemma has_route_mono: "set (routes d) \<subseteq> set (routes d') \<Longrightarrow> has_route c d \<Longrightarrow> has_route c d'"
  by (auto simp: has_route_def list_ex_iff)

lemma grows_settled:
  assumes g: "grows s s'" and st: "settled k s"
  shows "settled k s'"
proof -
  have "an_code ` set (sd_ancillaries s) \<subseteq> an_code ` set (sd_ancillaries s')" using g by (simp only: grows_def)
  then have codes: "fst ` set (take (k - 1) ancillary_catalog) \<subseteq> an_code ` set (sd_ancillaries s')"
    using st unfolding settled_def by (elim conjE) (erule subset_trans)
  have routes: "has_route c (sd_db s) \<Longrightarrow> has_route c (sd_db s')" for c using g has_route_mono unfolding grows_def by blast
  show ?thesis unfolding settled_def
    by (intro conjI impI codes) (use g st routes in \<open>simp_all only: grows_def settled_def\<close>)
qed

lemma fresh_later: "fresh_ids new n l A \<Longrightarrow> n \<le> m \<Longrightarrow> B \<subseteq> A \<union> new ` {n..<m} \<Longrightarrow> fresh_ids new m l B"
  by (rule fresh_ids_more)

lemma supplies_later: "supplies new l (d, n) \<Longrightarrow> n \<le> m \<Longrightarrow> supplies new l (d, m)"
  using fresh_ids_more [of new n l "taken d" m "taken d"] by (auto simp: supplies_def)

text \<open>One step of a seeder: it succeeds, takes at most 68 ids and undoes nothing.\<close>

definition stepped :: "(nat \<Rightarrow> uuid) \<Rightarrow> nat \<Rightarrow> seeder \<Rightarrow> seeder \<Rightarrow> bool" where
  "stepped new l s s' \<longleftrightarrow> ready new l s' \<and> grows s s' \<and> sd_next s' \<le> sd_next s + 68"

lemma fares_step:
  assumes "ready new l s" "sd_next s < l" "parse ferry_rules = Inr rs"
  shows "\<exists>s'. seed_fare_rules parse new now s = Inr s' \<and> stepped new l s s' \<and> current_rules (sd_fares s') = Some ferry_rules"
proof (cases "current_rules (sd_fares s) = Some ferry_rules")
  case True
  then show ?thesis using assms by (simp add: seed_fare_rules_def grows_def stepped_def)
next
  case False
  let ?row = "\<lparr>fr_id = new (sd_next s), fr_active = True, fr_rules = ferry_rules, fr_created_at = now\<rparr>"
  let ?off = "update_where fr_active (\<lambda>r. r\<lparr>fr_active := False\<rparr>) (sd_fares s)"
  have ids: "map fr_id ?off = map fr_id (sd_fares s)" by (simp add: map_update_where)
  then have off: "fr_id ` set ?off = fr_id ` set (sd_fares s)" by (metis set_map)
  then have ins: "insert_unique fr_id ?row ?off = Some (?off @ [?row])" using assms(1,2) fresh_ids_now [of new "sd_next s" l] by (auto simp: ready_def)
  have run: "seed_fare_rules parse new now s = Inr (s\<lparr>sd_fares := ?off @ [?row], sd_next := Suc (sd_next s)\<rparr>)"
    by (simp only: seed_fare_rules_def replace_rules_def assms(3) sum.case False if_False ins option.case)
  have fresh: "fr_id ` set (?off @ [?row]) = insert (new (sd_next s)) (fr_id ` set (sd_fares s))" using off by simp
  have "current_rules (?off @ [?row]) = Some ferry_rules" by (simp add: current_rules_def)
  moreover have "ready new l (s\<lparr>sd_fares := ?off @ [?row], sd_next := Suc (sd_next s)\<rparr>)"
    using assms(1) supplies_later [of new l "sd_db s" "sd_next s" "Suc (sd_next s)"] fresh_ids_more [of new "sd_next s" l _ "Suc (sd_next s)"]
    by (auto simp: ready_def fresh simp del: set_append)
  ultimately show ?thesis using run by (auto simp: stepped_def grows_def)
qed

lemma ancillary_step:
  assumes "ready new l s" "sd_next s < l"
  shows "\<exists>s'. seed_ancillary new c s = Inr s' \<and> stepped new l s s' \<and> fst c \<in> an_code ` set (sd_ancillaries s')"
proof -
  obtain code name kind price per sc where c: "c = (code, name, kind, price, per, sc)" by (metis prod.collapse)
  have free: "\<forall>a\<in>set (sd_ancillaries s). an_id a \<noteq> new (sd_next s)"
  proof -
    have "new (sd_next s) \<notin> fr_id ` set (sd_fares s) \<union> an_id ` set (sd_ancillaries s)"
      by (rule fresh_ids_now) (use assms in \<open>simp_all add: ready_def\<close>)
    then show ?thesis by force
  qed
  have sup: "supplies new l (sd_db s, Suc (sd_next s))" using assms(1) supplies_later [of new l "sd_db s" "sd_next s"] by (simp add: ready_def)
  have ids: "fresh_ids new (Suc (sd_next s)) l B" if "B \<subseteq> fr_id ` set (sd_fares s) \<union> an_id ` set (sd_ancillaries s) \<union> {new (sd_next s)}" for B
    using assms(1) that fresh_ids_more [of new "sd_next s" l _ "Suc (sd_next s)" B] by (auto simp: ready_def)
  show ?thesis
  proof (cases "list_ex (\<lambda>a. an_code a = code) (sd_ancillaries s)")
    case True
    then have "seed_ancillary new c s = Inr (s\<lparr>sd_next := Suc (sd_next s)\<rparr>)" by (simp add: c seed_ancillary_def)
    then show ?thesis using assms(1) True sup ids by (auto simp: c ready_def grows_def stepped_def list_ex_iff)
  next
    case False
    let ?s = "s\<lparr>sd_ancillaries := sd_ancillaries s @ [\<lparr>an_id = new (sd_next s), an_code = code, an_name = name, an_description = [],
           an_kind = kind, an_price_minor = price, an_per = per, an_scope = sc, an_active = True\<rparr>], sd_next := Suc (sd_next s)\<rparr>"
    have "seed_ancillary new c s = Inr ?s" using False free by (auto simp: c seed_ancillary_def list_ex_iff)
    moreover have "stepped new l s ?s" using assms(1) sup ids by (auto simp: ready_def grows_def stepped_def)
    ultimately show ?thesis by (simp add: c)
  qed
qed

lemma db_step:
  assumes "ready new l s" "step_effect new l (sd_db s, sd_next s) (d, n)" "demo_vessel d"
  shows "stepped new l s (s\<lparr>sd_db := d, sd_next := n\<rparr>)"
  using assms fresh_ids_more [of new "sd_next s" l _ n] by (auto simp: stepped_def ready_def grows_def step_effect_def)

lemma outbound_step:
  assumes "ready new l s" "sd_next s + 68 \<le> l"
  shows "\<exists>s'. on_db (seed_outbound new now) s = Inr s' \<and> stepped new l s s' \<and> has_route ''BTG-CEB'' (sd_db s')"
proof (cases "has_route ''BTG-CEB'' (sd_db s)")
  case True
  then show ?thesis using assms by (simp add: on_db_def seed_outbound_def grows_def stepped_def)
next
  case False
  then have free: "demo_free (sd_db s)" using assms(1) by (auto simp: ready_def demo_vessel_def)
  have sup: "supplies new l (sd_db s, sd_next s)" "tables_ok (sd_db s)" using assms(1) by (auto simp: ready_def)
  let ?d = "demo_outbound new (date_of now) (sd_db s, sd_next s)"
  have "on_db (seed_outbound new now) s = Inr (s\<lparr>sd_db := ?d, sd_next := sd_next s + 68\<rparr>)"
    by (simp add: on_db_def seed_outbound_result [OF sup(1) free assms(2)])
  moreover have ves: "demo_vessel ?d" by (simp add: demo_vessel_def has_route_def)
  ultimately show ?thesis using db_step [OF assms(1) outbound_effect [OF sup(1) free sup(2) assms(2)] ves]
    by (simp add: demo_vessel_def del: demo_outbound_simps)
qed

lemma return_step:
  assumes "ready new l s" "sd_next s + 68 \<le> l" "has_route ''BTG-CEB'' (sd_db s)"
  shows "\<exists>s'. on_db (seed_return_route new now) s = Inr s' \<and> stepped new l s s' \<and> has_route ''CEB-BTG'' (sd_db s')"
proof -
  have ves: "demo_vessel (sd_db s)" using assms(1,3) by (auto simp: ready_def demo_free_def has_route_def list_ex_iff not_in_image)
  then obtain d n where run: "seed_return_route new now (sd_db s, sd_next s) = Inr (d, n)"
    and eff: "step_effect new l (sd_db s, sd_next s) (d, n)" and ceb: "has_route ''CEB-BTG'' d"
    using return_result [of new l "sd_db s" "sd_next s" now] assms(1,2) by (fastforce simp: ready_def demo_vessel_def)
  have "demo_vessel d" using ves eff by (auto simp: demo_vessel_def step_effect_def has_route_def list_ex_iff)
  with db_step [OF assms(1) eff] run ceb show ?thesis by (auto simp: on_db_def)
qed

lemma step_ok:
  assumes "ready new l s" "sd_next s + 68 \<le> l" "parse ferry_rules = Inr rs" "k < 7" "settled k s"
  shows "\<exists>s'. (seed_steps parse new now ! k) s = Inr s' \<and> stepped new l s s' \<and> settled (Suc k) s'"
proof -
  have keep: "settled k s'" if "stepped new l s s'" for s' using grows_settled [OF _ assms(5)] that by (simp add: stepped_def)
  have more: "sd_next s < l" using assms(2) by simp
  consider "k = 0" | j where "k = Suc j" "j < 4" | "k = 5" | "k = 6" using assms(4) by (cases k) (auto simp: less_Suc_eq numeral_eq_Suc)
  then show ?thesis
  proof cases
    case 1
    then show ?thesis using fares_step [where parse = parse and now = now, OF assms(1) more assms(3)] by (auto simp: seed_steps_def settled_def)
  next
    case 2
    have step: "seed_steps parse new now ! k = seed_ancillary new (ancillary_catalog ! j)" using 2 by (simp add: seed_steps_def nth_append)
    obtain s' where s': "seed_ancillary new (ancillary_catalog ! j) s = Inr s'" "stepped new l s s'"
      "fst (ancillary_catalog ! j) \<in> an_code ` set (sd_ancillaries s')" using ancillary_step [OF assms(1) more] by blast
    have "settled (Suc k) s'" using 2 s'(3) keep [OF s'(2)] by (auto simp: settled_def take_Suc_conv_app_nth)
    with s' step show ?thesis by auto
  next
    case 3
    then have step: "seed_steps parse new now ! k = on_db (seed_outbound new now)" by (simp add: seed_steps_def nth_append)
    obtain s' where s': "on_db (seed_outbound new now) s = Inr s'" "stepped new l s s'" "has_route ''BTG-CEB'' (sd_db s')"
      using outbound_step [OF assms(1,2)] by blast
    with keep [OF s'(2)] 3 have "settled (Suc k) s'" by (auto simp: settled_def)
    with s' step show ?thesis by auto
  next
    case 4
    then have step: "seed_steps parse new now ! k = on_db (seed_return_route new now)" by (simp add: seed_steps_def nth_append)
    have "has_route ''BTG-CEB'' (sd_db s)" using assms(5) 4 by (simp add: settled_def)
    then obtain s' where s': "on_db (seed_return_route new now) s = Inr s'" "stepped new l s s'" "has_route ''CEB-BTG'' (sd_db s')"
      using return_step [OF assms(1,2)] by blast
    with keep [OF s'(2)] 4 have "settled (Suc k) s'" by (auto simp: settled_def)
    with s' step show ?thesis by auto
  qed
qed

text \<open>With \<open>m\<close> turns to come there must be \<open>68 * m\<close> ids left.\<close>

definition race_inv :: "(nat \<Rightarrow> uuid) \<Rightarrow> nat \<Rightarrow> nat \<Rightarrow> race \<Rightarrow> bool" where
  "race_inv new l m r \<longleftrightarrow> ready new l (rc_tables r) \<and> sd_next (rc_tables r) + 68 * m \<le> l \<and> rc_failed r = []
     \<and> (\<forall>i. rc_cursor r i \<le> 7 \<and> settled (rc_cursor r i) (rc_tables r))"

lemma turn_inv:
  assumes "race_inv new l (Suc m) r" "parse ferry_rules = Inr rs"
  shows "race_inv new l m (seeder_turn parse new now i r)"
    and "rc_cursor (seeder_turn parse new now i r) j = min 7 (rc_cursor r j + (if j = i then 1 else 0))"
proof -
  have le: "rc_cursor r j \<le> 7" using assms(1) by (simp add: race_inv_def)
  have "race_inv new l m (seeder_turn parse new now i r)
    \<and> rc_cursor (seeder_turn parse new now i r) j = min 7 (rc_cursor r j + (if j = i then 1 else 0))"
  proof (cases "rc_cursor r i < 7")
    case True
    obtain s' where s': "(seed_steps parse new (now i) ! rc_cursor r i) (rc_tables r) = Inr s'" "stepped new l (rc_tables r) s'"
      "settled (Suc (rc_cursor r i)) s'"
      using step_ok [where parse = parse and now = "now i", OF _ _ assms(2) True] assms(1) by (fastforce simp: race_inv_def)
    have "settled (rc_cursor r j) s'" for j using grows_settled s'(2) assms(1) unfolding race_inv_def stepped_def by blast
    with s' True assms(1) le show ?thesis by (simp add: seeder_turn_def race_inv_def stepped_def Let_def)
  qed (use assms(1) le in \<open>auto simp: seeder_turn_def race_inv_def le_antisym\<close>)
  then show "race_inv new l m (seeder_turn parse new now i r)"
    "rc_cursor (seeder_turn parse new now i r) j = min 7 (rc_cursor r j + (if j = i then 1 else 0))" by simp_all
qed

lemma race_run:
  assumes "race_inv new l (length schedule) r" "parse ferry_rules = Inr rs"
  shows "race_inv new l 0 (fold (seeder_turn parse new now) schedule r)
    \<and> (\<forall>i. rc_cursor (fold (seeder_turn parse new now) schedule r) i = min 7 (rc_cursor r i + count_list schedule i))"
  using assms(1)
proof (induction schedule arbitrary: r)
  case Nil
  then show ?case by (auto simp: race_inv_def)
next
  case (Cons j js)
  then have inv: "race_inv new l (Suc (length js)) r" by simp
  note turn = turn_inv [where parse = parse and now = now and i = j, OF inv assms(2)]
  from Cons.IH [OF turn(1)] turn(2) show ?case by (auto simp: min_def)
qed


section \<open>Seeding again\<close>

lemma run_steps_ok:
  assumes "ready new l s" "sd_next s + 68 * (7 - k) \<le> l" "parse ferry_rules = Inr rs" "settled k s" "k \<le> 7"
  shows "\<exists>s'. run_steps (drop k (seed_steps parse new now)) s = (s', Inr ()) \<and> demo_complete s'"
  using assms
proof (induction "7 - k" arbitrary: k s)
  case 0
  then show ?case using settled_complete by simp
next
  case (Suc m)
  then have k: "k < 7" and left: "sd_next s + 68 \<le> l" by simp_all
  obtain s1 where s1: "(seed_steps parse new now ! k) s = Inr s1" "stepped new l s s1" "settled (Suc k) s1"
    using step_ok [where parse = parse and now = now, OF Suc.prems(1) left Suc.prems(3) k Suc.prems(4)] by blast
  have s2: "ready new l s1" "sd_next s1 + 68 * (7 - Suc k) \<le> l" using s1(2) Suc.prems(2) k by (auto simp: stepped_def)
  have "drop k (seed_steps parse new now) = seed_steps parse new now ! k # drop (Suc k) (seed_steps parse new now)"
    using k by (simp add: Cons_nth_drop_Suc)
  with s1(1) Suc.hyps(1) [of "Suc k" s1] Suc.hyps(2) Suc.prems(3) s1(3) s2 k show ?case by simp
qed

lemma again_unchanged:
  assumes "demo_complete s" "parse ferry_rules = Inr rs"
  shows "seed parse new now s = (s\<lparr>sd_next := sd_next s + 4\<rparr>, Inr ())"
proof -
  have anc: "seed_ancillary new c x = Inr (x\<lparr>sd_next := Suc (sd_next x)\<rparr>)" if "c \<in> set ancillary_catalog" "sd_ancillaries x = sd_ancillaries s" for c x
    using assms(1) that by (auto simp: seed_ancillary_def demo_complete_def list_all_iff split: prod.splits)
  have "seed_ancillary new (ancillary_catalog ! j) x = Inr (x\<lparr>sd_next := Suc (sd_next x)\<rparr>)" if "j < 4" "sd_ancillaries x = sd_ancillaries s" for j x
    using anc [OF nth_mem] that by simp
  moreover have "map (seed_ancillary new) ancillary_catalog = map (\<lambda>j. seed_ancillary new (ancillary_catalog ! j)) [0, 1, 2, 3]"
    by (simp add: ancillary_catalog_def)
  ultimately show ?thesis using assms
    by (simp add: seed_def seed_steps_def seed_fare_rules_def demo_complete_def on_db_def seed_outbound_def seed_return_route_def)
qed


end
