(* ===== verification/Seed_Bookings.thy ===== *)
theory Seed_Bookings
  imports Seed_Runs
begin

text \<open>
  Seeding and the booking invariant, and which of the demo's departures can still be booked.
\<close>

section \<open>No booking is disturbed\<close>

lemma seed_location_inv: "seed_location new c x = Inr y \<Longrightarrow> system_inv (fst (fst x)) \<Longrightarrow> system_inv (fst (fst y))"
  by (auto simp: seed_location_def split: prod.splits if_splits)

lemma seed_operator_inv: "seed_operator new c m (d, n) = Inr ((d', n'), i) \<Longrightarrow> system_inv d \<Longrightarrow> system_inv d'"
  by (auto simp: seed_operator_def split: if_splits)

lemma seed_route_inv: "seed_route new c m (d, n) = Inr ((d', n'), i) \<Longrightarrow> system_inv d' = system_inv d \<and> capacity_units d' = capacity_units d"
  by (auto simp: seed_route_def split: if_splits)

lemma seed_resource_inv: "seed_resource new c m k (d, n) = Inr ((d', n'), i) \<Longrightarrow> system_inv d \<Longrightarrow> system_inv d'"
  by (auto simp: seed_resource_def split: if_splits)

lemma seed_stop_inv: "seed_stop rid sch x d = Inr d' \<Longrightarrow> system_inv d' = system_inv d \<and> capacity_units d' = capacity_units d"
  by (auto simp: seed_stop_def split: prod.splits if_splits)

lemma seed_seat_inv: "seed_seat new rid c x = Inr y \<Longrightarrow> system_inv (fst (fst x)) \<Longrightarrow> system_inv (fst (fst y))"
  by (auto simp: seed_seat_def split: prod.splits elim!: insert_unit_inv)

text \<open>A pool's id stands for its capacity from then on.\<close>

definition pools_known :: "draft \<times> (uuid \<times> int) list \<Rightarrow> bool" where
  "pools_known x \<longleftrightarrow> system_inv (fst (fst x)) \<and> (\<forall>(i, c)\<in>set (snd x). pool_capacity_of (fst (fst x)) i = Some c \<and> in_i32 c)"

lemma find_append_None: "List.find P xs = None \<Longrightarrow> List.find P (xs @ ys) = List.find P ys"
  by (induction xs) (auto split: if_splits)

lemma seed_pool_known:
  assumes "seed_pool new rid adm c x = Inr y" "pools_known x" "in_i32 (snd c)"
  shows "pools_known y"
proof -
  obtain d n ids code cap where x: "x = ((d, n), ids)" "c = (code, cap)" by (metis prod.collapse)
  let ?row = "\<lparr>cu_id = new n, cu_resource = rid, cu_kind = ''pool'', cu_code = code, cu_fare_class = None, cu_pool_capacity = Some cap, cu_admission = adm\<rparr>"
  from assms(1) obtain d' where d': "insert_unit ?row d = Inr d'" "y = ((d', Suc n), ids @ [(new n, cap)])" by (auto simp: seed_pool_def x)
  have inv: "system_inv d" using assms(2) by (simp add: pools_known_def x)
  have units: "capacity_units d' = capacity_units d @ [?row]" and fresh: "List.find (\<lambda>u. cu_id u = new n) (capacity_units d) = None"
    using d'(1) by (auto simp: insert_unit_def list_ex_iff find_None_iff split: if_splits)
  have "system_inv d'" using insert_unit_inv [OF d'(1) inv] assms(3) by (simp add: x)
  moreover have "pool_capacity_of d' i = Some k" if "pool_capacity_of d i = Some k" for i k
    using that by (auto simp: pool_capacity_of_def units bind_eq_Some_conv dest: find_append_Some)
  moreover have "pool_capacity_of d' (new n) = Some cap" by (simp add: pool_capacity_of_def units find_append_None [OF fresh])
  ultimately show ?thesis using assms(2,3) by (fastforce simp: pools_known_def x d'(2))
qed

text \<open>A departure that is seeded is one the schedule would insert.\<close>

lemma seed_trip_schedule: "seed_trip row units d = Inr d' \<Longrightarrow> insert_trip row (tr_segment_count row) units (d, []) = Inr (d', [tr_id row])"
  by (auto simp: seed_trip_def insert_trip_def list_ex_iff split: if_splits)

lemma occupancy_added:
  "try_fold (insert_occupancy t segs) units d = Inr d' \<Longrightarrow> set (seat_occupancy d) \<subseteq> set (seat_occupancy d')
    \<and> (\<forall>u. (u, None) \<in> set units \<longrightarrow> \<lparr>so_trip = t, so_unit = u, so_mask = 0\<rparr> \<in> set (seat_occupancy d'))"
proof (induction units arbitrary: d)
  case (Cons x units)
  then obtain d1 where d1: "insert_occupancy t segs x d = Inr d1" "try_fold (insert_occupancy t segs) units d1 = Inr d'" by auto
  have "set (seat_occupancy d) \<subseteq> set (seat_occupancy d1) \<and> (\<forall>u. x = (u, None) \<longrightarrow> \<lparr>so_trip = t, so_unit = u, so_mask = 0\<rparr> \<in> set (seat_occupancy d1))"
    using d1(1) by (auto simp: insert_occupancy_def Let_def split: prod.splits option.splits if_splits)
  with Cons.IH [OF d1(2)] show ?case by auto
qed simp

definition departures_known :: "(uuid \<times> int option) list \<Rightarrow> capacity_unit_row list \<Rightarrow> draft \<times> uuid list \<Rightarrow> bool" where
  "departures_known units cus x \<longleftrightarrow> system_inv (fst (fst x)) \<and> capacity_units (fst (fst x)) = cus
     \<and> (\<forall>t\<in>set (snd x). \<forall>u. (u, None) \<in> set units \<longrightarrow> \<lparr>so_trip = t, so_unit = u, so_mask = 0\<rparr> \<in> set (seat_occupancy (fst (fst x))))"

lemma seed_sailing_known:
  assumes run: "seed_sailing new rid res_id operator_id clock segs units day x = Inr y" and known: "departures_known units (capacity_units d0) x"
    and caps: "\<And>u c. (u, Some c) \<in> set units \<Longrightarrow> pool_capacity_of d0 u = Some c \<and> in_i32 c"
  shows "departures_known units (capacity_units d0) y"
proof -
  obtain d n ids number date where x: "x = ((d, n), ids)" "day = (number, date)" by (metis prod.collapse)
  let ?row = "sailing_row (new n) rid res_id operator_id number date clock segs"
  from run obtain d' where d': "seed_trip ?row units d = Inr d'" "y = ((d', Suc n), ids @ [new n])" by (auto simp: seed_sailing_def x)
  have "pool_capacity_of d u = pool_capacity_of d0 u" for u using known by (simp add: pool_capacity_of_def departures_known_def x)
  then have inv: "system_inv d' \<and> capacity_units d' = capacity_units d"
    using insert_trip_inv [OF seed_trip_schedule [OF d'(1)]] known caps by (simp add: departures_known_def x)
  have "try_fold (insert_occupancy (new n) segs) units (d\<lparr>trips := trips d @ [?row]\<rparr>) = Inr d'"
    using d'(1) by (auto simp: seed_trip_def sailing_row_def split: if_splits)
  from occupancy_added [OF this] inv known show ?thesis by (auto simp: departures_known_def x d'(2))
qed

lemma seed_sailings_known:
  assumes "try_fold (seed_sailing new rid res_id operator_id clock segs units) days ((d, n), []) = Inr y" "system_inv d"
    and "\<And>u c. (u, Some c) \<in> set units \<Longrightarrow> pool_capacity_of d u = Some c \<and> in_i32 c"
  shows "departures_known units (capacity_units d) y"
  using assms(1)
proof (rule try_fold_keeps [where P = "departures_known units (capacity_units d)"])
  show "departures_known units (capacity_units d) ((d, n), [])" using assms(2) by (simp add: departures_known_def)
qed (rule seed_sailing_known [OF _ _ assms(3)])

text \<open>Marking a row whose mask is empty: nothing was accounted there.\<close>

lemma mark_sold_inv:
  assumes inv: "system_inv d" and empty: "\<And>r. r \<in> set (seat_occupancy d) \<Longrightarrow> P r \<Longrightarrow> so_mask r = 0"
  shows "system_inv (d\<lparr>seat_occupancy := update_where P (\<lambda>r. r\<lparr>so_mask := m\<rparr>) (seat_occupancy d)\<rparr>)" (is "system_inv ?d")
proof -
  have claims: "claims_inv d" and log: "log_inv d" and units: "units_ok d" using inv by (simp_all add: system_inv_def booking_inv_def)
  have items: "live_items ?d = live_items d" by (simp add: live_items_def live_def)
  have keys: "map seat_key (seat_occupancy ?d) = map seat_key (seat_occupancy d)" by (simp add: map_update_where seat_key_def)
  have raise: "seat_held r M \<Longrightarrow> so_mask r = 0 \<Longrightarrow> seat_held (r\<lparr>so_mask := m\<rparr>) M" for r M by (simp add: seat_held_def)
  have "seats_ok ?d (seat_part (live_items ?d))" unfolding items seats_ok_def ledger_ok_def keys
    using claims raise empty by (auto simp: claims_inv_def seats_ok_def ledger_ok_def set_update_where seat_key_def)
  moreover have "pools_ok ?d (pool_part (live_items ?d))" unfolding items
    using claims by (simp add: claims_inv_def pools_ok_def pool_capacity_of_def [abs_def])
  moreover have "\<forall>r\<in>set (order_items ?d). item_backed ?d r"
  proof -
    have "seat_key ` set (seat_occupancy ?d) = seat_key ` set (seat_occupancy d)" using keys by (metis set_map)
    then show ?thesis using claims by (auto simp: claims_inv_def item_backed_def simp del: set_map)
  qed
  ultimately have "claims_inv ?d" by (simp add: claims_inv_def)
  moreover have "log_inv ?d" using log log_inv_cong [of ?d d] by (simp add: order_view_def)
  ultimately show ?thesis using units by (simp add: system_inv_def booking_inv_def units_ok_def)
qed

text \<open>The part both networks share: locations, operator, route, stops, vessel and seats.\<close>

lemma network_inv:
  assumes "try_fold (seed_location new) cs ((d, n), []) = Inr (dn1, locs)" "seed_operator new oc om dn1 = Inr (dn2, opr)"
    "seed_route new rc rm dn2 = Inr ((d3, n3), rid)" "try_fold (seed_stop rid sch) stops d3 = Inr d4"
    "seed_resource new vc vm vk (d4, n3) = Inr (dn5, res)" "try_fold (seed_seat new res) seats (dn5, []) = Inr (dn6, seat_ids)"
    and inv: "system_inv d"
  shows "system_inv (fst dn6)"
proof -
  have "system_inv (fst (fst (dn1, locs)))"
    using assms(1) by (rule try_fold_keeps [where P = "\<lambda>x. system_inv (fst (fst x))"]) (use inv seed_location_inv in auto)
  then have "system_inv (fst dn2)" using seed_operator_inv assms(2) by (metis fst_conv prod.collapse)
  then have "system_inv d3" using seed_route_inv assms(3) by (metis fst_conv prod.collapse)
  then have "system_inv d4" using assms(4) by (elim try_fold_keeps) (auto dest: seed_stop_inv)
  then have "system_inv (fst dn5)" using seed_resource_inv assms(5) by (metis fst_conv prod.collapse)
  then have "system_inv (fst (fst (dn6, seat_ids)))"
    using assms(6) by (elim try_fold_keeps [where P = "\<lambda>x. system_inv (fst (fst x))"]) (simp, erule (1) seed_seat_inv)
  then show ?thesis by simp
qed

lemma seed_pools_known:
  assumes "try_fold (seed_pool new res adm) ps ((d, n), []) = Inr y" "system_inv d" "\<forall>c\<in>set ps. in_i32 (snd c)"
  shows "pools_known y"
proof (rule try_fold_invariant [OF _ _ assms(1)])
  show "pools_known ((d, n), [])" using assms(2) by (simp add: pools_known_def)
qed (use assms(3) seed_pool_known in blast)

lemma seeded_units:
  assumes "pools_known ((d, n), pool_ids)"
    and "(u, Some c) \<in> set (map (\<lambda>(i, _). (i, None)) (seat_ids :: (uuid \<times> string) list) @ map (\<lambda>(i, c). (i, Some c)) pool_ids)"
  shows "pool_capacity_of d u = Some c \<and> in_i32 c"
  using assms by (auto simp: pools_known_def)

lemma outbound_tables_inv:
  assumes run: "outbound_tables new today (d, n) = Inr (dn', trip_ids, seat_ids)" and inv: "system_inv d"
  shows "\<exists>units cus. departures_known units cus (dn', trip_ids) \<and> (\<forall>x\<in>set seat_ids. (fst x, None) \<in> set units)"
proof -
  from run obtain dn1 locs dn2 opr d3 n3 rid d4 dn5 res d6 n6 d7 n7 pool_ids where
    net: "try_fold (seed_location new) STOPS ((d, n), []) = Inr (dn1, locs)" "seed_operator new ''LUL'' ''Lulan Ferries'' dn1 = Inr (dn2, opr)"
    "seed_route new ''BTG-CEB'' (''Batangas '' @ [CHR 0xE2, CHR 0x80, CHR 0x93] @ '' Cebu'') dn2 = Inr ((d3, n3), rid)"
    "try_fold (seed_stop rid STOP_SCHEDULE) (zip [0..<length locs] locs) d3 = Inr d4"
    "seed_resource new ''MV-LULAN-1'' ''MV Lulan One'' ''ferry'' (d4, n3) = Inr (dn5, res)"
    "try_fold (seed_seat new res) ferry_seats (dn5, []) = Inr ((d6, n6), seat_ids)"
    and pools: "try_fold (seed_pool new res False) ferry_pools ((d6, n6), []) = Inr ((d7, n7), pool_ids)"
    and trips: "try_fold (seed_sailing new rid res opr 0 SEGMENTS (map (\<lambda>(i, _). (i, None)) seat_ids @ map (\<lambda>(i, c). (i, Some c)) pool_ids))
        (map (\<lambda>day. (''LUL 501'', today + day)) [0..DAYS - 1]) ((d7, n7), []) = Inr (dn', trip_ids)"
    by (auto simp: outbound_tables_def)
  have "system_inv d6" using network_inv [OF net inv] by simp
  then have known: "pools_known ((d7, n7), pool_ids)" by (rule seed_pools_known [OF pools]) (simp add: ferry_pools_def in_i32_def)
  then have "system_inv d7" by (simp add: pools_known_def)
  from seed_sailings_known [OF trips this seeded_units [OF known]] show ?thesis by (intro exI conjI) (assumption, force simp: image_iff split_beta)
qed

lemma outbound_inv:
  assumes run: "seed_outbound new now (d, n) = Inr (d', n')" and inv: "system_inv d"
  shows "system_inv d'"
proof (cases "has_route ''BTG-CEB'' d")
  case True
  then show ?thesis using run inv by (simp add: seed_outbound_def)
next
  case False
  with run obtain d1 trip_ids seat_ids where tables: "outbound_tables new (date_of now) (d, n) = Inr ((d1, n'), trip_ids, seat_ids)"
    and sell: "sell_12A trip_ids seat_ids d1 = Inr d'" by (auto simp: seed_outbound_def)
  obtain units cus where known: "departures_known units cus ((d1, n'), trip_ids)" "\<forall>x\<in>set seat_ids. (fst x, None) \<in> set units"
    using outbound_tables_inv [OF tables inv] by blast
  from sell obtain first rest seat where f: "trip_ids = first # rest" "List.find (\<lambda>(_, code). code = ''12A'') seat_ids = Some seat"
    and d': "d' = d1\<lparr>seat_occupancy := update_where (\<lambda>r. so_trip r = first \<and> so_unit r = fst seat) (\<lambda>r. r\<lparr>so_mask := 5\<rparr>) (seat_occupancy d1)\<rparr>"
    by (auto simp: sell_12A_def split: list.splits)
  have row: "\<lparr>so_trip = first, so_unit = fst seat, so_mask = 0\<rparr> \<in> set (seat_occupancy d1)"
    using known f find_Some_in [OF f(2)] by (auto simp: departures_known_def)
  have dist: "distinct (map seat_key (seat_occupancy d1))" and inv1: "system_inv d1"
    using known(1) by (auto simp: departures_known_def system_inv_def booking_inv_def claims_inv_def seats_ok_def ledger_ok_def)
  show ?thesis unfolding d'
  proof (rule mark_sold_inv [OF inv1])
    fix r assume "r \<in> set (seat_occupancy d1)" "so_trip r = first \<and> so_unit r = fst seat"
    with distinct_key_eq [OF dist this(1) row] show "so_mask r = 0" by (simp add: seat_key_def)
  qed
qed

lemma return_inv:
  assumes run: "seed_return_route new now (d, n) = Inr (d', n')" and inv: "system_inv d"
  shows "system_inv d'"
proof (cases "has_route ''CEB-BTG'' d")
  case True
  then show ?thesis using run inv by (simp add: seed_return_route_def)
next
  case False
  with run obtain res :: resource_row and opr :: operator_row and d1 n1 rid d2 ids where
    steps: "seed_route new ''CEB-BTG'' (''Cebu '' @ [CHR 0xE2, CHR 0x80, CHR 0x93] @ '' Batangas'') (d, n) = Inr ((d1, n1), rid)"
      "try_fold (seed_return_stop rid) (zip [0..<length STOPS] (rev (map fst STOPS))) d1 = Inr d2"
    and trips: "try_fold (seed_sailing new rid (re_id res) (op_id opr) (hours 12) SEGMENTS
          (map (\<lambda>u. (cu_id u, cu_pool_capacity u)) (filter (\<lambda>u. cu_resource u = re_id res) (capacity_units d2))))
        (map (\<lambda>day. (''LUL 502'', date_of now + day)) [0..DAYS - 1]) ((d2, n1), []) = Inr ((d', n'), ids)"
    by (auto simp: seed_return_route_def)
  have stop: "system_inv y" if "seed_return_stop rid x s = Inr y" "system_inv s" for x s y
    using that unfolding seed_return_stop_def by (auto split: prod.splits elim!: try_fold_keeps dest: seed_stop_inv)
  have "system_inv d1" using seed_route_inv [OF steps(1)] inv by simp
  with steps(2) have d2: "system_inv d2" by (rule try_fold_keeps) (rule stop)
  have caps: "pool_capacity_of d2 u = Some c \<and> in_i32 c"
    if "(u, Some c) \<in> set (map (\<lambda>u. (cu_id u, cu_pool_capacity u)) (filter (\<lambda>u. cu_resource u = re_id res) (capacity_units d2)))" for u c
    using that d2 unit_capacity [of d2] by (auto simp: system_inv_def dest: sym)
  from seed_sailings_known [OF trips d2 caps] show ?thesis by (simp add: departures_known_def)
qed

lemma arena_inv:
  assumes run: "seed_arena new now (d, n) = Inr (d', n')" and inv: "system_inv d"
  shows "system_inv d'"
proof -
  from run obtain dn1 locs dn2 opr d3 n3 rid d4 dn5 res d6 n6 seat_ids d7 n7 pool_ids ids where
    net: "try_fold (seed_location new) [(''DOORS'', ''Doors open''), (''END'', ''Show ends'')] ((d, n), []) = Inr (dn1, locs)"
    "seed_operator new ''SRN'' ''Sirena Live'' dn1 = Inr (dn2, opr)"
    "seed_route new ''ARENA-SHOW'' ''Sirena Live at the Big Dome'' dn2 = Inr ((d3, n3), rid)"
    "try_fold (seed_stop rid [(0, 0), (180, 180)]) (zip [0..<length locs] locs) d3 = Inr d4"
    "seed_resource new ''ARENA-1'' ''The Big Dome'' ''other'' (d4, n3) = Inr (dn5, res)"
    "try_fold (seed_seat new res) arena_seats (dn5, []) = Inr ((d6, n6), seat_ids)"
    and pools: "seed_pool new res True (''GENERAL_ADMISSION'', ARENA_GA_CAPACITY) ((d6, n6), []) = Inr ((d7, n7), pool_ids)"
    and trips: "try_fold (seed_sailing new rid res opr (hours 12) 1 (map (\<lambda>(i, _). (i, None)) seat_ids @ map (\<lambda>(i, c). (i, Some c)) pool_ids))
        (map (\<lambda>(idx, day). (''NIGHT '' @ nat_text (idx + 1), date_of now + day)) [(0, 2), (1, 3), (2, 4)]) ((d7, n7), []) = Inr ((d', n'), ids)"
    unfolding seed_arena_def by (auto simp del: try_fold.simps)
  have "system_inv d6" using network_inv [OF net inv] by simp
  then have "pools_known ((d6, n6), [])" by (simp add: pools_known_def)
  then have known: "pools_known ((d7, n7), pool_ids)" by (rule seed_pool_known [OF pools]) (simp add: ARENA_GA_CAPACITY_def in_i32_def)
  then have "system_inv d7" by (simp add: pools_known_def)
  from seed_sailings_known [OF trips this seeded_units [OF known]] show ?thesis by (simp add: departures_known_def)
qed

lemma run_steps_keeps: "P s \<Longrightarrow> (\<And>f x y. f \<in> set fs \<Longrightarrow> P x \<Longrightarrow> f x = Inr y \<Longrightarrow> P y) \<Longrightarrow> P (fst (run_steps fs s))"
  by (induction fs arbitrary: s) (auto split: sum.splits)

text \<open>Seeding disturbs no booking: whatever is in the database and however far it gets, the ferry and the concert seeders keep the
  booking invariant - the seat they mark as sold was on a sailing nothing had been booked on.\<close>
theorem seeding_keeps_bookings:
  assumes "system_inv (sd_db s)"
  shows "system_inv (sd_db (fst (seed parse new now s)))
    \<and> pred_sum (\<lambda>_. True) (\<lambda>s'. system_inv (sd_db s')) (seed_events parse new now s)"
proof
  have on: "system_inv (sd_db y)" if "on_db f x = Inr y" "system_inv (sd_db x)" "\<And>d n d' n'. f (d, n) = Inr (d', n') \<Longrightarrow> system_inv d \<Longrightarrow> system_inv d'" for f x y
    using that by (auto simp: on_db_def)
  show "system_inv (sd_db (fst (seed parse new now s)))" unfolding seed_def
  proof (rule run_steps_keeps [where P = "\<lambda>s. system_inv (sd_db s)"])
    fix f x y assume f: "f \<in> set (seed_steps parse new now)" and x: "system_inv (sd_db x)" "f x = Inr y"
    from f consider "f = seed_fare_rules parse new now" | c where "f = seed_ancillary new c" | "f = on_db (seed_outbound new now)" | "f = on_db (seed_return_route new now)"
      by (auto simp: seed_steps_def)
    then show "system_inv (sd_db y)"
      by cases (use x on outbound_inv return_inv in \<open>auto simp: seed_fare_rules_def replace_rules_def seed_ancillary_def split: sum.splits if_splits option.splits prod.splits\<close>)
  qed (rule assms)
  show "pred_sum (\<lambda>_. True) (\<lambda>s'. system_inv (sd_db s')) (seed_events parse new now s)"
    using assms on [of "seed_arena new now"] arena_inv
    by (cases "seed_events parse new now s") (auto simp: seed_events_def replace_rules_def split: sum.splits if_splits option.splits)
qed

section \<open>The sailing of the example\<close>

lemma outbound_row_list:
  "outbound_rows new n today = map (\<lambda>k. sailing_row (new (n + 61 + k)) (new (n + 5)) (new (n + 6)) (new (n + 4)) ''LUL 501'' (today + int k) 0 SEGMENTS) [0..<7]"
proof (rule nth_equalityI)
  fix k assume "k < length (outbound_rows new n today)"
  then have k: "k < 7" by (simp add: outbound_rows_def sailings_def outbound_days)
  then have "outbound_days today ! k = (''LUL 501'', today + int k)" by (simp add: outbound_days_def DAYS_def nth_upto)
  with k show "outbound_rows new n today ! k = map (\<lambda>k. sailing_row (new (n + 61 + k)) (new (n + 5)) (new (n + 6)) (new (n + 4)) ''LUL 501'' (today + int k) 0 SEGMENTS) [0..<7] ! k"
    by (simp add: outbound_rows_def sailings_def outbound_days)
qed (simp add: outbound_rows_def sailings_def outbound_days)

lemma pick_span_offset: "pick_span stops a b = Inr (sp, off) \<Longrightarrow> \<exists>s\<in>set stops. stop_code s = a \<and> off = stop_depart_offset s"
  by (auto simp: pick_span_def Let_def split: if_splits dest!: find_Some_in)

text \<open>On the outbound line only the first stop is Batangas, and it departs with the trip.\<close>

lemma batangas_offset:
  assumes sup: "supplies new l (d, n)" and left: "n + 68 \<le> l" and free: "demo_free d"
    and span: "resolve_span (new (n + 5)) ''BTG'' destination (demo_outbound new today (d, n)) = Inr (span, off)"
  shows "off = 0"
proof -
  note old = supplies_simps [OF sup, unfolded not_in_image, rule_format]
  let ?d = "demo_outbound new today (d, n)"
  from span obtain s where "s \<in> set (route_stops_of (new (n + 5)) [''BTG'', destination] ?d)" "stop_code s = ''BTG''" "off = stop_depart_offset s"
    using pick_span_offset by (fastforce simp: resolve_span_def)
  then obtain rs loc where rs: "rs \<in> set (route_stops ?d)" "rs_route rs = new (n + 5)" "off = rs_depart_offset rs"
    and loc: "loc \<in> set (locations ?d)" "lo_id loc = rs_location rs" "lo_code loc = ''BTG''"
    by (auto simp: route_stops_of_def simp del: demo_outbound_simps)
  have "rs \<notin> set (route_stops d)" using rs(2) old(4) [of "n + 5"] left by auto
  then obtain i where i: "i < 4" "rs = stop_row (new (n + 5)) STOP_SCHEDULE (i, new (n + i))"
    using rs(1) by (auto simp: set_zip)
  have "loc \<notin> set (locations d)" using loc(3) free by (auto simp: demo_free_def STOPS_def not_in_image)
  then obtain k where k: "k < 4" "lo_id loc = new (n + k)" "lo_code loc = fst (STOPS ! k)"
    using loc(1) by (auto simp: location_rows_def set_zip STOPS_codes split_beta)
  have "k = i" using loc(2) i k fresh_ids_eq [OF sup [unfolded supplies_def], of "n + i" "n + k"] left by (simp add: stop_row_def)
  moreover have "k = 0" using k(1,3) loc(3) by (auto simp: STOPS_def less_Suc_eq numeral_eq_Suc)
  ultimately show ?thesis using rs(3) i(2) by (simp add: stop_row_def STOP_SCHEDULE_def)
qed

text \<open>The example of the demo cannot be followed from its first stop: the sailing on which seat 12A is marked as sold left at
  midnight UTC of the day of seeding, so from then on nothing on it is ever sold from Batangas, whatever the seat.\<close>
theorem first_sailing_has_left:
  assumes run: "seed_outbound new now (d, n) = Inr (d', n')" and sup: "supplies new l (d, n)" and left: "n + 68 \<le> l"
    and free: "demo_free d" and later: "now \<le> later"
  shows "(\<exists>t u. \<lparr>so_trip = t, so_unit = u, so_mask = 5\<rparr> \<in> set (seat_occupancy d')
      \<and> (\<forall>unit destination target. resolve_target later t unit ''BTG'' destination d' \<noteq> Inr (Some target)))"
proof (intro exI conjI allI notI)
  let ?today = "date_of now"
  have d': "d' = demo_outbound new ?today (d, n)" using run seed_outbound_result [OF sup free left, of now] by simp
  let ?first = "sailing_row (new (n + 61)) (new (n + 5)) (new (n + 6)) (new (n + 4)) ''LUL 501'' ?today 0 SEGMENTS"
  have first: "?first \<in> set (outbound_rows new n ?today)" by (force simp: outbound_row_list intro: image_eqI [of _ _ 0])
  have "\<lparr>so_trip = new (n + 61), so_unit = new (n + 51), so_mask = 0\<rparr> \<in> set (seat_occupancy (outbound_db new ?today (d, n)))"
  proof -
    have "(new (n + 51), None) \<in> set (ferry_units new n)" by (auto simp: ferry_units_def)
    then have "\<lparr>so_trip = new (n + 61), so_unit = new (n + 51), so_mask = 0\<rparr> \<in> set (seats_of (tr_id ?first) (ferry_units new n))"
      by (force simp: seats_of_def sailing_row_def)
    with first show ?thesis unfolding outbound_db_def split with_trips_simps set_append set_concat set_map by blast
  qed
  then show "\<lparr>so_trip = new (n + 61), so_unit = new (n + 51), so_mask = 5\<rparr> \<in> set (seat_occupancy d')"
    by (force simp: d' demo_outbound_def set_update_where simp del: demo_outbound_simps)
  fix unit destination target
  assume sold: "resolve_target later (new (n + 61)) unit ''BTG'' destination d' = Inr (Some target)"
  then obtain cu t rest where rows: "[(cu, t). t \<leftarrow> trips d', cu \<leftarrow> capacity_units d', cu_resource cu = tr_resource t \<and> cu_code cu = unit \<and> tr_id t = new (n + 61)] = (cu, t) # rest"
    by (auto simp: resolve_target_def split: list.splits)
  then have "(cu, t) \<in> set [(cu, t). t \<leftarrow> trips d', cu \<leftarrow> capacity_units d', cu_resource cu = tr_resource t \<and> cu_code cu = unit \<and> tr_id t = new (n + 61)]" by simp
  then have t: "t \<in> set (trips d')" "tr_id t = new (n + 61)" by auto
  have "t \<notin> set (trips d)" using t(2) supplies_simps(8) [OF sup, of "n + 61"] left by (auto simp: not_in_image)
  with t(1) have "t \<in> set (outbound_rows new n ?today)" by (simp add: d')
  then obtain k where k: "k < 7" "t = sailing_row (new (n + 61 + k)) (new (n + 5)) (new (n + 6)) (new (n + 4)) ''LUL 501'' (?today + int k) 0 SEGMENTS"
    by (auto simp: outbound_row_list)
  have "k = 0" using t(2) k fresh_ids_eq [OF sup [unfolded supplies_def], of "n + 61 + k" "n + 61"] left by (simp add: sailing_row_def)
  with k(2) have row: "tr_route t = new (n + 5)" "tr_departs_at t = ?today * hours 24" by (simp_all add: sailing_row_def)
  obtain span off where off: "resolve_span (tr_route t) ''BTG'' destination d' = Inr (span, off)" "later < tr_departs_at t + minutes off"
    using sold unfolding resolve_target_def rows by (auto simp: Let_def split: if_splits)
  have "off = 0" by (rule batangas_offset [OF sup left free, of destination ?today span off]) (use off(1) row(1) d' in simp)
  with off(2) row(2) later show False
    using div_mult_mod_eq [of now "hours 24"] pos_mod_sign [of "hours 24" now] by (simp add: date_of_def minutes_def seconds_def hours_def)
qed

section \<open>Witnesses\<close>

text \<open>A thousand ids, a fresh database and rules that parse.\<close>

definition seed_ids :: "nat \<Rightarrow> uuid" where "seed_ids n = Uuid (of_nat n)"

definition fresh_seeder :: seeder where
  "fresh_seeder = \<lparr>sd_db = empty_db, sd_fares = [], sd_ancillaries = [], sd_next = 0\<rparr>"

definition demo_parse :: "json \<Rightarrow> string + fare_rule_set" where
  "demo_parse _ = Inr demo_rules"

lemma seed_ids_inj: "inj_on seed_ids {0..<1000}"
proof (rule inj_onI)
  fix a b :: nat assume "a \<in> {0..<1000}" "b \<in> {0..<1000}" "seed_ids a = seed_ids b"
  then have "(of_nat a :: 128 word) = of_nat b" "a < 2 ^ 128" "b < 2 ^ 128" by (simp_all add: seed_ids_def)
  then show "a = b" by (auto simp: word_of_nat_eq_iff take_bit_nat_eq_self_iff dest!: arg_cong [of _ _ "\<lambda>n. n"] simp: take_bit_nat_eq_self)
qed

lemma fresh_seeder_ready: "ready seed_ids 1000 fresh_seeder" "supplies seed_ids 1000 (empty_db, 0)" "demo_free empty_db"
  using seed_ids_inj
  by (simp_all add: ready_def fresh_seeder_def supplies_def fresh_ids_def taken_def empty_db_def tables_ok_def demo_free_def)

definition demo_schedule :: "nat list" where "demo_schedule = [0, 1, 1, 0, 1, 1, 1, 0, 1, 1]"



lemma seeding_keeps_bookings_witness: "system_inv (sd_db (fst (seed demo_parse seed_ids 0 fresh_seeder)))"
  using seeding_keeps_bookings [of fresh_seeder demo_parse seed_ids 0] empty_db_inv [of "[]"]
  by (simp add: fresh_seeder_def empty_db_def)

lemma first_sailing_has_left_witness:
  "\<exists>t u. \<lparr>so_trip = t, so_unit = u, so_mask = 5\<rparr> \<in> set (seat_occupancy (demo_outbound seed_ids 0 (empty_db, 0)))
    \<and> (\<forall>unit destination target. resolve_target 0 t unit ''BTG'' destination (demo_outbound seed_ids 0 (empty_db, 0)) \<noteq> Inr (Some target))"
proof -
  have "seed_outbound seed_ids 0 (empty_db, 0) = Inr (demo_outbound seed_ids 0 (empty_db, 0), 68)"
    using seed_outbound_result [OF fresh_seeder_ready(2,3), of 0] by (simp add: date_of_def)
  from first_sailing_has_left [OF this fresh_seeder_ready(2) _ fresh_seeder_ready(3), of 0] show ?thesis by simp
qed

end
