(* ===== verification/Loadgen.thy ===== *)
theory Loadgen
  imports Reservations Access
begin

unbundle bit_operations_syntax

text \<open>
  The load harness, \<open>crates/lulan-loadgen/src/main.rs\<close>: it empties one sailing, sends many claims for overlapping spans, and then
  checks that no seat was sold twice, from the answers and from the table. The HTTP client, the random choices and the measured times
  are arguments; the server it talks to is a state that answers one request after the other, in the order the requests
  reach the database. The harness' own SQL works on the same tables.
\<close>

section \<open>Tasks and outcomes\<close>

record task =
  lt_seat :: string
  lt_origin :: string
  lt_destination :: string
  lt_from :: "8 word"
  lt_to :: "8 word"
  lt_use_hold :: bool

record outcome =
  oc_seat :: string
  oc_mask :: "64 word"
  oc_claimed :: bool
  oc_error :: bool
  oc_hold_error :: bool
  oc_claim_us :: nat
  oc_hold_us :: "nat option"

text \<open>\<open>f64::round\<close> rounds halves up here; exact while the list is shorter than \<open>2 ^ 40\<close>.\<close>

definition percentile :: "nat list \<Rightarrow> nat \<Rightarrow> nat" where
  "percentile xs p = (if xs = [] then 0 else xs ! (((length xs - 1) * p * 2 + 100) div 200))"

definition CODES :: "string list" where
  "CODES = [''BTG'', ''CTC'', ''ILO'', ''CEB'']"

definition SPANS :: "(8 word \<times> 8 word) list" where
  "SPANS = [(0, 1), (0, 2), (0, 3), (1, 2), (1, 3), (2, 3)]"

definition task_mask :: "task \<Rightarrow> 64 word" where
  "task_mask t = shl_u64 (shl_u64 1 (lt_to t - lt_from t) - 1) (lt_from t)"

text \<open>The client: a transport error or the status (and the id of the hold), the time it took, and the server afterwards.\<close>

type_synonym 's hold_client = "task \<Rightarrow> 's \<Rightarrow> (unit + nat \<times> uuid option) \<times> nat \<times> 's"
type_synonym 's claim_client = "uuid option \<Rightarrow> task \<Rightarrow> 's \<Rightarrow> (unit + nat) \<times> nat \<times> 's"

definition hold_first :: "'s hold_client \<Rightarrow> task \<Rightarrow> 's \<Rightarrow> (nat option \<times> uuid option \<times> bool) \<times> 's" where
  "hold_first post_hold task s =
    (if \<not> lt_use_hold task then ((None, None, False), s)
     else (case post_hold task s of
         (Inr (status, hold_id), us, s') \<Rightarrow> ((Some us, if status = 201 then hold_id else None, False), s')
       | (Inl _, us, s') \<Rightarrow> ((Some us, None, True), s')))"

definition run_task :: "'s hold_client \<Rightarrow> 's claim_client \<Rightarrow> task \<Rightarrow> 's \<Rightarrow> outcome \<times> 's" where
  "run_task post_hold post_claim task s =
    (let ((hold_us, hold_id, hold_error), s1) = hold_first post_hold task s;
         (answer, claim_us, s2) = post_claim hold_id task s1
     in (\<lparr>oc_seat = lt_seat task, oc_mask = task_mask task,
          oc_claimed = (case answer of Inr status \<Rightarrow> status = 201 | Inl _ \<Rightarrow> False),
          oc_error = (case answer of Inr status \<Rightarrow> status \<notin> {201, 409} | Inl _ \<Rightarrow> True),
          oc_hold_error = hold_error, oc_claim_us = claim_us, oc_hold_us = hold_us\<rparr>, s2))"

fun run_tasks :: "'s hold_client \<Rightarrow> 's claim_client \<Rightarrow> task list \<Rightarrow> 's \<Rightarrow> outcome list \<times> 's" where
  "run_tasks post_hold post_claim [] s = ([], s)"
| "run_tasks post_hold post_claim (t # ts) s =
    (let (x, s1) = run_task post_hold post_claim t s; (xs, s2) = run_tasks post_hold post_claim ts s1 in (x # xs, s2))"

section \<open>Preparing a run\<close>

text \<open>\<open>ORDER BY t.departs_at DESC LIMIT 1\<close>, on the outbound line.\<close>

definition target_trip :: "db \<Rightarrow> uuid option" where
  "target_trip d =
    (case sort_key (\<lambda>t. - tr_departs_at t) [t. t \<leftarrow> trips d, r \<leftarrow> routes d, ro_id r = tr_route t \<and> ro_code r = ''BTG-CEB''] of
       [] \<Rightarrow> None | t # _ \<Rightarrow> Some (tr_id t))"

definition trip_seats :: "uuid \<Rightarrow> db \<Rightarrow> string list" where
  "trip_seats trip d = map cu_code (sort_key cu_code
     [cu. cu \<leftarrow> capacity_units d, t \<leftarrow> trips d, tr_resource t = cu_resource cu \<and> tr_id t = trip \<and> cu_kind cu = ''seat''])"

definition reset_seats :: "uuid \<Rightarrow> db \<Rightarrow> db" where
  "reset_seats trip d = d\<lparr>seat_occupancy := update_where (\<lambda>r. so_trip r = trip) (\<lambda>r. r\<lparr>so_mask := 0\<rparr>) (seat_occupancy d)\<rparr>"

definition attempts :: "string \<Rightarrow> nat \<Rightarrow> nat \<Rightarrow> nat \<Rightarrow> nat" where
  "attempts mode contenders rate duration_secs = (if mode = ''paced'' then (rate * duration_secs) mod 2 ^ 64 else contenders)"

text \<open>\<open>draw i\<close> is what the generator answers for the \<open>i\<close>th task: an index below six and a coin. Without seats the index is a
  remainder by zero, a panic.\<close>

definition make_task :: "string list \<Rightarrow> (nat \<Rightarrow> nat \<times> bool) \<Rightarrow> nat \<Rightarrow> task" where
  "make_task seats draw i =
    (let (k, use_hold) = draw i; (f, t) = SPANS ! k
     in \<lparr>lt_seat = seats ! (i mod length seats), lt_origin = CODES ! unat f, lt_destination = CODES ! unat t,
         lt_from = f, lt_to = t, lt_use_hold = use_hold\<rparr>)"

definition make_plan :: "string list \<Rightarrow> nat \<Rightarrow> (nat \<Rightarrow> nat \<times> bool) \<Rightarrow> task list option" where
  "make_plan seats n draw = (if seats = [] \<and> 0 < n then None else Some (map (make_task seats draw) [0..<n]))"

definition provision_key :: "security_libs \<Rightarrow> uuid \<Rightarrow> string \<Rightarrow> api_key_row list \<Rightarrow> api_key_row list option" where
  "provision_key libs new_id key rows =
    (let h = sl_sha256 libs key
     in if list_ex (\<lambda>r. ky_hash r = h) rows then Some (update_where (\<lambda>r. ky_hash r = h) (\<lambda>r. r\<lparr>ky_active := True\<rparr>) rows)
        else insert_unique ky_id \<lparr>ky_id = new_id, ky_hash = h, ky_label = ''loadgen'', ky_role = ''integration'', ky_active = True\<rparr> rows)"

section \<open>The check\<close>

type_synonym winners = "string \<rightharpoonup> 64 word"

definition union_of :: "winners \<Rightarrow> string \<Rightarrow> 64 word" where
  "union_of w seat = (case w seat of None \<Rightarrow> 0 | Some m \<Rightarrow> m)"

definition tally :: "outcome \<Rightarrow> winners \<times> nat \<Rightarrow> winners \<times> nat" where
  "tally x = (\<lambda>(w, violations).
    (w(oc_seat x \<mapsto> union_of w (oc_seat x) OR oc_mask x),
     if union_of w (oc_seat x) AND oc_mask x \<noteq> 0 then Suc violations else violations))"

definition count_winners :: "outcome list \<Rightarrow> winners \<times> nat" where
  "count_winners xs = fold tally (filter oc_claimed xs) (Map.empty, 0)"

definition seat_masks :: "uuid \<Rightarrow> db \<Rightarrow> (string \<times> 64 word) list" where
  "seat_masks trip d = [(cu_code cu, so_mask so). so \<leftarrow> seat_occupancy d, cu \<leftarrow> capacity_units d, cu_id cu = so_unit so \<and> so_trip so = trip]"

definition db_violations :: "winners \<Rightarrow> (string \<times> 64 word) list \<Rightarrow> nat" where
  "db_violations w rows = count_where (\<lambda>(code, m). m \<noteq> union_of w code) rows"

definition invariant_ok :: "outcome list \<Rightarrow> (string \<times> 64 word) list \<Rightarrow> bool" where
  "invariant_ok xs rows = (let (w, overlaps) = count_winners xs in overlaps = 0 \<and> db_violations w rows = 0)"

record report =
  rp_claimed :: nat
  rp_conflicts :: nat
  rp_errors :: nat
  rp_hold_errors :: nat
  rp_claim_latency :: "nat list"
  rp_hold_latency :: "nat list"

definition make_report :: "outcome list \<Rightarrow> report" where
  "make_report xs = \<lparr>rp_claimed = count_where oc_claimed xs, rp_conflicts = count_where (\<lambda>x. \<not> oc_claimed x \<and> \<not> oc_error x) xs,
     rp_errors = count_where oc_error xs, rp_hold_errors = count_where oc_hold_error xs,
     rp_claim_latency = map (percentile (sort (map oc_claim_us xs))) [50, 95, 99],
     rp_hold_latency = map (percentile (sort (List.map_filter oc_hold_us xs))) [50, 95, 99]\<rparr>"

datatype harness_error = NoTrips | PlanPanic | NoKey

text \<open>\<open>main\<close>: prepare, run, check. \<open>True\<close> is \<open>ExitCode::SUCCESS\<close>.\<close>

definition harness :: "(uuid \<Rightarrow> (db \<times> api_key_row list \<times> 's) hold_client) \<Rightarrow> (uuid \<Rightarrow> (db \<times> api_key_row list \<times> 's) claim_client) \<Rightarrow> security_libs \<Rightarrow> uuid \<Rightarrow> string \<Rightarrow>
    (nat \<Rightarrow> nat \<times> bool) \<Rightarrow> nat \<Rightarrow> db \<times> api_key_row list \<times> 's \<Rightarrow> harness_error + bool \<times> report \<times> db \<times> api_key_row list \<times> 's" where
  "harness post_hold post_claim libs new_id key draw n = (\<lambda>(d, keys, rest).
    and_then (ok_or NoTrips (target_trip d)) (\<lambda>trip.
    and_then (ok_or PlanPanic (make_plan (trip_seats trip d) n draw)) (\<lambda>plan.
    and_then (ok_or NoKey (provision_key libs new_id key keys)) (\<lambda>keys'.
      let (xs, d', rest') = run_tasks (post_hold trip) (post_claim trip) plan (reset_seats trip d, keys', rest)
      in Inr (invariant_ok xs (seat_masks trip d'), make_report xs, d', rest')))))"

section \<open>The lulan server\<close>

text \<open>What the harness talks to: the hold and claim endpoints, one request at a time. \<open>clock\<close> and \<open>elapsed\<close> give the time of the
  \<open>n\<close>th request and how long it took, \<open>lost n\<close> whether its answer never arrives.\<close>

record load_server =
  ls_redis :: "redis option"
  ls_served :: nat

record surroundings =
  en_env :: environment
  en_fraction :: "(nat \<times> nat) option"
  en_clock :: "nat \<Rightarrow> instant"
  en_elapsed :: "nat \<Rightarrow> nat"
  en_lost :: "nat \<Rightarrow> bool"
  en_group :: "nat \<Rightarrow> uuid"
  en_member :: "nat \<Rightarrow> nat \<Rightarrow> uuid"
  en_libs :: security_libs
  en_key :: string

definition hold_request_of :: "uuid \<Rightarrow> task \<Rightarrow> hold_request" where
  "hold_request_of trip t = \<lparr>hr_trip_id = Some trip, hr_items = Some [\<lparr>hi_unit_code = lt_seat t, hi_origin = lt_origin t,
     hi_destination = lt_destination t\<rparr>], hr_journeys = None, hr_ttl_seconds = None\<rparr>"

definition claim_request_of :: "uuid option \<Rightarrow> task \<Rightarrow> claim_request" where
  "claim_request_of hold_id t = \<lparr>cr_unit_code = lt_seat t, cr_origin = lt_origin t, cr_destination = lt_destination t,
     cr_quantity = None, cr_hold_id = hold_id\<rparr>"

definition server_hold :: "surroundings \<Rightarrow> uuid \<Rightarrow> (db \<times> api_key_row list \<times> load_server) hold_client" where
  "server_hold e trip t = (\<lambda>(d, keys, s).
    (let n = ls_served s;
         (store, answer) = create_hold (en_env e) (en_fraction e) (en_clock e n) (en_group e n) (en_member e n) d (hold_request_of trip t) (ls_redis s)
     in (if en_lost e n then Inl () else Inr (case answer of Inl x \<Rightarrow> (http_status x, None) | Inr h \<Rightarrow> (201, Some (ih_hold_id h))),
         en_elapsed e n, (d, keys, \<lparr>ls_redis = store, ls_served = Suc n\<rparr>))))"

definition served_claim :: "surroundings \<Rightarrow> nat \<Rightarrow> uuid \<Rightarrow> api_key_row list \<Rightarrow> claim_request \<Rightarrow> db \<Rightarrow> redis option \<Rightarrow> db \<times> redis option \<times> nat" where
  "served_claim e n trip keys req d store =
    (case require_integration (en_libs e) keys [(''x-api-key'', en_key e)] of
       Inl x \<Rightarrow> (d, store, http_status x)
     | Inr _ \<Rightarrow> (case create_claim (en_clock e n) trip req d store of
           (d', store', Inl x) \<Rightarrow> (d', store', http_status x)
         | (d', store', Inr _) \<Rightarrow> (d', store', 201)))"

definition server_claim :: "surroundings \<Rightarrow> uuid \<Rightarrow> (db \<times> api_key_row list \<times> load_server) claim_client" where
  "server_claim e trip hold_id t = (\<lambda>(d, keys, s).
    (let n = ls_served s; (d', store, status) = served_claim e n trip keys (claim_request_of hold_id t) d (ls_redis s)
     in (if en_lost e n then Inl () else Inr status, en_elapsed e n, (d', keys, \<lparr>ls_redis = store, ls_served = Suc n\<rparr>))))"

end
