(* ===== verification/Loadgen_Properties.thy ===== *)
theory Loadgen_Properties
  imports Loadgen Sample
begin

unbundle bit_operations_syntax

text \<open>
  What the load harness finds: its check says exactly what it means to, it passes on every run against the claim endpoint whose
  answers all arrive, and a lost answer makes it fail.
\<close>

section \<open>The check\<close>

definition wins :: "string \<Rightarrow> nat \<Rightarrow> outcome list \<Rightarrow> nat" where
  "wins seat i xs = length (filter (\<lambda>x. oc_claimed x \<and> oc_seat x = seat \<and> bit (oc_mask x) i) xs)"

lemma wins_simps [simp]:
  "wins seat i [] = 0"
  "wins seat i (x # xs) = (if oc_claimed x \<and> oc_seat x = seat \<and> bit (oc_mask x) i then 1 else 0) + wins seat i xs"
  by (simp_all add: wins_def)

lemma wins_positive: "0 < wins seat i xs \<longleftrightarrow> (\<exists>x\<in>set xs. oc_claimed x \<and> oc_seat x = seat \<and> bit (oc_mask x) i)"
  by (auto simp: wins_def filter_empty_conv)

lemma word_bits: "(a :: 64 word) = b \<longleftrightarrow> (\<forall>i. bit a i = bit b i)"
  by (auto intro: bit_word_eqI)

lemma and_zero_bits: "(a :: 64 word) AND b = 0 \<longleftrightarrow> (\<forall>i. \<not> (bit a i \<and> bit b i))"
  unfolding word_bits by (simp add: bit_and_iff)

lemma union_of_tally:
  "union_of (fst (tally x wn)) s = (if s = oc_seat x then union_of (fst wn) s OR oc_mask x else union_of (fst wn) s)"
  by (cases wn) (simp add: tally_def union_of_def)

lemma tally_count: "snd (tally x wn) = snd wn + (if union_of (fst wn) (oc_seat x) AND oc_mask x = 0 then 0 else 1)"
  by (cases wn) (simp add: tally_def)

lemma fold_tally_union:
  "bit (union_of (fst (fold tally (filter oc_claimed xs) wn)) s) i \<longleftrightarrow> bit (union_of (fst wn) s) i \<or> 0 < wins s i xs"
  by (induction xs arbitrary: wn) (auto simp: union_of_tally bit_or_iff)

lemma fold_tally_mono: "snd wn \<le> snd (fold tally xs wn)"
proof (induction xs arbitrary: wn)
  case (Cons x xs)
  show ?case using Cons.IH [of "tally x wn"] by (simp add: tally_count split: if_splits)
qed simp

lemma fold_tally_count:
  "snd (fold tally (filter oc_claimed xs) wn) = snd wn
    \<longleftrightarrow> (\<forall>s i. (if bit (union_of (fst wn) s) i then 1 else 0) + wins s i xs \<le> 1)"
proof (induction xs arbitrary: wn)
  case (Cons x xs)
  show ?case
  proof (cases "oc_claimed x")
    case True
    let ?wn = "tally x wn"
    have "snd (fold tally (filter oc_claimed (x # xs)) wn) = snd wn
        \<longleftrightarrow> snd ?wn = snd wn \<and> snd (fold tally (filter oc_claimed xs) ?wn) = snd ?wn"
      using True fold_tally_mono [of ?wn "filter oc_claimed xs"] by (auto simp: tally_count split: if_splits)
    also have "\<dots> \<longleftrightarrow> (\<forall>i. \<not> (bit (union_of (fst wn) (oc_seat x)) i \<and> bit (oc_mask x) i))
        \<and> (\<forall>s i. (if bit (union_of (fst ?wn) s) i then 1 else 0) + wins s i xs \<le> 1)"
      unfolding Cons.IH by (auto simp: tally_count and_zero_bits)
    also have "\<dots> \<longleftrightarrow> (\<forall>s i. (if bit (union_of (fst wn) s) i then 1 else 0) + wins s i (x # xs) \<le> 1)"
      using True by (auto simp: union_of_tally bit_or_iff split: if_splits)
    finally show ?thesis .
  qed (simp add: Cons.IH)
qed simp

lemma db_violations_zero:
  "db_violations w rows = 0 \<longleftrightarrow> (\<forall>(code, m)\<in>set rows. m = union_of w code)"
  by (auto simp: db_violations_def count_where_zero)

text \<open>C31: The harness' verdict means what it says: it is success exactly if no segment of a seat is in two winning claims and the
  occupied mask of every seat in the table is the union of its winning claims - whatever order the tasks finish in.\<close>
theorem verdict_is_the_invariant:
  "invariant_ok xs rows \<longleftrightarrow> (\<forall>seat i. length (filter (\<lambda>x. oc_claimed x \<and> oc_seat x = seat \<and> bit (oc_mask x) i) xs) \<le> 1)
    \<and> (\<forall>(seat, m)\<in>set rows. \<forall>i. bit m i \<longleftrightarrow> (\<exists>x\<in>set xs. oc_claimed x \<and> oc_seat x = seat \<and> bit (oc_mask x) i))"
proof -
  let ?fin = "fold tally (filter oc_claimed xs) (Map.empty, 0)"
  have start: "union_of (fst (Map.empty, 0::nat)) s = 0" for s by (simp add: union_of_def)
  have union: "m = union_of (fst ?fin) seat \<longleftrightarrow> (\<forall>i. bit m i \<longleftrightarrow> (\<exists>x\<in>set xs. oc_claimed x \<and> oc_seat x = seat \<and> bit (oc_mask x) i))" for m seat
    unfolding word_bits fold_tally_union start wins_positive by simp
  have overlaps: "snd ?fin = 0 \<longleftrightarrow> (\<forall>s i. wins s i xs \<le> 1)"
    using fold_tally_count [of xs "(Map.empty, 0)"] unfolding start by simp
  have "invariant_ok xs rows \<longleftrightarrow> snd ?fin = 0 \<and> db_violations (fst ?fin) rows = 0"
    by (simp add: invariant_ok_def count_winners_def case_prod_beta)
  then show ?thesis unfolding overlaps db_violations_zero union wins_def .
qed

section \<open>Percentiles\<close>

lemma percentile_index: "p \<le> 100 \<Longrightarrow> 0 < n \<Longrightarrow> ((n - 1) * p * 2 + 100) div 200 < (n :: nat)"
proof -
  assume p: "p \<le> 100" and n: "0 < n"
  have "(n - 1) * p * 2 + 100 \<le> (n - 1) * 100 * 2 + 100" using p by (simp add: mult_le_mono)
  also have "\<dots> < n * 200" using n by (cases n) simp_all
  finally show ?thesis by (simp add: less_mult_imp_div_less)
qed

text \<open>A percentile never reads past the list, is one of the measured values, and a higher one is no smaller.\<close>
theorem percentiles_are_measured:
  assumes "p \<le> q" "q \<le> 100" "xs \<noteq> []"
  shows "percentile (sort xs) p \<in> set xs \<and> percentile (sort xs) p \<le> percentile (sort xs) q"
proof -
  have idx: "((length xs - 1) * r * 2 + 100) div 200 < length (sort xs)" if "r \<le> 100" for r
    using percentile_index [OF that, of "length xs"] assms(3) by simp
  have ne: "sort xs \<noteq> []" using assms(3) by (metis length_0_conv length_sort)
  have "((length xs - 1) * p * 2 + 100) div 200 \<le> ((length xs - 1) * q * 2 + 100) div 200"
    using assms(1) by (intro div_le_mono) simp
  then have "percentile (sort xs) p \<le> percentile (sort xs) q"
    using sorted_nth_mono [OF sorted_sort, of _ _ xs] idx [OF assms(2)] ne by (simp add: percentile_def)
  moreover have "percentile (sort xs) p \<in> set xs"
    using nth_mem [OF idx, of p] assms(1,2) ne by (simp add: percentile_def)
  ultimately show ?thesis by simp
qed

lemma percentiles_are_measured_witness: "percentile (sort [30, 10, 20]) 50 \<le> percentile (sort [30, 10, 20]) 95"
  using percentiles_are_measured [of 50 95 "[30, 10, 20]"] by simp

section \<open>A run against the server\<close>

text \<open>What the harness takes for granted of the sailing: the keys of the schema, and stops in the order of \<open>CODES\<close>.\<close>

definition line_ok :: "uuid \<Rightarrow> db \<Rightarrow> bool" where
  "line_ok trip d \<longleftrightarrow> distinct (map tr_id (trips d)) \<and> distinct (map (\<lambda>u. (cu_resource u, cu_code u)) (capacity_units d))
     \<and> distinct (map cu_id (capacity_units d)) \<and> distinct (map seat_key (seat_occupancy d))
     \<and> list_all (\<lambda>t. tr_id t = trip \<longrightarrow>
         list_all (\<lambda>(i, j). i = trip \<longrightarrow> list_all (\<lambda>u. cu_id u = j \<longrightarrow> cu_resource u = tr_resource t) (capacity_units d)) (map seat_key (seat_occupancy d))
         \<and> list_all (\<lambda>(f, l). case resolve_span (tr_route t) (CODES ! unat f) (CODES ! unat l) d of
               Inl _ \<Rightarrow> True | Inr (s, _) \<Rightarrow> s = \<lparr>span_from = f, span_to = l\<rparr>) SPANS) (trips d)"

definition agrees :: "uuid \<Rightarrow> winners \<Rightarrow> db \<Rightarrow> bool" where
  "agrees trip w d \<longleftrightarrow> (\<forall>r\<in>set (seat_occupancy d). so_trip r = trip \<longrightarrow>
     (\<forall>u\<in>set (capacity_units d). cu_id u = so_unit r \<longrightarrow> so_mask r = union_of w (cu_code u)))"

lemma agrees_iff: "db_violations w (seat_masks trip d) = 0 \<longleftrightarrow> agrees trip w d"
  by (fastforce simp: db_violations_zero seat_masks_def agrees_def)

definition good_task :: "uuid \<Rightarrow> db \<Rightarrow> task \<Rightarrow> bool" where
  "good_task trip d t \<longleftrightarrow> lt_seat t \<in> set (trip_seats trip d) \<and> (lt_from t, lt_to t) \<in> set SPANS
     \<and> lt_origin t = CODES ! unat (lt_from t) \<and> lt_destination t = CODES ! unat (lt_to t)"

text \<open>A claim changes the rows of one seat or nothing.\<close>

definition seat_won :: "uuid \<Rightarrow> task \<Rightarrow> db \<Rightarrow> db \<Rightarrow> bool" where
  "seat_won trip t d d' \<longleftrightarrow> (\<exists>u\<in>set (capacity_units d). \<exists>tr\<in>set (trips d). tr_id tr = trip \<and> cu_resource u = tr_resource tr \<and> cu_code u = lt_seat t
     \<and> (\<exists>rows. d' = d\<lparr>seat_occupancy := rows\<rparr> \<and> guarded_update (\<lambda>r. seat_key r = (trip, cu_id u))
           (seat_claim_row \<lparr>span_from = lt_from t, span_to = lt_to t\<rparr>) (seat_occupancy d) = (rows, 1)))"

lemma distinct_keyD: "distinct (map f xs) \<Longrightarrow> x \<in> set xs \<Longrightarrow> y \<in> set xs \<Longrightarrow> f x = f y \<Longrightarrow> x = y"
  by (auto simp: distinct_map dest: inj_onD)

lemma resolve_target_Some:
  assumes "resolve_target now trip code a b d = Inr (Some target)"
  obtains u t off where "u \<in> set (capacity_units d)" "t \<in> set (trips d)" "tr_id t = trip" "cu_resource u = tr_resource t" "cu_code u = code"
    "ct_unit_id target = cu_id u" "ct_kind target = cu_kind u" "resolve_span (tr_route t) a b d = Inr (ct_span target, off)"
proof -
  let ?pairs = "[(cu, t). t \<leftarrow> trips d, cu \<leftarrow> capacity_units d, cu_resource cu = tr_resource t \<and> cu_code cu = code \<and> tr_id t = trip]"
  from assms obtain u t rest where pairs: "?pairs = (u, t) # rest" by (auto simp: resolve_target_def split: list.splits)
  then have "(u, t) \<in> set ?pairs" by simp
  then have "u \<in> set (capacity_units d)" "t \<in> set (trips d)" "tr_id t = trip" "cu_resource u = tr_resource t" "cu_code u = code" by auto
  moreover obtain off where "resolve_span (tr_route t) a b d = Inr (ct_span target, off)" "ct_unit_id target = cu_id u" "ct_kind target = cu_kind u"
    using assms unfolding resolve_target_def pairs by (auto simp: Let_def split: if_splits)
  ultimately show thesis using that by blast
qed

lemma good_task_target:
  assumes ok: "line_ok trip d" and good: "good_task trip d t"
    and found: "resolve_target now trip (lt_seat t) (lt_origin t) (lt_destination t) d = Inr (Some target)"
  obtains u tr where "u \<in> set (capacity_units d)" "tr \<in> set (trips d)" "tr_id tr = trip" "cu_resource u = tr_resource tr" "cu_code u = lt_seat t"
    "ct_unit_id target = cu_id u" "ct_kind target = ''seat''" "ct_span target = \<lparr>span_from = lt_from t, span_to = lt_to t\<rparr>"
proof -
  from found obtain u tr off where u: "u \<in> set (capacity_units d)" "tr \<in> set (trips d)" "tr_id tr = trip" "cu_resource u = tr_resource tr" "cu_code u = lt_seat t"
    "ct_unit_id target = cu_id u" "ct_kind target = cu_kind u" "resolve_span (tr_route tr) (lt_origin t) (lt_destination t) d = Inr (ct_span target, off)"
    by (rule resolve_target_Some)
  obtain u' tr' where u': "u' \<in> set (capacity_units d)" "tr' \<in> set (trips d)" "tr_id tr' = trip" "tr_resource tr' = cu_resource u'"
    "cu_code u' = lt_seat t" "cu_kind u' = ''seat''" using good unfolding good_task_def trip_seats_def by fastforce
  have "tr' = tr" using ok u u' by (auto simp: line_ok_def intro: distinct_keyD [of tr_id])
  then have "u' = u" using ok u u' by (auto simp: line_ok_def intro: distinct_keyD [of "\<lambda>u. (cu_resource u, cu_code u)"])
  moreover have "ct_span target = \<lparr>span_from = lt_from t, span_to = lt_to t\<rparr>"
    using ok good u(2,3,8) by (fastforce simp: line_ok_def good_task_def list_all_iff)
  ultimately show thesis using that u u'(6) by simp
qed

lemma claim_effect:
  assumes ok: "line_ok trip d" and good: "good_task trip d t" and run: "create_claim now trip (claim_request_of hold_id t) d store = (d', store', answer)"
  shows "case answer of Inl _ \<Rightarrow> d' = d | Inr _ \<Rightarrow> seat_won trip t d d'"
proof (cases "\<exists>target. resolve_target now trip (lt_seat t) (lt_origin t) (lt_destination t) d = Inr (Some target)")
  case True
  then obtain target where found: "resolve_target now trip (lt_seat t) (lt_origin t) (lt_destination t) d = Inr (Some target)" ..
  obtain u tr where u: "u \<in> set (capacity_units d)" "tr \<in> set (trips d)" "tr_id tr = trip" "cu_resource u = tr_resource tr" "cu_code u = lt_seat t"
    "ct_unit_id target = cu_id u" "ct_kind target = ''seat''" "ct_span target = \<lparr>span_from = lt_from t, span_to = lt_to t\<rparr>"
    by (rule good_task_target [OF ok good found])
  let ?span = "\<lparr>span_from = lt_from t, span_to = lt_to t\<rparr>"
  obtain rows n where g: "guarded_update (\<lambda>r. seat_key r = (trip, cu_id u)) (seat_claim_row ?span) (seat_occupancy d) = (rows, n)" by force
  have n: "n \<le> 1" using guarded_update_one [of seat_key "seat_occupancy d" "(trip, cu_id u)" "seat_claim_row ?span"] ok g by (simp add: line_ok_def)
  have same: "rows = seat_occupancy d" if "n = 0"
    using guarded_update_none [of "\<lambda>r. seat_key r = (trip, cu_id u)" "seat_claim_row ?span" "seat_occupancy d"] g that by simp
  have "n = 1 \<Longrightarrow> seat_won trip t d (d\<lparr>seat_occupancy := rows\<rparr>)" using u g unfolding seat_won_def by blast
  with run found u(6-8) g n same show ?thesis
    by (cases "n = 1") (auto simp: create_claim_def claim_request_of_def claim_target_exec_def claim_seat_def claim_seat_exec_def disambiguate_seat_def
        split: sum.splits if_splits)
next
  case False
  then show ?thesis using run
    by (cases "resolve_target now trip (lt_seat t) (lt_origin t) (lt_destination t) d") (auto simp: create_claim_def claim_request_of_def split: option.splits)
qed

lemma span_keeps: "resolve_span rid a b (d\<lparr>seat_occupancy := rows\<rparr>) = resolve_span rid a b d"
  by (simp add: resolve_span_def route_stops_of_def)

text \<open>What a won claim does to the tables.\<close>

lemma won_rows:
  assumes ok: "line_ok trip d" and won: "seat_won trip t d d'" and w: "agrees trip w d"
  shows "line_ok trip d'" "union_of w (lt_seat t) AND span_mask \<lparr>span_from = lt_from t, span_to = lt_to t\<rparr> = 0"
    "agrees trip (w(lt_seat t \<mapsto> union_of w (lt_seat t) OR span_mask \<lparr>span_from = lt_from t, span_to = lt_to t\<rparr>)) d'"
    "trip_seats trip d' = trip_seats trip d"
proof -
  let ?span = "\<lparr>span_from = lt_from t, span_to = lt_to t\<rparr>"
  from won obtain u tr rows where u: "u \<in> set (capacity_units d)" "tr \<in> set (trips d)" "tr_id tr = trip" "cu_resource u = tr_resource tr" "cu_code u = lt_seat t"
    and d': "d' = d\<lparr>seat_occupancy := rows\<rparr>"
    and g: "guarded_update (\<lambda>r. seat_key r = (trip, cu_id u)) (seat_claim_row ?span) (seat_occupancy d) = (rows, 1)"
    by (auto simp: seat_won_def)
  have keys: "map seat_key rows = map seat_key (seat_occupancy d)"
    using guarded_update_keys [of "seat_claim_row ?span" seat_key "\<lambda>r. seat_key r = (trip, cu_id u)" "seat_occupancy d"] seat_ledger.key_claim g by simp
  have "\<exists>r\<in>set (seat_occupancy d). seat_key r = (trip, cu_id u) \<and> seat_claim_row ?span r \<noteq> None"
    using g count_where_zero [of "\<lambda>r. seat_key r = (trip, cu_id u) \<and> seat_claim_row ?span r \<noteq> None" "seat_occupancy d"]
    by (auto simp: guarded_update_def)
  then obtain r where r: "r \<in> set (seat_occupancy d)" "so_trip r = trip" "so_unit r = cu_id u" "so_mask r AND span_mask ?span = 0"
    by (auto simp: seat_key_def seat_claim_row_def split: if_splits)
  have mask: "so_mask r = union_of w (lt_seat t)" using w r u by (simp add: agrees_def)
  with r(4) show "union_of w (lt_seat t) AND span_mask ?span = 0" by simp
  show "line_ok trip d'" using ok by (simp add: line_ok_def d' keys span_keeps)
  show "trip_seats trip d' = trip_seats trip d" by (simp add: d' trip_seats_def)
  let ?w = "w(lt_seat t \<mapsto> union_of w (lt_seat t) OR span_mask ?span)"
  show "agrees trip ?w d'" unfolding agrees_def
  proof (intro ballI impI)
    fix r' v assume r': "r' \<in> set (seat_occupancy d')" "so_trip r' = trip" and v: "v \<in> set (capacity_units d')" "cu_id v = so_unit r'"
    have "r' \<in> set (fst (guarded_update (\<lambda>r. seat_key r = (trip, cu_id u)) (seat_claim_row ?span) (seat_occupancy d)))" using r'(1) g by (simp add: d')
    from guarded_update_set [OF this] obtain q where q: "q \<in> set (seat_occupancy d)"
      "(seat_key q = (trip, cu_id u) \<and> seat_claim_row ?span q = Some r') \<or> ((seat_key q \<noteq> (trip, cu_id u) \<or> seat_claim_row ?span q = None) \<and> r' = q)" ..
    have "seat_key q = seat_key r'" using q(2) seat_ledger.key_claim by metis
    then have q_key: "so_trip q = trip" "so_unit q = so_unit r'" using r'(2) by (simp_all add: seat_key_def)
    have v': "v \<in> set (capacity_units d)" using v(1) by (simp add: d')
    have q_mask: "so_mask q = union_of w (cu_code v)" using w q(1) q_key v(2) v' by (simp add: agrees_def)
    show "so_mask r' = union_of ?w (cu_code v)"
    proof (cases "v = u")
      case True
      have "seat_key q = seat_key r" using r(2,3) q_key v(2) True by (simp add: seat_key_def)
      moreover have "distinct (map seat_key (seat_occupancy d))" using ok by (simp add: line_ok_def)
      ultimately have "q = r" using distinct_keyD [of seat_key "seat_occupancy d" q r] q(1) r(1) by blast
      then show ?thesis using q(2) r True u(5) mask by (simp add: seat_claim_row_def seat_key_def) (auto simp: union_of_def)
    next
      case False
      have "(trip, cu_id v) \<in> set (map seat_key (seat_occupancy d))" using q(1) q_key v(2) by (force simp: seat_key_def)
      then have "cu_resource v = tr_resource tr" using ok u(2,3) v' unfolding line_ok_def list_all_iff by fast
      then have "cu_code v \<noteq> lt_seat t" using False ok u(1,4,5) v' distinct_keyD [of "\<lambda>u. (cu_resource u, cu_code u)" "capacity_units d" v u] by (auto simp: line_ok_def)
      moreover have "cu_id v \<noteq> cu_id u" using False ok u(1) v' distinct_keyD [of cu_id "capacity_units d" v u] by (auto simp: line_ok_def)
      ultimately have "r' = q" "union_of ?w (cu_code v) = union_of w (cu_code v)" using q(2) q_key v(2) by (simp_all add: seat_key_def union_of_def)
      then show ?thesis using q_mask by simp
    qed
  qed
qed

text \<open>One task, and all of them.\<close>

lemma task_span_mask: "lt_to t - lt_from t \<noteq> 64 \<Longrightarrow> task_mask t = span_mask \<lparr>span_from = lt_from t, span_to = lt_to t\<rparr>"
  by (simp add: task_mask_def span_mask_def)

lemma spans_short: "(f, l) \<in> set SPANS \<Longrightarrow> l - f \<noteq> 64"
  by (auto simp: SPANS_def)

lemma http_status_not_created: "http_status x \<noteq> 201"
  by (cases x) (simp_all add: http_status_def)

lemma server_hold_state:
  "snd (snd (server_hold e trip t (d, keys, s))) = (d, keys, snd (snd (snd (snd (server_hold e trip t (d, keys, s))))))"
  by (simp add: server_hold_def Let_def split: prod.splits)

lemma hold_first_state: "fst (snd (hold_first (server_hold e trip) t (d, keys, s))) = d \<and> fst (snd (snd (hold_first (server_hold e trip) t (d, keys, s)))) = keys"
  by (auto simp: hold_first_def server_hold_def Let_def split: prod.splits sum.splits)

lemma served_claim_effect:
  assumes ok: "line_ok trip d" and good: "good_task trip d t" and run: "served_claim e n trip keys (claim_request_of hold_id t) d store = (d', store', status)"
  shows "if status = 201 then seat_won trip t d d' else d' = d"
proof (cases "require_integration (en_libs e) keys [(''x-api-key'', en_key e)]")
  case (Inl x)
  with run show ?thesis using http_status_not_created [of x] by (auto simp: served_claim_def)
next
  case (Inr who)
  obtain d1 s1 answer where c: "create_claim (en_clock e n) trip (claim_request_of hold_id t) d store = (d1, s1, answer)" by (metis prod.collapse)
  with run Inr claim_effect [OF ok good c] show ?thesis
    using http_status_not_created by (cases answer) (auto simp: served_claim_def)
qed

lemma run_task_effect:
  assumes ok: "line_ok trip d" and good: "good_task trip d t" and here: "\<And>k. \<not> en_lost e k" and w: "agrees trip (fst wn) d"
    and run: "run_task (server_hold e trip) (server_claim e trip) t (d, keys, s) = (x, d', keys', s')"
  shows "let wn' = (if oc_claimed x then tally x wn else wn) in line_ok trip d' \<and> trip_seats trip d' = trip_seats trip d \<and> keys' = keys
    \<and> snd wn' = snd wn \<and> agrees trip (fst wn') d'"
proof -
  obtain us hold_id err d1 keys1 s1 where h: "hold_first (server_hold e trip) t (d, keys, s) = ((us, hold_id, err), d1, keys1, s1)"
    by (metis prod.collapse)
  have d1: "d1 = d" "keys1 = keys" using hold_first_state [of e trip t d keys s] h by simp_all
  obtain d2 store status where c: "served_claim e (ls_served s1) trip keys (claim_request_of hold_id t) d (ls_redis s1) = (d2, store, status)"
    by (metis prod.collapse)
  have x: "oc_claimed x = (status = 201)" "oc_seat x = lt_seat t" "oc_mask x = task_mask t" "d' = d2" "keys' = keys"
    using run here by (auto simp: run_task_def h d1 server_claim_def c Let_def)
  have mask: "oc_mask x = span_mask \<lparr>span_from = lt_from t, span_to = lt_to t\<rparr>"
    using task_span_mask spans_short good x(3) by (auto simp: good_task_def)
  note eff = served_claim_effect [OF ok good c]
  show ?thesis
  proof (cases "status = 201")
    case True
    then have "seat_won trip t d d'" using eff x(4) by simp
    from won_rows [OF ok this w] True x(1,2,5) mask show ?thesis
      by (cases wn) (simp add: Let_def tally_def)
  qed (use eff x ok w in \<open>simp add: Let_def\<close>)
qed

lemma run_tasks_effect:
  assumes "line_ok trip d" "list_all (good_task trip d) ts" "\<And>k. \<not> en_lost e k" "agrees trip (fst wn) d"
    and "run_tasks (server_hold e trip) (server_claim e trip) ts (d, keys, s) = (xs, d', keys', s')"
  shows "snd (fold tally (filter oc_claimed xs) wn) = snd wn \<and> agrees trip (fst (fold tally (filter oc_claimed xs) wn)) d'"
  using assms(1,2,4,5)
proof (induction ts arbitrary: d keys s xs wn)
  case (Cons t ts)
  obtain x d1 keys1 s1 where t: "run_task (server_hold e trip) (server_claim e trip) t (d, keys, s) = (x, d1, keys1, s1)" by (metis prod.collapse)
  obtain ys where ts: "run_tasks (server_hold e trip) (server_claim e trip) ts (d1, keys1, s1) = (ys, d', keys', s')" and xs: "xs = x # ys"
    using Cons.prems(4) t by (auto split: prod.splits)
  let ?wn = "if oc_claimed x then tally x wn else wn"
  have step: "line_ok trip d1" "trip_seats trip d1 = trip_seats trip d" "snd ?wn = snd wn" "agrees trip (fst ?wn) d1"
    using run_task_effect [OF Cons.prems(1) _ assms(3) Cons.prems(3) t] Cons.prems(2) by (simp_all add: Let_def)
  have "list_all (good_task trip d1) ts" using Cons.prems(2) step(2) by (auto simp: list_all_iff good_task_def)
  note rest = Cons.IH [OF step(1) this step(4) ts]
  have "fold tally (filter oc_claimed xs) wn = fold tally (filter oc_claimed ys) ?wn" by (simp add: xs)
  with rest show ?case unfolding step(3) by (simp only:)
qed simp

text \<open>Emptying the sailing, and the plan.\<close>

lemma reset_keys: "map seat_key (update_where (\<lambda>r. so_trip r = trip) (\<lambda>r. r\<lparr>so_mask := 0\<rparr>) rows) = map seat_key rows"
  by (simp add: map_update_where seat_key_def)

lemma reset_ok:
  assumes "line_ok trip d"
  shows "line_ok trip (reset_seats trip d)" "trip_seats trip (reset_seats trip d) = trip_seats trip d" "agrees trip Map.empty (reset_seats trip d)"
proof -
  show "line_ok trip (reset_seats trip d)" using assms by (simp add: line_ok_def reset_seats_def reset_keys span_keeps)
  show "trip_seats trip (reset_seats trip d) = trip_seats trip d" by (simp add: trip_seats_def reset_seats_def)
  have "so_mask r = 0" if "r \<in> set (seat_occupancy (reset_seats trip d))" "so_trip r = trip" for r
  proof -
    have "r \<in> (\<lambda>q. if so_trip q = trip then q\<lparr>so_mask := 0\<rparr> else q) ` set (seat_occupancy d)"
      using that(1) by (simp add: reset_seats_def update_where_def)
    then obtain q where "r = (if so_trip q = trip then q\<lparr>so_mask := 0\<rparr> else q)" by (rule imageE)
    then show ?thesis using that(2) by (cases "so_trip q = trip") simp_all
  qed
  then show "agrees trip Map.empty (reset_seats trip d)" by (simp add: agrees_def union_of_def)
qed

lemma plan_good:
  assumes seats: "trip_seats trip d \<noteq> []" and draw: "fst (draw i) < 6"
  shows "good_task trip d (make_task (trip_seats trip d) draw i)"
proof -
  obtain k h where k: "draw i = (k, h)" by force
  obtain f l where fl: "SPANS ! k = (f, l)" by force
  have "SPANS ! k \<in> set SPANS" by (rule nth_mem) (use draw k in \<open>simp add: SPANS_def\<close>)
  moreover have "trip_seats trip d ! (i mod length (trip_seats trip d)) \<in> set (trip_seats trip d)"
    by (rule nth_mem) (use seats in simp)
  ultimately show ?thesis by (simp add: good_task_def make_task_def k fl)
qed


lemma won_row:
  assumes "seat_won trip t d d'"
  obtains u r where "u \<in> set (capacity_units d')" "r \<in> set (seat_occupancy d')" "so_trip r = trip" "cu_id u = so_unit r" "cu_code u = lt_seat t"
proof -
  let ?span = "\<lparr>span_from = lt_from t, span_to = lt_to t\<rparr>"
  from assms obtain u rows where u: "u \<in> set (capacity_units d)" "cu_code u = lt_seat t" and d': "d' = d\<lparr>seat_occupancy := rows\<rparr>"
    and g: "guarded_update (\<lambda>r. seat_key r = (trip, cu_id u)) (seat_claim_row ?span) (seat_occupancy d) = (rows, 1)"
    by (auto simp: seat_won_def)
  have keys: "map seat_key rows = map seat_key (seat_occupancy d)"
    using guarded_update_keys [of "seat_claim_row ?span" seat_key "\<lambda>r. seat_key r = (trip, cu_id u)" "seat_occupancy d"] seat_ledger.key_claim g by simp
  have "\<exists>r\<in>set (seat_occupancy d). seat_key r = (trip, cu_id u)"
    using g count_where_zero [of "\<lambda>r. seat_key r = (trip, cu_id u) \<and> seat_claim_row ?span r \<noteq> None" "seat_occupancy d"] by (auto simp: guarded_update_def)
  then have "(trip, cu_id u) \<in> seat_key ` set rows" using keys by (metis image_eqI image_set)
  with that u d' show thesis by (auto simp: seat_key_def)
qed

lemma spans_masks: "(f, l) \<in> set SPANS \<Longrightarrow> span_mask \<lparr>span_from = f, span_to = l\<rparr> \<noteq> 0"
  by (auto simp: SPANS_def span_mask_def shl_u64_def)

text \<open>A lost answer is reported as a double sell: when the only claim of a run is committed but its answer does not come back, the
  harness counts it as not claimed and calls the seat it finds occupied a violation.\<close>
theorem lost_answer_fails_the_run:
  assumes trip: "target_trip d = Some trip" and line: "line_ok trip d" and seats: "trip_seats trip d \<noteq> []"
    and draw: "fst (draw 0) < 6" "\<not> snd (draw 0)" and key: "provision_key libs new_id key keys = Some keys'"
    and granted: "served_claim e (ls_served s) trip keys' (claim_request_of None (make_task (trip_seats trip d) draw 0)) (reset_seats trip d) (ls_redis s) = (d', store, 201)"
    and lost: "en_lost e (ls_served s)"
  shows "\<exists>rp rest. harness (server_hold e) (server_claim e) libs new_id key draw 1 (d, keys, s) = Inr (False, rp, rest)"
proof -
  let ?t = "make_task (trip_seats trip d) draw 0"
  obtain x s' where run: "run_tasks (server_hold e trip) (server_claim e trip) [?t] (reset_seats trip d, keys', s) = ([x], d', keys', s')" and x: "\<not> oc_claimed x"
    using granted lost draw(2) by (auto simp: run_task_def hold_first_def server_claim_def make_task_def Let_def split: prod.splits)
  note reset = reset_ok [OF line]
  have good: "good_task trip (reset_seats trip d) ?t" using plan_good [of trip "reset_seats trip d" draw 0] seats draw by (simp add: reset(2))
  from served_claim_effect [OF reset(1) good granted] have won: "seat_won trip ?t (reset_seats trip d) d'" by simp
  let ?span = "\<lparr>span_from = lt_from ?t, span_to = lt_to ?t\<rparr>"
  let ?w = "[lt_seat ?t \<mapsto> span_mask ?span]"
  have "agrees trip ?w d'" using won_rows(3) [OF reset(1) won reset(3)] by (simp add: union_of_def)
  moreover obtain u r where "u \<in> set (capacity_units d')" "r \<in> set (seat_occupancy d')" "so_trip r = trip" "cu_id u = so_unit r" "cu_code u = lt_seat ?t"
    using won by (rule won_row)
  ultimately have "u \<in> set (capacity_units d')" "r \<in> set (seat_occupancy d')" "so_trip r = trip" "cu_id u = so_unit r" "so_mask r = span_mask ?span"
    by (simp_all add: agrees_def union_of_def)
  moreover have "span_mask ?span \<noteq> 0" using good spans_masks by (simp add: good_task_def)
  ultimately have "\<not> agrees trip Map.empty d'" by (fastforce simp: agrees_def union_of_def)
  then have "\<not> invariant_ok [x] (seat_masks trip d')" using x by (simp add: invariant_ok_def count_winners_def agrees_iff)
  then show ?thesis using trip seats key run by (simp add: harness_def make_plan_def)
qed

section \<open>Witnesses\<close>

text \<open>The line with one seat, half of it sold before the run.\<close>

definition line_db :: db where
  "line_db = empty_db\<lparr>
     locations := map (\<lambda>(i, code). \<lparr>lo_id = Uuid i, lo_code = code, lo_name = code, lo_timezone = ''UTC''\<rparr>) (zip [1, 2, 3, 4] CODES),
     routes := [\<lparr>ro_id = Uuid 10, ro_code = ''BTG-CEB'', ro_name = ''Line''\<rparr>],
     route_stops := map (\<lambda>(i, n). \<lparr>rs_route = Uuid 10, rs_stop_index = n, rs_location = Uuid i, rs_arrive_offset = 0, rs_depart_offset = 0\<rparr>)
       (zip [1, 2, 3, 4] [0, 1, 2, 3]),
     resources := [\<lparr>re_id = Uuid 20, re_code = ''MV'', re_name = ''Ferry'', re_kind = ''ferry''\<rparr>],
     capacity_units := [\<lparr>cu_id = Uuid 30, cu_resource = Uuid 20, cu_kind = ''seat'', cu_code = ''1A'', cu_fare_class = Some ''economy'',
       cu_pool_capacity = None, cu_admission = False\<rparr>],
     trips := [\<lparr>tr_id = Uuid 40, tr_route = Uuid 10, tr_resource = Uuid 20, tr_service_date = 1, tr_departs_at = hours 24,
       tr_segment_count = 3, tr_operator = None, tr_service_number = None, tr_status = ''scheduled''\<rparr>],
     seat_occupancy := [\<lparr>so_trip = Uuid 40, so_unit = Uuid 30, so_mask = 5\<rparr>]\<rparr>"

definition line_surroundings :: "(nat \<Rightarrow> bool) \<Rightarrow> surroundings" where
  "line_surroundings lost = \<lparr>en_env = (\<lambda>_. None), en_fraction = None, en_clock = (\<lambda>_. 0), en_elapsed = (\<lambda>n. n), en_lost = lost,
     en_group = (\<lambda>n. Uuid (of_nat n)), en_member = (\<lambda>n k. Uuid (of_nat k)), en_libs = toy_security, en_key = ''llk_x''\<rparr>"

definition line_server :: load_server where "line_server = \<lparr>ls_redis = Some empty_redis, ls_served = 0\<rparr>"

lemma line_db_facts: "target_trip line_db = Some (Uuid 40)" "line_ok (Uuid 40) line_db" "trip_seats (Uuid 40) line_db = [''1A'']"
  "provision_key toy_security (Uuid 9) ''llk_x'' [] = Some [\<lparr>ky_id = Uuid 9, ky_hash = [5], ky_label = ''loadgen'', ky_role = ''integration'', ky_active = True\<rparr>]"
  by code_simp+

definition won :: "64 word \<Rightarrow> outcome" where
  "won m = \<lparr>oc_seat = ''1A'', oc_mask = m, oc_claimed = True, oc_error = False, oc_hold_error = False, oc_claim_us = 1, oc_hold_us = None\<rparr>"

lemma verdict_is_the_invariant_witness:
  "invariant_ok [won 1, won 6] [(''1A'', 7)] \<and> length (filter (\<lambda>x. oc_claimed x \<and> oc_seat x = ''1A'' \<and> bit (oc_mask x) 2) [won 1, won 6]) \<le> 1
    \<and> \<not> invariant_ok [won 1, won 3] [(''1A'', 3)]"
proof -
  have "invariant_ok [won 1, won 6] [(''1A'', 7)]" "\<not> invariant_ok [won 1, won 3] [(''1A'', 3)]" by code_simp+
  with verdict_is_the_invariant [of "[won 1, won 6]" "[(''1A'', 7)]"] show ?thesis by blast
qed


lemma lost_answer_fails_the_run_witness:
  "\<exists>rp rest. harness (server_hold (line_surroundings (\<lambda>_. True))) (server_claim (line_surroundings (\<lambda>_. True))) toy_security (Uuid 9) ''llk_x''
     (\<lambda>i. (0, False)) 1 (line_db, [], line_server) = Inr (False, rp, rest)"
proof -
  let ?claim = "served_claim (line_surroundings (\<lambda>_. True)) 0 (Uuid 40)
    [\<lparr>ky_id = Uuid 9, ky_hash = [5], ky_label = ''loadgen'', ky_role = ''integration'', ky_active = True\<rparr>]
    (claim_request_of None (make_task [''1A''] (\<lambda>i. (0, False)) 0)) (reset_seats (Uuid 40) line_db) (Some empty_redis)"
  have "snd (snd ?claim) = 201" by code_simp
  then obtain d' store where "?claim = (d', store, 201)" by (metis prod.collapse)
  then have "served_claim (line_surroundings (\<lambda>_. True)) (ls_served line_server) (Uuid 40)
    [\<lparr>ky_id = Uuid 9, ky_hash = [5], ky_label = ''loadgen'', ky_role = ''integration'', ky_active = True\<rparr>]
    (claim_request_of None (make_task (trip_seats (Uuid 40) line_db) (\<lambda>i. (0, False)) 0)) (reset_seats (Uuid 40) line_db) (ls_redis line_server)
    = (d', store, 201)" by (simp add: line_db_facts(3) line_server_def)
  from lost_answer_fails_the_run [OF line_db_facts(1,2) _ _ _ line_db_facts(4) this] show ?thesis
    by (simp add: line_db_facts(3) line_surroundings_def)
qed

end
