(* ===== verification/Router.thy ===== *)
theory Router
  imports Access Rate_Limit
begin

text \<open>
  The route table of \<open>crates/lulan-api/src/lib.rs\<close>: which handler a request reaches, and behind which credential. Matching a
  request against the table is axum's: a parameter whose documented behaviour is \<open>axum_serves\<close>. The guards are the extractors of the
  handlers' signatures; a handler that checks its caller itself is \<open>Checked\<close>.
\<close>

datatype verb = Get | Post | Delete | Head | OtherVerb

datatype segment_pattern = Lit string | Param

datatype endpoint =
    HealthLive | HealthReady | TripSearch | TripAvailability | HoldCreate | ClaimCreate | HoldRelease | QuoteCreate
  | OrderCreate | OrderGet | OrderPayment | OrderCancel | PaymentWebhook | TicketsIssue | TicketsList | TicketKeys | ScansSync | Revocations
  | OrderClaim | MyOrders | WebhookCreate | WebhookList | WebhookRemove | AncillaryList | AncillaryCreate | AncillaryRemove
  | KeyCreate | KeyRevoke | StaffEnroll | StaffList | StaffRevoke | FareRulesPublish | FareRulesList | FareRulesActivate
  | TicketKeyRotate | LocationCreate | RouteCreate | VesselCreate | TripsCreate | TripCancel | TripManifest | OrderSearch | OrderRefund
  | Metrics | OpenApi | Docs

definition routes_table :: "(segment_pattern list \<times> (verb \<times> endpoint) list) list" where
  "routes_table =
   [([Lit ''health'', Lit ''live''], [(Get, HealthLive)]),
    ([Lit ''health'', Lit ''ready''], [(Get, HealthReady)]),
    ([Lit ''v1'', Lit ''trips'', Lit ''search''], [(Get, TripSearch)]),
    ([Lit ''v1'', Lit ''trips'', Param, Lit ''availability''], [(Get, TripAvailability)]),
    ([Lit ''v1'', Lit ''holds''], [(Post, HoldCreate)]),
    ([Lit ''v1'', Lit ''trips'', Param, Lit ''claims''], [(Post, ClaimCreate)]),
    ([Lit ''v1'', Lit ''holds'', Param], [(Delete, HoldRelease)]),
    ([Lit ''v1'', Lit ''quotes''], [(Post, QuoteCreate)]),
    ([Lit ''v1'', Lit ''orders''], [(Post, OrderCreate)]),
    ([Lit ''v1'', Lit ''orders'', Param], [(Get, OrderGet)]),
    ([Lit ''v1'', Lit ''orders'', Param, Lit ''payment''], [(Post, OrderPayment)]),
    ([Lit ''v1'', Lit ''orders'', Param, Lit ''cancel''], [(Post, OrderCancel)]),
    ([Lit ''v1'', Lit ''payments'', Lit ''webhook''], [(Post, PaymentWebhook)]),
    ([Lit ''v1'', Lit ''orders'', Param, Lit ''tickets''], [(Post, TicketsIssue), (Get, TicketsList)]),
    ([Lit ''v1'', Lit ''ticket-keys''], [(Get, TicketKeys)]),
    ([Lit ''v1'', Lit ''scans''], [(Post, ScansSync)]),
    ([Lit ''v1'', Lit ''revocations''], [(Get, Revocations)]),
    ([Lit ''v1'', Lit ''orders'', Param, Lit ''claim''], [(Post, OrderClaim)]),
    ([Lit ''v1'', Lit ''customers'', Lit ''me'', Lit ''orders''], [(Get, MyOrders)]),
    ([Lit ''v1'', Lit ''webhooks''], [(Post, WebhookCreate), (Get, WebhookList)]),
    ([Lit ''v1'', Lit ''webhooks'', Param], [(Delete, WebhookRemove)]),
    ([Lit ''v1'', Lit ''ancillaries''], [(Get, AncillaryList), (Post, AncillaryCreate)]),
    ([Lit ''v1'', Lit ''ancillaries'', Param], [(Delete, AncillaryRemove)]),
    ([Lit ''v1'', Lit ''api-keys''], [(Post, KeyCreate)]),
    ([Lit ''v1'', Lit ''api-keys'', Param], [(Delete, KeyRevoke)]),
    ([Lit ''v1'', Lit ''admin'', Lit ''staff''], [(Post, StaffEnroll), (Get, StaffList)]),
    ([Lit ''v1'', Lit ''admin'', Lit ''staff'', Param], [(Delete, StaffRevoke)]),
    ([Lit ''v1'', Lit ''admin'', Lit ''fare-rules''], [(Post, FareRulesPublish), (Get, FareRulesList)]),
    ([Lit ''v1'', Lit ''admin'', Lit ''fare-rules'', Param, Lit ''activate''], [(Post, FareRulesActivate)]),
    ([Lit ''v1'', Lit ''admin'', Lit ''ticket-keys'', Lit ''rotate''], [(Post, TicketKeyRotate)]),
    ([Lit ''v1'', Lit ''admin'', Lit ''locations''], [(Post, LocationCreate)]),
    ([Lit ''v1'', Lit ''admin'', Lit ''routes''], [(Post, RouteCreate)]),
    ([Lit ''v1'', Lit ''admin'', Lit ''vessels''], [(Post, VesselCreate)]),
    ([Lit ''v1'', Lit ''admin'', Lit ''trips''], [(Post, TripsCreate)]),
    ([Lit ''v1'', Lit ''admin'', Lit ''trips'', Param, Lit ''cancel''], [(Post, TripCancel)]),
    ([Lit ''v1'', Lit ''admin'', Lit ''trips'', Param, Lit ''manifest''], [(Get, TripManifest)]),
    ([Lit ''v1'', Lit ''admin'', Lit ''orders''], [(Get, OrderSearch)]),
    ([Lit ''v1'', Lit ''admin'', Lit ''orders'', Param, Lit ''refund''], [(Post, OrderRefund)]),
    ([Lit ''metrics''], [(Get, Metrics)]),
    ([Lit ''openapi.json''], [(Get, OpenApi)]),
    ([Lit ''docs''], [(Get, Docs)])]"

section \<open>What axum documents of routing\<close>

type_synonym route_table = "(segment_pattern list \<times> (verb \<times> endpoint) list) list"
type_synonym serve = "route_table \<Rightarrow> verb \<Rightarrow> string \<Rightarrow> nat + endpoint \<times> string list"

fun match_segments :: "segment_pattern list \<Rightarrow> string list \<Rightarrow> string list option" where
  "match_segments [] [] = Some []"
| "match_segments (Lit l # ps) (x # xs) = (if l = x then match_segments ps xs else None)"
| "match_segments (Param # ps) (x # xs) = (if x = [] then None else map_option ((#) x) (match_segments ps xs))"
| "match_segments _ _ = None"

definition match_path :: "segment_pattern list \<Rightarrow> string \<Rightarrow> string list option" where
  "match_path pat path = (case path of [] \<Rightarrow> None | c # rest \<Rightarrow> if c = CHR ''/'' then match_segments pat (split_on (CHR ''/'') rest) else None)"

text \<open>\<open>HEAD\<close> falls back to the \<open>GET\<close> handler of a route that has none of its own.\<close>

definition pick_handler :: "verb \<Rightarrow> (verb \<times> endpoint) list \<Rightarrow> endpoint option" where
  "pick_handler v handlers = map_of handlers (if v = Head then Get else v)"

text \<open>The router is axum's: the parameter \<open>serve\<close>. It answers 404 where no template matches, and otherwise one whose template does:
  with the handler of the verb, or with 405.\<close>

definition axum_serves :: "serve \<Rightarrow> route_table \<Rightarrow> bool" where
  "axum_serves serve table \<longleftrightarrow> (\<forall>v path.
     (\<forall>(p, hs) \<in> set table. match_path p path = None) \<and> serve table v path = Inl 404
   \<or> (\<exists>(p, hs) \<in> set table. \<exists>params. match_path p path = Some params
        \<and> serve table v path = (case pick_handler v hs of None \<Rightarrow> Inl 405 | Some e \<Rightarrow> Inr (e, params))))"

section \<open>Guards\<close>

datatype guard = Public | Checked | CustomerOnly | IntegrationOnly | DeviceOnly | AdminOnly | OpsOnly | SupportOnly

fun guard_of :: "endpoint \<Rightarrow> guard" where
  "guard_of HealthLive = Public" | "guard_of HealthReady = Public" | "guard_of TripSearch = Public" | "guard_of TripAvailability = Public"
| "guard_of HoldCreate = Public" | "guard_of ClaimCreate = IntegrationOnly" | "guard_of HoldRelease = Public" | "guard_of QuoteCreate = Public"
| "guard_of OrderCreate = Public" | "guard_of OrderGet = Checked" | "guard_of OrderPayment = Checked" | "guard_of OrderCancel = Checked"
| "guard_of PaymentWebhook = Checked" | "guard_of TicketsIssue = Checked" | "guard_of TicketsList = Checked" | "guard_of TicketKeys = Public"
| "guard_of ScansSync = DeviceOnly" | "guard_of Revocations = DeviceOnly" | "guard_of OrderClaim = CustomerOnly" | "guard_of MyOrders = CustomerOnly"
| "guard_of WebhookCreate = AdminOnly" | "guard_of WebhookList = AdminOnly" | "guard_of WebhookRemove = AdminOnly"
| "guard_of AncillaryList = Public" | "guard_of AncillaryCreate = AdminOnly" | "guard_of AncillaryRemove = AdminOnly"
| "guard_of KeyCreate = AdminOnly" | "guard_of KeyRevoke = AdminOnly"
| "guard_of StaffEnroll = AdminOnly" | "guard_of StaffList = AdminOnly" | "guard_of StaffRevoke = AdminOnly"
| "guard_of FareRulesPublish = OpsOnly" | "guard_of FareRulesList = OpsOnly" | "guard_of FareRulesActivate = OpsOnly"
| "guard_of TicketKeyRotate = AdminOnly" | "guard_of LocationCreate = OpsOnly" | "guard_of RouteCreate = OpsOnly" | "guard_of VesselCreate = OpsOnly"
| "guard_of TripsCreate = OpsOnly" | "guard_of TripCancel = OpsOnly" | "guard_of TripManifest = SupportOnly" | "guard_of OrderSearch = SupportOnly"
| "guard_of OrderRefund = SupportOnly" | "guard_of Metrics = Public" | "guard_of OpenApi = Public" | "guard_of Docs = Public"

text \<open>Who a guard lets through; nobody is named where no credential is asked for.\<close>

definition check_guard :: "security_libs \<Rightarrow> identity_port \<Rightarrow> api_key_row list \<Rightarrow> staff_row list \<Rightarrow> headers \<Rightarrow> guard \<Rightarrow> api_error + actor option" where
  "check_guard libs identity keys staff headers g = (case g of
      Public \<Rightarrow> Inr None
    | Checked \<Rightarrow> Inr None
    | CustomerOnly \<Rightarrow> (case bearer_subject identity headers of None \<Rightarrow> Inl Unauthorized | Some _ \<Rightarrow> Inr None)
    | IntegrationOnly \<Rightarrow> and_then (integration_auth libs keys headers) (\<lambda>k. Inr (Some (KeyActor (ka_key_id k))))
    | DeviceOnly \<Rightarrow> and_then (device_auth libs keys headers) (\<lambda>k. Inr (Some (KeyActor (ka_key_id k))))
    | AdminOnly \<Rightarrow> and_then (admin_auth libs identity keys staff headers) (\<lambda>who. Inr (Some who))
    | OpsOnly \<Rightarrow> and_then (ops_staff identity headers staff) (\<lambda>m. Inr (Some (StaffActor (sm_staff_id m))))
    | SupportOnly \<Rightarrow> and_then (support_staff identity headers staff) (\<lambda>m. Inr (Some (StaffActor (sm_staff_id m)))))"

text \<open>One request: the limiter first, then the table, then the guard.\<close>

definition admit_request :: "serve \<Rightarrow> security_libs \<Rightarrow> identity_port \<Rightarrow> api_key_row list \<Rightarrow> staff_row list \<Rightarrow> api_error + unit \<Rightarrow> verb \<Rightarrow> string \<Rightarrow> headers \<Rightarrow>
    nat + endpoint \<times> string list \<times> actor option" where
  "admit_request serve libs identity keys staff limited v path headers =
    (case limited of Inl e \<Rightarrow> Inl (http_status e)
     | Inr _ \<Rightarrow> and_then (serve routes_table v path) (\<lambda>(e, params).
         (case check_guard libs identity keys staff headers (guard_of e) of
            Inl x \<Rightarrow> Inl (http_status x)
          | Inr who \<Rightarrow> Inr (e, params, who))))"

section \<open>No path has two routes\<close>

fun differ :: "segment_pattern \<Rightarrow> segment_pattern \<Rightarrow> bool" where
  "differ (Lit x) (Lit y) = (x \<noteq> y)"
| "differ _ _ = False"

definition apart :: "segment_pattern list \<Rightarrow> segment_pattern list \<Rightarrow> bool" where
  "apart p q \<longleftrightarrow> length p \<noteq> length q \<or> list_ex (\<lambda>(a, b). differ a b) (zip p q)"

lemma match_length: "match_segments p xs \<noteq> None \<Longrightarrow> length p = length xs"
  by (induction p xs rule: match_segments.induct) (auto split: if_splits)

lemma match_lit: "match_segments p xs \<noteq> None \<Longrightarrow> (Lit l, x) \<in> set (zip p xs) \<Longrightarrow> x = l"
  by (induction p xs rule: match_segments.induct) (auto split: if_splits)

lemma apart_disjoint:
  assumes "apart p q" "match_segments p xs \<noteq> None"
  shows "match_segments q xs = None"
proof (rule ccontr)
  assume q: "match_segments q xs \<noteq> None"
  have len: "length p = length xs" "length q = length xs" using match_length assms(2) q by blast+
  with assms(1) obtain a b where "(a, b) \<in> set (zip p q)" "differ a b" by (auto simp: apart_def list_ex_iff)
  then obtain x y where xy: "(Lit x, Lit y) \<in> set (zip p q)" "x \<noteq> y" by (cases "(a, b)" rule: differ.cases) auto
  then obtain i where i: "i < length xs" "p ! i = Lit x" "q ! i = Lit y" using len by (auto simp: set_zip)
  have "(Lit x, xs ! i) \<in> set (zip p xs)" "(Lit y, xs ! i) \<in> set (zip q xs)" using i len by (force simp: set_zip)+
  with match_lit [OF assms(2)] match_lit [OF q] xy(2) show False by blast
qed

lemma table_apart: "sorted_wrt (\<lambda>a b. apart (fst a) (fst b)) routes_table"
  by code_simp

lemma table_distinct: "distinct (map fst routes_table)"
  by code_simp

lemma apart_sym: "apart p q \<Longrightarrow> apart q p"
proof -
  have "differ a b \<Longrightarrow> differ b a" for a b by (cases "(a, b)" rule: differ.cases) auto
  moreover have "(a, b) \<in> set (zip p q) \<Longrightarrow> (b, a) \<in> set (zip q p)" for a b by (auto simp: set_zip)
  ultimately show "apart p q \<Longrightarrow> apart q p" by (fastforce simp: apart_def list_ex_iff)
qed

lemma one_route:
  assumes "(p, h) \<in> set routes_table" "(q, k) \<in> set routes_table" "match_segments p xs \<noteq> None" "match_segments q xs \<noteq> None"
  shows "(p, h) = (q, k)"
proof -
  obtain i j where i: "i < length routes_table" "routes_table ! i = (p, h)" and j: "j < length routes_table" "routes_table ! j = (q, k)"
    using assms(1,2) by (metis in_set_conv_nth)
  have "i = j"
  proof (rule ccontr)
    assume "i \<noteq> j"
    then have "apart p q" using sorted_wrt_nth_less [OF table_apart, of i j] sorted_wrt_nth_less [OF table_apart, of j i] i j apart_sym
      by (cases "i < j") auto
    from apart_disjoint [OF this assms(3)] assms(4) show False by simp
  qed
  with i j show ?thesis by simp
qed

section \<open>The operator's surface\<close>

text \<open>A guard that asks for staff or an \<open>operator_admin\<close> key.\<close>

definition operator_guard :: "guard \<Rightarrow> bool" where
  "operator_guard g \<longleftrightarrow> g \<in> {AdminOnly, OpsOnly, SupportOnly}"

lemma admin_routes: "list_all (\<lambda>(p, hs). take 2 p = [Lit ''v1'', Lit ''admin''] \<longrightarrow> list_all (\<lambda>(_, e). operator_guard (guard_of e)) hs) routes_table"
  by code_simp

lemma first_two_literal: "list_all (\<lambda>(p, hs). \<not> (1 < length p \<and> p ! 0 = Lit ''v1'' \<and> p ! 1 = Param) \<and> (0 < length p \<longrightarrow> p ! 0 \<noteq> Param)) routes_table"
  by code_simp

lemma match_nth: "match_segments p xs \<noteq> None \<Longrightarrow> i < length xs \<Longrightarrow> p ! i = Param \<or> p ! i = Lit (xs ! i)"
proof -
  assume m: "match_segments p xs \<noteq> None" and i: "i < length xs"
  then have "(p ! i, xs ! i) \<in> set (zip p xs)" using match_length [OF m] by (force simp: set_zip)
  with match_lit [OF m] show ?thesis by (cases "p ! i") auto
qed

lemma resolve_staff_row:
  assumes "resolve_staff identity headers staff = Inr (Some m)"
  obtains r where "r \<in> set staff" "sf_id r = sm_staff_id m" "sf_active r" "staff_role_parse (sf_role r) = Some (sm_role m)"
  using assms by (auto simp: resolve_staff_def split: option.splits dest!: find_Some_in)

lemma require_staff_row:
  assumes "require_staff identity headers staff allowed = Inr m"
  obtains r where "r \<in> set staff" "sf_id r = sm_staff_id m" "sf_active r" "staff_role_parse (sf_role r) = Some (sm_role m)"
    "sm_role m = Admin \<or> sm_role m \<in> set allowed"
proof -
  from assms have m: "resolve_staff identity headers staff = Inr (Some m)" "sm_role m = Admin \<or> sm_role m \<in> set allowed"
    by (auto simp: require_staff_def split: if_splits)
  from m(1) show thesis by (rule resolve_staff_row) (use that m(2) in blast)
qed

lemma admin_auth_row:
  assumes "admin_auth libs identity keys staff headers = Inr who"
  shows "case who of KeyActor i \<Rightarrow> \<exists>r\<in>set keys. ky_id r = i \<and> ky_active r \<and> ky_role r = ''operator_admin''
    | StaffActor i \<Rightarrow> \<exists>r\<in>set staff. sf_id r = i \<and> sf_active r \<and> sf_role r = ''admin''"
proof (cases "bearer_or_api_key headers")
  case (Some key)
  with assms obtain auth where a: "authenticate libs key keys = Inr (Some auth)" "ka_role auth = OperatorAdmin" "who = KeyActor (ka_key_id auth)"
    by (auto simp: admin_auth_def with_role_def known_key_def split: if_splits)
  then show ?thesis by (auto simp: authenticate_def api_role_parse_def split: option.splits if_splits dest!: find_Some_in)
next
  case None
  with assms obtain m where m: "resolve_staff identity headers staff = Inr (Some m)" "sm_role m = Admin" "who = StaffActor (sm_staff_id m)"
    by (auto simp: admin_auth_def split: if_splits option.splits)
  from m(1) show ?thesis by (rule resolve_staff_row) (use m(2,3) in \<open>auto simp: staff_role_parse_def split: if_splits\<close>)
qed

definition active_actor :: "api_key_row list \<Rightarrow> staff_row list \<Rightarrow> guard \<Rightarrow> actor \<Rightarrow> bool" where
  "active_actor keys staff g who = (case who of
      KeyActor i \<Rightarrow> g = AdminOnly \<and> list_ex (\<lambda>r. ky_id r = i \<and> ky_active r \<and> ky_role r = ''operator_admin'') keys
    | StaffActor i \<Rightarrow> list_ex (\<lambda>r. sf_id r = i \<and> sf_active r
        \<and> (sf_role r = ''admin'' \<or> g = OpsOnly \<and> sf_role r = ''ops'' \<or> g = SupportOnly \<and> sf_role r = ''support'')) staff)"

lemma credential_active:
  assumes "check_guard libs identity keys staff headers g = Inr who" "operator_guard g"
  shows "\<exists>actor. who = Some actor \<and> active_actor keys staff g actor"
proof -
  have staff: "\<exists>actor. who = Some actor \<and> active_actor keys staff g actor"
    if "who = Some (StaffActor (sm_staff_id m))" "require_staff identity headers staff allowed = Inr m"
      "allowed = [Ops] \<and> g = OpsOnly \<or> allowed = [Support] \<and> g = SupportOnly" for m allowed
    by (rule require_staff_row [OF that(2)])
      (use that(1,3) in \<open>auto simp: active_actor_def list_ex_iff staff_role_parse_def split: if_splits intro!: bexI\<close>)
  consider "g = AdminOnly" | "g = OpsOnly" | "g = SupportOnly" using assms(2) by (auto simp: operator_guard_def)
  then show ?thesis
  proof cases
    case 1
    then obtain a where "admin_auth libs identity keys staff headers = Inr a" "who = Some a" using assms(1) by (auto simp: check_guard_def)
    with admin_auth_row [OF this(1)] 1 show ?thesis by (auto simp: active_actor_def list_ex_iff split: actor.splits)
  next
    case 2
    then obtain m where m: "ops_staff identity headers staff = Inr m" "who = Some (StaffActor (sm_staff_id m))" using assms(1) by (auto simp: check_guard_def)
    show ?thesis by (rule staff [OF m(2) m(1) [unfolded ops_staff_def]]) (simp add: 2)
  next
    case 3
    then obtain m where m: "support_staff identity headers staff = Inr m" "who = Some (StaffActor (sm_staff_id m))" using assms(1) by (auto simp: check_guard_def)
    show ?thesis by (rule staff [OF m(2) m(1) [unfolded support_staff_def]]) (simp add: 3)
  qed
qed

lemma served_route:
  assumes "axum_serves serve table" "serve table v path = Inr (e, params)"
  obtains p hs where "(p, hs) \<in> set table" "match_path p path = Some params" "pick_handler v hs = Some e"
  using assms(1)[unfolded axum_serves_def, rule_format, of path v] assms(2) by (auto split: option.splits)

text \<open>A router that takes the first template that matches.\<close>

definition first_match :: serve where
  "first_match table v path =
    (case List.find (\<lambda>(p, _). match_path p path \<noteq> None) table of
       None \<Rightarrow> Inl 404
     | Some (p, hs) \<Rightarrow> (case pick_handler v hs of None \<Rightarrow> Inl 405 | Some e \<Rightarrow> Inr (e, the (match_path p path))))"

lemma first_match_serves: "axum_serves first_match table"
  unfolding axum_serves_def
proof (intro allI)
  fix v path
  show "(\<forall>(p, hs) \<in> set table. match_path p path = None) \<and> first_match table v path = Inl 404
   \<or> (\<exists>(p, hs) \<in> set table. \<exists>params. match_path p path = Some params
        \<and> first_match table v path = (case pick_handler v hs of None \<Rightarrow> Inl 405 | Some e \<Rightarrow> Inr (e, params)))"
  proof (cases "List.find (\<lambda>(p, _). match_path p path \<noteq> None) table")
    case None
    then have "first_match table v path = Inl 404" by (simp only: first_match_def option.case)
    moreover from None have "\<forall>(p, hs) \<in> set table. match_path p path = None" by (auto simp: find_None_iff)
    ultimately show ?thesis by blast
  next
    case (Some r)
    obtain q ks where q: "r = (q, ks)" by force
    from find_Some_in [OF Some] q obtain params where "(q, ks) \<in> set table" "match_path q path = Some params" by auto
    moreover from this Some q have "first_match table v path = (case pick_handler v ks of None \<Rightarrow> Inl 405 | Some e \<Rightarrow> Inr (e, params))"
      by (cases "pick_handler v ks") (simp_all add: first_match_def)
    ultimately show ?thesis by (intro disjI2 bexI [of _ "(q, ks)"]) simp_all
  qed
qed

lemma split_admin: "\<exists>xs. split_on (CHR ''/'') (''v1/admin/'' @ rest) = ''v1'' # ''admin'' # xs"
  by simp

text \<open>C22: Nothing under \<open>/v1/admin\<close> is reachable without the operator's credential: whatever the verb and the path, a request that a
  handler there accepts was made by an active \<open>operator_admin\<close> key or by active staff of a role the handler asks for.\<close>
theorem admin_routes_need_operator:
  assumes axum: "axum_serves serve routes_table"
    and admitted: "admit_request serve libs identity keys staff limited v path headers = Inr (e, params, who)"
    and path: "path = ''/v1/admin/'' @ rest"
  shows "operator_guard (guard_of e) \<and> (\<exists>actor. who = Some actor \<and> active_actor keys staff (guard_of e) actor)"
proof -
  from admitted obtain e' ps where d': "serve routes_table v path = Inr (e', ps)"
    and c: "(case check_guard libs identity keys staff headers (guard_of e') of Inl x \<Rightarrow> Inl (http_status x) | Inr w \<Rightarrow> Inr (e', ps, w)) = Inr (e, params, who)"
    by (cases limited) (auto simp: admit_request_def)
  from c d' have d: "serve routes_table v path = Inr (e, params)" and g: "check_guard libs identity keys staff headers (guard_of e) = Inr who"
    by (cases "check_guard libs identity keys staff headers (guard_of e')"; simp)+
  obtain p hs where r: "(p, hs) \<in> set routes_table" "match_path p path = Some params" "pick_handler v hs = Some e"
    by (rule served_route [OF axum d])
  obtain xs where "split_on (CHR ''/'') (''v1/admin/'' @ rest) = ''v1'' # ''admin'' # xs" using split_admin by blast
  then have m: "match_segments p (''v1'' # ''admin'' # xs) \<noteq> None" using r(2) path by (simp add: match_path_def)
  have len: "length p = Suc (Suc (length xs))" using match_length [OF m] by simp
  have "p ! 0 = Lit ''v1''" using match_nth [OF m, of 0] first_two_literal r(1) len by (fastforce simp: list_all_iff)
  moreover have "p ! 1 = Lit ''admin''" using match_nth [OF m, of 1] first_two_literal r(1) len calculation by (fastforce simp: list_all_iff)
  ultimately have "take 2 p = [Lit ''v1'', Lit ''admin'']" using len by (cases p; cases "tl p") auto
  then have "list_all (\<lambda>(_, e). operator_guard (guard_of e)) hs" using admin_routes r(1) by (auto simp: list_all_iff)
  moreover have "(if v = Head then Get else v, e) \<in> set hs" using r(3) by (simp add: pick_handler_def map_of_SomeD)
  ultimately have "operator_guard (guard_of e)" by (auto simp: list_all_iff)
  with credential_active [OF g] show ?thesis by simp
qed

lemma admin_routes_need_operator_witness:
  "\<exists>actor. admit_request first_match toy_security demo_identity (cr_keys demo_credentials) (cr_staff demo_credentials) (Inr ()) Post ''/v1/admin/orders/17/refund''
      [(''authorization'', ''Bearer ana'')] = Inr (OrderRefund, [''17''], Some actor)
    \<and> active_actor (cr_keys demo_credentials) (cr_staff demo_credentials) SupportOnly actor"
proof -
  have a: "admit_request first_match toy_security demo_identity (cr_keys demo_credentials) (cr_staff demo_credentials) (Inr ()) Post ''/v1/admin/orders/17/refund''
      [(''authorization'', ''Bearer ana'')] = Inr (OrderRefund, [''17''], Some (StaffActor (Uuid 3)))" by code_simp
  have "''/v1/admin/orders/17/refund'' = ''/v1/admin/'' @ ''orders/17/refund''" by simp
  from admin_routes_need_operator [OF first_match_serves a this] a show ?thesis by simp
qed

text \<open>Every handler is reached by exactly one verb and template, and no path by two templates.\<close>

lemma handlers_distinct: "distinct (map snd (concat (map snd routes_table)))"
  by code_simp

text \<open>The table is unambiguous: whatever path matches a template of it is served by that route and no other, so the order of the table
  does not matter, and a verb the route does not have is answered 405 rather than by another route.\<close>
theorem dispatch_is_unambiguous:
  assumes "axum_serves serve routes_table" "(p, hs) \<in> set routes_table" "match_path p path = Some params"
  shows "serve routes_table v path = (case pick_handler v hs of None \<Rightarrow> Inl 405 | Some e \<Rightarrow> Inr (e, params))"
proof -
  obtain q ks ps where q: "(q, ks) \<in> set routes_table" "match_path q path = Some ps"
      "serve routes_table v path = (case pick_handler v ks of None \<Rightarrow> Inl 405 | Some e \<Rightarrow> Inr (e, ps))"
    using assms(1)[unfolded axum_serves_def, rule_format, of path v] assms(2,3) by fastforce
  obtain c xs where path: "path = c # xs" "match_segments p (split_on (CHR ''/'') xs) \<noteq> None" "match_segments q (split_on (CHR ''/'') xs) \<noteq> None"
    using assms(3) q(2) by (auto simp: match_path_def split: list.splits if_splits)
  with one_route [OF q(1) assms(2)] have "(q, ks) = (p, hs)" by simp
  then have "ks = hs" "ps = params" using q(2) assms(3) by auto
  then show ?thesis using q(3) by (cases "pick_handler v hs") simp_all
qed

lemma dispatch_is_unambiguous_witness:
  "first_match routes_table Delete ''/v1/admin/staff/17'' = Inr (StaffRevoke, [''17'']) \<and> first_match routes_table Post ''/v1/admin/staff/17'' = Inl 405"
proof -
  have p: "([Lit ''v1'', Lit ''admin'', Lit ''staff'', Param], [(Delete, StaffRevoke)]) \<in> set routes_table" by (simp add: routes_table_def)
  have x: "match_path [Lit ''v1'', Lit ''admin'', Lit ''staff'', Param] ''/v1/admin/staff/17'' = Some [''17'']" by code_simp
  from dispatch_is_unambiguous [OF first_match_serves p x] show ?thesis by (simp add: pick_handler_def)
qed

end
