(* ===== verification/Back_Office.thy ===== *)
theory Back_Office
  imports Router Scheduling Fares Ticket_Keys Webhooks Payments Sample_Orders
begin

text \<open>
  The operator's API as a whole: the seventeen mutating handlers of \<open>admin.rs\<close>, \<open>auth.rs\<close>, \<open>webhooks_admin.rs\<close> and \<open>ancillaries.rs\<close>
  over one state, each behind its guard, and the audit log that \<open>auth::audit\<close> writes after the change. The serial id of a log entry is
  its position. Rendering a uuid is the parameter \<open>uuid_text\<close>; the answers' bodies are those of the handlers' own definitions.
\<close>

section \<open>State and calls\<close>

record audit_row =
  au_api_key :: "uuid option"
  au_staff :: "uuid option"
  au_action :: string
  au_detail :: json
  au_at :: instant

record office =
  of_db :: db
  of_fares :: "json fare_rules_row list"
  of_staff :: "staff_row list"
  of_keys :: "api_key_row list"
  of_hooks :: hooks
  of_ancillaries :: "ancillary_row list"
  of_ticket_keys :: "ticket_key_row list"
  of_audit :: "audit_row list"

record office_libs =
  ol_security :: security_libs
  ol_identity :: identity_port
  ol_issuer :: "string option"
  ol_parse_rules :: "json \<Rightarrow> string + fare_rule_set"
  ol_wire :: wire
  ol_aead :: aead
  ol_seal_env :: "string option"
  ol_refund :: "string \<Rightarrow> int \<Rightarrow> api_error option"
  ol_uuid_text :: "uuid \<Rightarrow> string"

text \<open>The requests, with the ids and random bytes drawn for them.\<close>

datatype office_call =
    CallRotateKey bytes bytes uuid
  | CallEnrollStaff uuid enroll_request
  | CallRevokeStaff uuid
  | CallPublishRules uuid json
  | CallActivateRules uuid
  | CallCreateLocation uuid string string string
  | CallCreateRoute uuid string string "route_stop_request list"
  | CallCreateVessel "nat \<Rightarrow> uuid" string string string "seat_spec list" "pool_spec list"
  | CallCreateTrips "nat \<Rightarrow> uuid" string string "string option" "string option" "instant list"
  | CallCancelTrip uuid
  | CallRefundOrder uuid
  | CallCreateKey uuid string string string
  | CallRevokeKey uuid
  | CallCreateWebhook uuid string string "string list"
  | CallRemoveWebhook uuid
  | CallCreateAncillary uuid ancillary_row
  | CallRemoveAncillary uuid

fun needed_guard :: "office_call \<Rightarrow> guard" where
  "needed_guard (CallPublishRules _ _) = OpsOnly"
| "needed_guard (CallActivateRules _) = OpsOnly"
| "needed_guard (CallCreateLocation _ _ _ _) = OpsOnly"
| "needed_guard (CallCreateRoute _ _ _ _) = OpsOnly"
| "needed_guard (CallCreateVessel _ _ _ _ _ _) = OpsOnly"
| "needed_guard (CallCreateTrips _ _ _ _ _ _) = OpsOnly"
| "needed_guard (CallCancelTrip _) = OpsOnly"
| "needed_guard (CallRefundOrder _) = SupportOnly"
| "needed_guard _ = AdminOnly"

fun action_of :: "office_call \<Rightarrow> string" where
  "action_of (CallRotateKey _ _ _) = ''ticket_key.rotated''"
| "action_of (CallEnrollStaff _ _) = ''staff.enrolled''"
| "action_of (CallRevokeStaff _) = ''staff.revoked''"
| "action_of (CallPublishRules _ _) = ''fare_rules.published''"
| "action_of (CallActivateRules _) = ''fare_rules.activated''"
| "action_of (CallCreateLocation _ _ _ _) = ''location.created''"
| "action_of (CallCreateRoute _ _ _ _) = ''route.created''"
| "action_of (CallCreateVessel _ _ _ _ _ _) = ''vessel.created''"
| "action_of (CallCreateTrips _ _ _ _ _ _) = ''trips.created''"
| "action_of (CallCancelTrip _) = ''trip.cancelled''"
| "action_of (CallRefundOrder _) = ''order.refunded''"
| "action_of (CallCreateKey _ _ _ _) = ''api_key.created''"
| "action_of (CallRevokeKey _) = ''api_key.revoked''"
| "action_of (CallCreateWebhook _ _ _ _) = ''webhook.created''"
| "action_of (CallRemoveWebhook _) = ''webhook.deactivated''"
| "action_of (CallCreateAncillary _ _) = ''ancillary.created''"
| "action_of (CallRemoveAncillary _) = ''ancillary.deactivated''"

section \<open>The handlers\<close>

definition id_json :: "office_libs \<Rightarrow> uuid \<Rightarrow> json" where
  "id_json libs i = JString (ol_uuid_text libs i)"

text \<open>\<open>rotate_ticket_key\<close>.\<close>

definition rotate_ticket_key :: "office_libs \<Rightarrow> instant \<Rightarrow> bytes \<Rightarrow> bytes \<Rightarrow> uuid \<Rightarrow> office \<Rightarrow> office \<times> (api_error + json)" where
  "rotate_ticket_key libs now seed nonce fresh s =
    (case rotate_key (ol_wire libs) (ol_aead libs) (ol_seal_env libs) now seed nonce fresh (of_ticket_keys s) of
       Inl _ \<Rightarrow> (s, Inl Internal)
     | Inr (rows, signer) \<Rightarrow> (s\<lparr>of_ticket_keys := rows\<rparr>, Inr (JObject [(''kid'', JString (sg_kid signer))])))"

definition stats_json :: "cascade_stats \<Rightarrow> json" where
  "stats_json st = JObject [(''cancelled'', JNumber (nat_text (cs_cancelled st))), (''refunded'', JNumber (nat_text (cs_refunded st))),
     (''failed'', JNumber (nat_text (cs_failed st))), (''remaining'', JNumber (nat_text (cs_remaining st)))]"

definition order_total_of :: "uuid \<Rightarrow> db \<Rightarrow> int" where
  "order_total_of i d = (case List.find (\<lambda>r. ord_id r = i) (orders d) of Some r \<Rightarrow> ord_total_minor r | None \<Rightarrow> 0)"

text \<open>A handler's change put back into the state, and the detail it logs.\<close>

definition keeping :: "('a \<Rightarrow> office \<Rightarrow> office) \<Rightarrow> office \<Rightarrow> 'a \<times> (api_error + 'r) \<Rightarrow> ('r \<Rightarrow> json) \<Rightarrow> office \<times> (api_error + json)" where
  "keeping put s r detail = (put (fst r) s, map_sum id detail (snd r))"

abbreviation put_db :: "db \<Rightarrow> office \<Rightarrow> office" where "put_db d \<equiv> of_db_update (\<lambda>_. d)"

fun perform :: "office_libs \<Rightarrow> instant \<Rightarrow> office_call \<Rightarrow> office \<Rightarrow> office \<times> (api_error + json)" where
  "perform libs now (CallRotateKey seed nonce fresh) s = rotate_ticket_key libs now seed nonce fresh s"
| "perform libs now (CallEnrollStaff i req) s = keeping (\<lambda>rows. of_staff_update (\<lambda>_. rows)) s (enroll_staff (ol_issuer libs) i req (of_staff s))
     (\<lambda>i. JObject [(''id'', id_json libs i), (''subject'', JString (trim (er_subject req))), (''role'', JString (er_role req))])"
| "perform libs now (CallRevokeStaff i) s = keeping (\<lambda>rows. of_staff_update (\<lambda>_. rows)) s (revoke_staff i (of_staff s)) (\<lambda>i. JObject [(''id'', id_json libs i)])"
| "perform libs now (CallPublishRules i rules) s = keeping (\<lambda>rows. of_fares_update (\<lambda>_. rows)) s
     (publish_fare_rules (ol_parse_rules libs) now i rules (of_fares s)) (\<lambda>i. JObject [(''id'', id_json libs i)])"
| "perform libs now (CallActivateRules i) s = keeping (\<lambda>rows. of_fares_update (\<lambda>_. rows)) s (activate_fare_rules i (of_fares s)) (\<lambda>i. JObject [(''id'', id_json libs i)])"
| "perform libs now (CallCreateLocation i code name tz) s = keeping put_db s (create_location i code name tz (of_db s))
     (\<lambda>i. JObject [(''id'', id_json libs i), (''code'', JString (trim code))])"
| "perform libs now (CallCreateRoute i code name stops) s = keeping put_db s (create_route i code name stops (of_db s))
     (\<lambda>i. JObject [(''id'', id_json libs i), (''code'', JString (trim code)), (''stops'', JNumber (nat_text (length stops)))])"
| "perform libs now (CallCreateVessel new code name kind seats pools) s = keeping put_db s (create_vessel new code name kind seats pools (of_db s))
     (\<lambda>i. JObject [(''id'', id_json libs i), (''code'', JString (trim code)), (''seats'', JNumber (nat_text (length seats))),
        (''pools'', JNumber (nat_text (length pools)))])"
| "perform libs now (CallCreateTrips new rcode vcode opcode number departures) s = keeping put_db s (create_trips new rcode vcode opcode number departures (of_db s))
     (\<lambda>ids. JObject [(''route'', JString (trim rcode)), (''count'', JNumber (nat_text (length ids)))])"
| "perform libs now (CallCancelTrip i) s = keeping put_db s (cancel_trip (\<lambda>intent total. ol_refund libs intent total = None) now i (of_db s))
     (\<lambda>st. JObject [(''trip_id'', id_json libs i), (''settled'', stats_json st)])"
| "perform libs now (CallRefundOrder i) s = keeping put_db s
     (case refund_order (ol_refund libs) now i (of_db s) of (d, r, _) \<Rightarrow> (d, r))
     (\<lambda>_. JObject [(''order_id'', id_json libs i), (''amount_minor'', JNumber (int_text (order_total_of i (of_db s))))])"
| "perform libs now (CallCreateKey i secret label role) s = keeping (\<lambda>rows. of_keys_update (\<lambda>_. rows)) s (create_key (ol_security libs) i secret label role (of_keys s))
     (\<lambda>_. JObject [(''id'', id_json libs i), (''label'', JString (trim label)), (''role'', JString role)])"
| "perform libs now (CallRevokeKey i) s = keeping (\<lambda>rows. of_keys_update (\<lambda>_. rows)) s (revoke_key i (of_keys s)) (\<lambda>i. JObject [(''id'', id_json libs i)])"
| "perform libs now (CallCreateWebhook i random url types) s = keeping (\<lambda>h. of_hooks_update (\<lambda>_. h)) s (create_webhook (Inr ()) now i random url types (of_hooks s))
     (\<lambda>_. JObject [(''id'', id_json libs i), (''url'', JString url), (''event_types'', JArray (map JString types))])"
| "perform libs now (CallRemoveWebhook i) s = keeping (\<lambda>h. of_hooks_update (\<lambda>_. h)) s (remove_webhook (Inr ()) i (of_hooks s)) (\<lambda>i. JObject [(''id'', id_json libs i)])"
| "perform libs now (CallCreateAncillary i req) s = keeping (\<lambda>rows. of_ancillaries_update (\<lambda>_. rows)) s (create_ancillary i req (of_ancillaries s))
     (\<lambda>row. JObject [(''id'', id_json libs i), (''code'', JString (an_code row)), (''price_minor'', JNumber (int_text (an_price_minor req)))])"
| "perform libs now (CallRemoveAncillary i) s = keeping (\<lambda>rows. of_ancillaries_update (\<lambda>_. rows)) s (remove_ancillary i (of_ancillaries s)) (\<lambda>i. JObject [(''id'', id_json libs i)])"

definition audit :: "instant \<Rightarrow> actor \<Rightarrow> string \<Rightarrow> json \<Rightarrow> office \<Rightarrow> office" where
  "audit now who action detail s = s\<lparr>of_audit := of_audit s @
     [\<lparr>au_api_key = (case who of KeyActor i \<Rightarrow> Some i | StaffActor _ \<Rightarrow> None), au_staff = (case who of StaffActor i \<Rightarrow> Some i | KeyActor _ \<Rightarrow> None),
       au_action = action, au_detail = detail, au_at = now\<rparr>]\<rparr>"

definition office_exec :: "office_libs \<Rightarrow> instant \<Rightarrow> headers \<Rightarrow> office_call \<Rightarrow> office \<Rightarrow> office \<times> (api_error + unit)" where
  "office_exec libs now headers call s =
    (case check_guard (ol_security libs) (ol_identity libs) (of_keys s) (of_staff s) headers (needed_guard call) of
       Inl e \<Rightarrow> (s, Inl e)
     | Inr None \<Rightarrow> (s, Inl Internal)
     | Inr (Some who) \<Rightarrow>
         (case perform libs now call s of
            (s', Inl e) \<Rightarrow> (s', Inl e)
          | (s', Inr detail) \<Rightarrow> (audit now who (action_of call) detail s', Inr ())))"

fun office_run :: "office_libs \<Rightarrow> (instant \<times> headers \<times> office_call) list \<Rightarrow> office \<Rightarrow> office \<times> (api_error + unit) list" where
  "office_run libs [] s = (s, [])"
| "office_run libs ((now, headers, call) # rest) s =
    (let (s1, r) = office_exec libs now headers call s; (s2, rs) = office_run libs rest s1 in (s2, r # rs))"

section \<open>A refused call changes nothing\<close>

text \<open>An operation that answers an error answers the tables it was given.\<close>

definition all_or_nothing :: "'a \<Rightarrow> 'a \<times> ('e + 'r) \<Rightarrow> bool" where
  "all_or_nothing x r \<longleftrightarrow> (\<forall>e. snd r = Inl e \<longrightarrow> fst r = x)"

lemma rolled_back_nothing: "all_or_nothing d (rolled_back d r)"
  by (cases r) (auto simp: all_or_nothing_def rolled_back_def)

lemma refund_nothing: "all_or_nothing d (Orders.refund now i d)"
  by (auto simp: all_or_nothing_def Orders.refund_def commit_def split: sum.splits)

lemma refund_not_applied: "Orders.refund now i d = (d', Inr r) \<Longrightarrow> (\<And>st. r \<noteq> Applied st) \<Longrightarrow> d' = d"
  by (auto simp: Orders.refund_def commit_def apply_event_locked_def split: sum.splits option.splits)

lemma refund_order_nothing: "all_or_nothing d (case refund_order call now i d of (d', r, _) \<Rightarrow> (d', r))"
proof -
  obtain d1 r where run: "Orders.refund now i d = (d1, r)" by force
  have "d1 = d" if "\<And>st. r \<noteq> Inr (Applied st)" using that refund_nothing [of d now i] refund_not_applied [of now i d d1] run
    by (cases r) (auto simp: all_or_nothing_def)
  then show ?thesis
    by (auto simp: all_or_nothing_def refund_order_def run Let_def split: option.splits sum.splits transition_outcome.splits)
qed

lemma credentials_nothing:
  "all_or_nothing rows (enroll_staff idp i req rows)" "all_or_nothing rows (revoke_staff i rows)"
  "all_or_nothing keys (create_key libs i secret label role keys)" "all_or_nothing keys (revoke_key i keys)"
  by (auto simp: all_or_nothing_def enroll_staff_def revoke_staff_def create_key_def revoke_key_def Let_def split: option.splits if_splits)

lemma catalog_nothing:
  "all_or_nothing rows (publish_fare_rules parse now i rules rows)" "all_or_nothing rows (activate_fare_rules i rows)"
  "all_or_nothing ancs (create_ancillary i req ancs)" "all_or_nothing ancs (remove_ancillary i ancs)"
  by (auto simp: all_or_nothing_def publish_fare_rules_def activate_fare_rules_def create_ancillary_def remove_ancillary_def Let_def
      split: option.splits sum.splits if_splits)

lemma hooks_nothing:
  "all_or_nothing h (create_webhook (Inr ()) now i random url types h)" "all_or_nothing h (remove_webhook (Inr ()) i h)"
  by (auto simp: all_or_nothing_def create_webhook_def remove_webhook_def Let_def split: option.splits if_splits)

lemma network_nothing:
  "all_or_nothing d (create_location i code name tz d)" "all_or_nothing d (create_route i code name stops d)"
  "all_or_nothing d (create_vessel new code name kind seats pools d)" "all_or_nothing d (create_trips new rcode vcode opcode number departures d)"
  "all_or_nothing d (cancel_trip refund_ok now i d)"
  unfolding create_location_def create_route_def create_vessel_def create_trips_def
  by (rule rolled_back_nothing)+ (auto simp: all_or_nothing_def cancel_trip_def Let_def split: prod.splits)

lemma keeping_nothing: "all_or_nothing x r \<Longrightarrow> put x s = s \<Longrightarrow> all_or_nothing s (keeping put s r detail)"
  by (cases "snd r") (auto simp: all_or_nothing_def keeping_def)

lemma perform_nothing: "all_or_nothing s (perform libs now call s)"
proof (cases call)
  case (CallRotateKey seed nonce fresh)
  then show ?thesis by (auto simp: all_or_nothing_def rotate_ticket_key_def split: sum.splits)
qed (simp only: perform.simps, rule keeping_nothing, rule credentials_nothing catalog_nothing hooks_nothing network_nothing refund_order_nothing, simp)+

lemma perform_log: "of_audit (fst (perform libs now call s)) = of_audit s"
  by (cases call) (auto simp: rotate_ticket_key_def keeping_def split: sum.splits)

lemma every_change_audited:
  "case office_exec libs now headers call s of
     (s', Inl e) \<Rightarrow> s' = s
   | (s', Inr _) \<Rightarrow> \<exists>who entry. of_audit s' = of_audit s @ [entry] \<and> au_action entry = action_of call \<and> au_at entry = now
       \<and> (au_api_key entry, au_staff entry) = (case who of KeyActor i \<Rightarrow> (Some i, None) | StaffActor i \<Rightarrow> (None, Some i))
       \<and> active_actor (of_keys s) (of_staff s) (needed_guard call) who"
proof (cases "check_guard (ol_security libs) (ol_identity libs) (of_keys s) (of_staff s) headers (needed_guard call)")
  case (Inl e)
  then show ?thesis by (simp add: office_exec_def)
next
  case (Inr found)
  have "operator_guard (needed_guard call)" by (cases call) (simp_all add: operator_guard_def)
  from credential_active [OF Inr this] obtain who where who: "found = Some who" "active_actor (of_keys s) (of_staff s) (needed_guard call) who" by blast
  show ?thesis
  proof (cases "snd (perform libs now call s)")
    case e: (Inl e)
    then have "fst (perform libs now call s) = s" using perform_nothing [of s libs now call] by (simp add: all_or_nothing_def)
    then show ?thesis using Inr who(1) e by (simp add: office_exec_def case_prod_beta)
  next
    case d: (Inr detail)
    then have "office_exec libs now headers call s = (audit now who (action_of call) detail (fst (perform libs now call s)), Inr ())"
      using Inr who(1) by (simp add: office_exec_def case_prod_beta)
    then show ?thesis using who(2) by (auto simp: audit_def perform_log split: actor.split)
  qed
qed


text \<open>The log is the history: after any sequence of calls by anyone, the entries added to it are exactly the actions of the calls that
  succeeded, in order, and if nothing was added no table has changed.\<close>
theorem audit_log_is_the_history:
  "case office_run libs calls s of (s', results) \<Rightarrow>
     map au_action (of_audit s') = map au_action (of_audit s)
       @ map (\<lambda>((_, _, call), _). action_of call) (filter (\<lambda>(_, r). r = Inr ()) (zip calls results))
     \<and> (of_audit s' = of_audit s \<longrightarrow> s' = s)"
proof (induction calls arbitrary: s)
  case (Cons c calls)
  obtain now headers call where c: "c = (now, headers, call)" by (metis prod.collapse)
  obtain s1 r where one: "office_exec libs now headers call s = (s1, r)" by force
  obtain s2 rs where rest: "office_run libs calls s1 = (s2, rs)" by force
  have IH: "map au_action (of_audit s2) = map au_action (of_audit s1) @ map (\<lambda>((_, _, call), _). action_of call) (filter (\<lambda>(_, r). r = Inr ()) (zip calls rs))"
    "of_audit s2 = of_audit s1 \<longrightarrow> s2 = s1" using Cons.IH [of s1] rest by simp_all
  have run: "office_run libs ((now, headers, call) # calls) s = (s2, r # rs)" by (simp add: one rest)
  show ?case
  proof (cases r)
    case (Inl e)
    then have "s1 = s" using every_change_audited [where libs = libs and now = now and headers = headers and call = call and s = s] one by simp
    then show ?thesis using IH by (simp add: c run Inl del: office_run.simps)
  next
    case (Inr u)
    then obtain entry where "of_audit s1 = of_audit s @ [entry]" "au_action entry = action_of call"
      using every_change_audited [where libs = libs and now = now and headers = headers and call = call and s = s] one by auto
    moreover have "length (of_audit s1) \<le> length (of_audit s2)" using arg_cong [OF IH(1), of length] by simp
    ultimately show ?thesis using IH Inr by (auto simp: c run simp del: office_run.simps)
  qed
qed simp

section \<open>Witness\<close>

definition demo_office :: office where
  "demo_office = \<lparr>of_db = sample_db, of_fares = [], of_staff = cr_staff demo_credentials, of_keys = cr_keys demo_credentials,
     of_hooks = \<lparr>hk_endpoints = [], hk_deliveries = []\<rparr>, of_ancillaries = [], of_ticket_keys = [], of_audit = []\<rparr>"

definition demo_office_libs :: office_libs where
  "demo_office_libs = \<lparr>ol_security = toy_security, ol_identity = demo_identity, ol_issuer = Some ''idp'', ol_parse_rules = (\<lambda>_. Inr demo_rules),
     ol_wire = toy_wire, ol_aead = toy_aead, ol_seal_env = None, ol_refund = (\<lambda>_ _. None), ol_uuid_text = (\<lambda>_. ''id'')\<rparr>"

definition demo_office_calls :: "(instant \<times> headers \<times> office_call) list" where
  "demo_office_calls =
    [(1, [(''authorization'', ''Bearer ana'')], CallCreateLocation (Uuid 50) ''D'' ''Delta'' ''UTC''),
     (2, [(''x-api-key'', ''llk_g'')], CallRevokeKey (Uuid 1)),
     (3, [(''x-api-key'', ''llk_boot'')], CallRevokeKey (Uuid 2))]"

lemma audit_log_is_the_history_witness:
  "map au_action (of_audit (fst (office_run demo_office_libs demo_office_calls demo_office))) = [''location.created'', ''api_key.revoked'']
    \<and> snd (office_run demo_office_libs demo_office_calls demo_office) = [Inr (), Inl Forbidden, Inr ()]"
proof -
  have r: "snd (office_run demo_office_libs demo_office_calls demo_office) = [Inr (), Inl Forbidden, Inr ()]" by code_simp
  then obtain s' where run: "office_run demo_office_libs demo_office_calls demo_office = (s', [Inr (), Inl Forbidden, Inr ()])" by (metis prod.collapse)
  have "map au_action (of_audit demo_office) = []" by (simp add: demo_office_def)
  with audit_log_is_the_history [where libs = demo_office_libs and calls = demo_office_calls and s = demo_office] r run show ?thesis
    by (simp add: demo_office_calls_def)
qed

end
