(* ===== verification/Provider_Presets.thy ===== *)
theory Provider_Presets
  imports Payments
begin

text \<open>
  The built-in description of Stripe, \<open>preset::STRIPE\<close> of \<open>crates/lulan-engine/src/payments/http.rs\<close>, as the configuration that serde
  reads from it, and what a provider made of it sends and accepts. \<open>fields\<close> is a \<open>BTreeMap\<close>: in the order of its keys.
\<close>

definition PRESET_NAMES :: "string list" where "PRESET_NAMES = [''stripe'']"

definition stripe_create_intent :: call where
  "stripe_create_intent =
    \<lparr>ca_path = ''/v1/payment_intents'',
     ca_fields = [(''amount'', ''{amount_minor}''), (''automatic_payment_methods[enabled]'', ''true''),
       (''currency'', ''{currency_lower}''), (''metadata[order_id]'', ''{order_id}'')],
     ca_intent_id_pointer = Some ''/id'', ca_client_secret_pointer = Some ''/client_secret'', ca_idempotency_header = Some ''Idempotency-Key''\<rparr>"

definition stripe_refund :: call where
  "stripe_refund =
    \<lparr>ca_path = ''/v1/refunds'', ca_fields = [(''amount'', ''{amount_minor}''), (''payment_intent'', ''{payment_intent_id}'')],
     ca_intent_id_pointer = Some ''/id'', ca_client_secret_pointer = None, ca_idempotency_header = Some ''Idempotency-Key''\<rparr>"

definition stripe_config :: provider_config where
  "stripe_config = \<lparr>pr_name = ''stripe'', pr_base_url = ''https://api.stripe.com'', pr_auth = BearerAuth ''LULAN_PAYMENT_SECRET'',
     pr_encoding = FormEncoding, pr_create_intent = stripe_create_intent, pr_refund = stripe_refund, pr_webhook = stripe_webhook\<rparr>"

definition preset_by_name :: "string \<Rightarrow> provider_config option" where
  "preset_by_name name = (if name = ''stripe'' then Some stripe_config else None)"

lemma presets_are_named: "preset_by_name name \<noteq> None \<longleftrightarrow> List.member PRESET_NAMES name"
  by (simp add: preset_by_name_def PRESET_NAMES_def)

section \<open>Templates without surprises\<close>

text \<open>Substituted text is not substituted again as long as it holds no brace.\<close>

definition braceless :: "string \<Rightarrow> bool" where
  "braceless s \<longleftrightarrow> \<not> List.member s (CHR ''{'')"

lemma str_replace_braceless: "braceless s \<Longrightarrow> str_replace (CHR ''{'' # p) rep s = s"
proof (induction s)
  case (Cons c s)
  then have "\<not> is_prefix (CHR ''{'' # p) (c # s)" "braceless s" by (auto simp: is_prefix_def braceless_def)
  with Cons.IH show ?case by (subst str_replace.simps) simp
qed (simp add: str_replace.simps)

lemma str_replace_miss: "\<not> is_prefix p s \<Longrightarrow> braceless s \<Longrightarrow> str_replace (CHR ''{'' # p) rep (CHR ''{'' # s) = CHR ''{'' # s"
  using str_replace_braceless [of s p rep] by (subst str_replace.simps) (simp add: is_prefix_def)

lemma str_replace_hit: "p \<noteq> [] \<Longrightarrow> str_replace p rep p = rep"
  by (subst str_replace.simps) (auto simp: is_prefix_def str_replace.simps [of _ _ "[]"] split: list.split)

lemma nat_text_braceless: "braceless (nat_text n)"
  using nat_text_plain [of n] by (auto simp: braceless_def list_all_iff plain_char_def)

lemma int_text_braceless: "braceless (int_text n)"
  using nat_text_braceless by (simp add: int_text_def braceless_def)

lemma lowercase_char: "c \<noteq> CHR ''{'' \<Longrightarrow> (let n = of_char c :: nat in if 65 \<le> n \<and> n \<le> 90 then char_of (n + 32) else c) \<noteq> CHR ''{''"
proof (cases "65 \<le> (of_char c :: nat) \<and> of_char c \<le> (90 :: nat)")
  case True
  have "char_of (of_char c + 32 :: nat) \<noteq> CHR ''{''"
  proof
    assume "char_of (of_char c + 32 :: nat) = CHR ''{''"
    from arg_cong [OF this, of "of_char :: char \<Rightarrow> nat"] True show False by simp
  qed
  with True show ?thesis by (simp only: Let_def if_True simp_thms)
qed (simp only: Let_def if_False simp_thms)

lemma notin_map: "(\<And>c. c \<noteq> x \<Longrightarrow> f c \<noteq> x) \<Longrightarrow> x \<notin> set s \<Longrightarrow> x \<notin> set (map f s)"
  unfolding set_map by (metis imageE)

lemma lowercase_braceless: "braceless s \<Longrightarrow> braceless (to_lowercase s)"
  unfolding braceless_def List.member_iff to_lowercase_def by (rule notin_map [OF lowercase_char])

lemma rendered:
  assumes "braceless (pl_uuid_text libs (va_order_id v))" "braceless (va_currency v)" "braceless (va_payment_intent_id v)"
  shows "render libs v ''{amount_minor}'' = int_text (va_amount_minor v)"
    and "render libs v ''{currency_lower}'' = to_lowercase (va_currency v)"
    and "render libs v ''{order_id}'' = pl_uuid_text libs (va_order_id v)"
    and "render libs v ''{payment_intent_id}'' = va_payment_intent_id v"
    and "render libs v ''true'' = ''true''"
proof -
  note safe = assms int_text_braceless [of "va_amount_minor v"] lowercase_braceless [OF assms(2)]
  note b = render_def str_replace_hit str_replace_miss str_replace_braceless is_prefix_def safe
  have lit: "braceless (c # cs) \<longleftrightarrow> c \<noteq> CHR ''{'' \<and> braceless cs" "braceless []" for c cs by (auto simp: braceless_def)
  show "render libs v ''{amount_minor}'' = int_text (va_amount_minor v)"
    by (simp add: b lit)
  show "render libs v ''{currency_lower}'' = to_lowercase (va_currency v)"
    by (simp add: b lit)
  show "render libs v ''{order_id}'' = pl_uuid_text libs (va_order_id v)"
    by (simp add: b lit)
  show "render libs v ''{payment_intent_id}'' = va_payment_intent_id v"
    by (simp add: b lit)
  show "render libs v ''true'' = ''true''"
    by (simp add: b lit)
qed

section \<open>What Stripe is asked for\<close>

definition stripe_request :: "string \<Rightarrow> string \<Rightarrow> string \<Rightarrow> (string \<times> string) list \<Rightarrow> http_request" where
  "stripe_request secret path key form = \<lparr>rq_url = ''https://api.stripe.com'' @ path,
     rq_headers = [(''authorization'', ''Bearer '' @ secret), (''Idempotency-Key'', key)], rq_body = FormBody form\<rparr>"

lemma stripe_provider:
  assumes "provider_new libs env stripe_config = Some p"
  obtains secret hook where "env ''LULAN_PAYMENT_SECRET'' = Some secret" "env ''LULAN_PAYMENT_WEBHOOK_SECRET'' = Some hook"
    "p = \<lparr>hp_config = stripe_config, hp_auth_header = Some (''authorization'', ''Bearer '' @ secret), hp_webhook_secret = Some hook\<rparr>"
  using assms by (auto simp: provider_new_def resolve_auth_def stripe_config_def stripe_webhook_def bind_eq_Some_conv)

lemma stripe_url: "trim_end_slashes ''https://api.stripe.com'' = ''https://api.stripe.com''"
  by code_simp

text \<open>C29: A server that runs the Stripe preset asks Stripe for exactly the money that is owed: whatever the order, a charge is one form post of
  the order's minor units, its currency and its id, a refund one of the intent's id and the minor units, with the configured secret and
  a key that is the same for every repetition - and nothing else is ever sent.\<close>
theorem stripe_is_asked_exactly:
  assumes "provider_new libs env stripe_config = Some p" "env ''LULAN_PAYMENT_SECRET'' = Some secret"
    and "\<And>u. braceless (pl_uuid_text libs u)" "braceless currency" "braceless intent"
  shows "create_intent libs send p order_id amount currency = create_intent libs
      (\<lambda>_. send (stripe_request secret ''/v1/payment_intents'' (pl_uuid_text libs order_id)
        [(''amount'', int_text amount), (''automatic_payment_methods[enabled]'', ''true''), (''currency'', to_lowercase currency),
         (''metadata[order_id]'', pl_uuid_text libs order_id)])) p order_id amount currency
    \<and> refund libs send p intent amount = refund libs
      (\<lambda>_. send (stripe_request secret ''/v1/refunds'' (''refund-'' @ intent @ ''-'' @ int_text amount)
        [(''amount'', int_text amount), (''payment_intent'', intent)])) p intent amount"
proof -
  obtain hook where p: "p = \<lparr>hp_config = stripe_config, hp_auth_header = Some (''authorization'', ''Bearer '' @ secret), hp_webhook_secret = Some hook\<rparr>"
    using assms(1,2) by (auto elim: stripe_provider)
  have req: "http_request_of libs p c v = stripe_request secret (ca_path c) (va_idempotency_key v) (form_body libs (ca_fields c) v)"
    if "ca_idempotency_header c = Some ''Idempotency-Key''" for c v
    using that by (simp add: http_request_of_def p stripe_request_def stripe_config_def stripe_url)
  have empty: "braceless []" by (simp add: braceless_def)
  show ?thesis
    by (simp add: create_intent_def refund_def post_def Let_def p [symmetric] req stripe_create_intent_def stripe_refund_def form_body_def rendered assms(3-5) empty
        arg_cong [OF p, of hp_config] stripe_config_def)
qed

text \<open>What Stripe sends back is understood: its capture of an intent settles that intent while its timestamp is fresh, and is refused later.\<close>
theorem stripe_captures_settle:
  assumes "provider_new libs env stripe_config = Some p" "env ''LULAN_PAYMENT_WEBHOOK_SECRET'' = Some hook"
    and "0 \<le> now" "now \<le> 2 ^ 62" "int t \<le> 2 ^ 62"
    and "pl_parse libs body = Some j" "pl_pointer libs j ''/type'' = Some (JString ''payment_intent.succeeded'')"
      "pl_pointer libs j ''/data/object/id'' = Some (JString i)"
  shows "verify_callback libs now p (Some (stripe_header libs hook t body)) body
    = (if \<bar>now - int t\<bar> \<le> 300 then Inr (Captured i) else Inl CallbackBadSignature)"
proof -
  obtain auth where p: "p = \<lparr>hp_config = stripe_config, hp_auth_header = auth, hp_webhook_secret = Some hook\<rparr>"
    using assms(1,2) by (auto elim: stripe_provider)
  have "wh_signature_header stripe_webhook \<noteq> None" "wh_event_type_pointer stripe_webhook = Some ''/type''" "wh_intent_id_pointer stripe_webhook = ''/data/object/id''"
    "wh_captured_events stripe_webhook = [''payment_intent.succeeded'']" by (simp_all add: stripe_webhook_def)
  then show ?thesis using assms(6-8)
    by (simp add: verify_callback_def check_signed_def p stripe_config_def stripe_header_verifies [OF assms(3-5)] interpret_callback_def json_as_str_def) auto
qed

section \<open>Witnesses\<close>

definition stripe_env :: "string \<Rightarrow> string option" where
  "stripe_env key = (if key = ''LULAN_PAYMENT_SECRET'' then Some ''sk'' else if key = ''LULAN_PAYMENT_WEBHOOK_SECRET'' then Some ''wh'' else None)"

definition stripe_demo :: http_provider where
  "stripe_demo = \<lparr>hp_config = stripe_config, hp_auth_header = Some (''authorization'', ''Bearer sk''), hp_webhook_secret = Some ''wh''\<rparr>"

lemma stripe_demo: "provider_new toy_libs stripe_env stripe_config = Some stripe_demo"
  by (simp add: provider_new_def resolve_auth_def stripe_config_def stripe_webhook_def stripe_env_def stripe_demo_def)

lemma stripe_is_asked_exactly_witness:
  "refund toy_libs (\<lambda>r. if r = stripe_request ''sk'' ''/v1/refunds'' ''refund-pi-50'' [(''amount'', ''50''), (''payment_intent'', ''pi'')] then Some (400, []) else None)
     stripe_demo ''pi'' 50 = Inl Rejected"
proof -
  have t: "int_text 50 = ''50''" by code_simp
  have s: "stripe_env ''LULAN_PAYMENT_SECRET'' = Some ''sk''" by (simp add: stripe_env_def)
  show ?thesis
    by (subst stripe_is_asked_exactly [where currency = "[]", OF stripe_demo s, THEN conjunct2]) (simp_all add: braceless_def toy_libs_def refund_def post_def Let_def t)
qed

end
