(* ===== verification/Identity_Provider.thy ===== *)
theory Identity_Provider
  imports Access
begin

text \<open>
  The operator's identity provider over the life of the process, \<open>crates/lulan-api/src/identity.rs\<close>: which one the environment selects,
  and the key set that a background task refreshes. What a fetch of the JWKS brings is an argument, \<open>None\<close> when it fails.
\<close>

record jwks_identity =
  ji_issuer :: string
  ji_audience :: "string option"
  ji_keys :: "jwk list"

datatype identity_provider = HsJwtIdentity string string | JwksIdentity jwks_identity

definition hs_from_env :: "(string \<Rightarrow> string option) \<Rightarrow> identity_provider option" where
  "hs_from_env env =
    Option.bind (env ''LULAN_IDP_ISSUER'') (\<lambda>issuer.
    Option.bind (env ''LULAN_IDP_HS256_SECRET'') (\<lambda>secret. Some (HsJwtIdentity issuer secret)))"

text \<open>\<open>None\<close> when it is not configured, \<open>Some None\<close> when it is configured but unusable.\<close>

definition jwks_from_env :: "(string \<Rightarrow> string option) \<Rightarrow> (string \<Rightarrow> jwk list option) \<Rightarrow> identity_provider option option" where
  "jwks_from_env env fetch =
    Option.bind (env ''LULAN_IDP_ISSUER'') (\<lambda>issuer.
    Option.bind (env ''LULAN_IDP_JWKS_URL'') (\<lambda>url.
      Some (map_option (\<lambda>keys. JwksIdentity \<lparr>ji_issuer = issuer, ji_audience = env ''LULAN_IDP_AUDIENCE'', ji_keys = keys\<rparr>) (connect (fetch url)))))"

definition provider_from_env :: "(string \<Rightarrow> string option) \<Rightarrow> (string \<Rightarrow> jwk list option) \<Rightarrow> identity_provider option" where
  "provider_from_env env fetch = (case jwks_from_env env fetch of
      Some (Some p) \<Rightarrow> Some p
    | Some None \<Rightarrow> None
    | None \<Rightarrow> hs_from_env env)"

definition identity_verify :: "jwt_libs \<Rightarrow> identity_provider \<Rightarrow> string \<Rightarrow> subject option" where
  "identity_verify libs p token = (case p of
      HsJwtIdentity issuer secret \<Rightarrow> hs_verify libs issuer secret token
    | JwksIdentity j \<Rightarrow> jwks_verify libs (ji_issuer j) (ji_audience j) (ji_keys j) token)"

text \<open>One turn of the refresher's loop, and the turns so far; only a JWKS provider has one.\<close>

definition refresh_turn :: "jwk list option \<Rightarrow> identity_provider \<Rightarrow> identity_provider" where
  "refresh_turn fetched p = (case p of
      HsJwtIdentity _ _ \<Rightarrow> p
    | JwksIdentity j \<Rightarrow> JwksIdentity (j\<lparr>ji_keys := refresh_jwks fetched (ji_keys j)\<rparr>))"

definition after_refreshes :: "jwk list option list \<Rightarrow> identity_provider \<Rightarrow> identity_provider" where
  "after_refreshes fetches p = fold refresh_turn fetches p"

section \<open>Which keys count\<close>

text \<open>The set that was published last: the latest answer that arrived and was not empty.\<close>

definition last_published :: "jwk list option list \<Rightarrow> jwk list" where
  "last_published fetches = (case filter (\<lambda>f. f \<notin> {None, Some []}) (rev fetches) of Some keys # _ \<Rightarrow> keys | _ \<Rightarrow> [])"

lemma last_published_snoc: "last_published (fetches @ [f]) = (if f \<in> {None, Some []} then last_published fetches else the f)"
  by (cases f) (auto simp: last_published_def)

lemma after_refreshes_jwks:
  assumes "keys \<noteq> []"
  shows "after_refreshes fetches (JwksIdentity (j\<lparr>ji_keys := keys\<rparr>)) = JwksIdentity (j\<lparr>ji_keys := last_published (Some keys # fetches)\<rparr>)"
proof (induction fetches rule: rev_induct)
  case Nil
  show ?case using assms by (simp add: after_refreshes_def last_published_def)
next
  case (snoc f fetches)
  have "after_refreshes (fetches @ [f]) (JwksIdentity (j\<lparr>ji_keys := keys\<rparr>)) = refresh_turn f (JwksIdentity (j\<lparr>ji_keys := last_published (Some keys # fetches)\<rparr>))"
    using snoc by (simp add: after_refreshes_def)
  then show ?case using last_published_snoc [of "Some keys # fetches" f]
    by (cases f) (auto simp: refresh_turn_def refresh_jwks_def)
qed

text \<open>An algorithm for a key: the one it names, or one of its own family.\<close>

definition key_speaks :: "jwt_libs \<Rightarrow> jwk \<Rightarrow> algorithm \<Rightarrow> bool" where
  "key_speaks libs k alg = (case jw_key_algorithm k of Some name \<Rightarrow> jl_parse_alg libs name = Some alg | None \<Rightarrow> alg_family_matches alg (jw_material k))"

lemma jwk_algorithm_speaks: "jwk_algorithm libs header_alg k = Some alg \<Longrightarrow> key_speaks libs k alg"
  by (auto simp: jwk_algorithm_def key_speaks_def split: option.splits if_splits)


text \<open>A configured JWKS that cannot be read leaves the server without sign-in: it never falls back to a shared secret.\<close>

lemma no_fallback: "env ''LULAN_IDP_ISSUER'' = Some issuer \<Longrightarrow> env ''LULAN_IDP_JWKS_URL'' = Some url \<Longrightarrow> provider_from_env env fetch \<noteq> Some (HsJwtIdentity i s)"
  by (auto simp: provider_from_env_def jwks_from_env_def split: option.splits)

section \<open>Witness\<close>

definition demo_key :: jwk where
  "demo_key = \<lparr>jw_kid = Some ''k1'', jw_key_algorithm = None, jw_material = RSA\<rparr>"

text \<open>A token here is the key id it names; whatever names a key decodes.\<close>

definition demo_jwt :: jwt_libs where
  "demo_jwt = \<lparr>jl_header = (\<lambda>t. Some (RS256, Some t)), jl_parse_alg = (\<lambda>_. None), jl_from_jwk = (\<lambda>_. True),
     jl_decode = (\<lambda>t _ v. Some \<lparr>jc_iss = jv_issuer v, jc_sub = t, jc_email = None\<rparr>)\<rparr>"

definition demo_idp_env :: "string \<Rightarrow> string option" where
  "demo_idp_env key = (if key = ''LULAN_IDP_ISSUER'' then Some ''idp'' else if key = ''LULAN_IDP_JWKS_URL'' then Some ''url'' else None)"


end
