(* ===== verification/Request_Metrics.thy ===== *)
theory Request_Metrics
  imports Router
begin

text \<open>
  What \<open>crates/lulan-api/src/metrics.rs\<close> keeps: one counter and one histogram for every combination of method, route and status it has seen.
  The template a path matches is axum's, the parameter \<open>matched\<close>; printing the histogram is the exporter's.
\<close>

record series =
  se_labels :: "string \<times> string \<times> nat"
  se_total :: "64 word"
  se_durations :: "nat list"

definition route_text :: "segment_pattern list \<Rightarrow> string" where
  "route_text p = concat (map (\<lambda>s. CHR ''/'' # (case s of Lit l \<Rightarrow> l | Param \<Rightarrow> ''{}'')) p)"

text \<open>The label of a template, the names of its parameters left out; two templates never differ in these alone.\<close>

lemma route_texts_distinct: "distinct (map (route_text \<circ> fst) routes_table)"
  by code_simp

text \<open>The handles of \<open>counter!\<close> and \<open>histogram!\<close> exist from the first use of a label set on.\<close>

definition bump :: "string \<times> string \<times> nat \<Rightarrow> nat \<Rightarrow> series list \<Rightarrow> series list" where
  "bump labels us rows =
    (if list_ex (\<lambda>r. se_labels r = labels) rows
     then update_where (\<lambda>r. se_labels r = labels) (\<lambda>r. r\<lparr>se_total := se_total r + 1, se_durations := se_durations r @ [us]\<rparr>) rows
     else rows @ [\<lparr>se_labels = labels, se_total = 1, se_durations = [us]\<rparr>])"

text \<open>A request as the middleware sees it: method, path, the status answered, the time it took.\<close>

type_synonym seen = "string \<times> string \<times> nat \<times> nat"

definition labels_of :: "(string \<Rightarrow> segment_pattern list option) \<Rightarrow> seen \<Rightarrow> string \<times> string \<times> nat" where
  "labels_of matched = (\<lambda>(verb, path, status, us).
     (verb, case matched path of Some p \<Rightarrow> route_text p | None \<Rightarrow> ''unmatched'', status))"

definition record_request :: "(string \<Rightarrow> segment_pattern list option) \<Rightarrow> seen \<Rightarrow> series list \<Rightarrow> series list" where
  "record_request matched seen rows = bump (labels_of matched seen) (snd (snd (snd seen))) rows"

definition record_all :: "(string \<Rightarrow> segment_pattern list option) \<Rightarrow> seen list \<Rightarrow> series list" where
  "record_all matched requests = fold (record_request matched) requests []"

section \<open>How many series there are\<close>

lemma bump_labels: "map se_labels (bump labels us rows) = (if labels \<in> set (map se_labels rows) then map se_labels rows else map se_labels rows @ [labels])"
  by (auto simp: bump_def list_ex_iff map_update_where)

lemma sum_update_one:
  assumes "distinct (map se_labels rows)" "l \<in> set (map se_labels rows)"
  shows "sum_list (map se_total (update_where (\<lambda>r. se_labels r = l) (\<lambda>r. r\<lparr>se_total := se_total r + 1, se_durations := f r\<rparr>) rows)) = sum_list (map se_total rows) + 1"
  using assms
proof (induction rows)
  case (Cons r rows)
  show ?case
  proof (cases "se_labels r = l")
    case True
    with Cons.prems(1) have fresh: "se_labels r' \<noteq> l" if "r' \<in> set rows" for r' using that by (metis distinct.simps(2) image_eqI list.simps(9) set_map)
    have "update_where (\<lambda>r. se_labels r = l) (\<lambda>r. r\<lparr>se_total := se_total r + 1, se_durations := f r\<rparr>) rows = rows"
      by (intro update_where_none) (rule fresh)
    with True show ?thesis by simp
  next
    case False
    with Cons show ?thesis by simp
  qed
qed simp

lemma bump_sum:
  assumes "distinct (map se_labels rows)"
  shows "sum_list (map se_total (bump l us rows)) = sum_list (map se_total rows) + 1"
proof (cases "list_ex (\<lambda>r. se_labels r = l) rows")
  case True
  then have "l \<in> set (map se_labels rows)" by (auto simp: list_ex_iff)
  from sum_update_one [OF assms this, of "\<lambda>r. se_durations r @ [us]"] True show ?thesis by (simp only: bump_def if_True)
qed (simp add: bump_def)

lemma card_insert_Suc: "finite A \<Longrightarrow> card (insert a A) \<le> Suc (card A)"
  by (simp add: card_insert_if)

lemma record_all_facts:
  "distinct (map se_labels (record_all matched requests)) \<and> set (map se_labels (record_all matched requests)) = labels_of matched ` set requests
    \<and> sum_list (map se_total (record_all matched requests)) = of_nat (length requests)"
proof (induction requests rule: rev_induct)
  case (snoc x requests)
  let ?rows = "record_all matched requests"
  have step: "record_all matched (requests @ [x]) = bump (labels_of matched x) (snd (snd (snd x))) ?rows" by (simp add: record_all_def record_request_def)
  have "sum_list (map se_total (bump (labels_of matched x) us ?rows)) = sum_list (map se_total ?rows) + 1" for us
    using snoc by (intro bump_sum) simp
  then show ?case using snoc by (simp only: step bump_labels) auto
qed (simp add: record_all_def)

lemma length_record_all: "length (record_all matched requests) = card (labels_of matched ` set requests)"
proof -
  have "length (record_all matched requests) = card (set (map se_labels (record_all matched requests)))"
    using record_all_facts [of matched requests] distinct_card [of "map se_labels (record_all matched requests)"] by simp
  then show ?thesis using record_all_facts [of matched requests] by simp
qed

text \<open>Paths do not make series: however many different paths are requested, there is at most one series for each route of the table and one
  for the rest, for each method and status that occurred; every request is counted in exactly one of them.\<close>
theorem series_are_bounded:
  assumes "\<And>path p. matched path = Some p \<Longrightarrow> p \<in> fst ` set routes_table"
  shows "length (record_all matched requests)
      \<le> card (fst ` set requests) * (Suc (length routes_table) * card ((fst \<circ> snd \<circ> snd) ` set requests))
    \<and> sum_list (map se_total (record_all matched requests)) = of_nat (length requests)"
proof -
  let ?M = "fst ` set requests" and ?R = "insert ''unmatched'' (route_text ` fst ` set routes_table)" and ?S = "(fst \<circ> snd \<circ> snd) ` set requests"
  have "labels_of matched ` set requests \<subseteq> ?M \<times> ?R \<times> ?S"
    using assms by (force simp: labels_of_def image_iff split: option.splits)
  then have "card (labels_of matched ` set requests) \<le> card (?M \<times> ?R \<times> ?S)" by (intro card_mono finite_cartesian_product finite_insert [THEN iffD2] finite_imageI finite_set)
  also have "\<dots> = card ?M * (card ?R * card ?S)" by (simp only: card_cartesian_product)
  also have "\<dots> \<le> card ?M * (Suc (length routes_table) * card ?S)"
  proof (intro mult_le_mono order_refl)
    have "card (route_text ` fst ` set routes_table) \<le> card (set routes_table)" by (meson card_image_le finite_imageI finite_set le_trans)
    also have "\<dots> \<le> length routes_table" by (rule card_length)
    finally have "Suc (card (route_text ` fst ` set routes_table)) \<le> Suc (length routes_table)" by (rule Suc_le_mono [THEN iffD2])
    then show "card ?R \<le> Suc (length routes_table)" by (intro order_trans [OF card_insert_Suc] finite_imageI finite_set)
  qed
  finally show ?thesis using record_all_facts [of matched requests] by (simp only: length_record_all)
qed

text \<open>Methods do: a method is any token the client sends, so a client that makes one up for every request adds one series for every
  request, whatever it is answered.\<close>
theorem methods_make_series:
  assumes "distinct methods"
  shows "length (record_all matched (map (\<lambda>verb. (verb, path, status, us)) methods)) = length methods"
proof -
  have "inj_on (labels_of matched) (set (map (\<lambda>verb. (verb, path, status, us)) methods))" by (auto simp: inj_on_def labels_of_def)
  then have "card (labels_of matched ` set (map (\<lambda>verb. (verb, path, status, us)) methods)) = card (set (map (\<lambda>verb. (verb, path, status, us)) methods))"
    by (rule card_image)
  also have "\<dots> = length methods" using assms by (simp add: distinct_card inj_on_def card_image)
  finally show ?thesis by (simp add: length_record_all)
qed

lemma series_are_bounded_witness:
  "length (record_all (\<lambda>_. None) [(''GET'', ''/a'', 404, 5), (''GET'', ''/b'', 404, 7)]) \<le> Suc (length routes_table)"
  using series_are_bounded [of "\<lambda>_. None" "[(''GET'', ''/a'', 404, 5), (''GET'', ''/b'', 404, 7)]"] by simp

end
