(* ===== verification/Spec2Isabelle.thy ===== *)
theory Spec2Isabelle
  imports Prelude Ledger Segment Pool Order_Lifecycle Schema Sample Events Network Inventory Availability Orders Booking Sample_Orders Ticket_Token Ticket_Keys Tickets Api_Error Scheduling Booking_System Order_Properties Create_Cancel Texts Pricing Fares Quotes Access Holds Reservations Idempotency Payments Checkout Checkout_Properties Order_Endpoints Webhooks Webhook_Properties Rate_Limit Gtfs Server Support Validate_Js Seed Seed_Properties Seed_Runs Seed_Bookings Loadgen Loadgen_Properties Router Back_Office Provider_Presets Identity_Provider Request_Metrics
begin

text \<open>
  A verification library of lulan, a transport booking engine in Rust: a model of the engine
  (\<open>crates/lulan-engine\<close>), its HTTP API (\<open>crates/lulan-api\<close>), the pricing engines (\<open>crates/lulan-pricing\<close>,
  \<open>crates/lulan-pricing-guest\<close>) and the offline ticket validator (\<open>crates/lulan-validate\<close>), and the theorems
  that make them correct.

  \<^bold>\<open>The program.\<close> Customers search trips, hold seats (Redis, advisory), get a signed quote, and place an
  order; placing it claims seats and pool places in PostgreSQL by guarded updates, one transaction for the
  order, its items, its events and the outbox. A payment provider's webhook captures the order, which issues
  Ed25519 tickets that gates verify offline; scans are journalled and uploaded later. A relay drains the outbox to
  webhooks; sweeps expire unpaid orders and settle cancelled trips. Operators run the network, fares and staff.

  \<^bold>\<open>State.\<close> The database is the record \<open>db\<close> of \<open>Schema\<close>, a table a list of rows (\<open>Prelude\<close>: \<open>guarded_update\<close>,
  \<open>update_where\<close>, \<open>insert_unique\<close>); a transaction is a function from \<open>db\<close> to \<open>db\<close> and a result, and an error
  answers the database it started from where the code rolls back. Results are sums: \<open>store_error\<close>
  (\<open>Schema\<close>), \<open>api_error\<close> (\<open>Api_Error\<close>), and so on; \<open>Panicked\<close> is a panic of the code. Integers that the code adds or
  multiplies unchecked are reduced by \<open>i32\<close> and \<open>i64\<close>, as in a release build; masks are 64-bit words. Time,
  fresh UUIDs and random bytes are arguments.

  \<^bold>\<open>Theories, from the bottom.\<close>
  \<^item> \<open>Prelude\<close>, \<open>Texts\<close>, \<open>Ledger\<close>: identifiers, machine integers, results, SQL tables, texts, and the
    contract of guarded inventory (\<open>occupancy_ledger\<close>, \<open>reversible_ledger\<close>).
  \<^item> \<open>Segment\<close>, \<open>Pool\<close>, \<open>Order_Lifecycle\<close>, \<open>Network\<close>: \<open>domain/\<close>, the pure core.
  \<^item> \<open>Schema\<close>, \<open>Events\<close>, \<open>Inventory\<close>, \<open>Availability\<close>, \<open>Orders\<close>: the migrations, \<open>events/mod.rs\<close>,
    \<open>inventory/store.rs\<close>, \<open>orders/mod.rs\<close>. \<open>Events\<close> states the log as the locale \<open>event_log\<close>; \<open>Inventory\<close>
    interprets the ledger on the seat and pool statements.
  \<^item> \<open>Booking\<close>, \<open>Booking_System\<close>, \<open>Create_Cancel\<close>, \<open>Order_Properties\<close>: the invariant \<open>booking_inv\<close>, the step
    relation \<open>sys_step\<close> of committed transactions with its reachable states, and what calls promise in sequence.
  \<^item> \<open>Ticket_Token\<close>, \<open>Ticket_Keys\<close>, \<open>Tickets\<close>: \<open>ticket/mod.rs\<close>, \<open>ticket/sealing.rs\<close> and the offline validator.
  \<^item> \<open>Pricing\<close>, \<open>Fares\<close>, \<open>Quotes\<close>: fare evaluation (native and WebAssembly), published rules, signed quotes.
  \<^item> \<open>Holds\<close>, \<open>Reservations\<close>, \<open>Idempotency\<close>: \<open>inventory/holds.rs\<close> with its Lua script, \<open>reservations.rs\<close>,
    \<open>idempotency.rs\<close> with interleaved requests.
  \<^item> \<open>Payments\<close>, \<open>Provider_Presets\<close>: \<open>payments/mod.rs\<close> and \<open>payments/http.rs\<close> with the Stripe preset; the port is the locale
    \<open>payment_port\<close>.
  \<^item> \<open>Access\<close>, \<open>Identity_Provider\<close>: \<open>identity.rs\<close> with the refreshed key set, \<open>auth.rs\<close>, \<open>staff.rs\<close> and the staff endpoints of \<open>admin.rs\<close>.
  \<^item> \<open>Checkout\<close>, \<open>Checkout_Properties\<close>, \<open>Order_Endpoints\<close>, \<open>Scheduling\<close>: the handlers of \<open>orders.rs\<close>,
    \<open>tickets.rs\<close>, \<open>trips.rs\<close> and \<open>admin.rs\<close>, composed of the parts above.
  \<^item> \<open>Webhooks\<close>, \<open>Webhook_Properties\<close>, \<open>Rate_Limit\<close>: \<open>webhooks/mod.rs\<close>, \<open>webhooks_admin.rs\<close>, \<open>rate_limit.rs\<close>.
  \<^item> \<open>Gtfs\<close>: the schedule importer \<open>gtfs.rs\<close>, from the parsed feed to dated trips.
  \<^item> \<open>Server\<close>, \<open>Support\<close>, \<open>Validate_Js\<close>: the decisions of \<open>main.rs\<close> with \<open>config.rs\<close>, \<open>cors.rs\<close> and \<open>health.rs\<close>; the order
    search of \<open>admin.rs\<close>; the JavaScript bindings \<open>crates/lulan-validate-wasm\<close>.
  \<^item> \<open>Router\<close>, \<open>Back_Office\<close>: the route table of \<open>lib.rs\<close> with the guard of every handler; the operator's mutating handlers
    over one state, with the audit log of \<open>auth.rs\<close>. \<open>Request_Metrics\<close>: the series \<open>metrics.rs\<close> keeps.
  \<^item> \<open>Seed\<close>, \<open>Seed_Properties\<close>, \<open>Seed_Runs\<close>, \<open>Seed_Bookings\<close>: the demo seeders \<open>seed.rs\<close>, racing seeders, and that they keep the
    booking invariant.
  \<^item> \<open>Loadgen\<close>, \<open>Loadgen_Properties\<close>: the harness \<open>crates/lulan-loadgen\<close>, its verdict, and a run of it against the modelled server.
  \<^item> \<open>Sample\<close>, \<open>Sample_Orders\<close>: the small network and order the witnesses run on.

  \<^bold>\<open>What is shown.\<close> No seat is sold twice on a segment and no pool below zero, in every reachable state;
  an order's status is the replay of its event stream; creating is all or nothing and cancelling undoes it; a
  retried request books once; holds refine a table of claims; availability is what a claim would get; a quote is
  honoured until it expires and is the price charged; native and WebAssembly prices agree; money moves only on a
  verified callback or an API key, and an order is open only to its owner, its token or a key; tickets verify
  exactly when signed and not revoked, and replayed journals change nothing; revoked keys stay revoked; sweeps clear
  what is due; the relay delivers in order; a webhook is posted at most eight times and the worker comes to rest;
  the rate limit holds in every sixty seconds; an import of a schedule keeps the bookings;
  nothing under \<open>/v1/admin\<close> is reachable without an active operator credential, and every change made there has one entry in
  the audit log; a token signs in only under a key of the set published last; Stripe is asked for exactly what is owed;
  seeders that race neither fail nor seed twice; the load harness succeeds on the modelled server,
  because no claim is granted twice.

  \<^bold>\<open>Bounds.\<close> All functions are total; loops are structural recursion over the rows or bytes they read, the two
  that are not (\<open>str_replace\<close>, \<open>splice\<close>) decrease the length of the text, so no fuel is used. Batch limits are
  the code's: 100 events per relay pass, 20 deliveries per webhook pass, the callers' limit for settlement.

  \<^bold>\<open>Parameters.\<close> Code that is not in the repository is an argument: serde, base64, HMAC, SHA-256, Ed25519, XChaCha20,
  wasmtime, the HTTP client, the JWT library, axum's matching of a path against the route table. What a theorem needs of them is a named hypothesis, and its witness runs
  on a concrete instance. PostgreSQL and Redis are modelled by the statements and scripts the code sends.

  \<^bold>\<open>Not modelled.\<close> I/O failures of the database (beyond constraint violations), so a statement that fails for the
  connection is not a branch; the HTTP fetch of the JWKS; the CSV reader; telemetry and the state handles, which decide nothing; the
  timers that call the modelled passes.
\<close>

end
